(* ===== verification/Prelude.thy ===== *)
theory Prelude
  imports Main "HOL-Library.Word" "HOL-Library.Multiset"
begin

unbundle bit_operations_syntax

text \<open>
  What every component of the development shares: the machine integers and byte strings of Go,
  the outcome of a Go call (a value, an error, or a run-time panic), slicing and indexing with
  their bounds checks, and the big-endian accessors of \<^verbatim>\<open>encoding/binary\<close>.

  A Go \<^verbatim>\<open>string\<close> is a sequence of bytes, which is what \<^typ>\<open>string\<close> is in HOL (a \<^typ>\<open>char\<close> has
  eight bits); a Go \<^verbatim>\<open>[]byte\<close> is a list of \<^typ>\<open>8 word\<close>. Lengths and offsets are \<^typ>\<open>nat\<close>: Go's
  \<^verbatim>\<open>int\<close> has 64 bits here and every length is below \<^verbatim>\<open>2^63\<close>.
\<close>

section \<open>Types\<close>

type_synonym u8 = "8 word"
type_synonym u16 = "16 word"
type_synonym u32 = "32 word"
type_synonym u64 = "64 word"
type_synonym bytes = "u8 list"

text \<open>The result of a call: a value, an error value, or a run-time panic.\<close>

datatype ('e, 'a) go = Ret 'a | Fail 'e | Panic

primrec go_bind :: "('e, 'a) go \<Rightarrow> ('a \<Rightarrow> ('e, 'b) go) \<Rightarrow> ('e, 'b) go" where
  "go_bind (Ret x) f = f x"
| "go_bind (Fail e) f = Fail e"
| "go_bind Panic f = Panic"

primrec map_err :: "('e \<Rightarrow> 'f) \<Rightarrow> ('e, 'a) go \<Rightarrow> ('f, 'a) go" where
  "map_err g (Ret x) = Ret x"
| "map_err g (Fail e) = Fail (g e)"
| "map_err g Panic = Panic"

named_theorems no_panic \<comment> \<open>facts that say a call does not panic\<close>
named_theorems cursor_intros \<comment> \<open>how a read moves the cursor of a decoder\<close>

lemma go_bind_assoc: "go_bind (go_bind m f) g = go_bind m (\<lambda>x. go_bind (f x) g)"
  by (cases m) simp_all

lemma go_bind_Ret_iff: "go_bind m f = Ret y \<longleftrightarrow> (\<exists>x. m = Ret x \<and> f x = Ret y)"
  by (cases m) simp_all

lemma go_bind_Panic_iff: "go_bind m f = Panic \<longleftrightarrow> m = Panic \<or> (\<exists>x. m = Ret x \<and> f x = Panic)"
  by (cases m) simp_all

lemma go_bind_no_panic [no_panic]:
  "m \<noteq> Panic \<Longrightarrow> (\<And>x. m = Ret x \<Longrightarrow> f x \<noteq> Panic) \<Longrightarrow> go_bind m f \<noteq> Panic"
  by (cases m) simp_all

lemma if_Ret_iff: "(if c then Fail e else m) = Ret y \<longleftrightarrow> \<not> c \<and> m = Ret y"
  by simp

lemma map_err_Ret_iff [simp]: "map_err g m = Ret x \<longleftrightarrow> m = Ret x"
  by (cases m) simp_all

lemma map_err_Panic_iff [simp]: "map_err g m = Panic \<longleftrightarrow> m = Panic"
  by (cases m) simp_all

section \<open>Slices\<close>

text \<open>
  \<^verbatim>\<open>xs[lo:hi]\<close> and \<^verbatim>\<open>xs[i]\<close>. Out of range is a panic. (Go lets a slice expression reach from the
  length up to the capacity; here that is a panic too, so a proof that no panic happens says more.)
\<close>

definition slice :: "'a list \<Rightarrow> nat \<Rightarrow> nat \<Rightarrow> ('e, 'a list) go" where
  "slice xs lo hi =
     (if lo \<le> hi \<and> hi \<le> length xs then Ret (take (hi - lo) (drop lo xs)) else Panic)"

definition index :: "'a list \<Rightarrow> nat \<Rightarrow> ('e, 'a) go" where
  "index xs i = (if i < length xs then Ret (xs ! i) else Panic)"

lemma slice_no_panic [no_panic]: "lo \<le> hi \<Longrightarrow> hi \<le> length xs \<Longrightarrow> slice xs lo hi \<noteq> Panic"
  by (simp add: slice_def)

lemma index_no_panic [no_panic]: "i < length xs \<Longrightarrow> index xs i \<noteq> Panic"
  by (simp add: index_def)

lemma slice_not_Fail [simp]: "slice xs lo hi \<noteq> Fail e"
  by (simp add: slice_def)

lemma slice_Ret_length: "slice xs lo hi = Ret ys \<Longrightarrow> length ys = hi - lo \<and> hi \<le> length xs"
  by (auto simp: slice_def split: if_splits)

text \<open>
  A decoder walks over its input with an offset. \<open>at xs off rest\<close> says that \<open>rest\<close> is what lies
  from \<open>off\<close> on; reading a field takes \<open>at xs off (x @ rest)\<close> to \<open>at xs (off + length x) rest\<close>.
\<close>

definition at :: "'a list \<Rightarrow> nat \<Rightarrow> 'a list \<Rightarrow> bool" where
  "at xs off rest \<longleftrightarrow> off \<le> length xs \<and> drop off xs = rest"

lemma at_start: "at xs 0 xs"
  by (simp add: at_def)

lemma at_length: "at xs off rest \<Longrightarrow> length xs = off + length rest"
  by (auto simp: at_def)

lemma at_append [cursor_intros]: "at xs off (ys @ zs) \<Longrightarrow> at xs (off + length ys) zs"
proof -
  assume a: "at xs off (ys @ zs)"
  then have "drop (length ys) (drop off xs) = zs" by (simp add: at_def)
  moreover have "off + length ys \<le> length xs" using at_length [OF a] by simp
  ultimately show ?thesis by (simp add: at_def add.commute)
qed

lemma at_Cons [cursor_intros]: "at xs off (y # zs) \<Longrightarrow> at xs (Suc off) zs"
  using at_append [of xs off "[y]" zs] by simp

lemma at_move: "at xs off (ys @ zs) \<Longrightarrow> off' = off + length ys \<Longrightarrow> at xs off' zs"
  by (simp add: at_append)

lemma at_move1: "at xs off (y # zs) \<Longrightarrow> off' = off + 1 \<Longrightarrow> at xs off' zs"
  by (simp add: at_Cons)

lemma at_slice: "at xs off (ys @ zs) \<Longrightarrow> slice xs off (off + length ys) = Ret ys"
proof -
  assume a: "at xs off (ys @ zs)"
  then have "take (length ys) (drop off xs) = ys" by (simp add: at_def)
  with at_length [OF a] show ?thesis by (simp add: slice_def)
qed

lemma at_index: "at xs off (y # zs) \<Longrightarrow> index xs off = Ret y"
proof -
  assume a: "at xs off (y # zs)"
  then have "off < length xs" using at_length [OF a] by simp
  moreover from a have "xs ! off = y"
    by (metis at_def calculation hd_drop_conv_nth list.sel(1))
  ultimately show ?thesis by (simp add: index_def)
qed

text \<open>The converse: what a successful read says about the rest of the input.\<close>

lemma at_indexD: "at xs off rest \<Longrightarrow> index xs off = Ret y \<Longrightarrow> \<exists>zs. rest = y # zs \<and> at xs (Suc off) zs"
proof -
  assume a: "at xs off rest" and r: "index xs off = Ret y"
  from r have lt: "off < length xs" and y: "y = xs ! off"
    by (auto simp: index_def split: if_splits)
  then have "rest = y # drop (Suc off) xs"
    using a by (simp add: at_def Cons_nth_drop_Suc)
  moreover from this a have "at xs (Suc off) (drop (Suc off) xs)"
    using at_Cons [of xs off y "drop (Suc off) xs"] by simp
  ultimately show ?thesis by simp
qed

lemma at_sliceD:
  assumes a: "at xs off rest" and r: "slice xs off hi = Ret ys" and hi: "hi = off + n"
  shows "\<exists>zs. rest = ys @ zs \<and> length ys = n \<and> at xs hi zs"
proof -
  from r hi have le: "off + n \<le> length xs" and ys: "ys = take n (drop off xs)"
    by (auto simp: slice_def split: if_splits)
  then have len: "length ys = n" by simp
  have rest: "rest = ys @ drop n rest" using a ys by (simp add: at_def)
  then have "at xs off (ys @ drop n rest)" using a by simp
  then have "at xs hi (drop n rest)" using at_append len hi by blast
  with rest len show ?thesis by blast
qed

section \<open>Strings and bytes\<close>

definition s2b :: "string \<Rightarrow> bytes" where \<comment> \<open>\<^verbatim>\<open>[]byte(s)\<close>\<close>
  "s2b s = map (\<lambda>c. of_nat (of_char c)) s"

definition b2s :: "bytes \<Rightarrow> string" where \<comment> \<open>\<^verbatim>\<open>string(b)\<close>\<close>
  "b2s b = map (\<lambda>w. char_of (unat w)) b"

lemma byte_char_byte: "of_nat (of_char (char_of (unat (w :: u8)) :: char) :: nat) = w"
proof -
  have "unat w < 256" using unsigned_less [of w] by simp
  then show ?thesis by simp
qed

lemma char_byte_char: "char_of (unat (of_nat (of_char c) :: u8)) = c"
proof -
  have "(of_char c :: nat) < 256" by simp
  then show ?thesis by (simp add: unat_of_nat)
qed

lemma b2s_s2b [simp]: "b2s (s2b s) = s"
  by (induction s) (simp_all add: b2s_def s2b_def char_byte_char)

lemma s2b_b2s [simp]: "s2b (b2s b) = b"
  by (induction b) (simp_all add: b2s_def s2b_def byte_char_byte del: of_char_of)

lemma length_s2b [simp]: "length (s2b s) = length s"
  by (simp add: s2b_def)

lemma length_b2s [simp]: "length (b2s b) = length b"
  by (simp add: b2s_def)

lemma s2b_inject [simp]: "s2b s = s2b t \<longleftrightarrow> s = t"
  by (metis b2s_s2b)

lemma s2b_Nil [simp]: "s2b [] = []"
  by (simp add: s2b_def)

lemma s2b_append [simp]: "s2b (s @ t) = s2b s @ s2b t"
  by (simp add: s2b_def)

section \<open>Exclusive or on words\<close>

lemma xor_right_cancel [simp]: "a XOR c = b XOR c \<longleftrightarrow> a = b" for a b c :: "'w::len word"
  by (metis xor.assoc xor.right_neutral xor_self_eq)

lemma xor_left_cancel [simp]: "c XOR a = c XOR b \<longleftrightarrow> a = b" for a b c :: "'w::len word"
  by (metis xor.commute xor_right_cancel)

lemma xor_eq_0_iff [simp]: "a XOR b = 0 \<longleftrightarrow> a = b" for a b :: "'w::len word"
  by (metis xor_right_cancel xor_self_eq)

lemma xor_swap:
  fixes a b c d :: "'w::len word"
  assumes "a XOR b = c XOR d"
  shows "a XOR c = b XOR d"
proof -
  have "(a XOR c) XOR (b XOR d) = (a XOR b) XOR (c XOR d)" by (simp only: ac_simps)
  with assms show ?thesis by (metis xor_eq_0_iff)
qed

lemma xor_common: "(c XOR a) XOR (c XOR b) = a XOR b" for a b c :: "'w::len word"
proof -
  have "(c XOR a) XOR (c XOR b) = (c XOR c) XOR (a XOR b)" by (simp only: ac_simps)
  then show ?thesis by simp
qed

section \<open>Big-endian integers\<close>

text \<open>
  \<^verbatim>\<open>binary.BigEndian.PutUint16/32/64\<close> write the bytes of a word, most significant first;
  \<^verbatim>\<open>Uint16/32/64\<close> read them back, and panic on a slice that is too short.
\<close>

primrec be_bytes :: "nat \<Rightarrow> 'w::len word \<Rightarrow> bytes" where
  "be_bytes 0 w = []"
| "be_bytes (Suc n) w = be_bytes n (drop_bit 8 w) @ [ucast w]"

definition be_val :: "bytes \<Rightarrow> 'w::len word" where
  "be_val bs = foldl (\<lambda>a b. push_bit 8 a OR ucast b) 0 bs"

definition be16 :: "u16 \<Rightarrow> bytes" where "be16 w = be_bytes 2 w"
definition be32 :: "u32 \<Rightarrow> bytes" where "be32 w = be_bytes 4 w"
definition be64 :: "u64 \<Rightarrow> bytes" where "be64 w = be_bytes 8 w"

definition get16 :: "bytes \<Rightarrow> ('e, u16) go" where
  "get16 b = (if length b < 2 then Panic else Ret (be_val (take 2 b)))"
definition get32 :: "bytes \<Rightarrow> ('e, u32) go" where
  "get32 b = (if length b < 4 then Panic else Ret (be_val (take 4 b)))"
definition get64 :: "bytes \<Rightarrow> ('e, u64) go" where
  "get64 b = (if length b < 8 then Panic else Ret (be_val (take 8 b)))"

lemma length_be_bytes [simp]: "length (be_bytes n w) = n"
  by (induction n arbitrary: w) simp_all

lemma length_be [simp]: "length (be16 v) = 2" "length (be32 w) = 4" "length (be64 x) = 8"
  by (simp_all add: be16_def be32_def be64_def)

lemma be_val_snoc: "be_val (bs @ [b]) = push_bit 8 (be_val bs) OR ucast b"
  by (simp add: be_val_def)

lemma push_drop_low: "push_bit 8 (take_bit n (drop_bit 8 w)) OR ucast (ucast w :: u8) = take_bit (8 + n) w"
  for w :: "'w::len word"
proof (rule bit_eqI)
  fix i assume "possible_bit TYPE('w word) i"
  then have i: "i < LENGTH('w)" by simp
  show "bit (push_bit 8 (take_bit n (drop_bit 8 w)) OR ucast (ucast w :: u8)) i = bit (take_bit (8 + n) w) i"
    by (cases "i < 8") (auto simp: bit_simps i)
qed

lemma be_val_be_bytes: "be_val (be_bytes n w) = take_bit (8 * n) w"
proof (induction n arbitrary: w)
  case 0
  show ?case by (simp add: be_val_def)
next
  case (Suc n)
  then show ?case by (simp add: be_val_snoc push_drop_low)
qed

lemma be_val_be [simp]: "be_val (be16 v) = v" "be_val (be32 w) = w" "be_val (be64 x) = x"
  by (simp_all add: be16_def be32_def be64_def be_val_be_bytes take_bit_word_eq_self)

lemma be16_eq: "be16 w = [ucast (drop_bit 8 w), ucast w]"
  by (simp add: be16_def numeral_2_eq_2)

lemma be32_eq: "be32 w = [ucast (drop_bit 24 w), ucast (drop_bit 16 w), ucast (drop_bit 8 w), ucast w]"
  by (simp add: be32_def eval_nat_numeral)

lemma get_be [simp]:
  "get16 (be16 v) = Ret v" "get32 (be32 w) = Ret w" "get64 (be64 x) = Ret x"
  by (simp_all add: get16_def get32_def get64_def)

lemma get_no_panic [no_panic]:
  "2 \<le> length b \<Longrightarrow> get16 b \<noteq> Panic"
  "4 \<le> length b \<Longrightarrow> get32 b \<noteq> Panic"
  "8 \<le> length b \<Longrightarrow> get64 b \<noteq> Panic"
  by (simp_all add: get16_def get32_def get64_def)

lemma get_not_Fail [simp]: "get16 b \<noteq> Fail e" "get32 b \<noteq> Fail e" "get64 b \<noteq> Fail e"
  by (simp_all add: get16_def get32_def get64_def)

lemma drop_low_byte: "bit (push_bit 8 v OR ucast (b :: u8) :: 'w::len word) i \<longleftrightarrow>
    i < LENGTH('w) \<and> (if i < 8 then bit b i else bit v (i - 8))"
  by (auto simp: bit_simps dest: bit_imp_le_length)

lemma be_bytes_be_val:
  "8 * length bs \<le> LENGTH('w) \<Longrightarrow> be_bytes (length bs) (be_val bs :: 'w::len word) = bs"
proof (induction bs rule: rev_induct)
  case Nil
  show ?case by simp
next
  case (snoc b bs)
  let ?v = "be_val bs :: 'w word"
  from snoc.IH snoc.prems have IH: "be_bytes (length bs) ?v = bs" by simp
  have small: "take_bit (8 * length bs) ?v = ?v"
    using be_val_be_bytes [of "length bs" ?v] IH by (metis)
  have "drop_bit 8 (push_bit 8 ?v OR ucast b) = ?v"
  proof (rule bit_eqI)
    fix i assume "possible_bit TYPE('w word) i"
    have "bit ?v i \<Longrightarrow> i < 8 * length bs"
      using arg_cong [OF small, of "\<lambda>w. bit w i"] by (auto simp: bit_simps)
    then show "bit (drop_bit 8 (push_bit 8 ?v OR ucast b)) i = bit ?v i"
      using snoc.prems by (auto simp: bit_drop_bit_eq drop_low_byte simp del: drop_bit_or)
  qed
  moreover have "ucast (push_bit 8 ?v OR ucast b) = b"
    using snoc.prems by (intro bit_eqI) (auto simp: bit_ucast_iff drop_low_byte)
  ultimately show ?case using IH by (simp add: be_val_snoc)
qed

lemma get16_Ret_iff: "length bs = 2 \<Longrightarrow> get16 bs = Ret v \<longleftrightarrow> bs = be16 v"
proof
  assume len: "length bs = 2" and "get16 bs = Ret v"
  then have "v = be_val bs" by (simp add: get16_def)
  with len show "bs = be16 v" using be_bytes_be_val [where ?'w = 16, of bs] by (simp add: be16_def)
qed simp

lemma get32_Ret_iff: "length bs = 4 \<Longrightarrow> get32 bs = Ret v \<longleftrightarrow> bs = be32 v"
proof
  assume len: "length bs = 4" and "get32 bs = Ret v"
  then have "v = be_val bs" by (simp add: get32_def)
  with len show "bs = be32 v" using be_bytes_be_val [where ?'w = 32, of bs] by (simp add: be32_def)
qed simp

lemma get64_Ret_iff: "length bs = 8 \<Longrightarrow> get64 bs = Ret v \<longleftrightarrow> bs = be64 v"
proof
  assume len: "length bs = 8" and "get64 bs = Ret v"
  then have "v = be_val bs" by (simp add: get64_def)
  with len show "bs = be64 v" using be_bytes_be_val [where ?'w = 64, of bs] by (simp add: be64_def)
qed simp

text \<open>Lengths that fit in the length field survive the conversion to it and back.\<close>

lemma unat_of_nat_u8: "n \<le> 255 \<Longrightarrow> unat (of_nat n :: u8) = n"
  by (simp add: unat_of_nat)

lemma unat_of_nat_u16: "n \<le> 65535 \<Longrightarrow> unat (of_nat n :: u16) = n"
  by (simp add: unat_of_nat)

lemma unat_u8_bound: "unat (w :: u8) \<le> 255"
proof -
  have "unat w < 256" using unsigned_less [of w] by simp
  then show ?thesis by simp
qed

lemma unat_u16_bound: "unat (w :: u16) \<le> 65535"
proof -
  have "unat w < 65536" using unsigned_less [of w] by simp
  then show ?thesis by simp
qed

lemma be16_be_val: "length bs = 2 \<Longrightarrow> be16 (be_val bs) = bs"
  using be_bytes_be_val [where ?'w = 16, of bs] by (simp add: be16_def)

end
