(* ===== verification/Model.thy ===== *)
theory Model
  imports Prelude
begin

text \<open>
  \<^verbatim>\<open>internal/model\<close>: the reading that travels through the whole system, the names of its data
  types, and the byte orders of a two-register Modbus value. The \<^verbatim>\<open>int64\<close> fields are 64-bit words
  read as two's complement (\<^const>\<open>sint\<close>).
\<close>

section \<open>Data types, access types, byte orders (Go string constants)\<close>

definition DataTypeBool :: string where "DataTypeBool = ''bool''"
definition DataTypeInt16 :: string where "DataTypeInt16 = ''int16''"
definition DataTypeUint16 :: string where "DataTypeUint16 = ''uint16''"
definition DataTypeInt32 :: string where "DataTypeInt32 = ''int32''"
definition DataTypeUint32 :: string where "DataTypeUint32 = ''uint32''"
definition DataTypeFloat32 :: string where "DataTypeFloat32 = ''float32''"
definition DataTypeFloat64 :: string where "DataTypeFloat64 = ''float64''"
definition DataTypeString :: string where "DataTypeString = ''string''"
definition DataTypeJSON :: string where "DataTypeJSON = ''json''"

lemmas DataType_defs = DataTypeBool_def DataTypeInt16_def DataTypeUint16_def DataTypeInt32_def
  DataTypeUint32_def DataTypeFloat32_def DataTypeFloat64_def DataTypeString_def DataTypeJSON_def

definition AccessReadOnly :: string where "AccessReadOnly = ''ro''"
definition AccessReadWrite :: string where "AccessReadWrite = ''rw''"
definition AccessWriteOnly :: string where "AccessWriteOnly = ''wo''"

lemmas Access_defs = AccessReadOnly_def AccessReadWrite_def AccessWriteOnly_def

definition ByteOrderBigEndian :: string where "ByteOrderBigEndian = ''abcd''"
definition ByteOrderLittleEndian :: string where "ByteOrderLittleEndian = ''dcba''"
definition ByteOrderMidLittleEndian :: string where "ByteOrderMidLittleEndian = ''badc''"
definition ByteOrderMidBigEndian :: string where "ByteOrderMidBigEndian = ''cdab''"

lemmas ByteOrder_defs = ByteOrderBigEndian_def ByteOrderLittleEndian_def
  ByteOrderMidLittleEndian_def ByteOrderMidBigEndian_def

definition ConnectionTypeRTU :: string where "ConnectionTypeRTU = ''rtu''"
definition ConnectionTypeTCP :: string where "ConnectionTypeTCP = ''tcp''"

lemmas ConnectionType_defs = ConnectionTypeRTU_def ConnectionTypeTCP_def

section \<open>Reading\<close>

definition QualityGood :: u8 where "QualityGood = 0"
definition QualityBad :: u8 where "QualityBad = 1"
definition QualityUnknown :: u8 where "QualityUnknown = 2"

record Reading =
  r_ID :: u64
  r_Device :: string
  r_DeviceName :: string
  r_Point :: string
  r_PointName :: string
  r_DataType :: string
  r_Value :: string
  r_Quality :: u8
  r_Unit :: string
  r_Timestamp :: u64

section \<open>Byte orders\<close>

definition ByteOrderConversion :: "bytes \<Rightarrow> string \<Rightarrow> bytes" where
  "ByteOrderConversion data order =
     (if length data \<noteq> 4 then data
      else if order = ByteOrderBigEndian then data
      else if order = ByteOrderLittleEndian then [data ! 3, data ! 2, data ! 1, data ! 0]
      else if order = ByteOrderMidLittleEndian then [data ! 1, data ! 0, data ! 3, data ! 2]
      else if order = ByteOrderMidBigEndian then [data ! 2, data ! 3, data ! 0, data ! 1]
      else data)"

lemma length_4_cases:
  assumes "length xs = 4"
  obtains a b c d where "xs = [a, b, c, d]"
  using assms by (auto simp: numeral_eq_Suc length_Suc_conv)

lemma ByteOrderConversion_length [simp]: "length (ByteOrderConversion data order) = length data"
  by (simp add: ByteOrderConversion_def)

lemma ByteOrderConversion_4:
  "ByteOrderConversion [a, b, c, d] order =
     (if order = ''abcd'' then [a, b, c, d] else if order = ''dcba'' then [d, c, b, a]
      else if order = ''badc'' then [b, a, d, c] else if order = ''cdab'' then [c, d, a, b]
      else [a, b, c, d])"
  by (simp add: ByteOrderConversion_def ByteOrder_defs numeral_eq_Suc)

section \<open>Properties\<close>

text \<open>Every byte order is its own inverse, and a conversion only permutes the bytes of the value.\<close>

lemma ByteOrderConversion_involution:
  "ByteOrderConversion (ByteOrderConversion data order) order = data
   \<and> mset (ByteOrderConversion data order) = mset data"
proof (cases "length data = 4")
  case True
  then obtain a b c d where "data = [a, b, c, d]" by (rule length_4_cases)
  then show ?thesis by (simp add: ByteOrderConversion_4)
next
  case False
  then show ?thesis by (simp add: ByteOrderConversion_def)
qed

end
