(* ===== verification/Payload.thy ===== *)
theory Payload
  imports Model
begin

text \<open>
  \<^verbatim>\<open>internal/msg/payload.go\<close> (and the payload types of \<^verbatim>\<open>msg.go\<close>): the wire format of the five
  payloads. An encoder returns the bytes or an error; a decoder also may panic, because it indexes
  and slices its input, and the theory shows that none ever does. \<^verbatim>\<open>Decode\<close> fills the payload it is
  called on; here it returns the payload, and nothing on an error (every caller drops it then).

  Each format gets the same three facts: decoding an encoding gives back the payload, a decoder
  accepts nothing but an encoding (it ignores bytes after it), and no input makes it panic.
\<close>

section \<open>Payload types\<close>

record AckPayload =
  ack_MsgID :: u16
  ack_Code :: u8

record HandshakePayload =
  hs_FirmwareVersion :: u8
  hs_Sn :: string
  hs_Token :: string

record UploadPayload =
  up_Readings :: "Reading list"

record NotifyPayload =
  nt_EventCode :: u8
  nt_DeviceHash :: string
  nt_Timestamp :: u32
  nt_Severity :: u8
  nt_Message :: string
  nt_RawData :: bytes

text \<open>The errors of the package, one constructor per message.\<close>

datatype tlv_error = TruncatedStringLength | TruncatedString

datatype payload_error =
    HandshakeSnTooLong nat | HandshakeTokenTooLong nat
  | HandshakeTooShort nat | InvalidSnLength nat | MissingTokenLength | InvalidTokenLength nat
  | AckTooShort nat
  | UploadStringTooLong nat
  | UploadTooShort nat | InvalidReadingCount nat | TruncatedId | UploadField string tlv_error
  | TruncatedQuality | TruncatedTimestamp
  | HeartbeatNotEmpty nat
  | NotifyHashTooLong nat | NotifyMessageTooLong nat
  | NotifyTooShort nat | InvalidDeviceHashLength nat | NotifyTruncatedBeforeTimestamp
  | InvalidMessageLength nat | NotifyTruncatedBeforeRawDataLength | InvalidRawDataLength nat

section \<open>HandshakePayload\<close>

definition Handshake_Encode :: "HandshakePayload \<Rightarrow> (payload_error, bytes) go" where
  "Handshake_Encode p =
     (if length (hs_Sn p) > 255 then Fail (HandshakeSnTooLong (length (hs_Sn p)))
      else if length (hs_Token p) > 255 then Fail (HandshakeTokenTooLong (length (hs_Token p)))
      else Ret ([hs_FirmwareVersion p] @ [of_nat (length (hs_Sn p))] @ s2b (hs_Sn p)
                @ [of_nat (length (hs_Token p))] @ s2b (hs_Token p)))"

definition Handshake_Decode :: "bytes \<Rightarrow> (payload_error, HandshakePayload) go" where
  "Handshake_Decode data =
     (if length data < 3 then Fail (HandshakeTooShort (length data)) else
      go_bind (index data 0) (\<lambda>fw.
      go_bind (index data 1) (\<lambda>n.
      let snLen = unat n in
      if 2 + snLen > length data then Fail (InvalidSnLength snLen) else
      go_bind (slice data 2 (2 + snLen)) (\<lambda>sn.
      let off = 2 + snLen in
      if off \<ge> length data then Fail MissingTokenLength else
      go_bind (index data off) (\<lambda>t.
      let tokenLen = unat t; off = off + 1 in
      if off + tokenLen > length data then Fail (InvalidTokenLength tokenLen) else
      go_bind (slice data off (off + tokenLen)) (\<lambda>tok.
      Ret \<lparr>hs_FirmwareVersion = fw, hs_Sn = b2s sn, hs_Token = b2s tok\<rparr>))))))"

section \<open>AckPayload\<close>

definition Ack_Encode :: "AckPayload \<Rightarrow> (payload_error, bytes) go" where
  "Ack_Encode p = Ret (be16 (ack_MsgID p) @ [ack_Code p])"

definition Ack_Decode :: "bytes \<Rightarrow> (payload_error, AckPayload) go" where
  "Ack_Decode data =
     (if length data < 3 then Fail (AckTooShort (length data)) else
      go_bind (slice data 0 2) (\<lambda>b.
      go_bind (get16 b) (\<lambda>i.
      go_bind (index data 2) (\<lambda>c.
      Ret \<lparr>ack_MsgID = i, ack_Code = c\<rparr>))))"

section \<open>UploadPayload\<close>

definition appendTLVString :: "bytes \<Rightarrow> string \<Rightarrow> bytes" where
  "appendTLVString b s = b @ be16 (of_nat (length s)) @ s2b s"

text \<open>The Go function moves the offset through a pointer; the model returns it.\<close>

definition readTLVString :: "bytes \<Rightarrow> nat \<Rightarrow> (tlv_error, string \<times> nat) go" where
  "readTLVString data off =
     (if off + 2 > length data then Fail TruncatedStringLength else
      go_bind (slice data off (off + 2)) (\<lambda>b.
      go_bind (get16 b) (\<lambda>w.
      let n = unat w; off = off + 2 in
      if off + n > length data then Fail TruncatedString else
      go_bind (slice data off (off + n)) (\<lambda>s.
      Ret (b2s s, off + n)))))"

definition minReadingLen :: nat where "minReadingLen = 31"

text \<open>The string fields of a reading, in the order of the check loop and of the wire.\<close>

definition string_fields :: "Reading \<Rightarrow> string list" where
  "string_fields r = [r_Device r, r_DeviceName r, r_Point r, r_PointName r, r_DataType r,
                      r_Value r, r_Unit r]"

primrec first_too_long :: "string list \<Rightarrow> nat option" where
  "first_too_long [] = None"
| "first_too_long (s # ss) = (if length s > 65535 then Some (length s) else first_too_long ss)"

definition encode_reading :: "bytes \<Rightarrow> Reading \<Rightarrow> bytes" where
  "encode_reading buf r =
     (let buf = buf @ be64 (r_ID r);
          buf = appendTLVString buf (r_Device r);
          buf = appendTLVString buf (r_DeviceName r);
          buf = appendTLVString buf (r_Point r);
          buf = appendTLVString buf (r_PointName r);
          buf = appendTLVString buf (r_DataType r);
          buf = appendTLVString buf (r_Value r);
          buf = buf @ [r_Quality r];
          buf = appendTLVString buf (r_Unit r)
      in buf @ be64 (r_Timestamp r))"

definition Upload_Encode :: "UploadPayload \<Rightarrow> (payload_error, bytes) go" where
  "Upload_Encode p =
     (case first_too_long (concat (map string_fields (up_Readings p))) of
        Some n \<Rightarrow> Fail (UploadStringTooLong n)
      | None \<Rightarrow> Ret (foldl encode_reading (be32 (of_nat (length (up_Readings p)))) (up_Readings p)))"

definition field :: "string \<Rightarrow> (tlv_error, 'a) go \<Rightarrow> (payload_error, 'a) go" where
  "field name m = map_err (UploadField name) m"

definition decode_reading :: "bytes \<Rightarrow> nat \<Rightarrow> (payload_error, Reading \<times> nat) go" where
  "decode_reading data off =
     (if off + 8 > length data then Fail TruncatedId else
      go_bind (slice data off (off + 8)) (\<lambda>b. go_bind (get64 b) (\<lambda>i.
      go_bind (field ''device'' (readTLVString data (off + 8))) (\<lambda>(dev, off).
      go_bind (field ''device name'' (readTLVString data off)) (\<lambda>(dname, off).
      go_bind (field ''point'' (readTLVString data off)) (\<lambda>(pt, off).
      go_bind (field ''point name'' (readTLVString data off)) (\<lambda>(pname, off).
      go_bind (field ''data type'' (readTLVString data off)) (\<lambda>(dt, off).
      go_bind (field ''value'' (readTLVString data off)) (\<lambda>(val, off).
      if off + 1 > length data then Fail TruncatedQuality else
      go_bind (index data off) (\<lambda>q.
      go_bind (field ''unit'' (readTLVString data (off + 1))) (\<lambda>(unit, off).
      if off + 8 > length data then Fail TruncatedTimestamp else
      go_bind (slice data off (off + 8)) (\<lambda>t. go_bind (get64 t) (\<lambda>ts.
      Ret (\<lparr>r_ID = i, r_Device = dev, r_DeviceName = dname, r_Point = pt, r_PointName = pname,
             r_DataType = dt, r_Value = val, r_Quality = q, r_Unit = unit, r_Timestamp = ts\<rparr>,
           off + 8))))))))))))))"

text \<open>The loop: \<open>i\<close> readings are still to come, \<open>acc\<close> are decoded.\<close>

primrec decode_readings :: "nat \<Rightarrow> bytes \<Rightarrow> nat \<Rightarrow> Reading list \<Rightarrow> (payload_error, Reading list) go" where
  "decode_readings 0 data off acc = Ret acc"
| "decode_readings (Suc i) data off acc =
     go_bind (decode_reading data off) (\<lambda>(r, off). decode_readings i data off (acc @ [r]))"

definition Upload_Decode :: "bytes \<Rightarrow> (payload_error, UploadPayload) go" where
  "Upload_Decode data =
     (if length data < 4 then Fail (UploadTooShort (length data)) else
      go_bind (slice data 0 4) (\<lambda>b. go_bind (get32 b) (\<lambda>c.
      let count = unat c in
      if count > length data div minReadingLen + 1 then Fail (InvalidReadingCount count) else
      go_bind (decode_readings count data 4 []) (\<lambda>rs. Ret \<lparr>up_Readings = rs\<rparr>))))"

section \<open>HeartbeatPayload\<close>

definition Heartbeat_Encode :: "(payload_error, bytes) go" where
  "Heartbeat_Encode = Ret []"

definition Heartbeat_Decode :: "bytes \<Rightarrow> (payload_error, unit) go" where
  "Heartbeat_Decode data =
     (if length data \<noteq> 0 then Fail (HeartbeatNotEmpty (length data)) else Ret ())"

section \<open>NotifyPayload\<close>

definition Notify_Encode :: "NotifyPayload \<Rightarrow> (payload_error, bytes) go" where
  "Notify_Encode p =
     (if length (nt_DeviceHash p) > 255 then Fail (NotifyHashTooLong (length (nt_DeviceHash p)))
      else if length (nt_Message p) > 255 then Fail (NotifyMessageTooLong (length (nt_Message p)))
      else Ret ([nt_EventCode p] @ [of_nat (length (nt_DeviceHash p))] @ s2b (nt_DeviceHash p)
                @ be32 (nt_Timestamp p) @ [nt_Severity p]
                @ [of_nat (length (nt_Message p))] @ s2b (nt_Message p)
                @ be16 (of_nat (length (nt_RawData p))) @ nt_RawData p))"

definition Notify_Decode :: "bytes \<Rightarrow> (payload_error, NotifyPayload) go" where
  "Notify_Decode data =
     (if length data < 10 then Fail (NotifyTooShort (length data)) else
      go_bind (index data 0) (\<lambda>ev.
      go_bind (index data 1) (\<lambda>n.
      let dhLen = unat n; off = 2 in
      if off + dhLen > length data then Fail (InvalidDeviceHashLength dhLen) else
      go_bind (slice data off (off + dhLen)) (\<lambda>dh.
      let off = off + dhLen in
      if off + 6 > length data then Fail NotifyTruncatedBeforeTimestamp else
      go_bind (slice data off (off + 4)) (\<lambda>b. go_bind (get32 b) (\<lambda>ts.
      go_bind (index data (off + 4)) (\<lambda>sev.
      go_bind (index data (off + 5)) (\<lambda>m.
      let msgLen = unat m; off = off + 6 in
      if off + msgLen > length data then Fail (InvalidMessageLength msgLen) else
      go_bind (slice data off (off + msgLen)) (\<lambda>msg.
      let off = off + msgLen in
      if off + 2 > length data then Fail NotifyTruncatedBeforeRawDataLength else
      go_bind (slice data off (off + 2)) (\<lambda>b. go_bind (get16 b) (\<lambda>r.
      let rdLen = unat r; off = off + 2 in
      if off + rdLen > length data then Fail (InvalidRawDataLength rdLen) else
      go_bind (slice data off (off + rdLen)) (\<lambda>raw.
      Ret \<lparr>nt_EventCode = ev, nt_DeviceHash = b2s dh, nt_Timestamp = ts, nt_Severity = sev,
           nt_Message = b2s msg, nt_RawData = raw\<rparr>))))))))))))"

section \<open>Reads of a decoder\<close>

text \<open>What a read does when the field is there, as rewrite rules on \<open>at\<close> facts.\<close>

lemma read_byte: "at data off (b # rest) \<Longrightarrow> i = off \<Longrightarrow> go_bind (index data i) f = f b"
  by (simp add: at_index)

lemma read_slice:
  "at data off (ys @ rest) \<Longrightarrow> lo = off \<Longrightarrow> hi = off + length ys \<Longrightarrow>
     go_bind (slice data lo hi) f = f ys"
  by (simp add: at_slice)

lemma readTLVString_no_panic [no_panic]: "readTLVString data off \<noteq> Panic"
  unfolding readTLVString_def Let_def
  by (auto simp: go_bind_Panic_iff slice_def get16_def simp del: add_2_eq_Suc' split: if_splits)

lemma readTLVString_encoded:
  assumes "at data off (be16 (of_nat (length s)) @ s2b s @ rest)" and "length s \<le> 65535"
  shows "readTLVString data off = Ret (s, off + 2 + length s)"
proof -
  have a: "at data (off + 2) (s2b s @ rest)"
    using at_append [OF assms(1)] by simp
  have "off + 2 + length s \<le> length data"
    using at_length [OF a] by simp
  with assms(2) show ?thesis
    by (simp add: readTLVString_def read_slice [OF assms(1)] read_slice [OF a] unat_of_nat_u16 Let_def)
qed

lemma readTLVString_RetD:
  assumes "at data off rest" and "readTLVString data off = Ret (s, off')"
  shows "\<exists>rest'. rest = be16 (of_nat (length s)) @ s2b s @ rest' \<and> length s \<le> 65535
           \<and> at data off' rest'"
proof -
  from assms(2) obtain b w sb where
    b: "slice data off (off + 2) = (Ret b :: (tlv_error, bytes) go)" and
    w: "get16 b = (Ret w :: (tlv_error, u16) go)" and
    sb: "slice data (off + 2) (off + 2 + unat w) = (Ret sb :: (tlv_error, bytes) go)" and
    res: "s = b2s sb" "off' = off + 2 + unat w"
    by (auto simp: readTLVString_def Let_def go_bind_Ret_iff split: if_splits)
  obtain r1 where r1: "rest = b @ r1" "length b = 2" "at data (off + 2) r1"
    using at_sliceD [OF assms(1) b refl] by blast
  obtain r2 where r2: "r1 = sb @ r2" "length sb = unat w" "at data (off + 2 + unat w) r2"
    using at_sliceD [OF r1(3) sb refl] by blast
  from w r1(2) have "b = be16 w" by (simp add: get16_Ret_iff)
  moreover have "of_nat (length s) = w" using res r2(2) by simp
  ultimately show ?thesis using r1 r2 res unat_u16_bound [of w] by auto
qed

section \<open>Handshake, ack, heartbeat\<close>

lemma Handshake_Encode_not_Panic [no_panic]: "Handshake_Encode p \<noteq> Panic"
  by (simp add: Handshake_Encode_def)

lemma Handshake_Decode_encoded:
  assumes "Handshake_Encode p = Ret b"
  shows "Handshake_Decode (b @ rest) = Ret p"
proof -
  let ?sn = "s2b (hs_Sn p)" and ?tok = "s2b (hs_Token p)"
  let ?n = "of_nat (length (hs_Sn p)) :: u8" and ?t = "of_nat (length (hs_Token p)) :: u8"
  from assms have len: "length (hs_Sn p) \<le> 255" "length (hs_Token p) \<le> 255"
    and b: "b = hs_FirmwareVersion p # ?n # ?sn @ ?t # ?tok"
    by (auto simp: Handshake_Encode_def split: if_splits)
  let ?d = "hs_FirmwareVersion p # ?n # ?sn @ ?t # ?tok @ rest"
  have a0: "at ?d 0 ?d" by (rule at_start)
  then have a1: "at ?d 1 (?n # ?sn @ ?t # ?tok @ rest)" using at_Cons by fastforce
  then have a2: "at ?d 2 (?sn @ ?t # ?tok @ rest)" using at_Cons by (fastforce simp: numeral_2_eq_2)
  have a3: "at ?d (2 + length (hs_Sn p)) (?t # ?tok @ rest)" using at_append [OF a2] by simp
  have a4: "at ?d (2 + length (hs_Sn p) + 1) (?tok @ rest)" using at_Cons [OF a3] by simp
  have "Handshake_Decode ?d = Ret p"
    using len at_length [OF a4] unfolding Handshake_Decode_def
    by (simp add: read_byte [OF a0] read_byte [OF a1] read_slice [OF a2] read_byte [OF a3]
        read_slice [OF a4] unat_of_nat_u8 Let_def)
  then show ?thesis by (simp add: b)
qed

lemma Handshake_Decode_RetD:
  assumes "Handshake_Decode data = Ret p"
  shows "\<exists>b rest. Handshake_Encode p = Ret b \<and> data = b @ rest"
proof -
  from assms obtain fw n sn t tok where
    fw: "index data 0 = (Ret fw :: (payload_error, u8) go)" and
    n: "index data 1 = (Ret n :: (payload_error, u8) go)" and
    sn: "slice data 2 (2 + unat n) = (Ret sn :: (payload_error, bytes) go)" and
    t: "index data (2 + unat n) = (Ret t :: (payload_error, u8) go)" and
    tok: "slice data (2 + unat n + 1) (2 + unat n + 1 + unat t) = (Ret tok :: (payload_error, bytes) go)" and
    p: "p = \<lparr>hs_FirmwareVersion = fw, hs_Sn = b2s sn, hs_Token = b2s tok\<rparr>"
    by (auto simp: Handshake_Decode_def Let_def go_bind_Ret_iff split: if_splits)
  obtain r0 where r0: "data = fw # r0" "at data 1 r0"
    using at_indexD [OF at_start fw] by auto
  obtain r1 where r1: "r0 = n # r1" "at data 2 r1"
    using at_indexD [OF r0(2) n] by (auto simp: numeral_2_eq_2)
  obtain r2 where r2: "r1 = sn @ r2" "length sn = unat n" "at data (2 + unat n) r2"
    using at_sliceD [OF r1(2) sn refl] by blast
  obtain r3 where r3: "r2 = t # r3" "at data (2 + unat n + 1) r3"
    using at_indexD [OF r2(3) t] by auto
  obtain r4 where r4: "r3 = tok @ r4" "length tok = unat t"
    using at_sliceD [OF r3(2) tok refl] by blast
  have "Handshake_Encode p = Ret (fw # n # sn @ t # tok)"
    using r2(2) r4(2) unat_u8_bound [of n] unat_u8_bound [of t]
    by (simp add: Handshake_Encode_def p)
  then show ?thesis using r0 r1 r2 r3 r4 by auto
qed

lemma Handshake_Decode_no_panic [no_panic]: "Handshake_Decode data \<noteq> Panic"
  unfolding Handshake_Decode_def Let_def
  by (auto simp: go_bind_Panic_iff slice_def index_def split: if_splits)

lemma Ack_Decode_encoded: "Ack_Encode p = Ret b \<Longrightarrow> Ack_Decode (b @ rest) = Ret p"
proof -
  assume "Ack_Encode p = Ret b"
  then have b: "b = be16 (ack_MsgID p) @ [ack_Code p]" by (simp add: Ack_Encode_def)
  let ?d = "be16 (ack_MsgID p) @ ack_Code p # rest"
  have a0: "at ?d 0 ?d" by (rule at_start)
  have a2: "at ?d 2 (ack_Code p # rest)" by (rule at_move [OF a0]) simp
  show ?thesis by (simp add: b Ack_Decode_def read_slice [OF a0] read_byte [OF a2])
qed

lemma Ack_Decode_RetD:
  assumes "Ack_Decode data = Ret p"
  shows "\<exists>b rest. Ack_Encode p = Ret b \<and> data = b @ rest"
proof -
  from assms obtain b i c where
    b: "slice data 0 2 = (Ret b :: (payload_error, bytes) go)" and
    i: "get16 b = (Ret i :: (payload_error, u16) go)" and
    c: "index data 2 = (Ret c :: (payload_error, u8) go)" and
    p: "p = \<lparr>ack_MsgID = i, ack_Code = c\<rparr>"
    by (auto simp: Ack_Decode_def go_bind_Ret_iff split: if_splits)
  obtain r0 where r0: "data = b @ r0" "length b = 2" "at data 2 r0"
    using at_sliceD [OF at_start b, of 2] by auto
  obtain r1 where "r0 = c # r1" using at_indexD [OF r0(3) c] by blast
  then have "data = (be16 i @ [c]) @ r1" using r0 i by (simp add: get16_Ret_iff)
  then show ?thesis by (auto simp: Ack_Encode_def p)
qed

lemma Ack_Decode_no_panic [no_panic]: "Ack_Decode data \<noteq> Panic"
  unfolding Ack_Decode_def
  by (auto simp: go_bind_Panic_iff slice_def index_def get16_def split: if_splits)

lemma Heartbeat_Decode_Ret_iff: "Heartbeat_Decode data = Ret u \<longleftrightarrow> data = []"
  by (auto simp: Heartbeat_Decode_def)

section \<open>Upload\<close>

text \<open>The wire form of a reading, without the buffer it is appended to.\<close>

definition reading_wire :: "Reading \<Rightarrow> bytes" where
  "reading_wire r = encode_reading [] r"

definition tlv :: "string \<Rightarrow> bytes" where
  "tlv s = be16 (of_nat (length s)) @ s2b s"

lemma encode_reading_append: "encode_reading buf r = buf @ reading_wire r"
  by (simp add: reading_wire_def encode_reading_def appendTLVString_def Let_def)

lemma foldl_encode_reading: "foldl encode_reading buf rs = buf @ concat (map reading_wire rs)"
  by (induction rs arbitrary: buf) (simp_all add: encode_reading_append)

lemma reading_wire_tlv:
  "reading_wire r = be64 (r_ID r) @ tlv (r_Device r) @ tlv (r_DeviceName r) @ tlv (r_Point r)
     @ tlv (r_PointName r) @ tlv (r_DataType r) @ tlv (r_Value r) @ [r_Quality r] @ tlv (r_Unit r)
     @ be64 (r_Timestamp r)"
  by (simp add: reading_wire_def encode_reading_def appendTLVString_def tlv_def Let_def)

lemma length_tlv [simp]: "length (tlv s) = 2 + length s"
  by (simp add: tlv_def)

lemma reading_wire_length: "minReadingLen \<le> length (reading_wire r)"
  by (simp add: reading_wire_tlv minReadingLen_def)

lemma readings_wire_length: "minReadingLen * length rs \<le> length (concat (map reading_wire rs))"
  by (induction rs) (use reading_wire_length in \<open>auto intro: add_mono\<close>)

definition short_strings :: "Reading \<Rightarrow> bool" where
  "short_strings r \<longleftrightarrow> (\<forall>s \<in> set (string_fields r). length s \<le> 65535)"

lemma first_too_long_None: "first_too_long ss = None \<longleftrightarrow> (\<forall>s \<in> set ss. length s \<le> 65535)"
  by (induction ss) auto

lemma first_too_long_Some: "first_too_long ss = Some n \<Longrightarrow> \<exists>s \<in> set ss. length s = n \<and> n > 65535"
  by (induction ss) (auto split: if_splits)

lemma short_strings_fields:
  "short_strings r \<longleftrightarrow> length (r_Device r) \<le> 65535 \<and> length (r_DeviceName r) \<le> 65535
     \<and> length (r_Point r) \<le> 65535 \<and> length (r_PointName r) \<le> 65535 \<and> length (r_DataType r) \<le> 65535
     \<and> length (r_Value r) \<le> 65535 \<and> length (r_Unit r) \<le> 65535"
  by (simp add: short_strings_def string_fields_def)

lemma Upload_Encode_Ret_iff:
  "Upload_Encode p = Ret b \<longleftrightarrow> (\<forall>r \<in> set (up_Readings p). short_strings r)
     \<and> b = be32 (of_nat (length (up_Readings p))) @ concat (map reading_wire (up_Readings p))"
proof (cases "first_too_long (concat (map string_fields (up_Readings p)))")
  case None
  then have "\<forall>r \<in> set (up_Readings p). short_strings r"
    by (auto simp: first_too_long_None short_strings_def)
  with None show ?thesis
    by (auto simp: Upload_Encode_def foldl_encode_reading)
next
  case (Some n)
  then have "\<not> (\<forall>r \<in> set (up_Readings p). short_strings r)"
    by (fastforce simp: short_strings_def dest!: first_too_long_Some)
  with Some show ?thesis by (simp add: Upload_Encode_def)
qed

lemma Upload_Encode_no_panic [no_panic]: "Upload_Encode p \<noteq> Panic"
  by (simp add: Upload_Encode_def split: option.split)

lemma read_field:
  assumes "at data off (tlv s @ rest)" and "length s \<le> 65535" and "i = off"
  shows "go_bind (field name (readTLVString data i)) f = f (s, i + 2 + length s)"
  using assms readTLVString_encoded [of data off s rest] by (simp add: field_def tlv_def)

lemma decode_reading_encoded:
  assumes a: "at data off (reading_wire r @ rest)" and s: "short_strings r"
  shows "decode_reading data off = Ret (r, off + length (reading_wire r))"
proof -
  note sh = s [unfolded short_strings_fields]
  note a0 = a [unfolded reading_wire_tlv append_assoc]
  note a1 = at_append [OF a0]
  note a2 = at_append [OF a1]
  note a3 = at_append [OF a2]
  note a4 = at_append [OF a3]
  note a5 = at_append [OF a4]
  note a6 = at_append [OF a5]
  note a7 = at_append [OF a6]
  note a8 = at_append [OF a7]
  note a9 = at_append [OF a8]
  have "length data = off + length (reading_wire r) + length rest"
    using at_length [OF a] by simp
  with sh show ?thesis
    unfolding decode_reading_def
    by (simp add: reading_wire_tlv read_slice [OF a0] read_field [OF a1] read_field [OF a2]
        read_field [OF a3] read_field [OF a4] read_field [OF a5] read_field [OF a6]
        read_byte [OF a7 [unfolded append_Cons append_Nil]] read_field [OF a8] read_slice [OF a9])
qed

lemma field_Ret_iff: "field name m = Ret x \<longleftrightarrow> m = Ret x"
  by (simp add: field_def)

lemma field_no_panic [no_panic]: "field name (readTLVString data off) \<noteq> Panic"
  by (simp add: field_def readTLVString_no_panic)

lemma read_fieldD:
  assumes "at data off rest" and "readTLVString data off = Ret (s, off')"
  shows "\<exists>rest'. rest = tlv s @ rest' \<and> length s \<le> 65535 \<and> at data off' rest'"
  using readTLVString_RetD [OF assms] by (auto simp: tlv_def)

lemma decode_reading_RetD:
  assumes at0: "at data off rest" and res: "decode_reading data off = Ret (r, off')"
  shows "\<exists>rest'. rest = reading_wire r @ rest' \<and> short_strings r \<and> at data off' rest'"
proof -
  from res obtain b i dev o1 dname o2 pt o3 pname o4 dt o5 val o6 q un o7 t ts where
    b: "slice data off (off + 8) = (Ret b :: (payload_error, bytes) go)" and
    i: "get64 b = (Ret i :: (payload_error, u64) go)" and
    f1: "readTLVString data (off + 8) = Ret (dev, o1)" and
    f2: "readTLVString data o1 = Ret (dname, o2)" and
    f3: "readTLVString data o2 = Ret (pt, o3)" and
    f4: "readTLVString data o3 = Ret (pname, o4)" and
    f5: "readTLVString data o4 = Ret (dt, o5)" and
    f6: "readTLVString data o5 = Ret (val, o6)" and
    q: "index data o6 = (Ret q :: (payload_error, u8) go)" and
    f7: "readTLVString data (Suc o6) = Ret (un, o7)" and
    t: "slice data o7 (o7 + 8) = (Ret t :: (payload_error, bytes) go)" and
    ts: "get64 t = (Ret ts :: (payload_error, u64) go)" and
    r: "r = \<lparr>r_ID = i, r_Device = dev, r_DeviceName = dname, r_Point = pt, r_PointName = pname,
             r_DataType = dt, r_Value = val, r_Quality = q, r_Unit = un, r_Timestamp = ts\<rparr>" and
    off': "off' = o7 + 8"
    by (auto simp: decode_reading_def go_bind_Ret_iff field_Ret_iff split: if_splits prod.splits)
  obtain r0 where r0: "rest = b @ r0" "length b = 8" "at data (off + 8) r0"
    using at_sliceD [OF at0 b refl] by blast
  obtain r1 where r1: "r0 = tlv dev @ r1" "length dev \<le> 65535" "at data o1 r1"
    using read_fieldD [OF r0(3) f1] by blast
  obtain r2 where r2: "r1 = tlv dname @ r2" "length dname \<le> 65535" "at data o2 r2"
    using read_fieldD [OF r1(3) f2] by blast
  obtain r3 where r3: "r2 = tlv pt @ r3" "length pt \<le> 65535" "at data o3 r3"
    using read_fieldD [OF r2(3) f3] by blast
  obtain r4 where r4: "r3 = tlv pname @ r4" "length pname \<le> 65535" "at data o4 r4"
    using read_fieldD [OF r3(3) f4] by blast
  obtain r5 where r5: "r4 = tlv dt @ r5" "length dt \<le> 65535" "at data o5 r5"
    using read_fieldD [OF r4(3) f5] by blast
  obtain r6 where r6: "r5 = tlv val @ r6" "length val \<le> 65535" "at data o6 r6"
    using read_fieldD [OF r5(3) f6] by blast
  obtain r7 where r7: "r6 = q # r7" "at data (Suc o6) r7"
    using at_indexD [OF r6(3) q] by blast
  obtain r8 where r8: "r7 = tlv un @ r8" "length un \<le> 65535" "at data o7 r8"
    using read_fieldD [OF r7(2) f7] by blast
  obtain r9 where r9: "r8 = t @ r9" "length t = 8" "at data off' r9"
    using at_sliceD [OF r8(3) t refl] off' by blast
  have "b = be64 i" "t = be64 ts"
    using i ts r0(2) r9(2) by (simp_all add: get64_Ret_iff)
  then have "rest = reading_wire r @ r9"
    by (simp add: reading_wire_tlv r r0(1) r1(1) r2(1) r3(1) r4(1) r5(1) r6(1) r7(1) r8(1) r9(1))
  moreover have "short_strings r"
    using r1 r2 r3 r4 r5 r6 r8 by (simp add: short_strings_fields r)
  ultimately show ?thesis using r9(3) by blast
qed

lemma decode_reading_no_panic [no_panic]: "decode_reading data off \<noteq> Panic"
  unfolding decode_reading_def
  by (auto simp: go_bind_Panic_iff slice_def index_def get64_def field_no_panic
      split: if_splits prod.splits)

lemma decode_readings_no_panic [no_panic]: "decode_readings i data off acc \<noteq> Panic"
  by (induction i arbitrary: off acc)
     (auto simp: go_bind_Panic_iff decode_reading_no_panic split: prod.splits)

lemma decode_readings_encoded:
  assumes "at data off (concat (map reading_wire rs) @ rest)" and "\<forall>r \<in> set rs. short_strings r"
  shows "decode_readings (length rs) data off acc = Ret (acc @ rs)"
  using assms
proof (induction rs arbitrary: off acc)
  case Nil
  then show ?case by simp
next
  case (Cons r rs)
  from Cons.prems(1) have a: "at data off (reading_wire r @ concat (map reading_wire rs) @ rest)"
    by simp
  then have "at data (off + length (reading_wire r)) (concat (map reading_wire rs) @ rest)"
    by (rule at_append)
  with Cons decode_reading_encoded [OF a] show ?case by simp
qed

lemma decode_readings_RetD:
  assumes "at data off rest" and "decode_readings n data off acc = Ret out"
  shows "\<exists>rs rest'. out = acc @ rs \<and> length rs = n \<and> (\<forall>r \<in> set rs. short_strings r)
           \<and> rest = concat (map reading_wire rs) @ rest'"
  using assms
proof (induction n arbitrary: off acc rest)
  case 0
  then show ?case by simp
next
  case (Suc n)
  from Suc.prems(2) obtain r off' where r: "decode_reading data off = Ret (r, off')"
    and out: "decode_readings n data off' (acc @ [r]) = Ret out"
    by (auto simp: go_bind_Ret_iff)
  obtain rest' where rest': "rest = reading_wire r @ rest'" "short_strings r" "at data off' rest'"
    using decode_reading_RetD [OF Suc.prems(1) r] by blast
  from Suc.IH [OF rest'(3) out] obtain rs rest'' where
    "out = (acc @ [r]) @ rs" "length rs = n" "\<forall>r \<in> set rs. short_strings r"
    "rest' = concat (map reading_wire rs) @ rest''" by blast
  with rest' have "out = acc @ (r # rs) \<and> length (r # rs) = Suc n
      \<and> (\<forall>r \<in> set (r # rs). short_strings r)
      \<and> rest = concat (map reading_wire (r # rs)) @ rest''" by simp
  then show ?case by blast
qed

lemma Upload_Decode_no_panic [no_panic]: "Upload_Decode data \<noteq> Panic"
  unfolding Upload_Decode_def Let_def
  by (auto simp: go_bind_Panic_iff slice_def get32_def decode_readings_no_panic split: if_splits)

lemma count_guard: "31 * n + 4 \<le> len \<Longrightarrow> n \<le> len div 31 + 1" for n len :: nat
proof -
  assume "31 * n + 4 \<le> len"
  then have "31 * n div 31 \<le> len div 31" by (intro div_le_mono) simp
  then show ?thesis by simp
qed

lemma Upload_Decode_encoded:
  assumes enc: "Upload_Encode p = Ret b" and small: "length (up_Readings p) < 2 ^ 32"
  shows "Upload_Decode (b @ rest) = Ret p"
proof -
  let ?rs = "up_Readings p" and ?c = "of_nat (length (up_Readings p)) :: u32"
  let ?body = "concat (map reading_wire ?rs)"
  from enc have b: "b = be32 ?c @ ?body" and short: "\<forall>r \<in> set ?rs. short_strings r"
    by (simp_all add: Upload_Encode_Ret_iff)
  let ?d = "be32 ?c @ ?body @ rest"
  have a0: "at ?d 0 ?d" by (rule at_start)
  have a4: "at ?d 4 (?body @ rest)" by (rule at_move [OF a0]) simp
  have count: "unat ?c = length ?rs" using small by (simp add: unat_of_nat)
  have "\<not> length ?rs > length ?d div 31 + 1"
    using readings_wire_length [of ?rs] count_guard [of "length ?rs" "length ?d"]
    by (simp add: minReadingLen_def)
  then show ?thesis
    using count decode_readings_encoded [OF a4 short, of "[]"]
    by (simp add: b Upload_Decode_def read_slice [OF a0] minReadingLen_def)
qed

lemma Upload_Decode_RetD:
  assumes "Upload_Decode data = Ret p"
  shows "\<exists>b rest. Upload_Encode p = Ret b \<and> data = b @ rest"
proof -
  from assms obtain b c rs where
    b: "slice data 0 4 = (Ret b :: (payload_error, bytes) go)" and
    c: "get32 b = (Ret c :: (payload_error, u32) go)" and
    rs: "decode_readings (unat c) data 4 [] = Ret rs" and
    p: "p = \<lparr>up_Readings = rs\<rparr>"
    by (auto simp: Upload_Decode_def Let_def go_bind_Ret_iff split: if_splits)
  obtain r0 where r0: "data = b @ r0" "length b = 4" "at data 4 r0"
    using at_sliceD [OF at_start b, of 4] by auto
  obtain rest where rest: "length rs = unat c" "\<forall>r \<in> set rs. short_strings r"
    "r0 = concat (map reading_wire rs) @ rest"
    using decode_readings_RetD [OF r0(3) rs] by auto
  have "b = be32 (of_nat (length rs))" using c r0(2) rest(1) by (simp add: get32_Ret_iff)
  then have "Upload_Encode p = Ret (b @ concat (map reading_wire rs))"
    using rest(2) by (simp add: Upload_Encode_Ret_iff p)
  moreover have "data = (b @ concat (map reading_wire rs)) @ rest"
    using r0(1) rest(3) by simp
  ultimately show ?thesis by blast
qed

section \<open>Notify\<close>

text \<open>
  \<^verbatim>\<open>Encode\<close> checks the two strings but not \<^verbatim>\<open>RawData\<close>, whose length goes into a 16-bit field: what
  comes back is the payload with its raw data cut to the length modulo \<^verbatim>\<open>2^16\<close>.
\<close>

definition notify_cut :: "NotifyPayload \<Rightarrow> NotifyPayload" where
  "notify_cut p = p\<lparr>nt_RawData := take (length (nt_RawData p) mod 65536) (nt_RawData p)\<rparr>"

lemma notify_cut_id: "length (nt_RawData p) \<le> 65535 \<Longrightarrow> notify_cut p = p"
  by (simp add: notify_cut_def)

lemma Notify_Decode_encoded:
  assumes "Notify_Encode p = Ret b"
  shows "Notify_Decode (b @ rest) = Ret (notify_cut p)"
proof -
  let ?dh = "s2b (nt_DeviceHash p)" and ?m = "s2b (nt_Message p)" and ?raw = "nt_RawData p"
  let ?ldh = "of_nat (length (nt_DeviceHash p)) :: u8" and ?lm = "of_nat (length (nt_Message p)) :: u8"
  let ?lr = "of_nat (length ?raw) :: u16"
  let ?n = "length ?raw mod 65536"
  from assms have len: "length (nt_DeviceHash p) \<le> 255" "length (nt_Message p) \<le> 255"
    and b: "b = nt_EventCode p # ?ldh # ?dh @ be32 (nt_Timestamp p) @ nt_Severity p # ?lm # ?m
              @ be16 ?lr @ ?raw"
    by (auto simp: Notify_Encode_def split: if_splits)
  let ?d = "nt_EventCode p # ?ldh # ?dh @ be32 (nt_Timestamp p) @ nt_Severity p # ?lm # ?m
              @ be16 ?lr @ take ?n ?raw @ drop ?n ?raw @ rest"
  have lr: "unat ?lr = ?n" by (simp add: unat_of_nat)
  have a0: "at ?d 0 ?d" by (rule at_start)
  note a1 = at_Cons [OF a0]
  note a2 = at_Cons [OF a1]
  note a3 = at_append [OF a2]
  note a4 = at_append [OF a3]
  note a5 = at_Cons [OF a4]
  note a6 = at_Cons [OF a5]
  note a7 = at_append [OF a6]
  note a8 = at_append [OF a7]
  have n: "?n \<le> length ?raw" by simp
  have "length ?d = 10 + length ?dh + length ?m + length ?raw + length rest"
    by simp
  then have "Notify_Decode ?d = Ret (notify_cut p)"
    using len n unfolding Notify_Decode_def
    by (simp add: read_byte [OF a0] read_byte [OF a1] read_slice [OF a2] read_slice [OF a3]
        read_byte [OF a4] read_byte [OF a5] read_slice [OF a6] read_slice [OF a7] read_slice [OF a8]
        unat_of_nat_u8 lr Let_def notify_cut_def del: append_take_drop_id)
  moreover have "take ?n ?raw @ drop ?n ?raw @ rest = ?raw @ rest"
    by (metis append.assoc append_take_drop_id)
  ultimately show ?thesis by (simp add: b del: append_take_drop_id)
qed

lemma Notify_Decode_no_panic [no_panic]: "Notify_Decode data \<noteq> Panic"
  unfolding Notify_Decode_def Let_def
  by (auto simp: go_bind_Panic_iff slice_def index_def get32_def get16_def split: if_splits)

lemma Notify_Decode_RetD:
  assumes "Notify_Decode data = Ret p"
  shows "\<exists>b rest. Notify_Encode p = Ret b \<and> data = b @ rest"
proof -
  from assms obtain ev n dh b ts sev m msg b' r raw where
    ev: "index data 0 = (Ret ev :: (payload_error, u8) go)" and
    n: "index data 1 = (Ret n :: (payload_error, u8) go)" and
    dh: "slice data 2 (2 + unat n) = (Ret dh :: (payload_error, bytes) go)" and
    b: "slice data (2 + unat n) (2 + unat n + 4) = (Ret b :: (payload_error, bytes) go)" and
    ts: "get32 b = (Ret ts :: (payload_error, u32) go)" and
    sev: "index data (2 + unat n + 4) = (Ret sev :: (payload_error, u8) go)" and
    m: "index data (2 + unat n + 5) = (Ret m :: (payload_error, u8) go)" and
    msg: "slice data (2 + unat n + 6) (2 + unat n + 6 + unat m) = (Ret msg :: (payload_error, bytes) go)" and
    b': "slice data (2 + unat n + 6 + unat m) (2 + unat n + 6 + unat m + 2) = (Ret b' :: (payload_error, bytes) go)" and
    r: "get16 b' = (Ret r :: (payload_error, u16) go)" and
    raw: "slice data (2 + unat n + 6 + unat m + 2) (2 + unat n + 6 + unat m + 2 + unat r) = (Ret raw :: (payload_error, bytes) go)" and
    p: "p = \<lparr>nt_EventCode = ev, nt_DeviceHash = b2s dh, nt_Timestamp = ts, nt_Severity = sev,
             nt_Message = b2s msg, nt_RawData = raw\<rparr>"
    using assms unfolding Notify_Decode_def Let_def go_bind_Ret_iff if_Ret_iff by blast
  obtain r0 where r0: "data = ev # r0" "at data 1 r0"
    using at_indexD [OF at_start ev] by auto
  obtain r1 where r1: "r0 = n # r1" "at data 2 r1"
    using at_indexD [OF r0(2) n] by (auto simp: numeral_2_eq_2)
  obtain r2 where r2: "r1 = dh @ r2" "length dh = unat n" "at data (2 + unat n) r2"
    using at_sliceD [OF r1(2) dh refl] by blast
  obtain r3 where r3: "r2 = b @ r3" "length b = 4" "at data (2 + unat n + 4) r3"
    using at_sliceD [OF r2(3) b refl] by blast
  obtain r4 where r4: "r3 = sev # r4" "at data (2 + unat n + 5) r4"
    using at_indexD [OF r3(3) sev] by auto
  obtain r5 where r5: "r4 = m # r5" "at data (2 + unat n + 6) r5"
    using at_indexD [OF r4(2) m] by auto
  obtain r6 where r6: "r5 = msg @ r6" "length msg = unat m" "at data (2 + unat n + 6 + unat m) r6"
    using at_sliceD [OF r5(2) msg refl] by blast
  obtain r7 where r7: "r6 = b' @ r7" "length b' = 2" "at data (2 + unat n + 6 + unat m + 2) r7"
    using at_sliceD [OF r6(3) b' refl] by blast
  obtain r8 where r8: "r7 = raw @ r8" "length raw = unat r"
    using at_sliceD [OF r7(3) raw refl] by blast
  have "b = be32 ts" "b' = be16 r"
    using ts r r3(2) r7(2) by (simp_all add: get32_Ret_iff get16_Ret_iff)
  then have "Notify_Encode p = Ret (ev # n # dh @ b @ sev # m # msg @ b' @ raw)"
    using r2(2) r6(2) r8(2) unat_u8_bound [of n] unat_u8_bound [of m]
    by (simp add: Notify_Encode_def p)
  moreover have "data = (ev # n # dh @ b @ sev # m # msg @ b' @ raw) @ r8"
    by (simp add: r0(1) r1(1) r2(1) r3(1) r4(1) r5(1) r6(1) r7(1) r8(1))
  ultimately show ?thesis by blast
qed

section \<open>The codec interface\<close>

text \<open>
  What \<^verbatim>\<open>Packable\<close> promises: the decoder undoes the encoder on every payload the encoder can carry
  (\<open>ok\<close>), accepts only an encoding followed by bytes it ignores, and does not panic.
\<close>

locale wire_codec =
  fixes enc :: "'p \<Rightarrow> (payload_error, bytes) go"
    and dec :: "bytes \<Rightarrow> (payload_error, 'p) go"
    and ok :: "'p \<Rightarrow> bool"
  assumes dec_enc: "enc p = Ret b \<Longrightarrow> ok p \<Longrightarrow> dec (b @ rest) = Ret p"
    and dec_RetD: "dec data = Ret p \<Longrightarrow> ok p \<and> (\<exists>b rest. enc p = Ret b \<and> data = b @ rest)"
    and dec_no_panic: "dec data \<noteq> Panic"
begin

lemma dec_Ret_iff: "dec data = Ret p \<longleftrightarrow> ok p \<and> (\<exists>b rest. enc p = Ret b \<and> data = b @ rest)"
  using dec_enc dec_RetD by blast

lemma prefix_free: "enc p = Ret b \<Longrightarrow> enc q = Ret c \<Longrightarrow> ok p \<Longrightarrow> ok q \<Longrightarrow> b @ x = c @ y \<Longrightarrow> p = q"
  using dec_enc [of p b x] dec_enc [of q c y] by simp

lemma enc_inject: "enc p = Ret b \<Longrightarrow> enc q = Ret b \<Longrightarrow> ok p \<Longrightarrow> ok q \<Longrightarrow> p = q"
  using prefix_free [of p b q b "[]" "[]"] by simp

lemma dec_extend: "dec data = Ret p \<Longrightarrow> dec (data @ tail) = Ret p"
  unfolding dec_Ret_iff by auto

end

lemma Upload_Decode_count: "Upload_Decode data = Ret p \<Longrightarrow> length (up_Readings p) < 2 ^ 32"
proof -
  assume a: "Upload_Decode data = Ret p"
  then obtain c :: u32 and rs where
    rs: "decode_readings (unat c) data 4 [] = Ret rs" and p: "p = \<lparr>up_Readings = rs\<rparr>" and
    len: "4 \<le> length data"
    by (auto simp: Upload_Decode_def Let_def go_bind_Ret_iff split: if_splits)
  have "at data 4 (drop 4 data)" using len by (simp add: at_def)
  then have "length rs = unat c" using decode_readings_RetD [OF _ rs] by fastforce
  moreover have "unat c < 2 ^ 32" using unsigned_less [of c] by simp
  ultimately show ?thesis using p by simp
qed

lemma Notify_Decode_raw: "Notify_Decode data = Ret p \<Longrightarrow> length (nt_RawData p) \<le> 65535"
proof -
  assume "Notify_Decode data = Ret p"
  then obtain lo r where raw: "slice data lo (lo + unat (r :: u16)) = (Ret (nt_RawData p) :: (payload_error, bytes) go)"
    unfolding Notify_Decode_def Let_def go_bind_Ret_iff if_Ret_iff by auto
  then have "length (nt_RawData p) = unat r" by (auto dest: slice_Ret_length)
  then show ?thesis using unat_u16_bound [of r] by simp
qed

interpretation handshake: wire_codec Handshake_Encode Handshake_Decode "\<lambda>p. True"
  by unfold_locales
     (blast intro: Handshake_Decode_encoded dest: Handshake_Decode_RetD Handshake_Decode_no_panic [THEN notE])+

interpretation ack: wire_codec Ack_Encode Ack_Decode "\<lambda>p. True"
  by unfold_locales
     (blast intro: Ack_Decode_encoded dest: Ack_Decode_RetD Ack_Decode_no_panic [THEN notE])+

interpretation upload: wire_codec Upload_Encode Upload_Decode "\<lambda>p. length (up_Readings p) < 2 ^ 32"
  by unfold_locales
     (blast intro: Upload_Decode_encoded
       dest: Upload_Decode_RetD Upload_Decode_count Upload_Decode_no_panic [THEN notE])+

interpretation notify: wire_codec Notify_Encode Notify_Decode "\<lambda>p. length (nt_RawData p) \<le> 65535"
  by unfold_locales
     (metis Notify_Decode_encoded notify_cut_id,
      blast dest: Notify_Decode_RetD Notify_Decode_raw, rule Notify_Decode_no_panic)

section \<open>Properties\<close>

text \<open>
  C6. The upload decoder succeeds exactly on an encoding, followed by any bytes: a batch of
  readings comes back as it was sent, whatever its strings hold, and nothing else is accepted as a
  batch. (The guard against a huge reading count never rejects an encoding.)
\<close>

theorem Upload_Decode_iff:
  "Upload_Decode data = Ret p \<longleftrightarrow>
     length (up_Readings p) < 2 ^ 32 \<and> (\<exists>b rest. Upload_Encode p = Ret b \<and> data = b @ rest)"
  by (rule upload.dec_Ret_iff)

text \<open>
  The handshake and ack decoders succeed exactly on an encoding followed by any bytes, so the
  serial number, the token and the reason code arrive as they were sent.
\<close>

theorem Handshake_Ack_Decode_iff:
  "(Handshake_Decode data = Ret p \<longleftrightarrow> (\<exists>b rest. Handshake_Encode p = Ret b \<and> data = b @ rest))
   \<and> (Ack_Decode data = Ret a \<longleftrightarrow> (\<exists>rest. data = be16 (ack_MsgID a) @ [ack_Code a] @ rest))"
  using handshake.dec_Ret_iff [of data p] ack.dec_Ret_iff [of data a]
  by (auto simp: Ack_Encode_def)

text \<open>
  No input makes a payload decoder panic: every index and slice expression of the five
  decoders is in range on every byte string.
\<close>

theorem decoders_never_panic:
  "Handshake_Decode data \<noteq> Panic \<and> Ack_Decode data \<noteq> Panic \<and> Upload_Decode data \<noteq> Panic
   \<and> Heartbeat_Decode data \<noteq> Panic \<and> Notify_Decode data \<noteq> Panic"
  by (simp add: no_panic Heartbeat_Decode_def)

text \<open>
  A notification comes back with its raw data cut to the length modulo 65536: intact up to
  65535 bytes, silently truncated above, because the encoder checks the other two lengths only.
\<close>

theorem Notify_roundtrip_cut:
  assumes "Notify_Encode p = Ret b"
  shows "Notify_Decode (b @ rest)
       = Ret (p\<lparr>nt_RawData := take (length (nt_RawData p) mod 65536) (nt_RawData p)\<rparr>)"
  using Notify_Decode_encoded [OF assms] by (simp add: notify_cut_def)

theorem Notify_roundtrip_cut_witness:
  "let p = \<lparr>nt_EventCode = 2, nt_DeviceHash = ''ab'', nt_Timestamp = 7, nt_Severity = 0,
            nt_Message = ''device offline'', nt_RawData = replicate 65537 1\<rparr>
   in \<exists>b. Notify_Encode p = Ret b \<and> Notify_Decode (b @ [9]) = Ret (p\<lparr>nt_RawData := [1]\<rparr>)"
proof -
  let ?p = "\<lparr>nt_EventCode = 2, nt_DeviceHash = ''ab'', nt_Timestamp = 7, nt_Severity = 0,
             nt_Message = ''device offline'', nt_RawData = replicate 65537 1\<rparr>"
  obtain b where b: "Notify_Encode ?p = Ret b" by (simp add: Notify_Encode_def)
  have "take 1 (replicate 65537 (1 :: u8)) = [1]" by (simp add: take_replicate)
  then show ?thesis using b Notify_roundtrip_cut [OF b, of "[9]"] by (simp add: Let_def)
qed

end
