(* ===== verification/Checksum.thy ===== *)
theory Checksum
  imports Prelude
begin

unbundle bit_operations_syntax

text \<open>
  \<^verbatim>\<open>internal/utils/checksum.go\<close>: the CRC-16/CCITT checksum of a frame, computed with a table that
  an \<^verbatim>\<open>init\<close> function fills. The lemmas show that the table-driven loop is the bit-serial CRC,
  and that no error confined to two adjacent bytes leaves the checksum unchanged.
\<close>

section \<open>The code\<close>

definition crc16Poly :: u16 where "crc16Poly = 0x1021"
definition crc16Init :: u16 where "crc16Init = 0xFFFF"

text \<open>One turn of the inner loop of \<^verbatim>\<open>init\<close>.\<close>

definition crc_shift :: "u16 \<Rightarrow> u16" where
  "crc_shift crc = (if crc AND 0x8000 \<noteq> 0 then push_bit 1 crc XOR crc16Poly else push_bit 1 crc)"

definition crc_entry :: "nat \<Rightarrow> u16" where
  "crc_entry i = (crc_shift ^^ 8) (push_bit 8 (of_nat i))"

definition crc16Table :: "u16 list" where
  "crc16Table = map crc_entry [0..<256]"

text \<open>One turn of the loop of \<^verbatim>\<open>CalChecksum\<close>; the index is a byte, so it is in range of the table.\<close>

definition crc_step :: "u16 \<Rightarrow> u8 \<Rightarrow> u16" where
  "crc_step crc b = push_bit 8 crc XOR crc16Table ! unat (ucast (drop_bit 8 crc) XOR b)"

definition CalChecksum :: "bytes \<Rightarrow> u16" where
  "CalChecksum payload = foldl crc_step crc16Init payload"

section \<open>The bit-serial reference\<close>

text \<open>
  The register of a serial CRC: each message bit, most significant first, is added to the top bit
  of the register before the shift.
\<close>

definition crc_bit :: "u16 \<Rightarrow> bool \<Rightarrow> u16" where
  "crc_bit crc m = crc_shift (if m then crc XOR 0x8000 else crc)"

definition byte_bits :: "u8 \<Rightarrow> bool list" where
  "byte_bits b = map (bit b) [7, 6, 5, 4, 3, 2, 1, 0]"

definition crc_serial :: "bytes \<Rightarrow> u16" where
  "crc_serial bs = foldl crc_bit crc16Init (concat (map byte_bits bs))"

section \<open>Algebra of the shift\<close>

declare push_bit_Suc [simp del]

lemma and_top_bit: "c AND 0x8000 \<noteq> 0 \<longleftrightarrow> bit c 15" for c :: u16
  using and_exp_eq_0_iff_not_bit [of c 15] by simp

lemma crc_shift_bit: "crc_shift c = (if bit c 15 then push_bit 1 c XOR crc16Poly else push_bit 1 c)"
  by (simp add: crc_shift_def and_top_bit)

lemma crc_shift_xor: "crc_shift (a XOR b) = crc_shift a XOR crc_shift b"
  by (simp add: crc_shift_bit bit_xor_iff ac_simps)

lemma crc_shift_eq_0: "crc_shift x = 0 \<Longrightarrow> x = 0"
proof -
  assume z: "crc_shift x = 0"
  have "bit (crc_shift x) 0 = bit x 15"
    by (simp add: crc_shift_bit crc16Poly_def bit_simps)
  with z have top: "\<not> bit x 15" by simp
  with z have "push_bit 1 x = 0" by (simp add: crc_shift_bit)
  then have "bit (push_bit 1 x) (Suc i) = False" for i by simp
  then have "\<not> bit x i" if "i < 15" for i
    using that by (auto simp: bit_push_bit_iff)
  with top have "\<not> bit x i" if "i < 16" for i
    using that by (cases "i = 15") auto
  then show "x = 0" by (intro bit_eqI) simp
qed

abbreviation crc_shift8 :: "u16 \<Rightarrow> u16" where
  "crc_shift8 \<equiv> crc_shift ^^ 8"

lemma crc_pow_xor: "(crc_shift ^^ n) (a XOR b) = (crc_shift ^^ n) a XOR (crc_shift ^^ n) b"
  by (induction n arbitrary: a b) (simp_all add: crc_shift_xor funpow_swap1)

lemma crc_pow_eq_0: "(crc_shift ^^ n) x = 0 \<Longrightarrow> x = 0"
  by (induction n) (auto dest: crc_shift_eq_0)

lemma crc_pow_inject: "(crc_shift ^^ n) a = (crc_shift ^^ n) b \<longleftrightarrow> a = b"
proof
  assume "(crc_shift ^^ n) a = (crc_shift ^^ n) b"
  then have "(crc_shift ^^ n) (a XOR b) = 0" by (simp add: crc_pow_xor)
  then have "a XOR b = 0" by (rule crc_pow_eq_0)
  then show "a = b" by simp
qed simp

lemma crc_pow_low:
  assumes "\<And>i. bit a i \<Longrightarrow> i + n < 16"
  shows "(crc_shift ^^ n) a = push_bit n a"
  using assms
proof (induction n)
  case 0
  show ?case by simp
next
  case (Suc n)
  then have "(crc_shift ^^ n) a = push_bit n a" by fastforce
  moreover have "\<not> bit (push_bit n a) 15"
    using Suc.prems by (fastforce simp: bit_push_bit_iff)
  ultimately have "(crc_shift ^^ Suc n) a = push_bit 1 (push_bit n a)"
    by (simp add: crc_shift_bit [of "push_bit n a"])
  then show ?case by (simp add: push_bit_push_bit)
qed

lemma crc_pow_byte: "crc_shift8 (ucast (b :: u8)) = push_bit 8 (ucast b)"
  by (rule crc_pow_low) (auto simp: bit_ucast_iff dest!: bit_imp_le_length)

section \<open>Both checksums, as shifts of the register\<close>

lemma crc_entry_byte: "crc16Table ! unat (b :: u8) = crc_shift8 (push_bit 8 (ucast b))"
proof -
  have "unat b < 256" using unsigned_less [of b] by simp
  then show ?thesis by (simp add: crc16Table_def crc_entry_def)
qed

lemma crc_split_register: "c = push_bit 8 (ucast (ucast (drop_bit 8 c) :: u8)) XOR ucast (ucast c :: u8)"
  for c :: u16
  by (rule bit_eqI) (auto simp: bit_simps)

lemma crc_step_shift: "crc_step c b = crc_shift8 (c XOR push_bit 8 (ucast b))"
proof -
  let ?hi = "ucast (drop_bit 8 c) :: u8" and ?lo = "ucast c :: u8"
  have "c XOR push_bit 8 (ucast b) = push_bit 8 (ucast (?hi XOR b)) XOR ucast ?lo"
    by (rule bit_eqI) (auto simp: bit_simps)
  then have "crc_shift8 (c XOR push_bit 8 (ucast b))
      = crc_shift8 (push_bit 8 (ucast (?hi XOR b))) XOR push_bit 8 (ucast ?lo)"
    by (simp only: crc_pow_xor crc_pow_byte)
  moreover have "push_bit 8 (ucast ?lo) = push_bit 8 c"
    by (rule bit_eqI) (auto simp: bit_simps)
  ultimately show ?thesis
    by (simp only: crc_step_def crc_entry_byte xor.commute)
qed

lemma crc_bit_xor: "crc_bit c m = crc_shift (c XOR (if m then 0x8000 else 0))"
  by (simp add: crc_bit_def)

lemma crc_serial_bits:
  "n \<le> 8 \<Longrightarrow> foldl crc_bit c (map (bit (b :: u8)) (rev [0..<n]))
     = (crc_shift ^^ n) (c XOR push_bit (16 - n) (take_bit n (ucast b)))"
proof (induction n arbitrary: c)
  case 0
  show ?case by simp
next
  case (Suc n)
  let ?top = "if bit b n then 0x8000 else (0 :: u16)"
  let ?low = "push_bit (15 - n) (take_bit n (ucast b :: u16))"
  have "\<not> bit ?low 15" using Suc.prems by (auto simp: bit_simps)
  then have low: "crc_shift ?low = push_bit (16 - n) (take_bit n (ucast b))"
    using Suc.prems by (simp add: crc_shift_bit push_bit_push_bit Suc_diff_le [symmetric])
  have "(0x8000 :: u16) = push_bit 15 1" by simp
  then have top_bit: "bit (0x8000 :: u16) i \<longleftrightarrow> i = 15" for i
    by (simp only: bit_push_bit_iff bit_1_iff) auto
  have split: "push_bit (15 - n) (take_bit (Suc n) (ucast b :: u16)) = ?top XOR ?low"
  proof (rule bit_eqI)
    fix i assume "possible_bit TYPE(16 word) i"
    then have "i < 16" by simp
    show "bit (push_bit (15 - n) (take_bit (Suc n) (ucast b :: u16))) i = bit (?top XOR ?low) i"
    proof (cases "i = 15")
      case True
      then show ?thesis using Suc.prems by (auto simp: bit_simps top_bit simp del: bit_numeral_word_iff)
    next
      case False
      then have "15 - n \<le> i \<and> i - (15 - n) < Suc n \<longleftrightarrow> 15 - n \<le> i \<and> i - (15 - n) < n"
        using Suc.prems \<open>i < 16\<close> by presburger
      with False show ?thesis
        by (auto simp: bit_xor_iff bit_push_bit_iff bit_take_bit_iff top_bit
              simp del: bit_numeral_word_iff)
    qed
  qed
  have "foldl crc_bit c (map (bit b) (rev [0..<Suc n]))
      = foldl crc_bit (crc_shift (c XOR ?top)) (map (bit b) (rev [0..<n]))"
    by (simp add: crc_bit_xor)
  also have "\<dots> = (crc_shift ^^ n) (crc_shift (c XOR ?top) XOR crc_shift ?low)"
    using Suc by (simp add: low)
  also have "\<dots> = (crc_shift ^^ Suc n) (c XOR (?top XOR ?low))"
    by (simp add: crc_shift_xor crc_pow_xor funpow_swap1 ac_simps)
  finally have "foldl crc_bit c (map (bit b) (rev [0..<Suc n]))
      = (crc_shift ^^ Suc n) (c XOR (?top XOR ?low))" .
  moreover have "16 - Suc n = 15 - n" by simp
  ultimately show ?case by (simp only: split)
qed

lemma crc_serial_byte: "foldl crc_bit c (byte_bits b) = crc_step c b"
proof -
  have "byte_bits b = map (bit b) (rev [0..<8])" by (simp add: byte_bits_def upt_rec numeral_eq_Suc)
  moreover have "take_bit 8 (ucast b :: u16) = ucast b"
    by (rule bit_eqI) (auto simp: bit_simps dest: bit_imp_le_length)
  ultimately show ?thesis using crc_serial_bits [of 8 c b] by (simp add: crc_step_shift)
qed

lemma crc_serial_foldl: "foldl crc_bit c (concat (map byte_bits bs)) = foldl crc_step c bs"
  by (induction bs arbitrary: c) (simp_all add: crc_serial_byte)

section \<open>Error detection\<close>

lemma crc_step_inject_register: "crc_step c b = crc_step d b \<longleftrightarrow> c = d"
  by (simp add: crc_step_shift crc_pow_inject)

lemma crc_foldl_inject: "foldl crc_step c bs = foldl crc_step d bs \<longleftrightarrow> c = d"
  by (induction bs arbitrary: c d) (simp_all add: crc_step_inject_register)

lemma crc_step_inject_byte: "crc_step c b = crc_step c b' \<longleftrightarrow> b = b'"
proof
  assume "crc_step c b = crc_step c b'"
  then have "push_bit 8 (ucast b :: u16) = push_bit 8 (ucast b')"
    by (simp add: crc_step_shift crc_pow_inject)
  then have "bit (push_bit 8 (ucast b :: u16)) (8 + i) = bit (push_bit 8 (ucast b' :: u16)) (8 + i)" for i
    by simp
  note eq = this
  have "bit b i = bit b' i" if "i < 8" for i
    using eq [of i] that by (simp add: bit_push_bit_iff bit_ucast_iff)
  then show "b = b'" by (intro bit_eqI) simp
qed simp

text \<open>
  One changed byte always changes the checksum; so does any change of two neighbouring bytes (a
  burst of up to sixteen bits within them). Positions are split off with \<open>pre\<close> and \<open>post\<close>.
\<close>

lemma CalChecksum_one_byte:
  "b \<noteq> b' \<Longrightarrow> CalChecksum (pre @ b # post) \<noteq> CalChecksum (pre @ b' # post)"
  by (simp add: CalChecksum_def crc_foldl_inject crc_step_inject_byte)

lemma crc_step_two_bytes:
  assumes "crc_step (crc_step c b1) b2 = crc_step (crc_step c d1) d2"
  shows "b1 = d1 \<and> b2 = d2"
proof -
  let ?e1 = "b1 XOR d1" and ?e2 = "b2 XOR d2"
  have push: "push_bit 8 (ucast (x XOR y :: u8)) = push_bit 8 (ucast x) XOR push_bit 8 (ucast y :: u16)" for x y
    by (rule bit_eqI) (auto simp: bit_simps)
  from assms have "crc_step c b1 XOR push_bit 8 (ucast b2) = crc_step c d1 XOR push_bit 8 (ucast d2)"
    by (simp add: crc_step_shift [of "crc_step c _"] crc_pow_inject)
  then have "crc_step c b1 XOR crc_step c d1 = push_bit 8 (ucast ?e2)"
    unfolding push by (rule xor_swap)
  moreover have "crc_step c b1 XOR crc_step c d1 = crc_shift8 (push_bit 8 (ucast ?e1))"
    by (simp only: push crc_step_shift crc_pow_xor [symmetric] xor_common)
  ultimately have "crc_shift8 (push_bit 8 (ucast ?e1)) = crc_shift8 (ucast ?e2)"
    by (simp add: crc_pow_byte)
  then have e: "push_bit 8 (ucast ?e1) = (ucast ?e2 :: u16)"
    by (simp add: crc_pow_inject)
  have z: "bit (push_bit 8 (ucast ?e1) :: u16) i = bit (ucast ?e2 :: u16) i" for i
    by (simp only: e)
  have "\<not> bit ?e1 i" if "i < 8" for i
    using z [of "8 + i"] that by (auto simp: bit_push_bit_iff bit_ucast_iff dest: bit_imp_le_length)
  moreover have "\<not> bit ?e2 i" if "i < 8" for i
    using z [of i] that by (auto simp: bit_push_bit_iff bit_ucast_iff)
  ultimately have "?e1 = 0" "?e2 = 0" by (auto intro!: bit_eqI simp del: xor_eq_0_iff bit_xor_iff)
  then show ?thesis by simp
qed

lemma CalChecksum_two_bytes:
  "(b1, b2) \<noteq> (d1, d2) \<Longrightarrow>
     CalChecksum (pre @ b1 # b2 # post) \<noteq> CalChecksum (pre @ d1 # d2 # post)"
  by (auto simp: CalChecksum_def crc_foldl_inject dest: crc_step_two_bytes)

text \<open>
  Rewrite rules that evaluate the checksum of a concrete message: the eight shifts written out, on
  literals kept below \<^verbatim>\<open>2^16\<close>.
\<close>

lemma word16_and_mask: "w AND 0xFFFF = w" for w :: u16
proof -
  have "(0xFFFF :: u16) = mask 16" by (simp add: mask_eq_exp_minus_1)
  then show ?thesis by (simp only: take_bit_eq_mask [symmetric]) (rule take_bit_word_eq_self, simp)
qed

lemma crc_shift_numeral:
  "crc_shift (numeral n) =
     (if numeral n AND 0x8000 \<noteq> (0 :: u16) then (push_bit 1 (numeral n) XOR 0x1021) AND 0xFFFF
      else push_bit 1 (numeral n) AND 0xFFFF)"
  by (simp only: crc_shift_def crc16Poly_def word16_and_mask)

lemma crc_shift_0_1: "crc_shift 0 = 0" "crc_shift 1 = 2"
  by (simp_all add: crc_shift_def)

lemma funpow_8: "(f ^^ 8) x = f (f (f (f (f (f (f (f x)))))))"
  by (simp add: numeral_eq_Suc)

lemmas crc_eval = CalChecksum_def crc16Init_def crc_step_shift crc_shift_numeral crc_shift_0_1 funpow_8

text \<open>The check value of CRC-16/CCITT-FALSE, over the nine ASCII digits.\<close>

lemma CalChecksum_check_value: "CalChecksum (s2b ''123456789'') = 0x29B1"
  by (simp add: crc_eval s2b_def)

section \<open>Properties\<close>

text \<open>
  C21. The table-driven loop of \<^verbatim>\<open>CalChecksum\<close>, over the table that \<^verbatim>\<open>init\<close> builds, is the bit-serial
  CRC-16/CCITT with initial value 0xFFFF, for every input.
\<close>

theorem CalChecksum_is_serial_crc: "CalChecksum payload = crc_serial payload"
  by (simp add: CalChecksum_def crc_serial_def crc_serial_foldl)

end
