(* ===== verification/Frame.thy ===== *)
theory Frame
  imports Payload Checksum
begin

text \<open>
  \<^verbatim>\<open>internal/msg/msg.go\<close> and \<^verbatim>\<open>internal/utils/timestamp.go\<close>: the frame of the TLV tunnel, the
  message factory with its identifier generator, the frame encoder and decoder, and the registry
  that turns a frame into a payload.

  A connection (\<^verbatim>\<open>net.Conn\<close>) is the bytes still to come from the peer, how the stream ends after
  them, the writes done so far and how many more will succeed. A read that returns an error is
  always the last thing its caller does with the connection, so errors carry no connection.
\<close>

section \<open>Timestamps\<close>

definition CUSTOM_EPOCH :: int where "CUSTOM_EPOCH = 1577836800000"

definition FromUnixMilli :: "int \<Rightarrow> u32" where
  "FromUnixMilli t = word_of_int (t - CUSTOM_EPOCH)"

definition ToUnixMilli :: "u32 \<Rightarrow> int" where
  "ToUnixMilli ts = uint ts + CUSTOM_EPOCH"

text \<open>\<^verbatim>\<open>NewTimestamp\<close> reads the clock; \<open>now\<close> is \<^verbatim>\<open>time.Now().UnixMilli()\<close>.\<close>

definition NewTimestamp :: "int \<Rightarrow> u32" where
  "NewTimestamp now = word_of_int (now - CUSTOM_EPOCH)"

section \<open>Constants\<close>

definition MagicNumber :: u16 where "MagicNumber = 0x4E59"
definition HeaderSize :: nat where "HeaderSize = 2 + 1 + 1 + 1 + 2 + 2 + 4"
definition ChecksumSize :: nat where "ChecksumSize = 2"
definition frame_version :: u8 where "frame_version = 1"

definition MsgTypeHandshake :: u8 where "MsgTypeHandshake = 1"
definition MsgTypeHandshakeAck :: u8 where "MsgTypeHandshakeAck = 2"
definition MsgTypeUpload :: u8 where "MsgTypeUpload = 3"
definition MsgTypeUploadAck :: u8 where "MsgTypeUploadAck = 4"
definition MsgTypeHeartbeat :: u8 where "MsgTypeHeartbeat = 5"
definition MsgTypeHeartbeatAck :: u8 where "MsgTypeHeartbeatAck = 6"
definition MsgTypeNotify :: u8 where "MsgTypeNotify = 7"

lemmas MsgType_defs = MsgTypeHandshake_def MsgTypeHandshakeAck_def MsgTypeUpload_def
  MsgTypeUploadAck_def MsgTypeHeartbeat_def MsgTypeHeartbeatAck_def MsgTypeNotify_def

definition code_Ok :: u8 where "code_Ok = 1"
definition code_Failed :: u8 where "code_Failed = 2"
definition code_BadSn :: u8 where "code_BadSn = 3"
definition code_BadToken :: u8 where "code_BadToken = 4"

lemmas code_defs = code_Ok_def code_Failed_def code_BadSn_def code_BadToken_def

lemma HeaderSize_eq: "HeaderSize = 13"
  by (simp add: HeaderSize_def)

section \<open>Messages and the factory\<close>

record Msg =
  m_Magic :: u16
  m_Version :: u8
  m_Flags :: u8
  m_Type :: u8
  m_MsgID :: u16
  m_PayloadLen :: u16
  m_Timestamp :: u32
  m_Payload :: bytes
  m_Checksum :: u16

text \<open>The values behind the interface \<^verbatim>\<open>Packable\<close>.\<close>

datatype Packable =
    PHandshake HandshakePayload
  | PAck AckPayload
  | PUpload UploadPayload
  | PHeartbeat
  | PNotify NotifyPayload

fun Packable_Encode :: "Packable \<Rightarrow> (payload_error, bytes) go" where
  "Packable_Encode (PHandshake p) = Handshake_Encode p"
| "Packable_Encode (PAck p) = Ack_Encode p"
| "Packable_Encode (PUpload p) = Upload_Encode p"
| "Packable_Encode PHeartbeat = Heartbeat_Encode"
| "Packable_Encode (PNotify p) = Notify_Encode p"

text \<open>The factory holds the 32-bit counter of its \<^verbatim>\<open>atomicIdGenerator\<close>.\<close>

record MsgFactory =
  fct_current :: u32

definition NewMsgFactory :: MsgFactory where
  "NewMsgFactory = \<lparr>fct_current = 0\<rparr>"

definition Next :: "MsgFactory \<Rightarrow> u16 \<times> MsgFactory" where
  "Next g = (let c = fct_current g + 1 in (ucast (c mod 65536), g\<lparr>fct_current := c\<rparr>))"

definition NewMsg :: "MsgFactory \<Rightarrow> int \<Rightarrow> u8 \<Rightarrow> Packable \<Rightarrow> (payload_error, Msg \<times> MsgFactory) go" where
  "NewMsg f now t packet =
     go_bind (Packable_Encode packet) (\<lambda>payload.
     let (mid, f') = Next f in
     Ret (\<lparr>m_Magic = MagicNumber, m_Version = frame_version, m_Flags = 0, m_Type = t,
           m_MsgID = mid, m_PayloadLen = of_nat (length payload), m_Timestamp = NewTimestamp now,
           m_Payload = payload, m_Checksum = 0\<rparr>, f'))"

section \<open>The frame encoder\<close>

definition frame_header :: "Msg \<Rightarrow> bytes" where
  "frame_header m = be16 (m_Magic m) @ [m_Version m] @ [m_Flags m] @ [m_Type m] @ be16 (m_MsgID m)
     @ be16 (of_nat (length (m_Payload m))) @ be32 (m_Timestamp m)"

text \<open>\<^verbatim>\<open>Encode\<close> returns the frame and stores the checksum in the message.\<close>

definition Msg_Encode :: "Msg \<Rightarrow> bytes \<times> Msg" where
  "Msg_Encode m =
     (let buf = frame_header m @ m_Payload m;
          checksum = CalChecksum buf
      in (buf @ be16 checksum, m\<lparr>m_Checksum := checksum\<rparr>))"

section \<open>Connections\<close>

datatype io_error = IoEOF | IoUnexpectedEOF | IoTimeout | IoReset

datatype stream_end = EndEOF | EndTimeout | EndReset

record conn =
  c_in :: bytes
  c_end :: stream_end
  c_out :: "bytes list"
  c_writes_left :: nat

text \<open>\<^verbatim>\<open>io.ReadFull\<close> on a non-empty buffer of \<open>n\<close> bytes.\<close>

definition ReadFull :: "conn \<Rightarrow> nat \<Rightarrow> (io_error, bytes \<times> conn) go" where
  "ReadFull c n =
     (if n \<le> length (c_in c) then Ret (take n (c_in c), c\<lparr>c_in := drop n (c_in c)\<rparr>)
      else Fail (case c_end c of
                   EndEOF \<Rightarrow> (if c_in c = [] then IoEOF else IoUnexpectedEOF)
                 | EndTimeout \<Rightarrow> IoTimeout
                 | EndReset \<Rightarrow> IoReset))"

text \<open>\<^verbatim>\<open>conn.Write\<close>: the bytes are gone to the peer, or nothing is and the caller sees an error.\<close>

definition conn_Write :: "conn \<Rightarrow> bytes \<Rightarrow> bool \<times> conn" where
  "conn_Write c b =
     (case c_writes_left c of
        0 \<Rightarrow> (False, c)
      | Suc n \<Rightarrow> (True, c\<lparr>c_out := c_out c @ [b], c_writes_left := n\<rparr>))"

section \<open>The frame decoder\<close>

datatype frame_error = ErrInvalidMagic | ErrChecksumMismatch | IoError io_error

definition DecodeFrame :: "conn \<Rightarrow> (frame_error, Msg \<times> conn) go" where
  "DecodeFrame c =
     go_bind (map_err IoError (ReadFull c HeaderSize)) (\<lambda>(headerBuf, c).
     go_bind (slice headerBuf 0 2) (\<lambda>b. go_bind (get16 b) (\<lambda>magic.
     if magic \<noteq> MagicNumber then Fail ErrInvalidMagic else
     go_bind (index headerBuf 2) (\<lambda>ver.
     go_bind (index headerBuf 3) (\<lambda>flags.
     go_bind (index headerBuf 4) (\<lambda>ty.
     go_bind (slice headerBuf 5 7) (\<lambda>b. go_bind (get16 b) (\<lambda>mid.
     go_bind (slice headerBuf 7 9) (\<lambda>b. go_bind (get16 b) (\<lambda>plen.
     go_bind (slice headerBuf 9 13) (\<lambda>b. go_bind (get32 b) (\<lambda>ts.
     go_bind (map_err IoError (ReadFull c (unat plen + ChecksumSize))) (\<lambda>(restBuf, c).
     go_bind (slice restBuf 0 (unat plen)) (\<lambda>payload.
     go_bind (slice restBuf (unat plen) (length restBuf)) (\<lambda>b. go_bind (get16 b) (\<lambda>checksum.
     if CalChecksum (headerBuf @ payload) \<noteq> checksum then Fail ErrChecksumMismatch else
     Ret (\<lparr>m_Magic = magic, m_Version = ver, m_Flags = flags, m_Type = ty, m_MsgID = mid,
           m_PayloadLen = plen, m_Timestamp = ts, m_Payload = payload,
           m_Checksum = checksum\<rparr>, c)))))))))))))))))"

section \<open>The registry of payload constructors\<close>

datatype parse_error = UnknownPacketType | PayloadError payload_error

type_synonym packet_registry = "u8 \<rightharpoonup> (Msg \<Rightarrow> (payload_error, Packable) go)"

definition RegisterPacketType :: "packet_registry \<Rightarrow> u8 \<Rightarrow> (Msg \<Rightarrow> (payload_error, Packable) go) \<Rightarrow> packet_registry" where
  "RegisterPacketType reg t ctor = reg(t \<mapsto> ctor)"

definition UnregisterPacketType :: "packet_registry \<Rightarrow> u8 \<Rightarrow> packet_registry" where
  "UnregisterPacketType reg t = reg(t := None)"

definition decodeHandshake :: "Msg \<Rightarrow> (payload_error, Packable) go" where
  "decodeHandshake m = go_bind (Handshake_Decode (m_Payload m)) (\<lambda>p. Ret (PHandshake p))"

definition decodeUpload :: "Msg \<Rightarrow> (payload_error, Packable) go" where
  "decodeUpload m = go_bind (Upload_Decode (m_Payload m)) (\<lambda>p. Ret (PUpload p))"

definition decodeHeartbeat :: "Msg \<Rightarrow> (payload_error, Packable) go" where
  "decodeHeartbeat m = go_bind (Heartbeat_Decode (m_Payload m)) (\<lambda>_. Ret PHeartbeat)"

definition decodeNotify :: "Msg \<Rightarrow> (payload_error, Packable) go" where
  "decodeNotify m = go_bind (Notify_Decode (m_Payload m)) (\<lambda>p. Ret (PNotify p))"

definition decodeAck :: "Msg \<Rightarrow> (payload_error, Packable) go" where
  "decodeAck m = go_bind (Ack_Decode (m_Payload m)) (\<lambda>p. Ret (PAck p))"

text \<open>The registry after the package's \<^verbatim>\<open>init\<close>.\<close>

definition init_registry :: packet_registry where
  "init_registry =
     (let reg = RegisterPacketType Map.empty MsgTypeHandshake decodeHandshake;
          reg = RegisterPacketType reg MsgTypeUpload decodeUpload;
          reg = RegisterPacketType reg MsgTypeHeartbeat decodeHeartbeat;
          reg = RegisterPacketType reg MsgTypeNotify decodeNotify;
          reg = RegisterPacketType reg MsgTypeHandshakeAck decodeAck;
          reg = RegisterPacketType reg MsgTypeUploadAck decodeAck
      in RegisterPacketType reg MsgTypeHeartbeatAck decodeAck)"

definition ParseMsg_in :: "packet_registry \<Rightarrow> Msg \<Rightarrow> (parse_error, Packable) go" where
  "ParseMsg_in reg m =
     (case reg (m_Type m) of
        None \<Rightarrow> Fail UnknownPacketType
      | Some ctor \<Rightarrow> map_err PayloadError (ctor m))"

definition ParseMsg :: "Msg \<Rightarrow> (parse_error, Packable) go" where
  "ParseMsg m = ParseMsg_in init_registry m"

section \<open>What the decoder accepts\<close>

text \<open>The fields of a header of thirteen bytes.\<close>

definition header_msg :: "bytes \<Rightarrow> bytes \<Rightarrow> u16 \<Rightarrow> Msg" where
  "header_msg h payload checksum =
     \<lparr>m_Magic = be_val (take 2 h), m_Version = h ! 2, m_Flags = h ! 3, m_Type = h ! 4,
      m_MsgID = be_val (take 2 (drop 5 h)), m_PayloadLen = be_val (take 2 (drop 7 h)),
      m_Timestamp = be_val (take 4 (drop 9 h)), m_Payload = payload, m_Checksum = checksum\<rparr>"

definition header_plen :: "bytes \<Rightarrow> nat" where
  "header_plen h = unat (be_val (take 2 (drop 7 h)) :: u16)"

lemma ReadFull_enough: "n \<le> length (c_in c) \<Longrightarrow> ReadFull c n = Ret (take n (c_in c), c\<lparr>c_in := drop n (c_in c)\<rparr>)"
  by (simp add: ReadFull_def)

lemma ReadFull_short: "length (c_in c) < n \<Longrightarrow> \<exists>e. ReadFull c n = Fail e"
  by (simp add: ReadFull_def)

lemma DecodeFrame_split:
  assumes inp: "c_in c = h @ pl @ ck @ rest" and h: "length h = 13"
    and pl: "length pl = header_plen h" and ck: "length ck = 2"
  shows "DecodeFrame c =
    (if be_val (take 2 h) \<noteq> MagicNumber then Fail ErrInvalidMagic
     else if CalChecksum (h @ pl) \<noteq> be_val ck then Fail ErrChecksumMismatch
     else Ret (header_msg h pl (be_val ck), c\<lparr>c_in := rest\<rparr>))"
proof -
  have r1: "ReadFull c HeaderSize = Ret (h, c\<lparr>c_in := pl @ ck @ rest\<rparr>)"
    using inp h by (simp add: ReadFull_def HeaderSize_eq)
  have r2: "ReadFull (c\<lparr>c_in := pl @ ck @ rest\<rparr>) (header_plen h + ChecksumSize)
      = Ret (pl @ ck, c\<lparr>c_in := rest\<rparr>)"
    using pl ck by (simp add: ReadFull_def ChecksumSize_def)
  show ?thesis
    using h pl ck
    by (simp add: DecodeFrame_def r1 r2 [unfolded header_plen_def] slice_def index_def get16_def get32_def header_msg_def
        header_plen_def)
qed

lemma DecodeFrame_short_header: "length (c_in c) < 13 \<Longrightarrow> \<exists>e. DecodeFrame c = Fail e"
  using ReadFull_short [of c 13] by (auto simp: DecodeFrame_def HeaderSize_eq)

lemma DecodeFrame_short_body:
  assumes "c_in c = h @ body" and "length h = 13" and "length body < header_plen h + 2"
  shows "\<exists>e. DecodeFrame c = Fail e"
proof -
  have r1: "ReadFull c HeaderSize = Ret (h, c\<lparr>c_in := body\<rparr>)"
    using assms by (simp add: ReadFull_def HeaderSize_eq)
  obtain e where r2: "ReadFull (c\<lparr>c_in := body\<rparr>) (header_plen h + ChecksumSize) = Fail e"
    using assms ReadFull_short [of "c\<lparr>c_in := body\<rparr>"] by (auto simp: ChecksumSize_def)
  show ?thesis
    using assms(2)
    by (simp add: DecodeFrame_def r1 r2 [unfolded header_plen_def] slice_def index_def get16_def get32_def)
qed

text \<open>Every input of the decoder is of one of three shapes.\<close>

lemma frame_shape:
  obtains (short_header) "length inp < 13"
  | (short_body) h body where "inp = h @ body" "length h = 13" "length body < header_plen h + 2"
  | (whole) h pl ck rest where "inp = h @ pl @ ck @ rest" "length h = 13"
      "length pl = header_plen h" "length ck = 2"
proof (cases "length inp < 13")
  case True
  then show ?thesis by (rule short_header)
next
  case False
  let ?h = "take 13 inp" and ?b = "drop 13 inp"
  let ?n = "header_plen ?h"
  have h: "length ?h = 13" using False by simp
  show ?thesis
  proof (cases "length ?b < ?n + 2")
    case True
    then show ?thesis using h short_body [of ?h ?b] by simp
  next
    case body: False
    show ?thesis
    proof (rule whole)
      show "inp = ?h @ take ?n ?b @ take 2 (drop ?n ?b) @ drop 2 (drop ?n ?b)"
        by (metis append_take_drop_id)
    qed (use h body in auto)
  qed
qed

lemma DecodeFrame_no_panic [no_panic]: "DecodeFrame c \<noteq> Panic"
proof (cases "c_in c" rule: frame_shape)
  case short_header
  then show ?thesis using DecodeFrame_short_header by force
next
  case (short_body h body)
  then show ?thesis using DecodeFrame_short_body by force
next
  case (whole h pl ck rest)
  then show ?thesis using DecodeFrame_split by simp
qed

text \<open>A message as the decoder returns it, and as the encoder leaves it.\<close>

definition frame_wf :: "Msg \<Rightarrow> bool" where
  "frame_wf m \<longleftrightarrow> m_Magic m = MagicNumber \<and> unat (m_PayloadLen m) = length (m_Payload m)
     \<and> m_Checksum m = CalChecksum (frame_header m @ m_Payload m)"

lemma length_frame_header [simp]: "length (frame_header m) = 13"
  by (simp add: frame_header_def)

lemma header_plen_frame: "length (m_Payload m) \<le> 65535 \<Longrightarrow> header_plen (frame_header m) = length (m_Payload m)"
  by (simp add: header_plen_def frame_header_def unat_of_nat_u16)

lemma header_msg_frame:
  "header_msg (frame_header m) pl ck =
     m\<lparr>m_PayloadLen := of_nat (length (m_Payload m)), m_Payload := pl, m_Checksum := ck\<rparr>"
  by (cases m) (simp add: header_msg_def frame_header_def nth_append nth_Cons')

lemma header_bytes:
  assumes "length h = 13" and "length pl = header_plen h"
  shows "frame_header (header_msg h pl ck) = h"
proof -
  have l: "be16 (be_val (take 2 h)) = take 2 h" "be16 (be_val (take 2 (drop 5 h))) = take 2 (drop 5 h)"
    "be16 (be_val (take 2 (drop 7 h))) = take 2 (drop 7 h)"
    using assms(1) by (simp_all add: be16_be_val)
  have l4: "be32 (be_val (take 4 (drop 9 h))) = take 4 (drop 9 h)"
    using assms(1) be_bytes_be_val [where ?'w = 32, of "take 4 (drop 9 h)"] by (simp add: be32_def)
  have e2: "drop 2 h = [h ! 2] @ [h ! 3] @ [h ! 4] @ drop 5 h"
    using assms(1) Cons_nth_drop_Suc [of 2 h] Cons_nth_drop_Suc [of 3 h] Cons_nth_drop_Suc [of 4 h]
    by simp
  have e5: "drop 5 h = take 2 (drop 5 h) @ drop 7 h"
    using append_take_drop_id [of 2 "drop 5 h"] by simp
  have e7: "drop 7 h = take 2 (drop 7 h) @ take 4 (drop 9 h)"
    using append_take_drop_id [of 2 "drop 7 h"] assms(1) by simp
  have "h = take 2 h @ drop 2 h" by simp
  also have "\<dots> = take 2 h @ [h ! 2] @ [h ! 3] @ [h ! 4] @ drop 5 h"
    by (simp only: e2)
  also have "\<dots> = take 2 h @ [h ! 2] @ [h ! 3] @ [h ! 4] @ take 2 (drop 5 h) @ drop 7 h"
    by (subst e5) (rule refl)
  also have "\<dots> = take 2 h @ [h ! 2] @ [h ! 3] @ [h ! 4] @ take 2 (drop 5 h)
      @ take 2 (drop 7 h) @ take 4 (drop 9 h)"
    by (subst e7) (rule refl)
  finally have "take 2 h @ [h ! 2] @ [h ! 3] @ [h ! 4] @ take 2 (drop 5 h)
      @ take 2 (drop 7 h) @ take 4 (drop 9 h) = h" by (rule sym)
  then show ?thesis using l l4 assms(2)
    by (simp add: frame_header_def header_msg_def header_plen_def)
qed

lemma DecodeFrame_encoded:
  assumes "c_in c = fst (Msg_Encode m) @ rest" and "m_Magic m = MagicNumber"
    and len: "length (m_Payload m) \<le> 65535"
  shows "DecodeFrame c = Ret ((snd (Msg_Encode m))\<lparr>m_PayloadLen := of_nat (length (m_Payload m))\<rparr>,
           c\<lparr>c_in := rest\<rparr>)"
proof -
  let ?ck = "CalChecksum (frame_header m @ m_Payload m)"
  have "c_in c = frame_header m @ m_Payload m @ be16 ?ck @ rest"
    using assms(1) by (simp add: Msg_Encode_def Let_def)
  note split = DecodeFrame_split [OF this]
  have "be_val (take 2 (frame_header m)) = m_Magic m" by (simp add: frame_header_def)
  then have "DecodeFrame c = Ret (header_msg (frame_header m) (m_Payload m) ?ck, c\<lparr>c_in := rest\<rparr>)"
    using header_plen_frame [OF len] assms(2) by (simp add: split)
  then show ?thesis by (simp add: header_msg_frame Msg_Encode_def Let_def)
qed

lemma DecodeFrame_RetD:
  assumes "DecodeFrame c = Ret (m, c')"
  shows "frame_wf m \<and> c_in c = fst (Msg_Encode m) @ c_in c' \<and> c' = c\<lparr>c_in := c_in c'\<rparr>"
proof (cases "c_in c" rule: frame_shape)
  case short_header
  then show ?thesis using DecodeFrame_short_header assms by force
next
  case (short_body h body)
  then show ?thesis using DecodeFrame_short_body assms by force
next
  case (whole h pl ck rest)
  from DecodeFrame_split [OF whole] assms have
    magic: "be_val (take 2 h) = MagicNumber" and sum: "CalChecksum (h @ pl) = be_val ck" and
    m: "m = header_msg h pl (be_val ck)" and c': "c' = c\<lparr>c_in := rest\<rparr>"
    by (auto split: if_splits)
  have hdr: "frame_header m = h" unfolding m by (rule header_bytes [OF whole(2,3)])
  have fields: "m_Payload m = pl" "m_Magic m = be_val (take 2 h)" "m_Checksum m = be_val ck"
    "unat (m_PayloadLen m) = header_plen h"
    by (simp_all add: m header_msg_def header_plen_def)
  have "frame_wf m" using fields hdr magic sum whole(3) by (simp add: frame_wf_def)
  moreover have "fst (Msg_Encode m) = h @ pl @ ck"
    using fields hdr sum be16_be_val [OF whole(4)] by (simp add: Msg_Encode_def Let_def)
  ultimately show ?thesis using whole(1) c' by simp
qed

lemma frame_wf_encode:
  assumes "frame_wf m"
  shows "length (m_Payload m) \<le> 65535"
    and "(snd (Msg_Encode m))\<lparr>m_PayloadLen := of_nat (length (m_Payload m))\<rparr> = m"
proof -
  show "length (m_Payload m) \<le> 65535"
    using assms unat_u16_bound [of "m_PayloadLen m"] by (simp add: frame_wf_def)
  have "of_nat (length (m_Payload m)) = m_PayloadLen m"
    using assms by (metis frame_wf_def of_nat_unat ucast_id)
  then show "(snd (Msg_Encode m))\<lparr>m_PayloadLen := of_nat (length (m_Payload m))\<rparr> = m"
    using assms by (simp add: frame_wf_def Msg_Encode_def Let_def)
qed

lemma DecodeFrame_iff:
  "DecodeFrame c = Ret (m, c') \<longleftrightarrow>
     frame_wf m \<and> c_in c = fst (Msg_Encode m) @ c_in c' \<and> c' = c\<lparr>c_in := c_in c'\<rparr>"
  (is "_ \<longleftrightarrow> ?R")
proof
  assume ?R
  moreover from this have "m_Magic m = MagicNumber" by (simp add: frame_wf_def)
  ultimately show "DecodeFrame c = Ret (m, c')"
    using DecodeFrame_encoded [of c m "c_in c'"] frame_wf_encode [of m] by simp
qed (rule DecodeFrame_RetD)

section \<open>Corrupted and oversized frames\<close>

lemma CalChecksum_update:
  assumes "i < length xs" and "b \<noteq> xs ! i"
  shows "CalChecksum (xs[i := b]) \<noteq> CalChecksum xs"
  using CalChecksum_one_byte [of b "xs ! i" "take i xs" "drop (Suc i) xs"] assms
  by (metis id_take_nth_drop upd_conv_take_nth_drop)

lemma be_val_2_inject: "length xs = 2 \<Longrightarrow> length ys = 2 \<Longrightarrow> (be_val xs :: u16) = be_val ys \<Longrightarrow> xs = ys"
  by (metis be16_be_val)

lemma take2_nth: "length xs = 13 \<Longrightarrow> take 2 xs = [xs ! 0, xs ! 1] \<and> take 2 (drop 7 xs) = [xs ! 7, xs ! 8]"
  by (auto simp: numeral_eq_Suc length_Suc_conv)

lemma header_update:
  assumes "length h = 13" and "i \<noteq> 7" and "i \<noteq> 8"
  shows "header_plen (h[i := b]) = header_plen h"
  using assms take2_nth [of h] take2_nth [of "h[i := b]"] by (simp add: header_plen_def)

lemma list_update_neq: "i < length xs \<Longrightarrow> b \<noteq> xs ! i \<Longrightarrow> xs[i := b] \<noteq> xs"
  by (metis nth_list_update_eq)

lemma corrupted_split:
  assumes h: "length h = 13" and pl: "length pl = header_plen h" and ck: "length ck = 2"
    and magic: "be_val (take 2 h) = MagicNumber" and sum: "CalChecksum (h @ pl) = be_val ck"
    and i: "i < length (h @ pl @ ck)" "i \<noteq> 7" "i \<noteq> 8" and b: "b \<noteq> (h @ pl @ ck) ! i"
    and inp: "c_in c = (h @ pl @ ck)[i := b] @ rest"
  shows "DecodeFrame c = Fail (if i < 2 then ErrInvalidMagic else ErrChecksumMismatch)"
proof -
  consider (magic) "i < 2" | (head) "2 \<le> i" "i < 13" | (body) "13 \<le> i" "i < 13 + length pl"
    | (check) "13 + length pl \<le> i" by linarith
  then show ?thesis
  proof cases
    case magic
    let ?h = "h[i := b]"
    have "take 2 ?h \<noteq> take 2 h"
      using magic b h list_update_neq [of i "take 2 h" b] by (simp add: take_update_swap nth_append)
    then have "be_val (take 2 ?h) \<noteq> (be_val (take 2 h) :: u16)"
      using h be_val_2_inject [of "take 2 ?h" "take 2 h"] by auto
    moreover have "c_in c = ?h @ pl @ ck @ rest" using inp magic h by (simp add: list_update_append)
    ultimately show ?thesis
      using DecodeFrame_split [of c ?h pl ck rest] header_update [OF h i(2,3)] h pl ck assms(4) magic by simp
  next
    case head
    let ?h = "h[i := b]"
    have "take 2 ?h = take 2 h" using head by (simp add: take_update_cancel)
    moreover have "CalChecksum (?h @ pl) \<noteq> CalChecksum (h @ pl)"
      using head b h CalChecksum_update [of i "h @ pl" b] by (simp add: list_update_append nth_append)
    moreover have "c_in c = ?h @ pl @ ck @ rest" using inp head h by (simp add: list_update_append)
    ultimately show ?thesis
      using DecodeFrame_split [of c ?h pl ck rest] header_update [OF h i(2,3)] h pl ck magic sum head by simp
  next
    case body
    let ?pl = "pl[i - 13 := b]"
    have j: "i - 13 < length pl" using body by linarith
    have "CalChecksum (h @ ?pl) \<noteq> CalChecksum (h @ pl)"
      using body b h j CalChecksum_update [of i "h @ pl" b] by (simp add: list_update_append nth_append)
    moreover have "c_in c = h @ ?pl @ ck @ rest" using inp body h j by (simp add: list_update_append)
    ultimately show ?thesis
      using DecodeFrame_split [of c h ?pl ck rest] h pl ck magic sum body by simp
  next
    case check
    let ?j = "i - 13 - length pl"
    let ?ck = "ck[?j := b]"
    have j: "\<not> i - 13 < length pl" "?j < length ck" using check h ck i(1) by auto
    have "(h @ pl @ ck) ! i = ck ! ?j"
      using nth_append_right [of h i "pl @ ck"] nth_append_right [of pl "i - 13" ck] check h by simp
    then have "b \<noteq> ck ! ?j" using b by simp
    then have "?ck \<noteq> ck" by (rule list_update_neq [OF j(2)])
    then have "be_val ?ck \<noteq> (be_val ck :: u16)"
      using ck be_val_2_inject [of ?ck ck] by auto
    moreover have "c_in c = h @ pl @ ?ck @ rest"
      using inp check h j by (simp add: list_update_append)
    ultimately show ?thesis
      using DecodeFrame_split [of c h pl ?ck rest] h pl ck magic sum check by simp
  qed
qed

lemma DecodeFrame_oversize:
  assumes "c_in c = fst (Msg_Encode m) @ rest" and "DecodeFrame c = Ret (m', c')"
  shows "m_Payload m' = take (length (m_Payload m) mod 65536) (m_Payload m)"
proof -
  let ?pl = "m_Payload m" and ?n = "length (m_Payload m) mod 65536"
  let ?ck = "CalChecksum (frame_header m @ m_Payload m)"
  let ?more = "drop ?n ?pl @ be16 ?ck @ rest"
  have plen: "header_plen (frame_header m) = ?n"
    by (simp add: header_plen_def frame_header_def unat_of_nat)
  have "c_in c = frame_header m @ ?pl @ be16 ?ck @ rest"
    using assms(1) by (simp add: Msg_Encode_def Let_def)
  also have "?pl @ be16 ?ck @ rest = take ?n ?pl @ ?more"
    by (simp only: append_assoc [symmetric] append_take_drop_id)
  also have "?more = take 2 ?more @ drop 2 ?more" by (rule append_take_drop_id [symmetric])
  finally have inp: "c_in c = frame_header m @ take ?n ?pl @ take 2 ?more @ drop 2 ?more" .
  have "length (take ?n ?pl) = ?n" by simp
  then have "DecodeFrame c =
    (if be_val (take 2 (frame_header m)) \<noteq> MagicNumber then Fail ErrInvalidMagic
     else if CalChecksum (frame_header m @ take ?n ?pl) \<noteq> be_val (take 2 ?more) then Fail ErrChecksumMismatch
     else Ret (header_msg (frame_header m) (take ?n ?pl) (be_val (take 2 ?more)), c\<lparr>c_in := drop 2 ?more\<rparr>))"
    by (intro DecodeFrame_split [OF inp]) (simp_all add: plen)
  then show ?thesis using assms(2) by (auto simp: header_msg_def split: if_splits)
qed

section \<open>Messages end to end\<close>

fun packet_types :: "Packable \<Rightarrow> u8 set" where
  "packet_types (PHandshake p) = {MsgTypeHandshake}"
| "packet_types (PAck p) = {MsgTypeHandshakeAck, MsgTypeUploadAck, MsgTypeHeartbeatAck}"
| "packet_types (PUpload p) = {MsgTypeUpload}"
| "packet_types PHeartbeat = {MsgTypeHeartbeat}"
| "packet_types (PNotify p) = {MsgTypeNotify}"

lemma init_registry_simps [simp]:
  "init_registry MsgTypeHandshake = Some decodeHandshake"
  "init_registry MsgTypeUpload = Some decodeUpload"
  "init_registry MsgTypeHeartbeat = Some decodeHeartbeat"
  "init_registry MsgTypeNotify = Some decodeNotify"
  "init_registry MsgTypeHandshakeAck = Some decodeAck"
  "init_registry MsgTypeUploadAck = Some decodeAck"
  "init_registry MsgTypeHeartbeatAck = Some decodeAck"
  by (simp_all add: init_registry_def RegisterPacketType_def MsgType_defs Let_def)

lemma Upload_Encode_count: "Upload_Encode p = Ret b \<Longrightarrow> 31 * length (up_Readings p) + 4 \<le> length b"
  using readings_wire_length [of "up_Readings p"] by (auto simp: Upload_Encode_Ret_iff minReadingLen_def)

lemma Notify_Encode_raw: "Notify_Encode p = Ret b \<Longrightarrow> length (nt_RawData p) \<le> length b"
  by (auto simp: Notify_Encode_def Let_def split: if_splits)

lemma Ack_Decode_exact: "Ack_Encode p = Ret b \<Longrightarrow> Ack_Decode b = Ret p"
  using ack.dec_enc [of p b "[]"] by simp

lemma ParseMsg_encoded:
  assumes enc: "Packable_Encode p = Ret b" and len: "length b \<le> 65535" and t: "m_Type m \<in> packet_types p"
    and m: "m_Payload m = b"
  shows "ParseMsg m = Ret p"
proof (cases p)
  case (PHandshake q)
  then show ?thesis using handshake.dec_enc [of q b "[]"] enc t m
    by (simp add: ParseMsg_def ParseMsg_in_def decodeHandshake_def)
next
  case (PAck q)
  then show ?thesis using ack.dec_enc [of q b "[]"] enc t m
    by (auto simp: ParseMsg_def ParseMsg_in_def decodeAck_def)
next
  case (PUpload q)
  then show ?thesis using upload.dec_enc [of q b "[]"] Upload_Encode_count [of q b] len enc t m
    by (simp add: ParseMsg_def ParseMsg_in_def decodeUpload_def)
next
  case PHeartbeat
  then show ?thesis using enc t m
    by (simp add: ParseMsg_def ParseMsg_in_def decodeHeartbeat_def Heartbeat_Encode_def Heartbeat_Decode_def)
next
  case (PNotify q)
  then show ?thesis using notify.dec_enc [of q b "[]"] Notify_Encode_raw [of q b] len enc t m
    by (simp add: ParseMsg_def ParseMsg_in_def decodeNotify_def)
qed

lemma decode_ctor_no_panic [no_panic]:
  "decodeHandshake m \<noteq> Panic" "decodeUpload m \<noteq> Panic" "decodeHeartbeat m \<noteq> Panic"
  "decodeNotify m \<noteq> Panic" "decodeAck m \<noteq> Panic"
  by (auto simp: decodeHandshake_def decodeUpload_def decodeHeartbeat_def decodeNotify_def
      decodeAck_def Heartbeat_Decode_def no_panic go_bind_Panic_iff)

lemma ParseMsg_no_panic [no_panic]: "ParseMsg m \<noteq> Panic"
  by (auto simp: ParseMsg_def ParseMsg_in_def init_registry_def RegisterPacketType_def Let_def
      no_panic split: option.split)

lemma NewMsg_RetD:
  assumes "NewMsg f now t p = Ret (m, f')"
  shows "Packable_Encode p = Ret (m_Payload m)" and "m_Type m = t" and "m_Magic m = MagicNumber"
    and "m_PayloadLen m = of_nat (length (m_Payload m))" and "m_MsgID m = ucast (fct_current f' mod 65536)"
    and "fct_current f' = fct_current f + 1"
  using assms by (auto simp: NewMsg_def Next_def go_bind_Ret_iff Let_def)

lemma NewMsg_DecodeFrame:
  assumes new: "NewMsg f now t p = Ret (m, f')" and len: "length (m_Payload m) \<le> 65535"
    and inp: "c_in c = fst (Msg_Encode m) @ rest"
  shows "DecodeFrame c = Ret (snd (Msg_Encode m), c\<lparr>c_in := rest\<rparr>)"
proof -
  have "(snd (Msg_Encode m))\<lparr>m_PayloadLen := of_nat (length (m_Payload m))\<rparr> = snd (Msg_Encode m)"
    using NewMsg_RetD(4) [OF new] by (simp add: Msg_Encode_def Let_def)
  then show ?thesis
    using DecodeFrame_encoded [OF inp NewMsg_RetD(3) [OF new] len] by simp
qed

lemma DecodeFrame_shorter: "DecodeFrame c = Ret (m, c') \<Longrightarrow> length (c_in c') < length (c_in c)"
proof -
  assume "DecodeFrame c = Ret (m, c')"
  then have "c_in c = fst (Msg_Encode m) @ c_in c'" by (simp add: DecodeFrame_iff)
  then show ?thesis by (simp add: Msg_Encode_def Let_def)
qed

definition sample_msg :: Msg where
  "sample_msg = \<lparr>m_Magic = MagicNumber, m_Version = 1, m_Flags = 0, m_Type = MsgTypeHeartbeat,
     m_MsgID = 1, m_PayloadLen = 0, m_Timestamp = 0, m_Payload = [], m_Checksum = 0\<rparr>"

definition sample_conn :: "bytes \<Rightarrow> conn" where
  "sample_conn b = \<lparr>c_in = b, c_end = EndEOF, c_out = [], c_writes_left = 9\<rparr>"

lemma sample_conn_simps [simp]: "c_in (sample_conn b) = b" "(sample_conn b)\<lparr>c_in := b'\<rparr> = sample_conn b'"
  by (simp_all add: sample_conn_def)

section \<open>Properties\<close>

text \<open>
  C7. The frame decoder returns a message exactly when the stream starts with the encoding of a
  message whose magic number, length field and checksum are right; it then consumes that encoding
  and nothing more. No input makes it panic.
\<close>

theorem DecodeFrame_accepts_exactly_frames:
  "(DecodeFrame c = Ret (m, c') \<longleftrightarrow>
     frame_wf m \<and> c_in c = fst (Msg_Encode m) @ c_in c' \<and> c' = c\<lparr>c_in := c_in c'\<rparr>)
   \<and> DecodeFrame c \<noteq> Panic"
  by (simp add: DecodeFrame_iff no_panic)

text \<open>
  C12. A message made by the factory, encoded and put on a stream, is decoded to the same message,
  and the constructor registered for its type gives back the payload it was made from. The payload
  must fit the 16-bit length field.
\<close>

theorem message_exchange:
  assumes "NewMsg f now t p = Ret (m, f')" and "t \<in> packet_types p"
    and "length (m_Payload m) \<le> 65535" and "c_in c = fst (Msg_Encode m) @ rest"
  shows "DecodeFrame c = Ret (snd (Msg_Encode m), c\<lparr>c_in := rest\<rparr>)
       \<and> ParseMsg (snd (Msg_Encode m)) = Ret p \<and> m_MsgID (snd (Msg_Encode m)) = m_MsgID m"
  using NewMsg_DecodeFrame [OF assms(1,3,4)]
    ParseMsg_encoded [OF NewMsg_RetD(1) [OF assms(1)] assms(3)] NewMsg_RetD(2) [OF assms(1)] assms(2)
  by (simp add: Msg_Encode_def Let_def)

theorem message_exchange_witness:
  "\<exists>m f'. NewMsg NewMsgFactory CUSTOM_EPOCH MsgTypeHeartbeatAck (PAck \<lparr>ack_MsgID = 7, ack_Code = code_Ok\<rparr>) = Ret (m, f')
     \<and> DecodeFrame (sample_conn (fst (Msg_Encode m) @ [9])) = Ret (snd (Msg_Encode m), sample_conn [9])
     \<and> ParseMsg (snd (Msg_Encode m)) = Ret (PAck \<lparr>ack_MsgID = 7, ack_Code = code_Ok\<rparr>)"
proof -
  let ?p = "PAck \<lparr>ack_MsgID = 7, ack_Code = code_Ok\<rparr>"
  obtain m f' where new: "NewMsg NewMsgFactory CUSTOM_EPOCH MsgTypeHeartbeatAck ?p = Ret (m, f')"
    by (simp add: NewMsg_def Ack_Encode_def Next_def Let_def)
  have "m_Payload m = be16 7 @ [code_Ok]"
    using NewMsg_RetD(1) [OF new] by (simp add: Ack_Encode_def)
  then have "length (m_Payload m) \<le> 65535" by simp
  then show ?thesis
    using message_exchange [OF new, of "sample_conn (fst (Msg_Encode m) @ [9])" "[9]"] new by auto
qed

text \<open>
  C20. Changing any one byte of a frame, other than the two bytes of its length field, makes the
  decoder refuse it: with the magic-number error for the first two bytes, with the checksum error
  for the others. The connection is not used after either.
\<close>

theorem corrupted_byte_rejected:
  assumes "frame_wf m" and "i < length (fst (Msg_Encode m))" and "i \<noteq> 7" and "i \<noteq> 8"
    and "b \<noteq> fst (Msg_Encode m) ! i" and "c_in c = (fst (Msg_Encode m))[i := b] @ rest"
  shows "DecodeFrame c = Fail (if i < 2 then ErrInvalidMagic else ErrChecksumMismatch)"
proof -
  let ?h = "frame_header m" and ?pl = "m_Payload m"
  have e: "fst (Msg_Encode m) = ?h @ ?pl @ be16 (CalChecksum (?h @ ?pl))"
    by (simp add: Msg_Encode_def Let_def)
  have "length ?pl \<le> 65535" by (rule frame_wf_encode(1) [OF assms(1)])
  then have "length ?pl = header_plen ?h" by (simp add: header_plen_frame)
  moreover have "be_val (take 2 ?h) = MagicNumber"
    using assms(1) by (simp add: frame_wf_def frame_header_def)
  ultimately show ?thesis
    using corrupted_split [of ?h ?pl "be16 (CalChecksum (?h @ ?pl))" i b c rest] assms(2-6)
    by (simp add: e)
qed

theorem corrupted_byte_rejected_witness:
  "let m = sample_msg\<lparr>m_Checksum := CalChecksum (frame_header sample_msg)\<rparr>;
       frame = fst (Msg_Encode m)
   in DecodeFrame (sample_conn (frame[4 := MsgTypeUpload] @ [])) = Fail ErrChecksumMismatch"
proof -
  let ?m = "sample_msg\<lparr>m_Checksum := CalChecksum (frame_header sample_msg)\<rparr>"
  have hdr: "frame_header ?m = frame_header sample_msg" by (simp add: frame_header_def)
  have wf: "frame_wf ?m" by (simp add: frame_wf_def hdr) (simp add: sample_msg_def)
  have nth: "fst (Msg_Encode ?m) ! 4 = MsgTypeHeartbeat" "4 < length (fst (Msg_Encode ?m))"
    by (simp_all add: Msg_Encode_def Let_def frame_header_def nth_append sample_msg_def)
  have "MsgTypeUpload \<noteq> MsgTypeHeartbeat" by (simp add: MsgType_defs)
  with corrupted_byte_rejected [OF wf nth(2), of MsgTypeUpload
      "sample_conn ((fst (Msg_Encode ?m))[4 := MsgTypeUpload])" "[]"] nth(1)
  show ?thesis by (simp add: Let_def)
qed

text \<open>
  A payload above 65535 bytes never arrives: the length field holds the length modulo 65536, so
  what the decoder may return is a strictly shorter prefix of the payload.
\<close>

theorem oversize_payload_never_delivered:
  assumes "65535 < length (m_Payload m)" and "c_in c = fst (Msg_Encode m) @ rest"
    and "DecodeFrame c = Ret (m', c')"
  shows "m_Payload m' = take (length (m_Payload m) mod 65536) (m_Payload m)
       \<and> length (m_Payload m') < length (m_Payload m)"
proof -
  have "length (m_Payload m) mod 65536 < length (m_Payload m)"
    using assms(1) mod_less_divisor [of 65536 "length (m_Payload m)"] by linarith
  then show ?thesis using DecodeFrame_oversize [OF assms(2,3)] by simp
qed

theorem oversize_payload_never_delivered_witness:
  "let pl = be16 (CalChecksum (frame_header sample_msg)) @ replicate 65534 0;
       m = sample_msg\<lparr>m_Payload := pl\<rparr>
   in \<exists>m' c'. DecodeFrame (sample_conn (fst (Msg_Encode m) @ [])) = Ret (m', c') \<and> m_Payload m' = []
        \<and> length (m_Payload m') < length pl"
proof -
  let ?ck = "CalChecksum (frame_header sample_msg)"
  let ?pl = "be16 ?ck @ replicate 65534 0"
  let ?m = "sample_msg\<lparr>m_Payload := ?pl\<rparr>"
  have wrap: "(65536 :: u16) = 0" by transfer simp
  have hdr: "frame_header ?m = frame_header sample_msg"
    by (simp add: frame_header_def wrap) (simp add: sample_msg_def)
  let ?more = "replicate 65534 0 @ be16 (CalChecksum (frame_header sample_msg @ ?pl))"
  have inp: "c_in (sample_conn (fst (Msg_Encode ?m))) = frame_header sample_msg @ [] @ be16 ?ck @ ?more"
    by (simp add: Msg_Encode_def Let_def hdr)
  have plen: "header_plen (frame_header sample_msg) = 0"
    by (simp add: header_plen_frame sample_msg_def)
  have magic: "be_val (take 2 (frame_header sample_msg)) = MagicNumber"
    by (simp add: frame_header_def sample_msg_def)
  have "\<exists>m' c'. DecodeFrame (sample_conn (fst (Msg_Encode ?m))) = Ret (m', c')"
    using DecodeFrame_split [OF inp] plen magic by simp
  then obtain m' c' where ret: "DecodeFrame (sample_conn (fst (Msg_Encode ?m))) = Ret (m', c')" by blast
  have "65535 < length (m_Payload ?m)" by simp
  from oversize_payload_never_delivered [OF this _ ret, of "[]"]
  have "m_Payload m' = []" "length (m_Payload m') < length ?pl" by simp_all
  with ret show ?thesis by (auto simp: Let_def)
qed

text \<open>
  Timestamps are milliseconds since 2020 modulo \<open>2^32\<close>: converting a time to a timestamp and
  back is exact on the first \<open>2^32\<close> milliseconds (less than fifty days) and only there.
\<close>

theorem Timestamp_roundtrip_iff:
  "ToUnixMilli (FromUnixMilli t) = t \<longleftrightarrow> CUSTOM_EPOCH \<le> t \<and> t < CUSTOM_EPOCH + 2 ^ 32"
proof -
  have "ToUnixMilli (FromUnixMilli t) = (t - CUSTOM_EPOCH) mod 2 ^ 32 + CUSTOM_EPOCH"
    by (simp only: ToUnixMilli_def FromUnixMilli_def uint_word_of_int) simp
  then show ?thesis by (smt (verit) mod_pos_pos_trivial pos_mod_bound pos_mod_sign zero_less_power)
qed

end
