(* ===== verification/Dedup.thy ===== *)
theory Dedup
  imports Sha256
begin

text \<open>
  The upload filter of \<^verbatim>\<open>internal/server/server.go\<close>: an LRU cache of payload keys, held as a linked
  list (\<^verbatim>\<open>container/list\<close>) and a map from a key to its list element. An element is an address and a
  value; the map holds addresses, as the code's map holds \<^verbatim>\<open>*list.Element\<close>. The abstract view of a
  cache is the list of its keys, most recent first.
\<close>

section \<open>The list of elements\<close>

type_synonym element = "nat \<times> string"

definition list_MoveToFront :: "nat \<Rightarrow> element list \<Rightarrow> element list" where
  "list_MoveToFront e l =
     (case find (\<lambda>x. fst x = e) l of None \<Rightarrow> l | Some x \<Rightarrow> x # filter (\<lambda>y. fst y \<noteq> e) l)"

definition list_Remove :: "nat \<Rightarrow> element list \<Rightarrow> element list" where
  "list_Remove e l = filter (\<lambda>x. fst x \<noteq> e) l"

section \<open>The cache\<close>

record dedupCache =
  dc_capacity :: nat
  dc_lruList :: "element list"
  dc_items :: "string \<rightharpoonup> nat"
  dc_fresh :: nat \<comment> \<open>the address of the next element to be allocated\<close>

definition dedupCacheSize :: nat where "dedupCacheSize = 200"

definition newDedupCache :: "nat \<Rightarrow> dedupCache" where
  "newDedupCache cap = \<lparr>dc_capacity = cap, dc_lruList = [], dc_items = Map.empty, dc_fresh = 0\<rparr>"

definition dedup_exists :: "dedupCache \<Rightarrow> string \<Rightarrow> bool \<times> dedupCache" where
  "dedup_exists c key =
     (case dc_items c key of
        Some e \<Rightarrow> (True, c\<lparr>dc_lruList := list_MoveToFront e (dc_lruList c)\<rparr>)
      | None \<Rightarrow> (False, c))"

definition dedup_evict :: "dedupCache \<Rightarrow> dedupCache" where
  "dedup_evict c =
     (if length (dc_lruList c) > dc_capacity c
      then (if dc_lruList c \<noteq> []
            then let oldest = last (dc_lruList c)
                 in c\<lparr>dc_lruList := list_Remove (fst oldest) (dc_lruList c),
                      dc_items := (dc_items c)(snd oldest := None)\<rparr>
            else c)
      else c)"

definition dedup_add :: "dedupCache \<Rightarrow> string \<Rightarrow> dedupCache" where
  "dedup_add c key =
     (case dc_items c key of
        Some e \<Rightarrow> c\<lparr>dc_lruList := list_MoveToFront e (dc_lruList c)\<rparr>
      | None \<Rightarrow>
          let e = dc_fresh c
          in dedup_evict (c\<lparr>dc_lruList := (e, key) # dc_lruList c,
                            dc_items := (dc_items c)(key \<mapsto> e), dc_fresh := e + 1\<rparr>))"

definition dedup_clear :: "dedupCache \<Rightarrow> dedupCache" where
  "dedup_clear c = c\<lparr>dc_lruList := [], dc_items := Map.empty\<rparr>"

definition payloadKey :: "bytes \<Rightarrow> string" where
  "payloadKey payload = b2s (Sum256 payload)"

definition uploadDedup :: dedupCache where
  "uploadDedup = newDedupCache dedupCacheSize"

section \<open>The abstract cache\<close>

definition dedup_keys :: "dedupCache \<Rightarrow> string list" where
  "dedup_keys c = map snd (dc_lruList c)"

definition lru_add :: "nat \<Rightarrow> 'k \<Rightarrow> 'k list \<Rightarrow> 'k list" where
  "lru_add cap k ks = (if k \<in> set ks then k # remove1 k ks else take cap (k # ks))"

definition dedup_inv :: "dedupCache \<Rightarrow> bool" where
  "dedup_inv c \<longleftrightarrow>
     distinct (map fst (dc_lruList c)) \<and> distinct (dedup_keys c)
     \<and> (\<forall>k e. dc_items c k = Some e \<longleftrightarrow> (e, k) \<in> set (dc_lruList c))
     \<and> (\<forall>x \<in> set (dc_lruList c). fst x < dc_fresh c)
     \<and> length (dc_lruList c) \<le> dc_capacity c"

lemma dedup_inv_items: "dedup_inv c \<Longrightarrow> (\<exists>e. dc_items c k = Some e) \<longleftrightarrow> k \<in> set (dedup_keys c)"
  by (auto simp: dedup_inv_def dedup_keys_def) (metis imageI snd_conv)

lemma dedup_inv_new: "dedup_inv (newDedupCache cap)"
  by (simp add: dedup_inv_def newDedupCache_def dedup_keys_def)

lemma list_MoveToFront_found:
  assumes "distinct (map fst l)" and "distinct (map snd l)" and "(e, k) \<in> set l"
  shows "list_MoveToFront e l = (e, k) # filter (\<lambda>y. fst y \<noteq> e) l"
    and "map snd (list_MoveToFront e l) = k # remove1 k (map snd l)"
    and "set (list_MoveToFront e l) = set l"
    and "distinct (map fst (list_MoveToFront e l))"
proof -
  obtain pre post where l: "l = pre @ (e, k) # post" using assms(3) by (meson split_list)
  have e: "e \<notin> fst ` set pre" "e \<notin> fst ` set post" using assms(1) by (auto simp: l)
  have k: "k \<notin> snd ` set pre" "k \<notin> snd ` set post" using assms(2) by (auto simp: l)
  have fil: "filter (\<lambda>y. fst y \<noteq> e) pre = pre" "filter (\<lambda>y. fst y \<noteq> e) post = post"
    using e by (auto simp: filter_id_conv image_iff)
  have "find (\<lambda>x. fst x = e) pre = None" using e by (auto simp: find_None_iff image_iff)
  then have "find (\<lambda>x. fst x = e) l = Some (e, k)"
    unfolding l by (induction pre) (auto split: if_splits)
  then show m: "list_MoveToFront e l = (e, k) # filter (\<lambda>y. fst y \<noteq> e) l"
    by (simp add: list_MoveToFront_def)
  then have m': "list_MoveToFront e l = (e, k) # pre @ post" by (simp add: l fil)
  then show "map snd (list_MoveToFront e l) = k # remove1 k (map snd l)"
    using k by (simp add: l remove1_append)
  show "set (list_MoveToFront e l) = set l" "distinct (map fst (list_MoveToFront e l))"
    using m' assms(1) by (auto simp: l)
qed

lemma dedup_touch:
  assumes inv: "dedup_inv c" and it: "dc_items c key = Some e"
  shows "dedup_inv (c\<lparr>dc_lruList := list_MoveToFront e (dc_lruList c)\<rparr>)"
    and "dedup_keys (c\<lparr>dc_lruList := list_MoveToFront e (dc_lruList c)\<rparr>) = key # remove1 key (dedup_keys c)"
proof -
  have d: "distinct (map fst (dc_lruList c))" "distinct (map snd (dc_lruList c))"
    and mem: "(e, key) \<in> set (dc_lruList c)"
    using inv it by (auto simp: dedup_inv_def dedup_keys_def)
  note f = list_MoveToFront_found [OF d mem]
  show k: "dedup_keys (c\<lparr>dc_lruList := list_MoveToFront e (dc_lruList c)\<rparr>) = key # remove1 key (dedup_keys c)"
    using f(2) by (simp add: dedup_keys_def)
  have "length (list_MoveToFront e (dc_lruList c)) = length (dc_lruList c)"
    by (metis d(1) distinct_card f(3,4) length_map set_map)
  moreover have "distinct (key # remove1 key (dedup_keys c))" using inv by (simp add: dedup_inv_def)
  ultimately show "dedup_inv (c\<lparr>dc_lruList := list_MoveToFront e (dc_lruList c)\<rparr>)"
    using inv k f(3,4) by (simp add: dedup_inv_def)
qed

lemma dedup_insert:
  assumes inv: "dedup_inv c" and it: "dc_items c key = None"
  shows "dedup_inv (dedup_add c key) \<and> dedup_keys (dedup_add c key) = take (dc_capacity c) (key # dedup_keys c)
       \<and> dc_capacity (dedup_add c key) = dc_capacity c"
proof -
  let ?l = "dc_lruList c" and ?e = "dc_fresh c"
  have new: "key \<notin> set (dedup_keys c)" using dedup_inv_items [OF inv, of key] it by simp
  have d: "distinct (map fst ?l)" "distinct (map snd ?l)" and fresh: "?e \<notin> fst ` set ?l"
    and len: "length ?l \<le> dc_capacity c"
    and items: "\<And>k e. dc_items c k = Some e \<longleftrightarrow> (e, k) \<in> set ?l"
    using inv by (auto simp: dedup_inv_def dedup_keys_def)
  show ?thesis
  proof (cases "length ?l < dc_capacity c")
    case True
    moreover have "(e, key) \<notin> set ?l" for e using new by (force simp: dedup_keys_def)
    ultimately show ?thesis using inv it new d fresh items
      by (auto simp: dedup_add_def dedup_evict_def dedup_inv_def dedup_keys_def Let_def)
  next
    case full: False
    then have cap: "dc_capacity c = length ?l" using len by simp
    let ?L = "(?e, key) # ?l"
    obtain L' o' where L: "?L = L' @ [o']" by (metis list.distinct(1) rev_exhaust)
    have dL: "distinct (map fst ?L)" "distinct (map snd ?L)" using d fresh new by (auto simp: dedup_keys_def)
    have rem: "list_Remove (fst o') ?L = L'"
      using dL(1) unfolding L list_Remove_def by (auto simp: filter_id_conv image_iff)
    have lst: "last ?L = o'" unfolding L by simp
    have c': "dedup_add c key = c\<lparr>dc_lruList := L', dc_items := ((dc_items c)(key \<mapsto> ?e))(snd o' := None), dc_fresh := ?e + 1\<rparr>"
      using it cap rem lst by (simp add: dedup_add_def dedup_evict_def Let_def del: last.simps)
    have len': "length L' = dc_capacity c" using cap arg_cong [OF L, of length] by simp
    have keys: "dedup_keys (dedup_add c key) = take (dc_capacity c) (key # dedup_keys c)"
      using arg_cong [OF L, of "\<lambda>l. take (dc_capacity c) (map snd l)"] len' by (simp add: c' dedup_keys_def)
    have its: "\<forall>k e. (((dc_items c)(key \<mapsto> ?e))(snd o' := None)) k = Some e \<longleftrightarrow> (e, k) \<in> set L'"
    proof (intro allI)
      fix k e
      have mem: "(e, k) \<in> set ?L \<longleftrightarrow> (if k = key then Some ?e else dc_items c k) = Some e"
        using items [of k e] it by auto
      have "snd o' \<notin> snd ` set L'" using dL(2) unfolding L by simp
      then show "(((dc_items c)(key \<mapsto> ?e))(snd o' := None)) k = Some e \<longleftrightarrow> (e, k) \<in> set L'"
        using mem dL(2) unfolding L by (cases o') (auto simp: image_iff)
    qed
    have "\<forall>x \<in> set ?L. fst x < ?e + 1" using inv by (auto simp: dedup_inv_def)
    then have "\<forall>x \<in> set L'. fst x < ?e + 1" unfolding L by simp
    moreover have "distinct (map fst L')" "distinct (map snd L')" using dL unfolding L by simp_all
    ultimately have "dedup_inv (dedup_add c key)"
      using its len' unfolding dedup_inv_def c' dedup_keys_def by simp
    with keys show ?thesis by (simp add: c')
  qed
qed

lemma dedup_add_spec:
  assumes "dedup_inv c"
  shows "dedup_inv (dedup_add c key)" and "dedup_keys (dedup_add c key) = lru_add (dc_capacity c) key (dedup_keys c)"
    and "dc_capacity (dedup_add c key) = dc_capacity c"
proof -
  have "dedup_inv (dedup_add c key) \<and> dedup_keys (dedup_add c key) = lru_add (dc_capacity c) key (dedup_keys c)
    \<and> dc_capacity (dedup_add c key) = dc_capacity c"
  proof (cases "dc_items c key")
    case None
    then show ?thesis
      using dedup_insert [OF assms None] dedup_inv_items [OF assms, of key] by (simp add: lru_add_def)
  next
    case (Some e)
    then show ?thesis
      using dedup_touch [OF assms Some] dedup_inv_items [OF assms, of key] by (simp add: dedup_add_def lru_add_def)
  qed
  then show "dedup_inv (dedup_add c key)" "dedup_keys (dedup_add c key) = lru_add (dc_capacity c) key (dedup_keys c)"
    "dc_capacity (dedup_add c key) = dc_capacity c" by simp_all
qed

lemma dedup_exists_spec:
  assumes "dedup_inv c"
  shows "fst (dedup_exists c key) \<longleftrightarrow> key \<in> set (dedup_keys c)"
    and "dedup_inv (snd (dedup_exists c key))"
    and "dedup_keys (snd (dedup_exists c key)) =
         (if key \<in> set (dedup_keys c) then key # remove1 key (dedup_keys c) else dedup_keys c)"
    and "dc_capacity (snd (dedup_exists c key)) = dc_capacity c"
  using assms dedup_touch [OF assms] dedup_inv_items [OF assms, of key]
  by (auto simp: dedup_exists_def split: option.splits)

section \<open>The filter interface\<close>

text \<open>
  What the upload handler relies on: \<open>seen\<close> answers whether a key is remembered, \<open>note\<close> remembers
  it, and at least the last \<open>cap\<close> distinct keys are remembered.
\<close>

locale lru_filter =
  fixes seen :: "'f \<Rightarrow> 'k \<Rightarrow> bool \<times> 'f"
    and enter :: "'f \<Rightarrow> 'k \<Rightarrow> 'f"
    and inv :: "nat \<Rightarrow> 'f \<Rightarrow> bool"
    and view :: "'f \<Rightarrow> 'k list"
  assumes view_ok: "inv cap f \<Longrightarrow> distinct (view f) \<and> length (view f) \<le> cap"
    and seen_iff: "inv cap f \<Longrightarrow> fst (seen f k) \<longleftrightarrow> k \<in> set (view f)"
    and seen_inv: "inv cap f \<Longrightarrow> inv cap (snd (seen f k))"
    and seen_view: "inv cap f \<Longrightarrow>
      view (snd (seen f k)) = (if k \<in> set (view f) then k # remove1 k (view f) else view f)"
    and enter_inv: "inv cap f \<Longrightarrow> inv cap (enter f k)"
    and enter_view: "inv cap f \<Longrightarrow> view (enter f k) = lru_add cap k (view f)"
begin

definition offer :: "'f \<Rightarrow> 'k \<Rightarrow> 'f" where
  "offer f k = (let (b, f') = seen f k in if b then f' else enter f' k)"

lemma offer_inv: "inv cap f \<Longrightarrow> inv cap (offer f k)"
  by (auto simp: offer_def split_beta seen_inv enter_inv)

lemma offer_view: "inv cap f \<Longrightarrow> view (offer f k) = lru_add cap k (view f)"
  using enter_view [OF seen_inv [of cap f k], of k]
  by (simp add: offer_def split_beta seen_iff seen_view lru_add_def)

lemma lru_add_keeps:
  assumes "distinct (pre @ k # post)" and "set pre \<subseteq> S" and "finite S" and "card S < cap"
    and "j = k \<or> j \<in> S"
  shows "\<exists>pre' post'. lru_add cap j (pre @ k # post) = pre' @ k # post' \<and> set pre' \<subseteq> S"
proof (cases "j \<in> set (pre @ k # post)")
  case old: True
  then consider "j = k" | "j \<noteq> k" "j \<in> set pre" | "j \<noteq> k" "j \<notin> set pre" by blast
  then show ?thesis
  proof cases
    case 1
    then have "lru_add cap j (pre @ k # post) = [] @ k # (pre @ post)"
      using assms(1) by (simp add: lru_add_def remove1_append)
    then show ?thesis by (metis empty_set empty_subsetI)
  next
    case 2
    then have "lru_add cap j (pre @ k # post) = (j # remove1 j pre) @ k # post"
      by (simp add: lru_add_def remove1_append)
    moreover have "set (j # remove1 j pre) \<subseteq> S"
      using 2 assms(2) set_remove1_subset [of j pre] by auto
    ultimately show ?thesis by blast
  next
    case 3
    then have "lru_add cap j (pre @ k # post) = (j # pre) @ k # remove1 j post"
      using old by (simp add: lru_add_def remove1_append)
    moreover have "set (j # pre) \<subseteq> S" using 3 assms(2,5) by auto
    ultimately show ?thesis by blast
  qed
next
  case new: False
  have "length pre = card (set pre)" using assms(1) by (simp add: distinct_card)
  moreover have "set (j # pre) \<subseteq> S" using new assms(2,5) by auto
  moreover have "card (set (j # pre)) = Suc (card (set pre))" using new by simp
  ultimately have "Suc (length pre) \<le> card S" by (metis assms(3) card_mono)
  then obtain n where n: "cap - length (j # pre) = Suc n"
    using assms(4) by (cases "cap - length (j # pre)") simp_all
  have "lru_add cap j (pre @ k # post) = take cap ((j # pre) @ k # post)"
    using new by (simp add: lru_add_def)
  also have "\<dots> = (j # pre) @ k # take n post"
    using n by (subst take_append) simp
  finally have "lru_add cap j (pre @ k # post) = (j # pre) @ k # take n post" .
  then show ?thesis using \<open>set (j # pre) \<subseteq> S\<close> by blast
qed

lemma offers_keep:
  assumes "inv cap f" and "view f = pre @ k # post" and "set pre \<subseteq> set ks - {k}"
    and "card (set ks - {k}) < cap" and "set js \<subseteq> set ks"
  shows "\<exists>pre post. view (foldl offer f js) = pre @ k # post"
  using assms(1-3,5)
proof (induction js arbitrary: f pre post)
  case (Cons j js)
  have "distinct (pre @ k # post)" using view_ok [OF Cons.prems(1)] Cons.prems(2) by simp
  then obtain pre' post' where "lru_add cap j (pre @ k # post) = pre' @ k # post'" and
    "set pre' \<subseteq> set ks - {k}"
    using lru_add_keeps [of pre k post "set ks - {k}" cap j] Cons.prems(3,4) assms(4) by auto
  then have "view (offer f j) = pre' @ k # post'" and pre: "set pre' \<subseteq> set ks - {k}"
    using offer_view [OF Cons.prems(1)] Cons.prems(2) by simp_all
  from Cons.IH [OF offer_inv [OF Cons.prems(1)] this] Cons.prems(4) show ?case by simp
qed auto

lemma offered_seen:
  assumes "inv cap f" and "card (set ks - {k}) < cap"
  shows "fst (seen (foldl offer (offer f k) ks) k)"
proof -
  have "k \<in> set (view f) \<Longrightarrow> view (offer f k) = [] @ k # remove1 k (view f)"
    using offer_view [OF assms(1)] by (simp add: lru_add_def)
  moreover have "k \<notin> set (view f) \<Longrightarrow> view (offer f k) = [] @ k # take (cap - 1) (view f)"
    using offer_view [OF assms(1)] assms(2) by (cases cap) (simp_all add: lru_add_def)
  ultimately obtain post where "view (offer f k) = [] @ k # post" by metis
  from offers_keep [OF offer_inv [OF assms(1)] this _ assms(2) subset_refl]
  obtain pre post where "view (foldl offer (offer f k) ks) = pre @ k # post" by auto
  moreover have "inv cap (foldl offer f' ks)" if "inv cap f'" for f' ks
    using that by (induction ks arbitrary: f') (simp_all add: offer_inv)
  ultimately show ?thesis
    using seen_iff [of cap "foldl offer (offer f k) ks" k] offer_inv [OF assms(1)] by simp
qed

lemma offers_inv: "inv cap f \<Longrightarrow> inv cap (foldl offer f ks)"
  by (induction ks arbitrary: f) (simp_all add: offer_inv)

lemma never_offered: "inv cap f \<Longrightarrow> fst (seen (foldl offer f ks) k) \<Longrightarrow> k \<in> set (view f) \<union> set ks"
proof (induction ks arbitrary: f)
  case (Cons j ks)
  have "set (view (offer f j)) \<subseteq> insert j (set (view f))"
    using offer_view [OF Cons.prems(1)] set_remove1_subset [of j "view f"] set_take_subset [of cap "j # view f"]
    by (auto simp: lru_add_def)
  then show ?case using Cons.IH [OF offer_inv [OF Cons.prems(1)]] Cons.prems(2) by auto
qed (simp add: seen_iff)

end

interpretation dedup: lru_filter dedup_exists dedup_add "\<lambda>cap c. dedup_inv c \<and> dc_capacity c = cap" dedup_keys
  by unfold_locales
     (auto simp: dedup_exists_spec dedup_add_spec, auto simp: dedup_inv_def dedup_keys_def)

end
