(* ===== verification/GoStd.thy ===== *)
theory GoStd
  imports Prelude "HOL-Library.AList"
begin

text \<open>
  The parts of the Go standard library that several components use: decimal numbers of \<^verbatim>\<open>strconv\<close>,
  and Go maps. A Go map with string keys is an association list with distinct keys; \<^verbatim>\<open>m[k]\<close> of a
  missing key is the zero value. The order in which \<^verbatim>\<open>range\<close> visits a map is left open: a definition
  that ranges over one takes the order as an argument, any rearrangement of the list.
\<close>

section \<open>Decimal numbers\<close>

definition digit_char :: "nat \<Rightarrow> char" where
  "digit_char d = char_of (48 + d)"

definition is_digit :: "char \<Rightarrow> bool" where
  "is_digit c \<longleftrightarrow> 48 \<le> (of_char c :: nat) \<and> (of_char c :: nat) \<le> 57"

definition digit_val :: "char \<Rightarrow> nat" where
  "digit_val c = of_char c - 48"

fun Itoa :: "nat \<Rightarrow> string" where \<comment> \<open>\<^verbatim>\<open>strconv.FormatUint(n, 10)\<close>\<close>
  "Itoa n = (if n < 10 then [digit_char n] else Itoa (n div 10) @ [digit_char (n mod 10)])"

declare Itoa.simps [simp del]

definition FormatInt :: "int \<Rightarrow> string" where \<comment> \<open>\<^verbatim>\<open>strconv.FormatInt(n, 10)\<close>\<close>
  "FormatInt n = (if n < 0 then CHR ''-'' # Itoa (nat (- n)) else Itoa (nat n))"

definition dec_val :: "string \<Rightarrow> nat" where
  "dec_val s = foldl (\<lambda>a c. a * 10 + digit_val c) 0 s"

text \<open>\<^verbatim>\<open>strconv.ParseUint(s, 10, bits)\<close>: \<open>None\<close> is a syntax or a range error.\<close>

definition ParseUint :: "nat \<Rightarrow> string \<Rightarrow> nat option" where
  "ParseUint bits s =
     (if s = [] \<or> \<not> list_all is_digit s then None
      else if dec_val s < 2 ^ bits then Some (dec_val s) else None)"

lemma of_char_digit: "d < 10 \<Longrightarrow> (of_char (digit_char d) :: nat) = 48 + d"
  by (simp add: digit_char_def)

lemma digit_val_char [simp]: "d < 10 \<Longrightarrow> digit_val (digit_char d) = d"
  by (simp add: digit_val_def of_char_digit)

lemma is_digit_char [simp]: "d < 10 \<Longrightarrow> is_digit (digit_char d)"
  by (simp add: is_digit_def of_char_digit)

lemma dec_val_snoc: "dec_val (s @ [c]) = dec_val s * 10 + digit_val c"
  by (simp add: dec_val_def)

lemma Itoa_digits [simp]: "list_all is_digit (Itoa n)"
  by (induction n rule: Itoa.induct) (subst Itoa.simps, simp)

lemma Itoa_not_Nil [simp]: "Itoa n \<noteq> []"
  by (subst Itoa.simps) simp

lemma dec_val_Itoa [simp]: "dec_val (Itoa n) = n"
proof (induction n rule: Itoa.induct)
  case (1 n)
  show ?case
  proof (cases "n < 10")
    case True
    then show ?thesis by (subst Itoa.simps) (simp add: dec_val_def)
  next
    case False
    with 1 show ?thesis by (subst Itoa.simps) (simp add: dec_val_snoc)
  qed
qed

lemma ParseUint_Itoa: "n < 2 ^ bits \<Longrightarrow> ParseUint bits (Itoa n) = Some n"
  by (simp add: ParseUint_def)

lemma Itoa_inject [simp]: "Itoa m = Itoa n \<longleftrightarrow> m = n"
  by (metis dec_val_Itoa)

section \<open>Runes\<close>

text \<open>\<^verbatim>\<open>string(rune(n))\<close>: the UTF-8 encoding; a number that is no code point gives that of U+FFFD.\<close>

definition string_of_rune :: "nat \<Rightarrow> string" where
  "string_of_rune n =
     map char_of
       (if n < 128 then [n]
        else if n < 2048 then [192 + n div 64, 128 + n mod 64]
        else if n > 1114111 \<or> (55296 \<le> n \<and> n \<le> 57343) then [239, 191, 189]
        else if n < 65536 then [224 + n div 4096, 128 + n div 64 mod 64, 128 + n mod 64]
        else [240 + n div 262144, 128 + n div 4096 mod 64, 128 + n div 64 mod 64, 128 + n mod 64])"

definition runes :: "nat list \<Rightarrow> string" where \<comment> \<open>a text that is given by its code points\<close>
  "runes ns = concat (map string_of_rune ns)"

section \<open>Prefixes\<close>

definition HasPrefix :: "string \<Rightarrow> string \<Rightarrow> bool" where \<comment> \<open>\<^verbatim>\<open>strings.HasPrefix\<close>\<close>
  "HasPrefix s p \<longleftrightarrow> length p \<le> length s \<and> take (length p) s = p"

definition TrimPrefix :: "string \<Rightarrow> string \<Rightarrow> string" where \<comment> \<open>\<^verbatim>\<open>strings.TrimPrefix\<close>\<close>
  "TrimPrefix s p = (if HasPrefix s p then drop (length p) s else s)"

lemma HasPrefix_append [simp]: "HasPrefix (p @ s) p"
  by (simp add: HasPrefix_def)

lemma HasPrefix_iff: "HasPrefix s p \<longleftrightarrow> (\<exists>t. s = p @ t)"
  by (metis HasPrefix_append HasPrefix_def append_take_drop_id)

section \<open>Splitting and trimming\<close>

text \<open>\<^verbatim>\<open>strings.Split(s, sep)\<close> and \<^verbatim>\<open>strings.SplitN(s, sep, 2)\<close> for a separator of one byte\<close>

fun Split :: "string \<Rightarrow> char \<Rightarrow> string list" where
  "Split [] sep = [[]]"
| "Split (c # cs) sep =
     (if c = sep then [] # Split cs sep
      else (case Split cs sep of p # ps \<Rightarrow> (c # p) # ps | [] \<Rightarrow> [[c]]))"

definition SplitN2 :: "string \<Rightarrow> char \<Rightarrow> string list" where
  "SplitN2 s sep =
     (if sep \<in> set s then [takeWhile (\<lambda>c. c \<noteq> sep) s, tl (dropWhile (\<lambda>c. c \<noteq> sep) s)] else [s])"

text \<open>\<^verbatim>\<open>strings.TrimSpace(s)\<close>: the characters that \<^verbatim>\<open>unicode.IsSpace\<close> knows, in UTF-8\<close>

definition space_runes :: "string list" where
  "space_runes = map string_of_rune ([9, 10, 11, 12, 13, 32, 133, 160, 5760] @ [8192..<8203] @ [8232, 8233, 8239, 8287, 12288])"

fun trim_left :: "nat \<Rightarrow> string \<Rightarrow> string" where
  "trim_left 0 s = s"
| "trim_left (Suc n) s =
     (case find (HasPrefix s) space_runes of None \<Rightarrow> s | Some p \<Rightarrow> trim_left n (drop (length p) s))"

fun trim_right :: "nat \<Rightarrow> string \<Rightarrow> string" where
  "trim_right 0 s = s"
| "trim_right (Suc n) s =
     (case find (\<lambda>p. HasPrefix (rev s) (rev p)) space_runes of
        None \<Rightarrow> s | Some p \<Rightarrow> trim_right n (take (length s - length p) s))"

definition TrimSpace :: "string \<Rightarrow> string" where
  "TrimSpace s = trim_right (length s) (trim_left (length s) s)"

text \<open>A text that begins and ends with visible characters is left as it is.\<close>

definition visible :: "char \<Rightarrow> bool" where
  "visible c \<longleftrightarrow> 33 \<le> (of_char c :: nat) \<and> (of_char c :: nat) < 127"

lemma space_runes_eq: "space_runes = map (map char_of) [[9], [10], [11], [12], [13], [32], [194, 133], [194, 160], [225, 154, 128],
   [226, 128, 128], [226, 128, 129], [226, 128, 130], [226, 128, 131], [226, 128, 132], [226, 128, 133], [226, 128, 134],
   [226, 128, 135], [226, 128, 136], [226, 128, 137], [226, 128, 138], [226, 128, 168], [226, 128, 169], [226, 128, 175],
   [226, 129, 159], [227, 128, 128 :: nat]]"
  by (simp add: space_runes_def string_of_rune_def upt_conv_Cons del: upt_Suc)

lemma space_runes_ends: "\<forall>p \<in> set space_runes. p \<noteq> [] \<and> \<not> visible (hd p) \<and> \<not> visible (last p)"
  by (simp add: space_runes_eq visible_def)

lemma no_space_head: "visible c \<Longrightarrow> find (HasPrefix (c # s)) space_runes = None"
proof -
  assume c: "visible c"
  have "\<not> HasPrefix (c # s) p" if "p \<in> set space_runes" for p
    using space_runes_ends c that by (cases p) (auto simp: HasPrefix_def)
  then show ?thesis by (simp add: find_None_iff)
qed

lemma no_space_last: "visible c \<Longrightarrow> find (\<lambda>p. HasPrefix (c # s) (rev p)) space_runes = None"
proof -
  assume c: "visible c"
  have "\<not> HasPrefix (c # s) (rev p)" if "p \<in> set space_runes" for p
    using space_runes_ends c that by (cases p rule: rev_cases) (auto simp: HasPrefix_def)
  then show ?thesis by (simp add: find_None_iff)
qed

lemma TrimSpace_visible: "s \<noteq> [] \<Longrightarrow> visible (hd s) \<Longrightarrow> visible (last s) \<Longrightarrow> TrimSpace s = s"
proof -
  assume a: "s \<noteq> []" "visible (hd s)" "visible (last s)"
  then obtain c t where s: "s = c # t" and c: "visible c" by (cases s) auto
  obtain d u where r: "rev s = d # u" and d: "visible d" using a by (metis hd_rev list.collapse rev_is_Nil_conv)
  have "trim_left n s = s" for n using no_space_head [OF c] s by (cases n) simp_all
  moreover have "trim_right n s = s" for n using no_space_last [OF d] r by (cases n) simp_all
  ultimately show ?thesis by (simp add: TrimSpace_def)
qed

text \<open>\<^verbatim>\<open>strconv.ParseInt(s, 10, 64)\<close>\<close>

definition ParseInt :: "string \<Rightarrow> int option" where
  "ParseInt s =
     (let (neg, t) = (case s of
            c # cs \<Rightarrow> if c = CHR ''-'' then (True, cs) else if c = CHR ''+'' then (False, cs) else (False, s)
          | [] \<Rightarrow> (False, s))
      in if t = [] \<or> \<not> list_all is_digit t then None
         else let n = int (dec_val t)
              in if neg then (if n \<le> 2 ^ 63 then Some (- n) else None)
                 else (if n < 2 ^ 63 then Some n else None))"

section \<open>Maps with string keys\<close>

type_synonym 'v gomap = "(string \<times> 'v) list"

definition map_get :: "'v \<Rightarrow> 'v gomap \<Rightarrow> string \<Rightarrow> 'v" where \<comment> \<open>\<^verbatim>\<open>m[k]\<close>, with the zero value\<close>
  "map_get z m k = (case map_of m k of None \<Rightarrow> z | Some v \<Rightarrow> v)"

lemma map_get_update: "map_get z (AList.update k v m) j = (if j = k then v else map_get z m j)"
  by (simp add: map_get_def update_conv')

end
