(* ===== verification/Grouping.thy ===== *)
theory Grouping
  imports GoStd Model
begin

text \<open>
  The two functions of \<^verbatim>\<open>internal/server/server.go\<close> that group the readings of an upload by device
  name, a plain one for small batches and one that counts first and allocates each group at its
  final size. The capacity of a slice has no meaning here; the second one still creates its groups
  empty, in the order a \<^verbatim>\<open>range\<close> over the counts gives.
\<close>

definition group_key :: "Reading \<Rightarrow> string" where
  "group_key r = (if r_DeviceName r = [] then ''__unknown__'' else r_DeviceName r)"

definition group_step :: "Reading list gomap \<Rightarrow> Reading \<Rightarrow> Reading list gomap" where
  "group_step grouped r =
     (let key = group_key r in AList.update key (map_get [] grouped key @ [r]) grouped)"

definition groupReadingsByDeviceName :: "Reading list \<Rightarrow> Reading list gomap" where
  "groupReadingsByDeviceName readings = foldl group_step [] readings"

definition count_groups :: "Reading list \<Rightarrow> nat gomap" where
  "count_groups readings =
     foldl (\<lambda>counts r. let key = group_key r in AList.update key (map_get 0 counts key + 1) counts) [] readings"

definition groupReadingsPrealloc :: "(nat gomap \<Rightarrow> nat gomap) \<Rightarrow> Reading list \<Rightarrow> Reading list gomap" where
  "groupReadingsPrealloc order readings =
     (let counts = count_groups readings;
          grouped = foldl (\<lambda>g (k, n). AList.update k [] g) [] (order counts)
      in foldl group_step grouped readings)"

section \<open>What a group holds\<close>

lemma group_step_get:
  "map_of (foldl group_step g rs) k =
     (let new = filter (\<lambda>r. group_key r = k) rs
      in case map_of g k of Some old \<Rightarrow> Some (old @ new) | None \<Rightarrow> if new = [] then None else Some new)"
  by (induction rs arbitrary: g)
     (auto simp: group_step_def Let_def update_conv' map_get_def split: option.splits)

lemma groups: "map_of (groupReadingsByDeviceName rs) k =
    (let g = filter (\<lambda>r. group_key r = k) rs in if g = [] then None else Some g)"
  by (simp add: groupReadingsByDeviceName_def group_step_get)

lemma count_groups_snoc:
  "count_groups (rs @ [r]) =
     AList.update (group_key r) (map_get 0 (count_groups rs) (group_key r) + 1) (count_groups rs)"
  by (simp add: count_groups_def Let_def)

lemma count_groups_get: "map_get 0 (count_groups rs) k = length (filter (\<lambda>r. group_key r = k) rs)"
  by (induction rs arbitrary: k rule: rev_induct)
     (simp_all add: count_groups_snoc map_get_update, simp add: count_groups_def map_get_def)

lemma dom_count_groups: "fst ` set (count_groups rs) = group_key ` set rs"
  by (induction rs rule: rev_induct) (simp_all add: count_groups_snoc dom_update, simp add: count_groups_def)

lemma empty_groups:
  "map_of (foldl (\<lambda>g (k, n). AList.update k [] g) g cs) k =
     (if k \<in> fst ` set cs then Some [] else map_of g k)"
  by (induction cs arbitrary: g) (auto simp: update_conv')

lemma distinct_group_step: "distinct (map fst g) \<Longrightarrow> distinct (map fst (foldl group_step g rs))"
  by (induction rs arbitrary: g) (simp_all add: group_step_def Let_def distinct_update)

lemma distinct_groups: "distinct (map fst (groupReadingsByDeviceName rs))"
  by (simp add: groupReadingsByDeviceName_def distinct_group_step)

lemma distinct_empty_groups: "distinct (map fst g) \<Longrightarrow> distinct (map fst (foldl (\<lambda>g (k, n). AList.update k [] g) g cs))"
  by (induction cs arbitrary: g) (auto simp: distinct_update)

lemma distinct_prealloc: "distinct (map fst (groupReadingsPrealloc order rs))"
  by (simp add: groupReadingsPrealloc_def Let_def distinct_group_step distinct_empty_groups)

lemma prealloc_same:
  assumes order: "\<forall>cs. mset (order cs) = mset cs"
  shows "map_of (groupReadingsPrealloc order rs) = map_of (groupReadingsByDeviceName rs)"
proof
  fix k
  have perm: "mset (order (count_groups rs)) = mset (count_groups rs)" using order by blast
  have "fst ` set (order (count_groups rs)) = group_key ` set rs"
    by (simp add: mset_eq_setD [OF perm] dom_count_groups)
  then have "map_of (foldl (\<lambda>g (k, n). AList.update k [] g) ([] :: Reading list gomap) (order (count_groups rs))) k =
      (if k \<in> group_key ` set rs then Some [] else None)" by (simp add: empty_groups)
  moreover have "k \<in> group_key ` set rs \<longleftrightarrow> filter (\<lambda>r. group_key r = k) rs \<noteq> []"
    by (auto simp: filter_empty_conv)
  ultimately show "map_of (groupReadingsPrealloc order rs) k = map_of (groupReadingsByDeviceName rs) k"
    by (cases "k \<in> group_key ` set rs") (simp_all add: groupReadingsPrealloc_def Let_def group_step_get groups)
qed

section \<open>Properties\<close>

text \<open>
  Both grouping functions give the same map, whatever order the counts are visited in: the group
  of a device name holds exactly the readings with that name, in the order they came, nameless ones
  under \<^verbatim>\<open>__unknown__\<close>, and there are no empty groups.
\<close>

theorem grouping_equivalent:
  assumes "\<forall>cs. mset (order cs) = mset cs"
  shows "map_of (groupReadingsPrealloc order rs) = map_of (groupReadingsByDeviceName rs)
       \<and> map_of (groupReadingsByDeviceName rs) k =
           (let g = filter (\<lambda>r. group_key r = k) rs in if g = [] then None else Some g)"
  using prealloc_same [of order rs, OF assms] groups by simp

definition named :: "string \<Rightarrow> Reading" where
  "named n = \<lparr>r_ID = 0, r_Device = [], r_DeviceName = n, r_Point = [], r_PointName = [], r_DataType = DataTypeBool,
     r_Value = [], r_Quality = QualityGood, r_Unit = [], r_Timestamp = 0\<rparr>"

theorem grouping_equivalent_witness:
  "map_of (groupReadingsPrealloc rev [named ''a'', named [], named ''a'']) ''a'' = Some [named ''a'', named ''a'']"
proof -
  have "\<forall>cs :: nat gomap. mset (rev cs) = mset cs" by simp
  from grouping_equivalent [of rev "[named ''a'', named [], named ''a'']" "''a''", OF this]
  show ?thesis by (simp add: Let_def group_key_def named_def)
qed

end
