(* ===== verification/Connections.thy ===== *)
theory Connections
  imports GoStd Frame
begin

text \<open>
  \<^verbatim>\<open>internal/server/cache/connections\<close>: the interface of the registry of online gateways, the
  in-memory manager, and the one that keeps its records in Redis. The Redis client is not part of
  the program: its commands are the fields of \<open>redis_ops\<close>, and what is relied on is \<open>redis_laws\<close>.
\<close>

section \<open>Connections and the interface\<close>

record Connection =
  cn_DeviceHash :: string
  cn_ConnectionID :: string
  cn_ServerNode :: string
  cn_ClientIP :: string
  cn_ConnectedAt :: u32
  cn_LastHeartbeat :: u32
  cn_NodeAddr :: string

datatype conn_error = HeartbeatNotFound string | RedisError string | InvalidField string

text \<open>
  The interface \<^verbatim>\<open>ConnectionManager\<close> as a record of its methods. A method that changes the manager
  returns the error, if any, and the manager. \<open>now\<close> is the time \<^verbatim>\<open>utils.NewTimestamp\<close> returns.
\<close>

record 'm conn_manager =
  cm_RegisterConnection :: "'m \<Rightarrow> Connection \<Rightarrow> conn_error option \<times> 'm"
  cm_UpdateHeartbeat :: "'m \<Rightarrow> u32 \<Rightarrow> string \<Rightarrow> conn_error option \<times> 'm"
  cm_GetConnection :: "'m \<Rightarrow> string \<Rightarrow> conn_error + Connection option"
  cm_RemoveConnection :: "'m \<Rightarrow> string \<Rightarrow> conn_error option \<times> 'm"
  cm_ListConnections :: "'m \<Rightarrow> conn_error + Connection list"

section \<open>The in-memory manager\<close>

type_synonym memory = "Connection gomap"

definition NewMemoryConnectionManager :: memory where
  "NewMemoryConnectionManager = []"

definition mem_RegisterConnection :: "memory \<Rightarrow> Connection \<Rightarrow> conn_error option \<times> memory" where
  "mem_RegisterConnection m conn = (None, AList.update (cn_DeviceHash conn) conn m)"

definition mem_UpdateHeartbeat :: "memory \<Rightarrow> u32 \<Rightarrow> string \<Rightarrow> conn_error option \<times> memory" where
  "mem_UpdateHeartbeat m now device_hash =
     (case map_of m device_hash of
        None \<Rightarrow> (Some (HeartbeatNotFound device_hash), m)
      | Some conn \<Rightarrow> (None, AList.update device_hash (conn\<lparr>cn_LastHeartbeat := now\<rparr>) m))"

definition mem_GetConnection :: "memory \<Rightarrow> string \<Rightarrow> conn_error + Connection option" where
  "mem_GetConnection m device_hash = Inr (map_of m device_hash)"

definition mem_RemoveConnection :: "memory \<Rightarrow> string \<Rightarrow> conn_error option \<times> memory" where
  "mem_RemoveConnection m device_hash = (None, AList.delete device_hash m)"

definition mem_ListConnections :: "(memory \<Rightarrow> memory) \<Rightarrow> memory \<Rightarrow> conn_error + Connection list" where
  "mem_ListConnections order m = Inr (map snd (order m))"

definition mem_GetDeviceConnection :: "memory \<Rightarrow> string \<Rightarrow> conn_error + Connection option" where
  "mem_GetDeviceConnection m device_hash = mem_GetConnection m device_hash"

definition memory_manager :: "(memory \<Rightarrow> memory) \<Rightarrow> memory conn_manager" where
  "memory_manager order =
     \<lparr>cm_RegisterConnection = mem_RegisterConnection, cm_UpdateHeartbeat = mem_UpdateHeartbeat,
      cm_GetConnection = mem_GetConnection, cm_RemoveConnection = mem_RemoveConnection,
      cm_ListConnections = mem_ListConnections order\<rparr>"

section \<open>The Redis manager\<close>

text \<open>
  The commands of the client. \<open>None\<close> and \<open>False\<close> are the error of a command. A pipeline sends its
  commands together and reports an error when one of them failed.
\<close>

record 'db redis_ops =
  rd_HSet :: "'db \<Rightarrow> string \<Rightarrow> (string \<times> string) list \<Rightarrow> bool \<times> 'db"
  rd_HGetAll :: "'db \<Rightarrow> string \<Rightarrow> string gomap option"
  rd_Del :: "'db \<Rightarrow> string \<Rightarrow> bool \<times> 'db"
  rd_Exists :: "'db \<Rightarrow> string \<Rightarrow> nat option"
  rd_Keys :: "'db \<Rightarrow> string \<Rightarrow> string list option"

definition connKeyPrefix :: string where "connKeyPrefix = ''lepg:device:''"

definition connection_fields :: "Connection \<Rightarrow> (string \<times> string) list" where
  "connection_fields conn =
     [(''device_hash'', cn_DeviceHash conn), (''connection_id'', cn_ConnectionID conn),
      (''server_node'', cn_ServerNode conn), (''client_ip'', cn_ClientIP conn),
      (''connected_at'', Itoa (unat (cn_ConnectedAt conn))),
      (''last_heartbeat'', Itoa (unat (cn_LastHeartbeat conn)))]"

definition connectionFromHash :: "string gomap \<Rightarrow> conn_error + Connection" where
  "connectionFromHash m =
     (case ParseUint 32 (map_get [] m ''connected_at'') of
        None \<Rightarrow> Inl (InvalidField ''connected_at'')
      | Some connectedAt \<Rightarrow>
     (case ParseUint 32 (map_get [] m ''last_heartbeat'') of
        None \<Rightarrow> Inl (InvalidField ''last_heartbeat'')
      | Some lastHeartbeat \<Rightarrow>
          Inr \<lparr>cn_DeviceHash = map_get [] m ''device_hash'', cn_ConnectionID = map_get [] m ''connection_id'',
               cn_ServerNode = map_get [] m ''server_node'', cn_ClientIP = map_get [] m ''client_ip'',
               cn_ConnectedAt = of_nat connectedAt, cn_LastHeartbeat = of_nat lastHeartbeat,
               cn_NodeAddr = []\<rparr>))"

definition red_RegisterConnection :: "'db redis_ops \<Rightarrow> 'db \<Rightarrow> Connection \<Rightarrow> conn_error option \<times> 'db" where
  "red_RegisterConnection rd db conn =
     (let (ok, db) = rd_HSet rd db (connKeyPrefix @ cn_DeviceHash conn) (connection_fields conn)
      in (if ok then None else Some (RedisError (cn_DeviceHash conn)), db))"

definition red_UpdateHeartbeat :: "'db redis_ops \<Rightarrow> 'db \<Rightarrow> u32 \<Rightarrow> string \<Rightarrow> conn_error option \<times> 'db" where
  "red_UpdateHeartbeat rd db now device_hash =
     (let key = connKeyPrefix @ device_hash;
          exists = rd_Exists rd db key;
          (ok, db) = rd_HSet rd db key [(''last_heartbeat'', Itoa (unat now))]
      in case exists of
           None \<Rightarrow> (Some (RedisError device_hash), db)
         | Some n \<Rightarrow>
             (if \<not> ok then Some (RedisError device_hash)
              else if n = 0 then Some (HeartbeatNotFound device_hash) else None, db))"

definition red_GetConnection :: "'db redis_ops \<Rightarrow> 'db \<Rightarrow> string \<Rightarrow> conn_error + Connection option" where
  "red_GetConnection rd db device_hash =
     (case rd_HGetAll rd db (connKeyPrefix @ device_hash) of
        None \<Rightarrow> Inl (RedisError device_hash)
      | Some result \<Rightarrow>
          if result = [] then Inr None
          else (case connectionFromHash result of Inl e \<Rightarrow> Inl e | Inr c \<Rightarrow> Inr (Some c)))"

definition red_RemoveConnection :: "'db redis_ops \<Rightarrow> 'db \<Rightarrow> string \<Rightarrow> conn_error option \<times> 'db" where
  "red_RemoveConnection rd db device_hash =
     (let (ok, db) = rd_Del rd db (connKeyPrefix @ device_hash)
      in (if ok then None else Some (RedisError device_hash), db))"

primrec connections_from :: "string gomap list \<Rightarrow> Connection list \<Rightarrow> conn_error + Connection list" where
  "connections_from [] conns = Inr conns"
| "connections_from (result # cmds) conns =
     (if result = [] then connections_from cmds conns
      else (case connectionFromHash result of
              Inl e \<Rightarrow> Inl e
            | Inr conn \<Rightarrow> connections_from cmds (conns @ [conn])))"

definition red_ListConnections :: "'db redis_ops \<Rightarrow> 'db \<Rightarrow> conn_error + Connection list" where
  "red_ListConnections rd db =
     (case rd_Keys rd db (connKeyPrefix @ ''*'') of
        None \<Rightarrow> Inl (RedisError [])
      | Some keys \<Rightarrow>
          if keys = [] then Inr []
          else (let cmds = map (rd_HGetAll rd db) keys
                in if None \<in> set cmds then Inl (RedisError [])
                   else connections_from (map the cmds) []))"

definition red_GetDeviceConnection :: "'db redis_ops \<Rightarrow> 'db \<Rightarrow> string \<Rightarrow> conn_error + Connection option" where
  "red_GetDeviceConnection rd db device_hash = red_GetConnection rd db device_hash"

definition redis_manager :: "'db redis_ops \<Rightarrow> 'db conn_manager" where
  "redis_manager rd =
     \<lparr>cm_RegisterConnection = red_RegisterConnection rd, cm_UpdateHeartbeat = red_UpdateHeartbeat rd,
      cm_GetConnection = red_GetConnection rd, cm_RemoveConnection = red_RemoveConnection rd,
      cm_ListConnections = red_ListConnections rd\<rparr>"

section \<open>The contract\<close>

text \<open>
  What the server relies on: a manager behaves as a finite map from a gateway's hash to its record.
\<close>

locale connection_registry =
  fixes mgr :: "'m conn_manager"
    and view :: "'m \<Rightarrow> string \<Rightarrow> Connection option"
  assumes get_view: "cm_GetConnection mgr m k = Inr (view m k)"
    and register_view: "view (snd (cm_RegisterConnection mgr m c)) = (view m)(cn_DeviceHash c \<mapsto> c)"
    and heartbeat_view: "view (snd (cm_UpdateHeartbeat mgr m now k)) =
      (view m)(k := map_option (\<lambda>c. c\<lparr>cn_LastHeartbeat := now\<rparr>) (view m k))"
    and heartbeat_error: "fst (cm_UpdateHeartbeat mgr m now k) = None \<longleftrightarrow> view m k \<noteq> None"
    and remove_view: "view (snd (cm_RemoveConnection mgr m k)) = (view m)(k := None)"
begin

text \<open>Two sessions of one gateway: the end of the first takes the registration of the second away.\<close>

lemma stale_remove:
  assumes "cn_DeviceHash c = k"
  shows "view (snd (cm_RemoveConnection mgr (snd (cm_RegisterConnection mgr m c)) k)) k = None"
    and "fst (cm_UpdateHeartbeat mgr (snd (cm_RemoveConnection mgr (snd (cm_RegisterConnection mgr m c)) k)) now k) \<noteq> None"
  by (simp_all add: remove_view heartbeat_error)

lemma other_gateways:
  assumes "j \<noteq> k"
  shows "view (snd (cm_RemoveConnection mgr m k)) j = view m j"
    and "view (snd (cm_UpdateHeartbeat mgr m now k)) j = view m j"
    and "cn_DeviceHash c = k \<Longrightarrow> view (snd (cm_RegisterConnection mgr m c)) j = view m j"
  using assms by (auto simp: remove_view heartbeat_view register_view)

end

lemma mem_heartbeat_view:
  "map_of (snd (mem_UpdateHeartbeat m now k)) =
     (map_of m)(k := map_option (\<lambda>c. c\<lparr>cn_LastHeartbeat := now\<rparr>) (map_of m k))"
  by (auto simp: mem_UpdateHeartbeat_def update_conv' fun_eq_iff split: option.split)

interpretation memory: connection_registry "memory_manager order" "\<lambda>m. map_of m"
  by unfold_locales
     (simp_all add: memory_manager_def mem_GetConnection_def mem_RegisterConnection_def update_conv'
       mem_heartbeat_view mem_RemoveConnection_def delete_conv',
      simp add: mem_UpdateHeartbeat_def split: option.split)

section \<open>Redis\<close>

definition redis_hash :: "'db redis_ops \<Rightarrow> 'db \<Rightarrow> string \<Rightarrow> string \<Rightarrow> string option" where
  "redis_hash rd db k = (case rd_HGetAll rd db k of None \<Rightarrow> Map.empty | Some h \<Rightarrow> map_of h)"

text \<open>
  What the Redis documentation says of a server that answers (\<open>up\<close>): \<^verbatim>\<open>HSET\<close> sets the given fields
  of one hash and leaves the others, \<^verbatim>\<open>EXISTS\<close> counts a key that holds a hash, \<^verbatim>\<open>DEL\<close> removes it, and
  \<^verbatim>\<open>KEYS prefix*\<close> lists the keys with the prefix. A key exists when its hash has a field.
\<close>

definition redis_laws :: "'db redis_ops \<Rightarrow> ('db \<Rightarrow> bool) \<Rightarrow> bool" where
  "redis_laws rd up \<longleftrightarrow> (\<forall>db. up db \<longrightarrow>
     (\<forall>k. rd_HGetAll rd db k \<noteq> None)
   \<and> (\<forall>k fs. distinct (map fst fs) \<longrightarrow> fst (rd_HSet rd db k fs) \<and> up (snd (rd_HSet rd db k fs))
        \<and> redis_hash rd (snd (rd_HSet rd db k fs)) = (redis_hash rd db)(k := redis_hash rd db k ++ map_of fs))
   \<and> (\<forall>k. fst (rd_Del rd db k) \<and> up (snd (rd_Del rd db k))
        \<and> redis_hash rd (snd (rd_Del rd db k)) = (redis_hash rd db)(k := Map.empty))
   \<and> (\<forall>k. rd_Exists rd db k = Some (if redis_hash rd db k = Map.empty then 0 else 1))
   \<and> (\<forall>p. \<exists>ks. rd_Keys rd db (p @ ''*'') = Some ks
        \<and> set ks = {k. redis_hash rd db k \<noteq> Map.empty \<and> take (length p) k = p}))"

lemma redis_HGetAll:
  assumes "redis_laws rd up" and "up db"
  obtains h where "rd_HGetAll rd db k = Some h" and "map_of h = redis_hash rd db k"
proof -
  have "rd_HGetAll rd db k \<noteq> None" using assms unfolding redis_laws_def by blast
  then show ?thesis using that by (auto simp: redis_hash_def)
qed

lemma redis_HSet:
  assumes "redis_laws rd up" and "up db" and "distinct (map fst fs)"
  shows "fst (rd_HSet rd db k fs)" and "up (snd (rd_HSet rd db k fs))"
    and "redis_hash rd (snd (rd_HSet rd db k fs)) = (redis_hash rd db)(k := redis_hash rd db k ++ map_of fs)"
  using assms unfolding redis_laws_def by blast+

lemma distinct_connection_fields: "distinct (map fst (connection_fields c))"
  by (simp add: connection_fields_def)

lemma connectionFromHash_cong:
  assumes "map_of m = map_of m'"
  shows "connectionFromHash m = connectionFromHash m'"
proof -
  have "map_get [] m = map_get [] m'" using assms by (simp add: map_get_def fun_eq_iff)
  then show ?thesis by (simp only: connectionFromHash_def)
qed

lemma unat_u32_bound: "unat (w :: u32) < 2 ^ 32"
  using unsigned_less [of w] by simp

lemma connectionFromHash_fields:
  assumes "map_of m = h ++ map_of (connection_fields c)"
  shows "connectionFromHash m = Inr (c\<lparr>cn_NodeAddr := []\<rparr>)"
  using assms unat_u32_bound [of "cn_ConnectedAt c"] unat_u32_bound [of "cn_LastHeartbeat c"]
  by (cases c) (simp add: connectionFromHash_def map_get_def connection_fields_def ParseUint_Itoa
      map_add_def del: of_char_of)

lemma red_GetConnection_cong:
  assumes laws: "redis_laws rd up" and up: "up db" "up db'"
    and eq: "redis_hash rd db (connKeyPrefix @ k) = redis_hash rd db' (connKeyPrefix @ k)"
  shows "red_GetConnection rd db k = red_GetConnection rd db' k"
proof -
  obtain h where h: "rd_HGetAll rd db (connKeyPrefix @ k) = Some h" "map_of h = redis_hash rd db (connKeyPrefix @ k)"
    by (rule redis_HGetAll [OF laws up(1)])
  obtain h' where h': "rd_HGetAll rd db' (connKeyPrefix @ k) = Some h'" "map_of h' = redis_hash rd db' (connKeyPrefix @ k)"
    by (rule redis_HGetAll [OF laws up(2)])
  have m: "map_of h = map_of h'" using h h' eq by simp
  then have "h = [] \<longleftrightarrow> h' = []" by (metis map_of_eq_empty_iff)
  then show ?thesis
    using connectionFromHash_cong [OF m] h(1) h'(1) by (simp add: red_GetConnection_def)
qed

lemma redis_registered:
  assumes laws: "redis_laws rd up" and up: "up db"
  shows "fst (red_RegisterConnection rd db c) = None"
    and "up (snd (red_RegisterConnection rd db c))"
    and "red_GetConnection rd (snd (red_RegisterConnection rd db c)) (cn_DeviceHash c) = Inr (Some (c\<lparr>cn_NodeAddr := []\<rparr>))"
    and "j \<noteq> cn_DeviceHash c \<Longrightarrow>
      red_GetConnection rd (snd (red_RegisterConnection rd db c)) j = red_GetConnection rd db j"
proof -
  let ?k = "connKeyPrefix @ cn_DeviceHash c" and ?db = "snd (red_RegisterConnection rd db c)"
  have db: "?db = snd (rd_HSet rd db ?k (connection_fields c))"
    by (simp add: red_RegisterConnection_def split_beta Let_def)
  note set = redis_HSet [OF laws up distinct_connection_fields, of ?k c]
  show "fst (red_RegisterConnection rd db c) = None"
    using set(1) by (simp add: red_RegisterConnection_def split_beta Let_def)
  show up': "up ?db" using set(2) db by simp
  obtain h where h: "rd_HGetAll rd ?db ?k = Some h" "map_of h = redis_hash rd ?db ?k"
    by (rule redis_HGetAll [OF laws up'])
  then have hc: "map_of h = redis_hash rd db ?k ++ map_of (connection_fields c)" using set(3) db by simp
  then have "map_of h ''client_ip'' = Some (cn_ClientIP c)" by (simp add: connection_fields_def)
  then have "h \<noteq> []" by auto
  then show "red_GetConnection rd ?db (cn_DeviceHash c) = Inr (Some (c\<lparr>cn_NodeAddr := []\<rparr>))"
    using h(1) connectionFromHash_fields [OF hc] by (simp add: red_GetConnection_def)
  show "red_GetConnection rd ?db j = red_GetConnection rd db j" if "j \<noteq> cn_DeviceHash c"
    by (rule red_GetConnection_cong [OF laws up' up]) (use that set(3) db in simp)
qed

lemma connections_from_Inl:
  assumes "h \<in> set cmds" and "h \<noteq> []" and "connectionFromHash h = Inl e"
  shows "\<exists>e. connections_from cmds conns = Inl e"
  using assms(1)
proof (induction cmds arbitrary: conns)
  case (Cons a cmds)
  then show ?case using assms(2,3) by (cases "a = h") (auto split: sum.split)
qed simp

lemma redis_ghost:
  assumes laws: "redis_laws rd up" and up: "up db" and none: "red_GetConnection rd db k = Inr None"
  shows "fst (red_UpdateHeartbeat rd db now k) = Some (HeartbeatNotFound k)"
    and "\<exists>e. red_GetConnection rd (snd (red_UpdateHeartbeat rd db now k)) k = Inl e"
    and "\<exists>e. red_ListConnections rd (snd (red_UpdateHeartbeat rd db now k)) = Inl e"
proof -
  let ?k = "connKeyPrefix @ k" and ?f = "[(''last_heartbeat'', Itoa (unat now))]"
  let ?db = "snd (red_UpdateHeartbeat rd db now k)"
  obtain h0 where h0: "rd_HGetAll rd db ?k = Some h0" "map_of h0 = redis_hash rd db ?k"
    by (rule redis_HGetAll [OF laws up])
  have "h0 = []" using none h0(1) by (auto simp: red_GetConnection_def split: if_splits sum.splits)
  then have empty: "redis_hash rd db ?k = Map.empty" using h0(2) by simp
  have ex: "rd_Exists rd db ?k = Some 0" using laws up empty unfolding redis_laws_def by auto
  have "distinct (map fst ?f)" by simp
  note set = redis_HSet [OF laws up this, of ?k]
  have db: "?db = snd (rd_HSet rd db ?k ?f)"
    using ex by (simp add: red_UpdateHeartbeat_def split_beta Let_def)
  show "fst (red_UpdateHeartbeat rd db now k) = Some (HeartbeatNotFound k)"
    using set(1) ex by (simp add: red_UpdateHeartbeat_def split_beta Let_def)
  have up': "up ?db" using set(2) db by simp
  have hash: "redis_hash rd ?db ?k = map_of ?f" using set(3) db empty by simp
  obtain h where h: "rd_HGetAll rd ?db ?k = Some h" "map_of h = map_of ?f"
    using redis_HGetAll [OF laws up', of ?k] hash by metis
  then have ne: "h \<noteq> []" by (auto simp: fun_eq_iff split: if_splits)
  have bad: "connectionFromHash h = Inl (InvalidField ''connected_at'')"
    using h(2) by (simp add: connectionFromHash_def map_get_def ParseUint_def)
  show "\<exists>e. red_GetConnection rd ?db k = Inl e" using h(1) ne bad by (simp add: red_GetConnection_def)
  obtain ks where ks: "rd_Keys rd ?db (connKeyPrefix @ ''*'') = Some ks" and
    mem: "set ks = {k. redis_hash rd ?db k \<noteq> Map.empty \<and> take (length connKeyPrefix) k = connKeyPrefix}"
    using laws up' unfolding redis_laws_def by blast
  have "map_of ?f \<noteq> Map.empty" by (auto simp: fun_eq_iff split: if_splits)
  then have "?k \<in> set ks" using mem hash by simp
  then have "ks \<noteq> []" and "h \<in> set (map the (map (rd_HGetAll rd ?db) ks))"
    using h(1) image_eqI [of h "\<lambda>x. the (rd_HGetAll rd ?db x)" ?k] by auto
  then show "\<exists>e. red_ListConnections rd ?db = Inl e"
    using connections_from_Inl [OF _ ne bad] ks by (simp add: red_ListConnections_def Let_def)
qed

text \<open>A Redis server in memory, on which the laws hold.\<close>

definition sample_redis :: "string gomap gomap redis_ops" where
  "sample_redis =
     \<lparr>rd_HSet = (\<lambda>db k fs. (True, AList.update k (AList.merge (map_get [] db k) fs) db)),
      rd_HGetAll = (\<lambda>db k. Some (map_get [] db k)),
      rd_Del = (\<lambda>db k. (True, AList.delete k db)),
      rd_Exists = (\<lambda>db k. Some (if map_get [] db k = [] then 0 else 1)),
      rd_Keys = (\<lambda>db p. Some (filter (\<lambda>k. map_get [] db k \<noteq> [] \<and> take (length p - 1) k = butlast p) (map fst db)))\<rparr>"

lemma sample_redis_laws: "redis_laws sample_redis (\<lambda>_. True)"
proof -
  have hash: "redis_hash sample_redis db k = map_of (map_get [] db k)" for db k
    by (simp add: redis_hash_def sample_redis_def)
  have empty: "map_of m = Map.empty \<longleftrightarrow> m = []" for m :: "string gomap" by (rule map_of_eq_empty_iff)
  have get: "map_get [] db k = [] \<longleftrightarrow> map_of db k = None \<or> map_of db k = Some []" for db k
    by (auto simp: map_get_def split: option.splits)
  have key: "k \<in> set (map fst db)" if "map_get [] db k \<noteq> []" for db k
    using that by (auto simp: get) (metis image_eqI map_of_SomeD fst_conv option.exhaust)
  have del: "map_get [] (AList.delete k db) j = (if j = k then [] else map_get [] db j)" for k db and j :: string
    by (simp add: map_get_def delete_conv')
  have hset: "redis_hash sample_redis (snd (rd_HSet sample_redis db k fs)) =
      (redis_hash sample_redis db)(k := redis_hash sample_redis db k ++ map_of fs)" for db k fs
    unfolding hash by (rule ext) (simp add: hash sample_redis_def map_get_update merge_conv')
  have hdel: "redis_hash sample_redis (snd (rd_Del sample_redis db k)) =
      (redis_hash sample_redis db)(k := Map.empty)" for db k
    by (rule ext) (simp add: hash, simp add: sample_redis_def del)
  have keys: "\<exists>ks. rd_Keys sample_redis db (p @ ''*'') = Some ks \<and>
      set ks = {k. redis_hash sample_redis db k \<noteq> Map.empty \<and> take (length p) k = p}" for db p
    using key [of db] by (simp add: hash empty, simp add: sample_redis_def butlast_append) blast
  show ?thesis
    unfolding redis_laws_def hset hdel using keys
    by (simp add: hash empty) (simp add: sample_redis_def)
qed

section \<open>Properties\<close>

text \<open>
  With a Redis server that answers, registering a gateway and reading it back returns the record
  that was registered, but for the node address, which is not stored; other gateways are untouched.
\<close>

theorem redis_register_roundtrip:
  assumes "redis_laws rd up" and "up db" and "red_RegisterConnection rd db c = (e, db')"
  shows "e = None \<and> red_GetConnection rd db' (cn_DeviceHash c) = Inr (Some (c\<lparr>cn_NodeAddr := []\<rparr>))
       \<and> (\<forall>j. j \<noteq> cn_DeviceHash c \<longrightarrow> red_GetConnection rd db' j = red_GetConnection rd db j)"
  using redis_registered [OF assms(1,2), where c = c] assms(3) by simp

theorem redis_register_roundtrip_witness:
  "let c = \<lparr>cn_DeviceHash = ''gw'', cn_ConnectionID = ''id'', cn_ServerNode = [], cn_ClientIP = ''1.2.3.4:5'',
            cn_ConnectedAt = 77, cn_LastHeartbeat = 78, cn_NodeAddr = ''pod''\<rparr>
   in red_GetConnection sample_redis (snd (red_RegisterConnection sample_redis [] c)) ''gw''
        = Inr (Some (c\<lparr>cn_NodeAddr := []\<rparr>))"
proof -
  let ?c = "\<lparr>cn_DeviceHash = ''gw'', cn_ConnectionID = ''id'', cn_ServerNode = [], cn_ClientIP = ''1.2.3.4:5'',
            cn_ConnectedAt = 77, cn_LastHeartbeat = 78, cn_NodeAddr = ''pod''\<rparr>"
  obtain e db' where r: "red_RegisterConnection sample_redis [] ?c = (e, db')" by fastforce
  from redis_register_roundtrip [OF sample_redis_laws TrueI r] r show ?thesis by (simp add: Let_def)
qed

text \<open>
  The heartbeat of a gateway Redis does not know is reported as an error, but it leaves a hash
  with the heartbeat alone: from then on reading that gateway fails, and listing the connections
  fails for all gateways.
\<close>

theorem redis_heartbeat_of_missing_breaks_list:
  assumes "redis_laws rd up" and "up db" and "red_GetConnection rd db k = Inr None"
    and "red_UpdateHeartbeat rd db now k = (e, db')"
  shows "e = Some (HeartbeatNotFound k) \<and> (\<exists>e. red_GetConnection rd db' k = Inl e)
       \<and> (\<exists>e. red_ListConnections rd db' = Inl e)"
  using redis_ghost [OF assms(1-3), of now] assms(4) by simp

theorem redis_heartbeat_of_missing_breaks_list_witness:
  "\<exists>e. red_ListConnections sample_redis (snd (red_UpdateHeartbeat sample_redis [] 5 ''gw'')) = Inl e"
proof -
  have "red_GetConnection sample_redis [] ''gw'' = Inr None"
    by (simp add: red_GetConnection_def sample_redis_def map_get_def)
  from redis_heartbeat_of_missing_breaks_list [OF sample_redis_laws TrueI this surjective_pairing]
  show ?thesis by blast
qed

end
