(* ===== verification/ServerStore.thy ===== *)
theory ServerStore
  imports GoStd Model
begin

text \<open>
  \<^verbatim>\<open>internal/server/cache/store.go\<close> and \<^verbatim>\<open>postgres.go\<close>: the interface \<^verbatim>\<open>Store\<close> and its implementation on
  PostgreSQL. The database is not part of the program: the four statements the code sends are the
  fields of \<open>pg_ops\<close>, and \<open>pg_laws\<close> is what they do according to SQL. A column the program never
  fills, the generated key, is zero in a row to be inserted.
\<close>

section \<open>Rows and filters\<close>

record StoredReading =
  sr_ID :: int
  sr_Sn :: string
  sr_UploadTime :: int
  sr_Device :: string
  sr_DeviceName :: string
  sr_Point :: string
  sr_PointName :: string
  sr_DataType :: string
  sr_Value :: string
  sr_Quality :: u8
  sr_Unit :: string
  sr_Timestamp :: int

record QueryFilter =
  qf_Sn :: string
  qf_Device :: string
  qf_StartTime :: int
  qf_EndTime :: int
  qf_Limit :: int

record StoredDevice =
  sd_ID :: int
  sd_Sn :: string
  sd_DeviceHash :: string
  sd_DeviceName :: string
  sd_Type :: string
  sd_FirstSeen :: int
  sd_LastSeen :: int
  sd_Status :: string

record DeviceQueryFilter =
  df_Sn :: string
  df_Limit :: int

text \<open>A query: its \<^verbatim>\<open>WHERE\<close> clauses in the order they were added, the column it is ordered by, its limit.\<close>

datatype clause = SnIs string | DeviceIs string | TimestampFrom int | TimestampTo int
datatype order_by = TimestampDesc | LastSeenDesc

record query =
  q_where :: "clause list"
  q_order :: order_by
  q_limit :: int

record 'db pg_ops =
  pg_InsertReadings :: "'db \<Rightarrow> StoredReading list \<Rightarrow> bool \<times> 'db"
  pg_UpsertDevice :: "'db \<Rightarrow> string \<Rightarrow> string \<Rightarrow> string \<Rightarrow> int \<Rightarrow> int \<Rightarrow> bool \<times> 'db"
  pg_SelectReadings :: "'db \<Rightarrow> query \<Rightarrow> StoredReading list option"
  pg_SelectDevices :: "'db \<Rightarrow> query \<Rightarrow> StoredDevice list option"

datatype store_error = InsertFailed | UpsertDeviceFailed string

record 's store_ops =
  st_SaveReadings :: "'s \<Rightarrow> int \<Rightarrow> string \<Rightarrow> Reading list \<Rightarrow> store_error option \<times> 's"

section \<open>The PostgreSQL store\<close>

definition to_stored :: "string \<Rightarrow> int \<Rightarrow> Reading \<Rightarrow> StoredReading" where
  "to_stored sn now r =
     \<lparr>sr_ID = 0, sr_Sn = sn, sr_UploadTime = now, sr_Device = r_Device r, sr_DeviceName = r_DeviceName r,
      sr_Point = r_Point r, sr_PointName = r_PointName r, sr_DataType = r_DataType r, sr_Value = r_Value r,
      sr_Quality = r_Quality r, sr_Unit = r_Unit r, sr_Timestamp = sint (r_Timestamp r)\<rparr>"

definition seen_devices :: "Reading list \<Rightarrow> string gomap" where
  "seen_devices readings = foldl (\<lambda>m r. AList.update (r_Device r) (r_DeviceName r) m) [] readings"

primrec upsert_devices :: "'db pg_ops \<Rightarrow> 'db \<Rightarrow> string \<Rightarrow> int \<Rightarrow> string gomap \<Rightarrow> store_error option \<times> 'db" where
  "upsert_devices pg db sn now [] = (None, db)"
| "upsert_devices pg db sn now (dk # rest) =
     (let (ok, db) = pg_UpsertDevice pg db sn (fst dk) (snd dk) now now
      in if ok then upsert_devices pg db sn now rest
         else (Some (UpsertDeviceFailed (fst dk)), db))"

definition SaveReadings :: "'db pg_ops \<Rightarrow> (string gomap \<Rightarrow> string gomap) \<Rightarrow> 'db \<Rightarrow> int \<Rightarrow> string \<Rightarrow> Reading list
    \<Rightarrow> store_error option \<times> 'db" where
  "SaveReadings pg order db now sn readings =
     (if readings = [] then (None, db)
      else let (ok, db) = pg_InsertReadings pg db (map (to_stored sn now) readings)
           in if \<not> ok then (Some InsertFailed, db)
              else upsert_devices pg db sn now (order (seen_devices readings)))"

definition reading_query :: "QueryFilter \<Rightarrow> query" where
  "reading_query flt =
     \<lparr>q_where = (if qf_Sn flt \<noteq> [] then [SnIs (qf_Sn flt)] else [])
               @ (if qf_Device flt \<noteq> [] then [DeviceIs (qf_Device flt)] else [])
               @ (if qf_StartTime flt > 0 then [TimestampFrom (qf_StartTime flt)] else [])
               @ (if qf_EndTime flt > 0 then [TimestampTo (qf_EndTime flt)] else []),
      q_order = TimestampDesc,
      q_limit = (if qf_Limit flt \<le> 0 then 1000 else qf_Limit flt)\<rparr>"

definition QueryReadings :: "'db pg_ops \<Rightarrow> 'db \<Rightarrow> QueryFilter \<Rightarrow> StoredReading list option" where
  "QueryReadings pg db flt = pg_SelectReadings pg db (reading_query flt)"

definition device_query :: "DeviceQueryFilter \<Rightarrow> query" where
  "device_query flt =
     \<lparr>q_where = (if df_Sn flt \<noteq> [] then [SnIs (df_Sn flt)] else []),
      q_order = LastSeenDesc,
      q_limit = (if df_Limit flt \<le> 0 then 1000 else df_Limit flt)\<rparr>"

definition QueryDevices :: "'db pg_ops \<Rightarrow> 'db \<Rightarrow> DeviceQueryFilter \<Rightarrow> StoredDevice list option" where
  "QueryDevices pg db flt = pg_SelectDevices pg db (device_query flt)"

definition postgres_store :: "'db pg_ops \<Rightarrow> (string gomap \<Rightarrow> string gomap) \<Rightarrow> 'db store_ops" where
  "postgres_store pg order = \<lparr>st_SaveReadings = SaveReadings pg order\<rparr>"

section \<open>What SQL promises\<close>

fun clause_holds :: "clause \<Rightarrow> StoredReading \<Rightarrow> bool" where
  "clause_holds (SnIs sn) r \<longleftrightarrow> sr_Sn r = sn"
| "clause_holds (DeviceIs d) r \<longleftrightarrow> sr_Device r = d"
| "clause_holds (TimestampFrom t) r \<longleftrightarrow> t \<le> sr_Timestamp r"
| "clause_holds (TimestampTo t) r \<longleftrightarrow> sr_Timestamp r \<le> t"

type_synonym 'db readings_view = "'db \<Rightarrow> StoredReading list"
type_synonym 'db devices_view = "'db \<Rightarrow> string \<times> string \<Rightarrow> StoredDevice option"

text \<open>
  An insert that succeeds adds the rows, with keys of their own; an upsert that succeeds adds the
  device or changes its last-seen time and name; a statement that fails changes nothing; a select
  orders the rows that satisfy the clauses by descending timestamp and keeps the first ones.
\<close>

definition upserted :: "StoredDevice option \<Rightarrow> string \<Rightarrow> string \<Rightarrow> string \<Rightarrow> int \<Rightarrow> int \<Rightarrow> StoredDevice \<Rightarrow> bool" where
  "upserted old sn hash name fs ls d \<longleftrightarrow>
     (case old of
        None \<Rightarrow> sd_Sn d = sn \<and> sd_DeviceHash d = hash \<and> sd_DeviceName d = name \<and> sd_FirstSeen d = fs
                \<and> sd_LastSeen d = ls \<and> sd_Status d = ''unknown''
      | Some o' \<Rightarrow> d = o'\<lparr>sd_LastSeen := ls, sd_DeviceName := name\<rparr>)"

definition pg_laws :: "'db pg_ops \<Rightarrow> 'db readings_view \<Rightarrow> 'db devices_view \<Rightarrow> bool" where
  "pg_laws pg rv dv \<longleftrightarrow> (\<forall>db.
     (\<forall>rows ok db'. pg_InsertReadings pg db rows = (ok, db') \<longrightarrow>
        (if ok then (\<exists>new. rv db' = rv db @ new \<and> map (\<lambda>r. r\<lparr>sr_ID := 0\<rparr>) new = map (\<lambda>r. r\<lparr>sr_ID := 0\<rparr>) rows)
         else rv db' = rv db) \<and> dv db' = dv db)
   \<and> (\<forall>sn h n f l ok db'. pg_UpsertDevice pg db sn h n f l = (ok, db') \<longrightarrow>
        rv db' = rv db \<and> (if ok then (\<exists>d. upserted (dv db (sn, h)) sn h n f l d \<and> dv db' = (dv db)((sn, h) \<mapsto> d))
                          else dv db' = dv db))
   \<and> (\<forall>q rows. pg_SelectReadings pg db q = Some rows \<longrightarrow> q_order q = TimestampDesc \<longrightarrow>
        (\<exists>rest. mset (rows @ rest) = mset (filter (\<lambda>r. \<forall>c \<in> set (q_where q). clause_holds c r) (rv db))
          \<and> sorted_wrt (\<lambda>a b. sr_Timestamp b \<le> sr_Timestamp a) (rows @ rest)
          \<and> length rows = min (nat (q_limit q)) (length (rows @ rest)))))"

lemma pg_insert:
  assumes "pg_laws pg rv dv" and "pg_InsertReadings pg db rows = (True, db')"
  shows "\<exists>new. rv db' = rv db @ new \<and> map (\<lambda>r. r\<lparr>sr_ID := 0\<rparr>) new = map (\<lambda>r. r\<lparr>sr_ID := 0\<rparr>) rows"
    and "dv db' = dv db"
  using assms unfolding pg_laws_def by (metis (full_types))+

lemma pg_insert_fail:
  assumes "pg_laws pg rv dv" and "pg_InsertReadings pg db rows = (False, db')"
  shows "rv db' = rv db" and "dv db' = dv db"
  using assms unfolding pg_laws_def by (metis (full_types))+

lemma pg_upsert:
  assumes "pg_laws pg rv dv" and "pg_UpsertDevice pg db sn h n f l = (ok, db')"
  shows "rv db' = rv db"
    and "ok \<Longrightarrow> \<exists>d. upserted (dv db (sn, h)) sn h n f l d \<and> dv db' = (dv db)((sn, h) \<mapsto> d)"
  using assms unfolding pg_laws_def by (metis (full_types))+

section \<open>The device registry\<close>

lemma seen_devices_snoc:
  "seen_devices (rs @ [r]) = AList.update (r_Device r) (r_DeviceName r) (seen_devices rs)"
  by (simp add: seen_devices_def)

lemma distinct_seen_devices: "distinct (map fst (seen_devices rs))"
  by (induction rs rule: rev_induct) (simp_all add: seen_devices_snoc distinct_update, simp add: seen_devices_def)

lemma map_of_seen_devices:
  "map_of (seen_devices rs) h = map_option r_DeviceName (find (\<lambda>r. r_Device r = h) (rev rs))"
  by (induction rs rule: rev_induct) (simp_all add: seen_devices_snoc update_conv', simp add: seen_devices_def)

lemma upsert_devices_spec:
  assumes laws: "pg_laws pg rv dv" and "distinct (map fst m)" and "upsert_devices pg db sn now m = (e, db')"
  shows "rv db' = rv db \<and> (e = None \<longrightarrow> (\<forall>s h. if s = sn \<and> h \<in> fst ` set m
        then \<exists>d. upserted (dv db (s, h)) sn h (the (map_of m h)) now now d \<and> dv db' (s, h) = Some d
        else dv db' (s, h) = dv db (s, h)))"
  using assms(2,3)
proof (induction m arbitrary: db)
  case Nil
  then show ?case by simp
next
  case (Cons dk m)
  obtain h0 n0 where dk: "dk = (h0, n0)" by fastforce
  obtain ok db1 where up: "pg_UpsertDevice pg db sn h0 n0 now now = (ok, db1)" by fastforce
  note one = pg_upsert [OF laws up]
  have step: "(if ok then upsert_devices pg db1 sn now m else (Some (UpsertDeviceFailed h0), db1)) = (e, db')"
    using Cons.prems(2) by (cases ok) (simp_all add: dk up)
  show ?case
  proof (cases ok)
    case False
    then show ?thesis using step one(1) by auto
  next
    case True
    obtain d0 where d0: "upserted (dv db (sn, h0)) sn h0 n0 now now d0" "dv db1 = (dv db)((sn, h0) \<mapsto> d0)"
      using one(2) True by blast
    have h0: "h0 \<notin> fst ` set m" and dm: "distinct (map fst m)" using Cons.prems(1) dk by simp_all
    from step True have "upsert_devices pg db1 sn now m = (e, db')" by simp
    note IH = Cons.IH [OF dm this]
    have "if s = sn \<and> h \<in> fst ` set (dk # m)
        then \<exists>d. upserted (dv db (s, h)) sn h (the (map_of (dk # m) h)) now now d \<and> dv db' (s, h) = Some d
        else dv db' (s, h) = dv db (s, h)" if "e = None" for s h
      using IH that d0 h0 dk by (cases "s = sn \<and> h = h0") (auto split: if_splits)
    then show ?thesis using IH one(1) by metis
  qed
qed

lemma upsert_devices_error:
  "upsert_devices pg db sn now m = (Some e, db') \<Longrightarrow> \<exists>h. e = UpsertDeviceFailed h"
  by (induction m arbitrary: db) (auto simp: split_beta Let_def split: if_splits)

lemma to_stored_ID [simp]: "(to_stored sn now r)\<lparr>sr_ID := 0\<rparr> = to_stored sn now r"
  by (simp add: to_stored_def)

definition stored_rows :: "StoredReading list \<Rightarrow> string \<Rightarrow> int \<Rightarrow> Reading list \<Rightarrow> StoredReading list \<Rightarrow> bool" where
  "stored_rows old sn now rs rows \<longleftrightarrow>
     (\<exists>new. rows = old @ new \<and> map (\<lambda>r. r\<lparr>sr_ID := 0\<rparr>) new = map (to_stored sn now) rs)"

lemma SaveReadings_split:
  assumes laws: "pg_laws pg rv dv" and perm: "\<forall>m. mset (order m) = mset m"
    and save: "SaveReadings pg order db now sn rs = (e, db')" and ne: "rs \<noteq> []"
  shows "(e = Some InsertFailed \<and> rv db' = rv db \<and> dv db' = dv db)
       \<or> (stored_rows (rv db) sn now rs (rv db') \<and> (e = None \<or> (\<exists>h. e = Some (UpsertDeviceFailed h)))
          \<and> (e = None \<longrightarrow> (\<forall>s h. if s = sn \<and> h \<in> r_Device ` set rs
               then \<exists>d. upserted (dv db (s, h)) sn h (r_DeviceName (the (find (\<lambda>r. r_Device r = h) (rev rs)))) now now d
                        \<and> dv db' (s, h) = Some d
               else dv db' (s, h) = dv db (s, h))))"
proof -
  obtain ok db1 where ins: "pg_InsertReadings pg db (map (to_stored sn now) rs) = (ok, db1)" by fastforce
  show ?thesis
  proof (cases ok)
    case False
    then show ?thesis using save ins ne pg_insert_fail [OF laws, of db _ db1] by (auto simp: SaveReadings_def)
  next
    case True
    let ?m = "order (seen_devices rs)"
    have up: "upsert_devices pg db1 sn now ?m = (e, db')"
      using save ins ne True by (simp add: SaveReadings_def)
    have m: "mset ?m = mset (seen_devices rs)" using perm by blast
    then have d: "distinct (map fst ?m)"
      by (metis distinct_seen_devices mset_map mset_eq_imp_distinct_iff)
    then have mo: "map_of ?m = map_of (seen_devices rs)"
      using m distinct_seen_devices by (metis map_of_inject_set set_mset_mset)
    have keys: "h \<in> fst ` set ?m \<longleftrightarrow> h \<in> r_Device ` set rs" for h
    proof -
      have "h \<in> fst ` set ?m \<longleftrightarrow> map_of ?m h \<noteq> None" by (simp add: map_of_eq_None_iff)
      also have "\<dots> \<longleftrightarrow> find (\<lambda>r. r_Device r = h) (rev rs) \<noteq> None" by (simp add: mo map_of_seen_devices)
      finally show ?thesis by (auto simp: find_None_iff)
    qed
    have name: "the (map_of ?m h) = r_DeviceName (the (find (\<lambda>r. r_Device r = h) (rev rs)))"
      if "h \<in> r_Device ` set rs" for h
    proof -
      have "find (\<lambda>r. r_Device r = h) (rev rs) \<noteq> None" using that by (auto simp: find_None_iff)
      then show ?thesis by (auto simp: mo map_of_seen_devices)
    qed
    have rows: "stored_rows (rv db) sn now rs (rv db')"
      using pg_insert(1) [OF laws, of db "map (to_stored sn now) rs" db1] ins True
        upsert_devices_spec [OF laws d up]
      by (simp add: stored_rows_def o_def)
    have dv1: "dv db1 = dv db" using pg_insert(2) [OF laws, of db _ db1] ins True by simp
    have "e = None \<or> (\<exists>h. e = Some (UpsertDeviceFailed h))"
      using upsert_devices_error up by (cases e) auto
    moreover have "if s = sn \<and> h \<in> r_Device ` set rs
        then \<exists>d. upserted (dv db (s, h)) sn h (r_DeviceName (the (find (\<lambda>r. r_Device r = h) (rev rs)))) now now d
                 \<and> dv db' (s, h) = Some d
        else dv db' (s, h) = dv db (s, h)" if "e = None" for s h
      using upsert_devices_spec [OF laws d up] that name [of h] unfolding keys dv1 by (metis (full_types))
    ultimately show ?thesis using rows by blast
  qed
qed

section \<open>A database in memory\<close>

definition sample_device :: "StoredDevice option \<Rightarrow> string \<Rightarrow> string \<Rightarrow> string \<Rightarrow> int \<Rightarrow> int \<Rightarrow> StoredDevice" where
  "sample_device old sn h n f l =
     (case old of
        None \<Rightarrow> \<lparr>sd_ID = 0, sd_Sn = sn, sd_DeviceHash = h, sd_DeviceName = n, sd_Type = [], sd_FirstSeen = f,
                 sd_LastSeen = l, sd_Status = ''unknown''\<rparr>
      | Some d \<Rightarrow> d\<lparr>sd_LastSeen := l, sd_DeviceName := n\<rparr>)"

lemma upserted_sample_device: "upserted old sn h n f l (sample_device old sn h n f l)"
  by (simp add: upserted_def sample_device_def split: option.split)

definition sample_pg :: "(StoredReading list \<times> ((string \<times> string) \<times> StoredDevice) list) pg_ops" where
  "sample_pg =
     \<lparr>pg_InsertReadings = (\<lambda>db rows. (True, (fst db @ rows, snd db))),
      pg_UpsertDevice = (\<lambda>db sn h n f l. (True, (fst db, AList.update (sn, h)
        (sample_device (map_of (snd db) (sn, h)) sn h n f l) (snd db)))),
      pg_SelectReadings = (\<lambda>db q. Some (take (nat (q_limit q))
        (rev (sort_key sr_Timestamp (filter (\<lambda>r. list_all (\<lambda>c. clause_holds c r) (q_where q)) (fst db)))))),
      pg_SelectDevices = (\<lambda>db q. None)\<rparr>"

lemma sample_pg_select:
  assumes "sorted_rows = rev (sort_key sr_Timestamp rs)"
  shows "\<exists>rest. mset (take n sorted_rows @ rest) = mset rs
     \<and> sorted_wrt (\<lambda>a b. sr_Timestamp b \<le> sr_Timestamp a) (take n sorted_rows @ rest)
     \<and> length (take n sorted_rows) = min n (length (take n sorted_rows @ rest))"
proof (intro exI conjI)
  have "sorted_wrt (\<lambda>a b. sr_Timestamp b \<le> sr_Timestamp a) sorted_rows"
    using sorted_sort_key [of sr_Timestamp rs]
    by (simp add: assms sorted_wrt_rev sorted_wrt_map)
  then show "sorted_wrt (\<lambda>a b. sr_Timestamp b \<le> sr_Timestamp a) (take n sorted_rows @ drop n sorted_rows)"
    by simp
qed (simp_all add: assms min_def)

lemma sample_pg_laws: "pg_laws sample_pg fst (\<lambda>db. map_of (snd db))"
proof -
  have sel: "\<exists>rest. mset (rows @ rest) = mset (filter (\<lambda>r. \<forall>c \<in> set (q_where q). clause_holds c r) (fst db))
     \<and> sorted_wrt (\<lambda>a b. sr_Timestamp b \<le> sr_Timestamp a) (rows @ rest)
     \<and> length rows = min (nat (q_limit q)) (length (rows @ rest))"
    if "pg_SelectReadings sample_pg db q = Some rows" for db q rows
  proof -
    from that have rows: "rows = take (nat (q_limit q)) (rev (sort_key sr_Timestamp
        (filter (\<lambda>r. \<forall>c \<in> set (q_where q). clause_holds c r) (fst db))))"
      by (simp add: sample_pg_def list_all_iff)
    show ?thesis unfolding rows by (rule sample_pg_select [OF refl])
  qed
  have ins: "(if ok then (\<exists>new. fst db' = fst db @ new \<and> map (\<lambda>r. r\<lparr>sr_ID := 0\<rparr>) new = map (\<lambda>r. r\<lparr>sr_ID := 0\<rparr>) rows)
      else fst db' = fst db) \<and> map_of (snd db') = map_of (snd db)"
    if "pg_InsertReadings sample_pg db rows = (ok, db')" for db rows ok db'
    using that by (auto simp: sample_pg_def)
  have ups: "fst db' = fst db \<and> (if ok then (\<exists>d. upserted (map_of (snd db) (sn, h)) sn h n f l d
        \<and> map_of (snd db') = (map_of (snd db))((sn, h) \<mapsto> d)) else map_of (snd db') = map_of (snd db))"
    if "pg_UpsertDevice sample_pg db sn h n f l = (ok, db')" for db sn h n f l ok db'
  proof -
    let ?d = "sample_device (map_of (snd db) (sn, h)) sn h n f l"
    have "ok" and db': "db' = (fst db, AList.update (sn, h) ?d (snd db))"
      using that by (simp_all add: sample_pg_def)
    then have "map_of (snd db') = (map_of (snd db))((sn, h) \<mapsto> ?d)" by (simp add: update_conv')
    with \<open>ok\<close> show ?thesis using upserted_sample_device by (metis db' fst_conv)
  qed
  show ?thesis unfolding pg_laws_def using sel ins ups by blast
qed

section \<open>Properties\<close>

text \<open>
  Saving a batch on a database that keeps to SQL has three outcomes. Without an error, every
  reading is a new row under the gateway's serial number and the time of the call, and every device
  of the batch is registered, with the name its last reading gives, its first-seen time kept; nothing
  else changed. When the insert fails nothing changed. When registering a device fails, an error is
  returned although all the readings have been stored.
\<close>

theorem SaveReadings_outcomes:
  assumes "pg_laws pg rv dv" and "\<forall>m. mset (order m) = mset m" and "rs \<noteq> []"
    and "SaveReadings pg order db now sn rs = (e, db')"
  shows "case e of
      None \<Rightarrow> stored_rows (rv db) sn now rs (rv db')
        \<and> (\<forall>s h. if s = sn \<and> h \<in> r_Device ` set rs
             then \<exists>d. upserted (dv db (s, h)) sn h (r_DeviceName (the (find (\<lambda>r. r_Device r = h) (rev rs)))) now now d
                      \<and> dv db' (s, h) = Some d
             else dv db' (s, h) = dv db (s, h))
    | Some InsertFailed \<Rightarrow> rv db' = rv db \<and> dv db' = dv db
    | Some (UpsertDeviceFailed h) \<Rightarrow> stored_rows (rv db) sn now rs (rv db')"
  using SaveReadings_split [OF assms(1,2,4,3)] by (auto split: option.split store_error.split)

definition sample_reading :: Reading where
  "sample_reading = \<lparr>r_ID = 0, r_Device = ''d1'', r_DeviceName = ''pump'', r_Point = ''p'', r_PointName = ''temp'',
     r_DataType = DataTypeInt16, r_Value = ''21'', r_Quality = QualityGood, r_Unit = [], r_Timestamp = 5\<rparr>"

theorem SaveReadings_outcomes_witness:
  "\<exists>db' d. SaveReadings sample_pg id ([], []) 9 ''gw'' [sample_reading] = (None, db')
     \<and> stored_rows [] ''gw'' 9 [sample_reading] (fst db') \<and> map_of (snd db') (''gw'', ''d1'') = Some d
     \<and> sd_DeviceName d = ''pump'' \<and> sd_FirstSeen d = 9"
proof -
  obtain db' where s: "SaveReadings sample_pg id ([], []) 9 ''gw'' [sample_reading] = (None, db')"
    by (simp add: SaveReadings_def sample_pg_def seen_devices_def)
  have "[sample_reading] \<noteq> []" by simp
  have "\<forall>m. mset (id m) = mset (m :: string gomap)" by simp
  note out = SaveReadings_outcomes [OF sample_pg_laws this \<open>[sample_reading] \<noteq> []\<close> s, simplified option.case]
  have "r_Device sample_reading = ''d1''" "r_DeviceName sample_reading = ''pump''"
    by (simp_all add: sample_reading_def)
  with out [THEN conjunct2, THEN spec, THEN spec, of "''gw''" "''d1''"] out [THEN conjunct1] s
  show ?thesis by (auto simp: upserted_def)
qed

end
