(* ===== verification/ConfigErrors.thy ===== *)
theory ConfigErrors
  imports GoStd
begin

text \<open>
  \<^verbatim>\<open>internal/errors/errors.go\<close>: the error values of the configuration, how several are put together,
  and their texts; \<open>ValidationError\<close> is the one of \<^verbatim>\<open>internal/client/config.go\<close>. An error the program only passes on is \<open>Plain\<close> with its text; \<open>Wrapped\<close> is
  \<^verbatim>\<open>fmt.Errorf("...: %w", err)\<close>.
\<close>

datatype go_error =
    ConfigNotSetError "string list"
  | ConfigInvalidError string string
  | ConfigValidationErrors "go_error list"
  | ValidationError string string
  | Wrapped string go_error
  | Plain string

fun strings_Join :: "string list \<Rightarrow> string \<Rightarrow> string" where
  "strings_Join [] sep = []"
| "strings_Join [x] sep = x"
| "strings_Join (x # y # xs) sep = x @ sep @ strings_Join (y # xs) sep"

definition newline :: char where "newline = char_of (10 :: nat)"

fun error_text :: "go_error \<Rightarrow> string" where
  "error_text (ConfigNotSetError fields) = ''Missing configs: '' @ strings_Join fields '', ''"
| "error_text (ConfigInvalidError field reason) =
     ''invalid config '' @ [char_of (39 :: nat)] @ field @ [char_of (39 :: nat)] @ '': '' @ reason"
| "error_text (ConfigValidationErrors errs) =
     (if errs = [] then ''validation failed''
      else ''validation failed:'' @ [newline] @ ''  - ''
           @ strings_Join (map error_text errs) (newline # ''  - ''))"
| "error_text (ValidationError field message) = field @ '': '' @ message"
| "error_text (Wrapped message err) = message @ '': '' @ error_text err"
| "error_text (Plain s) = s"

definition NewConfigNotSetError :: "string list \<Rightarrow> go_error" where
  "NewConfigNotSetError fields = ConfigNotSetError fields"

definition NewConfigInvalidError :: "string \<Rightarrow> string \<Rightarrow> go_error" where
  "NewConfigInvalidError field reason = ConfigInvalidError field reason"

text \<open>\<open>None\<close> is the nil error.\<close>

definition NewConfigValidationErrors :: "go_error list \<Rightarrow> go_error option" where
  "NewConfigValidationErrors errs =
     (if length errs = 0 then None
      else if length errs = 1 then Some (errs ! 0)
      else Some (ConfigValidationErrors errs))"

fun unwrap_all :: "go_error \<Rightarrow> go_error list" where \<comment> \<open>\<^verbatim>\<open>Unwrap\<close> of the aggregate\<close>
  "unwrap_all (ConfigValidationErrors errs) = errs"
| "unwrap_all e = []"

definition Wrap :: "go_error option \<Rightarrow> string \<Rightarrow> go_error option" where
  "Wrap err message = (case err of None \<Rightarrow> None | Some e \<Rightarrow> Some (Wrapped message e))"

lemma NewConfigValidationErrors_None_iff [simp]: "NewConfigValidationErrors errs = None \<longleftrightarrow> errs = []"
  by (simp add: NewConfigValidationErrors_def)

lemma NewConfigValidationErrors_Some:
  "NewConfigValidationErrors errs = Some e \<Longrightarrow>
     errs \<noteq> [] \<and> (e = ConfigValidationErrors errs \<or> errs = [e])"
  by (cases errs) (auto simp: NewConfigValidationErrors_def split: if_splits)

end
