(* ===== verification/Output.thy ===== *)
theory Output
  imports GoStd Model
begin

text \<open>
  \<^verbatim>\<open>internal/output\<close>: the output configuration and its validation, the choice of a sink, the router
  that starts one goroutine per sink and message, and the retry loop of the HTTP sink.

  A sink is a value of type \<open>'s\<close> with the methods of the interface \<^verbatim>\<open>Sinker\<close> in a record; the router
  keeps the goroutines it has started and not yet finished. The HTTP client and the formatter are
  arguments: a post gives the status code or an error, and the program never looks at the error.
\<close>

section \<open>Configuration\<close>

record OutputConfig =
  oc_Type :: string
  oc_Name :: string
  oc_Enabled :: bool
  oc_Host :: string
  oc_Port :: int
  oc_QoS :: int
  oc_Token :: string
  oc_ProductKey :: string
  oc_DeviceName :: string
  oc_DeviceSecret :: string
  oc_Username :: string
  oc_Password :: string
  oc_Scheme :: string
  oc_URL :: string
  oc_Headers :: "string gomap"
  oc_Timeout :: int

definition SinkThingsBoardMQTT :: string where "SinkThingsBoardMQTT = ''thingsboard-mqtt''"
definition SinkThingsBoardHTTP :: string where "SinkThingsBoardHTTP = ''thingsboard-http''"

datatype output_error = OutputNameRequired | HostRequired | TokenRequired | UnknownType | UnknownSinkType

definition Output_Validate :: "OutputConfig \<Rightarrow> output_error + OutputConfig" where
  "Output_Validate c =
     (if oc_Name c = [] then Inl OutputNameRequired
      else if oc_Type c = SinkThingsBoardMQTT \<and> oc_Host c = [] then Inl HostRequired
      else if oc_Type c = SinkThingsBoardMQTT \<and> oc_Token c = [] then Inl TokenRequired
      else if oc_Type c = SinkThingsBoardHTTP \<and> oc_Host c = [] then Inl HostRequired
      else if oc_Type c = SinkThingsBoardHTTP \<and> oc_Token c = [] then Inl TokenRequired
      else if oc_Type c \<noteq> SinkThingsBoardMQTT \<and> oc_Type c \<noteq> SinkThingsBoardHTTP then Inl UnknownType
      else let c = (if oc_QoS c = 0 then c\<lparr>oc_QoS := 1\<rparr> else c);
               c = (if oc_Timeout c = 0 then c\<lparr>oc_Timeout := 10\<rparr> else c);
               c = (if oc_Port c = 0 then c\<lparr>oc_Port := 1883\<rparr> else c)
           in Inr c)"

section \<open>Sinks\<close>

record tbHttpSinker =
  hs_cfg :: OutputConfig
  hs_timeout :: int \<comment> \<open>nanoseconds\<close>
  hs_url :: string

record tbMqttSinker =
  ms_cfg :: OutputConfig

datatype sinker = HttpSinker tbHttpSinker | MqttSinker tbMqttSinker

definition NewThingsBoardHttpSinker :: "OutputConfig \<Rightarrow> output_error + tbHttpSinker" where
  "NewThingsBoardHttpSinker cfg =
     (case Output_Validate cfg of
        Inl e \<Rightarrow> Inl e
      | Inr cfg \<Rightarrow>
          let timeout = sint (word_of_int (oc_Timeout cfg * 1000000000) :: 64 word);
              scheme = (if oc_Scheme cfg = [] then ''https'' else oc_Scheme cfg);
              url = scheme @ ''://'' @ oc_Host cfg @ '':'' @ FormatInt (oc_Port cfg) @ ''/api/v1/''
                    @ oc_Token cfg @ ''/telemetry''
          in Inr \<lparr>hs_cfg = cfg, hs_timeout = timeout, hs_url = url\<rparr>)"

definition NewThingsBoardMqttSinker :: "OutputConfig \<Rightarrow> output_error + tbMqttSinker" where
  "NewThingsBoardMqttSinker cfg =
     (case Output_Validate cfg of Inl e \<Rightarrow> Inl e | Inr cfg \<Rightarrow> Inr \<lparr>ms_cfg = cfg\<rparr>)"

definition NewSinker :: "OutputConfig \<Rightarrow> output_error + sinker" where
  "NewSinker cfg =
     (if oc_Type cfg = SinkThingsBoardMQTT then map_sum id MqttSinker (NewThingsBoardMqttSinker cfg)
      else if oc_Type cfg = SinkThingsBoardHTTP then map_sum id HttpSinker (NewThingsBoardHttpSinker cfg)
      else Inl UnknownSinkType)"

section \<open>The HTTP sink\<close>

datatype http_result = HttpError | HttpStatus int
datatype send_error = FormatError | AfterRetries http_result | ConnectError | PublishError

text \<open>
  One call of \<^verbatim>\<open>Send\<close>: \<open>post n\<close> is the outcome of the \<open>n\<close>-th attempt. The result is the error, if any,
  the number of posts and the sleeps between them in nanoseconds.
\<close>

fun http_attempts :: "(nat \<Rightarrow> http_result) \<Rightarrow> nat \<Rightarrow> nat \<Rightarrow> int \<Rightarrow> http_result \<Rightarrow> int list
    \<Rightarrow> send_error option \<times> nat \<times> int list" where
  "http_attempts post attempt 0 backoff lastErr slept = (Some (AfterRetries lastErr), attempt, slept)"
| "http_attempts post attempt (Suc left) backoff lastErr slept =
     (let (backoff, slept) =
            (if attempt > 0 then (backoff * 2, slept @ [backoff]) else (backoff, slept))
      in case post attempt of
           HttpError \<Rightarrow> http_attempts post (attempt + 1) left backoff HttpError slept
         | HttpStatus code \<Rightarrow>
             if 200 \<le> code \<and> code < 300 then (None, attempt + 1, slept)
             else http_attempts post (attempt + 1) left backoff (HttpStatus code) slept)"

definition tbHttp_Send :: "(string \<Rightarrow> Reading list \<Rightarrow> 'b option) \<Rightarrow> (tbHttpSinker \<Rightarrow> 'b \<Rightarrow> nat \<Rightarrow> http_result)
    \<Rightarrow> tbHttpSinker \<Rightarrow> string \<Rightarrow> Reading list \<Rightarrow> send_error option \<times> nat \<times> int list" where
  "tbHttp_Send Format post s deviceKey readings =
     (case Format deviceKey readings of
        None \<Rightarrow> (Some FormatError, 0, [])
      | Some payload \<Rightarrow> http_attempts (post s payload) 0 3 1000000000 HttpError [])"

section \<open>The router\<close>

text \<open>The methods of a sink that change it; the flag says whether an error is returned.\<close>

record 's sink_ops =
  sk_Send :: "'s \<Rightarrow> string \<Rightarrow> Reading list \<Rightarrow> bool \<times> 's"
  sk_Close :: "'s \<Rightarrow> bool \<times> 's"

record 's OutputRouter =
  or_sinks :: "'s list"
  or_pending :: "(nat \<times> string \<times> Reading list) list"

definition NewOutputRouter :: "'s list \<Rightarrow> 's OutputRouter" where
  "NewOutputRouter sinks = \<lparr>or_sinks = sinks, or_pending = []\<rparr>"

definition Router_Send :: "'s OutputRouter \<Rightarrow> string \<Rightarrow> Reading list \<Rightarrow> 's OutputRouter" where
  "Router_Send r deviceKey readings =
     r\<lparr>or_pending := or_pending r @ map (\<lambda>i. (i, deviceKey, readings)) [0..<length (or_sinks r)]\<rparr>"

text \<open>
  \<^verbatim>\<open>Shutdown\<close> waits for the goroutines, which end in some order, and closes the sinks one by one.
\<close>

definition run_send :: "'s sink_ops \<Rightarrow> 's list \<Rightarrow> nat \<times> string \<times> Reading list \<Rightarrow> 's list" where
  "run_send ops sinks g =
     (let (i, deviceKey, readings) = g
      in sinks[i := snd (sk_Send ops (sinks ! i) deviceKey readings)])"

definition Router_Shutdown :: "'s sink_ops \<Rightarrow> ((nat \<times> string \<times> Reading list) list \<Rightarrow> (nat \<times> string \<times> Reading list) list)
    \<Rightarrow> 's OutputRouter \<Rightarrow> 's OutputRouter" where
  "Router_Shutdown ops order r =
     (let sinks = foldl (run_send ops) (or_sinks r) (order (or_pending r))
      in r\<lparr>or_sinks := map (\<lambda>s. snd (sk_Close ops s)) sinks, or_pending := []\<rparr>)"

section \<open>Validation\<close>

lemma Output_Validate_Inr_iff:
  "(\<exists>c'. Output_Validate c = Inr c') \<longleftrightarrow>
     oc_Name c \<noteq> [] \<and> oc_Host c \<noteq> [] \<and> oc_Token c \<noteq> []
     \<and> (oc_Type c = SinkThingsBoardMQTT \<or> oc_Type c = SinkThingsBoardHTTP)"
  by (auto simp: Output_Validate_def Let_def)

lemma Output_Validate_defaults:
  "Output_Validate c = Inr c' \<Longrightarrow>
     c' = c\<lparr>oc_QoS := (if oc_QoS c = 0 then 1 else oc_QoS c),
            oc_Timeout := (if oc_Timeout c = 0 then 10 else oc_Timeout c),
            oc_Port := (if oc_Port c = 0 then 1883 else oc_Port c)\<rparr>"
  unfolding Output_Validate_def Let_def
  by (cases c, cases "oc_QoS c = 0"; cases "oc_Timeout c = 0"; cases "oc_Port c = 0")
     (simp_all split: if_split_asm)

lemma Output_Validate_idem: "Output_Validate c = Inr c' \<Longrightarrow> Output_Validate c' = Inr c'"
proof -
  assume a: "Output_Validate c = Inr c'"
  then have "\<exists>x. Output_Validate c' = Inr x"
    using Output_Validate_Inr_iff [of c] by (simp add: Output_Validate_Inr_iff Output_Validate_defaults [OF a])
  then obtain x where x: "Output_Validate c' = Inr x" by blast
  have "x = c'" using Output_Validate_defaults [OF x] Output_Validate_defaults [OF a] by simp
  with x show ?thesis by simp
qed

section \<open>The retry loop\<close>

definition is_2xx :: "http_result \<Rightarrow> bool" where
  "is_2xx r = (case r of HttpError \<Rightarrow> False | HttpStatus code \<Rightarrow> 200 \<le> code \<and> code < 300)"

lemma http_attempts_3:
  "http_attempts post 0 3 b HttpError [] =
     (if is_2xx (post 0) then (None, 1, [])
      else if is_2xx (post 1) then (None, 2, [b])
      else if is_2xx (post 2) then (None, 3, [b, b * 2])
      else (Some (AfterRetries (post 2)), 3, [b, b * 2]))"
  by (simp add: numeral_3_eq_3 numeral_2_eq_2 is_2xx_def Let_def split: http_result.split)

section \<open>Fan-out\<close>

lemma run_sends_nth:
  assumes "\<forall>g \<in> set gs. fst g < length sinks" and "i < length sinks"
  shows "length (foldl (run_send ops) sinks gs) = length sinks"
    and "foldl (run_send ops) sinks gs ! i =
     foldl (\<lambda>s (k, rs). snd (sk_Send ops s k rs)) (sinks ! i) (map snd (filter (\<lambda>g. fst g = i) gs))"
  using assms
  by (induction gs arbitrary: sinks) (auto simp: run_send_def split_beta nth_list_update)

lemma pending_sends:
  "or_pending (foldl (\<lambda>r (k, rs). Router_Send r k rs) r msgs) =
     or_pending r @ concat (map (\<lambda>m. map (\<lambda>i. (i, fst m, snd m)) [0..<length (or_sinks r)]) msgs)
   \<and> or_sinks (foldl (\<lambda>r (k, rs). Router_Send r k rs) r msgs) = or_sinks r"
  by (induction msgs arbitrary: r) (simp_all add: Router_Send_def split_beta)

lemma filter_upt_eq: "i < n \<Longrightarrow> filter (\<lambda>j. j = i) [0..<n] = [i]"
  by (induction n) (auto simp: less_Suc_eq)

lemma pending_of_sink:
  "i < n \<Longrightarrow> map snd (filter (\<lambda>g. fst g = i) (concat (map (\<lambda>m. map (\<lambda>i. (i, fst m, snd m)) [0..<n]) msgs))) = msgs"
  by (induction msgs) (simp_all add: filter_map o_def filter_upt_eq)

lemma mset_filter_map: "mset xs = mset ys \<Longrightarrow> mset (map f (filter P xs)) = mset (map f (filter P ys))"
  by simp

section \<open>Properties\<close>

text \<open>
  Validation accepts an output exactly when it has a name, a host, a token and one of the two
  known types. It then changes nothing but the zero values of QoS, timeout and port, and validating
  the result again changes nothing more.
\<close>

theorem Output_Validate_spec:
  "((\<exists>c'. Output_Validate c = Inr c') \<longleftrightarrow>
      oc_Name c \<noteq> [] \<and> oc_Host c \<noteq> [] \<and> oc_Token c \<noteq> []
      \<and> (oc_Type c = SinkThingsBoardMQTT \<or> oc_Type c = SinkThingsBoardHTTP))
   \<and> (Output_Validate c = Inr c' \<longrightarrow> Output_Validate c' = Inr c'
        \<and> c' = c\<lparr>oc_QoS := (if oc_QoS c = 0 then 1 else oc_QoS c),
                 oc_Timeout := (if oc_Timeout c = 0 then 10 else oc_Timeout c),
                 oc_Port := (if oc_Port c = 0 then 1883 else oc_Port c)\<rparr>)"
  using Output_Validate_Inr_iff [of c] Output_Validate_defaults [of c c'] Output_Validate_idem [of c c']
  by blast

theorem Output_Validate_spec_witness:
  "let c = \<lparr>oc_Type = SinkThingsBoardHTTP, oc_Name = ''tb'', oc_Enabled = True, oc_Host = ''h'', oc_Port = 0,
            oc_QoS = 0, oc_Token = ''t'', oc_ProductKey = [], oc_DeviceName = [], oc_DeviceSecret = [],
            oc_Username = [], oc_Password = [], oc_Scheme = [], oc_URL = [], oc_Headers = [], oc_Timeout = 5\<rparr>
   in Output_Validate c = Inr (c\<lparr>oc_QoS := 1, oc_Port := 1883\<rparr>)"
proof -
  let ?c = "\<lparr>oc_Type = SinkThingsBoardHTTP, oc_Name = ''tb'', oc_Enabled = True, oc_Host = ''h'', oc_Port = 0,
            oc_QoS = 0, oc_Token = ''t'', oc_ProductKey = [], oc_DeviceName = [], oc_DeviceSecret = [],
            oc_Username = [], oc_Password = [], oc_Scheme = [], oc_URL = [], oc_Headers = [], oc_Timeout = 5\<rparr>"
  have "\<exists>c'. Output_Validate ?c = Inr c'" using Output_Validate_spec [of ?c] by simp
  then obtain c' where c': "Output_Validate ?c = Inr c'" ..
  from c' Output_Validate_spec [of ?c c'] show ?thesis by simp
qed

text \<open>
  The HTTP sink posts at most three times and stops at the first status from 200 to 299; it
  sleeps one second before the second attempt and two before the third. When no attempt gets such a
  status it returns an error with the outcome of the last one, and a payload that cannot be
  formatted is never posted.
\<close>

theorem tbHttp_Send_spec:
  "tbHttp_Send Format post s deviceKey readings =
     (case Format deviceKey readings of
        None \<Rightarrow> (Some FormatError, 0, [])
      | Some payload \<Rightarrow>
          if is_2xx (post s payload 0) then (None, 1, [])
          else if is_2xx (post s payload 1) then (None, 2, [1000000000])
          else if is_2xx (post s payload 2) then (None, 3, [1000000000, 2000000000])
          else (Some (AfterRetries (post s payload 2)), 3, [1000000000, 2000000000]))"
  by (simp only: tbHttp_Send_def http_attempts_3) (simp split: option.split)

text \<open>
  Whatever order the goroutines end in, a shut-down router has given every message to every sink
  exactly once and then closed it: what one sink does, errors included, does not change what another
  one gets.
\<close>

theorem router_fan_out:
  assumes "i < length sinks" and "\<forall>gs. mset (order gs) = mset gs"
  shows "\<exists>sent. mset sent = mset msgs \<and>
     or_sinks (Router_Shutdown ops order (foldl (\<lambda>r (k, rs). Router_Send r k rs) (NewOutputRouter sinks) msgs)) ! i
       = snd (sk_Close ops (foldl (\<lambda>s (k, rs). snd (sk_Send ops s k rs)) (sinks ! i) sent))"
proof -
  let ?r = "foldl (\<lambda>r (k, rs). Router_Send r k rs) (NewOutputRouter sinks) msgs"
  let ?all = "concat (map (\<lambda>m. map (\<lambda>i. (i, fst m, snd m)) [0..<length sinks]) msgs)"
  have r: "or_pending ?r = ?all" "or_sinks ?r = sinks"
    using pending_sends [of "NewOutputRouter sinks" msgs] by (simp_all add: NewOutputRouter_def)
  let ?sent = "map snd (filter (\<lambda>g. fst g = i) (order ?all))"
  have perm: "mset (order ?all) = mset ?all" using assms(2) by blast
  have "mset ?sent = mset msgs"
    using mset_filter_map [OF perm, of snd "\<lambda>g. fst g = i"] unfolding pending_of_sink [OF assms(1), of msgs] .
  moreover have "\<forall>g \<in> set (order ?all). fst g < length sinks"
    unfolding mset_eq_setD [OF perm] by auto
  note run = run_sends_nth [OF this assms(1), of ops]
  have "or_sinks (Router_Shutdown ops order ?r) ! i
      = snd (sk_Close ops (foldl (\<lambda>s (k, rs). snd (sk_Send ops s k rs)) (sinks ! i) ?sent))"
    using run assms(1) by (simp only: Router_Shutdown_def Let_def r) simp
  ultimately show ?thesis by blast
qed

theorem router_fan_out_witness:
  "let ops = \<lparr>sk_Send = \<lambda>s k rs. (True, s @ [k]), sk_Close = \<lambda>s. (False, s @ [''closed''])\<rparr>
   in or_sinks (Router_Shutdown ops rev (Router_Send (NewOutputRouter [[], []]) ''dev'' [])) ! 1 = [''dev'', ''closed'']"
proof -
  let ?ops = "\<lparr>sk_Send = \<lambda>s k rs. (True, s @ [k]), sk_Close = \<lambda>s. (False, s @ [''closed''])\<rparr>
    :: string list sink_ops"
  have "1 < length [[], [] :: string list]" and "\<forall>gs :: (nat \<times> string \<times> Reading list) list. mset (rev gs) = mset gs"
    by simp_all
  from router_fan_out [OF this, of "[(''dev'', [])]" ?ops]
  show ?thesis by (auto simp: Let_def)
qed

end
