(* ===== verification/ServerConfig.thy ===== *)
theory ServerConfig
  imports ConfigErrors Output
begin

text \<open>
  \<^verbatim>\<open>internal/server/config.go\<close>: the server's configuration and its validation. How the scalar fields
  are filled from the providers is the business of the configuration components; here they are
  given (\<open>cfg\<close>), with the clients and outputs that \<^verbatim>\<open>Unmarshal\<close> found, if the provider can unmarshal.
\<close>

record MqttConfig =
  mq_TCPAddr :: string
  mq_WSAddr :: string

record RedisConfig =
  rc_Addr :: string
  rc_Password :: string
  rc_DB :: int

record PgConfig =
  pg_Host :: string
  pg_Port :: int
  pg_User :: string
  pg_Password :: string
  pg_DBName :: string
  pg_SSLMode :: string

record ClientDef =
  cd_Sn :: string
  cd_Token :: string
  cd_Description :: string

record ServerConfig =
  sc_Port :: int
  sc_LogLevel :: string
  sc_LogPath :: string
  sc_DataPath :: string
  sc_LogMaxSize :: int
  sc_LogMaxBackups :: int
  sc_LogMaxAge :: int
  sc_Mqtt :: MqttConfig
  sc_Redis :: RedisConfig
  sc_Pg :: PgConfig
  sc_Clients :: "ClientDef list"
  sc_Outputs :: "OutputConfig list"

definition validLevels :: "string list" where
  "validLevels = [''debug'', ''info'', ''warn'', ''error'']"

definition Server_Validate :: "ServerConfig \<Rightarrow> go_error option" where
  "Server_Validate c = NewConfigValidationErrors
     ((if sc_Port c \<le> 0 \<or> sc_Port c > 65535 then [NewConfigInvalidError ''port'' ''must be 1-65535''] else [])
    @ (if sc_LogLevel c \<notin> set validLevels
       then [NewConfigInvalidError ''log_level'' ''must be debug/info/warn/error''] else [])
    @ (if pg_Host (sc_Pg c) = [] then [NewConfigInvalidError ''pg_host'' ''cannot be empty''] else [])
    @ (if pg_DBName (sc_Pg c) = [] then [NewConfigInvalidError ''pg_dbname'' ''cannot be empty''] else []))"

datatype init_error = PopulateError go_error | UnmarshalError string | OutputInvalid output_error | ServerInvalid go_error

text \<open>The loop validates a copy of each output, so the defaults \<^verbatim>\<open>Validate\<close> sets are not kept.\<close>

primrec validate_outputs :: "OutputConfig list \<Rightarrow> output_error option" where
  "validate_outputs [] = None"
| "validate_outputs (o' # os) =
     (case Output_Validate o' of Inl e \<Rightarrow> Some e | Inr _ \<Rightarrow> validate_outputs os)"

definition InitServerConfig :: "go_error + ServerConfig \<Rightarrow>
    (string + ClientDef list) \<times> (string + OutputConfig list) \<Rightarrow> bool \<Rightarrow> init_error + ServerConfig" where
  "InitServerConfig populated unmarshal can_unmarshal =
     (case populated of Inl e \<Rightarrow> Inl (PopulateError e) | Inr cfg \<Rightarrow>
      case (if can_unmarshal
            then (case fst unmarshal of Inl e \<Rightarrow> Inl (UnmarshalError e) | Inr clients \<Rightarrow>
                  case snd unmarshal of Inl e \<Rightarrow> Inl (UnmarshalError e) | Inr outputs \<Rightarrow>
                    Inr (cfg\<lparr>sc_Clients := clients, sc_Outputs := outputs\<rparr>))
            else Inr cfg) of
        Inl e \<Rightarrow> Inl e
      | Inr cfg \<Rightarrow>
     (case validate_outputs (sc_Outputs cfg) of
        Some e \<Rightarrow> Inl (OutputInvalid e)
      | None \<Rightarrow>
     (case Server_Validate cfg of
        Some e \<Rightarrow> Inl (ServerInvalid e)
      | None \<Rightarrow> Inr cfg)))"

lemma Server_Validate_None_iff:
  "Server_Validate c = None \<longleftrightarrow>
     1 \<le> sc_Port c \<and> sc_Port c \<le> 65535 \<and> sc_LogLevel c \<in> set validLevels
     \<and> pg_Host (sc_Pg c) \<noteq> [] \<and> pg_DBName (sc_Pg c) \<noteq> []"
  by (auto simp: Server_Validate_def)

lemma validate_outputs_None_iff:
  "validate_outputs os = None \<longleftrightarrow> (\<forall>o' \<in> set os. \<exists>c. Output_Validate o' = Inr c)"
  by (induction os) (auto split: sum.split)

section \<open>Properties\<close>

text \<open>
  The server starts with exactly the configurations whose port is from 1 to 65535, whose log
  level is one of four, whose database host and name are not empty, and whose outputs are all
  valid. It takes the clients and outputs as they were unmarshalled: the defaults that validating
  an output would set are not kept.
\<close>

theorem InitServerConfig_accepts_iff:
  "InitServerConfig (Inr cfg) (Inr clients, Inr outputs) True = Inr c \<longleftrightarrow>
     c = cfg\<lparr>sc_Clients := clients, sc_Outputs := outputs\<rparr>
     \<and> 1 \<le> sc_Port cfg \<and> sc_Port cfg \<le> 65535 \<and> sc_LogLevel cfg \<in> {''debug'', ''info'', ''warn'', ''error''}
     \<and> pg_Host (sc_Pg cfg) \<noteq> [] \<and> pg_DBName (sc_Pg cfg) \<noteq> []
     \<and> list_all (\<lambda>x. oc_Name x \<noteq> [] \<and> oc_Host x \<noteq> [] \<and> oc_Token x \<noteq> []
          \<and> (oc_Type x = SinkThingsBoardMQTT \<or> oc_Type x = SinkThingsBoardHTTP)) outputs"
proof -
  have sv: "Server_Validate (cfg\<lparr>sc_Clients := clients, sc_Outputs := outputs\<rparr>) = None \<longleftrightarrow>
      1 \<le> sc_Port cfg \<and> sc_Port cfg \<le> 65535 \<and> sc_LogLevel cfg \<in> {''debug'', ''info'', ''warn'', ''error''}
      \<and> pg_Host (sc_Pg cfg) \<noteq> [] \<and> pg_DBName (sc_Pg cfg) \<noteq> []"
    by (simp add: Server_Validate_None_iff validLevels_def)
  have vo: "validate_outputs outputs = None \<longleftrightarrow>
      list_all (\<lambda>x. oc_Name x \<noteq> [] \<and> oc_Host x \<noteq> [] \<and> oc_Token x \<noteq> []
          \<and> (oc_Type x = SinkThingsBoardMQTT \<or> oc_Type x = SinkThingsBoardHTTP)) outputs"
    by (simp add: validate_outputs_None_iff Output_Validate_Inr_iff list_all_iff)
  have ini: "InitServerConfig (Inr cfg) (Inr clients, Inr outputs) True = Inr c \<longleftrightarrow>
      c = cfg\<lparr>sc_Clients := clients, sc_Outputs := outputs\<rparr> \<and> validate_outputs outputs = None
      \<and> Server_Validate (cfg\<lparr>sc_Clients := clients, sc_Outputs := outputs\<rparr>) = None"
    by (cases "validate_outputs outputs"; cases "Server_Validate (cfg\<lparr>sc_Clients := clients, sc_Outputs := outputs\<rparr>)")
       (auto simp: InitServerConfig_def)
  show ?thesis unfolding ini sv vo by blast
qed

end
