(* ===== verification/Server.thy ===== *)
theory Server
  imports Frame Dedup Grouping Connections ServerStore ServerConfig
begin

text \<open>
  \<^verbatim>\<open>internal/server/server.go\<close>: one connection of the TLV tunnel, from the handshake to its end.

  The state the connections share is \<open>server\<close>: the upload filter, the store, the connection
  registry, the publisher and the router. The store, the registry and the publisher are interfaces
  in the code, so they are of any type here, with their methods in \<open>server_ops\<close>. A connection has
  its byte stream and its message factory; \<open>session\<close> is these two and the shared state. The clock,
  the random identifiers and the order of a \<^verbatim>\<open>range\<close> over a map are in \<open>env\<close>, indexed by how often
  the clock was read. Logging is left out, and with it the counter of messages, which is only logged.
\<close>

record env =
  ev_clock :: "nat \<Rightarrow> int"
  ev_uuid :: "nat \<Rightarrow> string"
  ev_counts_order :: "nat gomap \<Rightarrow> nat gomap"
  ev_groups_order :: "Reading list gomap \<Rightarrow> Reading list gomap"

record ('s, 'c, 'p) server_ops =
  op_store :: "'s store_ops"
  op_conns :: "'c conn_manager"
  op_serializeReadings :: "Reading list \<Rightarrow> bytes option"
  op_PublishDeviceReadings :: "'p \<Rightarrow> string \<Rightarrow> bytes \<Rightarrow> bool \<times> 'p"

record ('s, 'c, 'p, 'k) server =
  sv_uploadDedup :: dedupCache
  sv_store :: 's
  sv_conns :: 'c
  sv_publisher :: 'p
  sv_router :: "'k OutputRouter option"
  sv_ticks :: nat

type_synonym ('s, 'c, 'p, 'k) session = "conn \<times> MsgFactory \<times> ('s, 'c, 'p, 'k) server"

definition clock_now :: "env \<Rightarrow> ('s, 'c, 'p, 'k) server \<Rightarrow> int" where
  "clock_now env w = ev_clock env (sv_ticks w)"

definition tick :: "('s, 'c, 'p, 'k) server \<Rightarrow> ('s, 'c, 'p, 'k) server" where
  "tick w = w\<lparr>sv_ticks := sv_ticks w + 1\<rparr>"

section \<open>Acknowledgements\<close>

definition sendAck :: "env \<Rightarrow> ('s, 'c, 'p, 'k) session \<Rightarrow> u8 \<Rightarrow> u16 \<Rightarrow> u8 \<Rightarrow> ('s, 'c, 'p, 'k) session" where
  "sendAck env st ackType reqMsgID code =
     (let (c, f, w) = st in
      case NewMsg f (clock_now env w) ackType (PAck \<lparr>ack_MsgID = reqMsgID, ack_Code = code\<rparr>) of
        Ret (resp, f) \<Rightarrow>
          let w = tick w;
              (encoded, resp) = Msg_Encode resp
          in if m_Checksum resp = 0 then (c, f, w)
             else let (ok, c) = conn_Write c encoded in (c, f, w)
      | _ \<Rightarrow> (c, f, w))"

definition sendHandshakeResponse :: "env \<Rightarrow> ('s, 'c, 'p, 'k) session \<Rightarrow> u16 \<Rightarrow> u8 \<Rightarrow> ('s, 'c, 'p, 'k) session" where
  "sendHandshakeResponse env st reqMsgID code = sendAck env st MsgTypeHandshakeAck reqMsgID code"

section \<open>Handshake\<close>

datatype auth_error = HandshakeRead frame_error | ExpectedHandshake u8 | InvalidHandshake
  | UnknownSN string | TokenMismatch string

definition find_client :: "ClientDef list \<Rightarrow> string \<Rightarrow> ClientDef option" where
  "find_client clients sn = find (\<lambda>c. cd_Sn c = sn) clients"

definition authenticateClient :: "env \<Rightarrow> ClientDef list \<Rightarrow> ('s, 'c, 'p, 'k) session
    \<Rightarrow> (auth_error, HandshakePayload) go \<times> ('s, 'c, 'p, 'k) session" where
  "authenticateClient env clients st =
     (let (c, f, w) = st in
      case DecodeFrame c of
        Panic \<Rightarrow> (Panic, st)
      | Fail e \<Rightarrow> (Fail (HandshakeRead e), st)
      | Ret (hsMsg, c) \<Rightarrow>
          let respond = sendHandshakeResponse env (c, f, w) (m_MsgID hsMsg) in
          if m_Type hsMsg \<noteq> MsgTypeHandshake
          then (Fail (ExpectedHandshake (m_Type hsMsg)), respond code_Failed)
          else case ParseMsg hsMsg of
            Panic \<Rightarrow> (Panic, (c, f, w))
          | Fail e \<Rightarrow> (Fail InvalidHandshake, respond code_Failed)
          | Ret (PHandshake hsPayload) \<Rightarrow>
             (case find_client clients (hs_Sn hsPayload) of
                None \<Rightarrow> (Fail (UnknownSN (hs_Sn hsPayload)), respond code_BadSn)
              | Some matched \<Rightarrow>
                  if cd_Token matched \<noteq> hs_Token hsPayload
                  then (Fail (TokenMismatch (hs_Sn hsPayload)), respond code_BadToken)
                  else (Ret hsPayload, respond code_Ok))
          | Ret _ \<Rightarrow> (Fail InvalidHandshake, respond code_Failed))"

section \<open>The registry of connections\<close>

definition registerConnection :: "env \<Rightarrow> ('s, 'c, 'p) server_ops \<Rightarrow> ('s, 'c, 'p, 'k) server \<Rightarrow> string \<Rightarrow> string
    \<Rightarrow> ('s, 'c, 'p, 'k) server" where
  "registerConnection env ops w sn remoteAddr =
     (let connectedAt = NewTimestamp (clock_now env w);
          uuid = ev_uuid env (sv_ticks w);
          w = tick w;
          lastHeartbeat = NewTimestamp (clock_now env w);
          w = tick w;
          connInfo = \<lparr>cn_DeviceHash = sn, cn_ConnectionID = uuid, cn_ServerNode = [], cn_ClientIP = remoteAddr,
                      cn_ConnectedAt = connectedAt, cn_LastHeartbeat = lastHeartbeat, cn_NodeAddr = []\<rparr>
      in w\<lparr>sv_conns := snd (cm_RegisterConnection (op_conns ops) (sv_conns w) connInfo)\<rparr>)"

definition cleanup :: "('s, 'c, 'p) server_ops \<Rightarrow> ('s, 'c, 'p, 'k) server \<Rightarrow> string \<Rightarrow> ('s, 'c, 'p, 'k) server" where
  "cleanup ops w sn = w\<lparr>sv_conns := snd (cm_RemoveConnection (op_conns ops) (sv_conns w) sn)\<rparr>"

section \<open>Messages\<close>

definition handleHeartbeat :: "env \<Rightarrow> ('s, 'c, 'p) server_ops \<Rightarrow> Msg \<Rightarrow> string \<Rightarrow> ('s, 'c, 'p, 'k) session
    \<Rightarrow> ('s, 'c, 'p, 'k) session" where
  "handleHeartbeat env ops message sn st =
     (let (c, f, w) = st;
          (err, conns) = cm_UpdateHeartbeat (op_conns ops) (sv_conns w) (NewTimestamp (clock_now env w)) sn;
          w = (tick w)\<lparr>sv_conns := conns\<rparr>
      in sendAck env (c, f, w) MsgTypeHeartbeatAck (m_MsgID message) code_Ok)"

definition publish :: "('s, 'c, 'p) server_ops \<Rightarrow> string \<Rightarrow> Reading list \<Rightarrow> ('s, 'c, 'p, 'k) server \<Rightarrow> ('s, 'c, 'p, 'k) server" where
  "publish ops sn readings w =
     (case op_serializeReadings ops readings of
        None \<Rightarrow> w
      | Some payload \<Rightarrow>
          w\<lparr>sv_publisher := snd (op_PublishDeviceReadings ops (sv_publisher w) sn payload)\<rparr>)"

definition push :: "env \<Rightarrow> string \<Rightarrow> Reading list \<Rightarrow> ('s, 'c, 'p, 'k) server \<Rightarrow> ('s, 'c, 'p, 'k) server" where
  "push env sn readings w =
     (case sv_router w of
        None \<Rightarrow> w
      | Some router \<Rightarrow>
          let grouped = (if length readings < 8 then groupReadingsByDeviceName readings
                         else groupReadingsPrealloc (ev_counts_order env) readings);
              router = foldl (\<lambda>r (deviceName, devReadings). Router_Send r (sn @ ''-'' @ deviceName) devReadings)
                         router (ev_groups_order env grouped)
          in w\<lparr>sv_router := Some router\<rparr>)"

definition upload_key :: "string \<Rightarrow> bytes \<Rightarrow> string" where
  "upload_key sn payload = sn @ '':'' @ payloadKey payload"

definition handleUpload :: "env \<Rightarrow> ('s, 'c, 'p) server_ops \<Rightarrow> Msg \<Rightarrow> string \<Rightarrow> ('s, 'c, 'p, 'k) session
    \<Rightarrow> (unit, ('s, 'c, 'p, 'k) session) go" where
  "handleUpload env ops message sn st =
     (let (c, f, w) = st;
          ack = (\<lambda>w. sendAck env (c, f, w) MsgTypeUploadAck (m_MsgID message));
          key = upload_key sn (m_Payload message);
          (dup, cache) = dedup_exists (sv_uploadDedup w) key
      in if dup then Ret (ack (w\<lparr>sv_uploadDedup := cache\<rparr>) code_Ok)
         else let w = w\<lparr>sv_uploadDedup := dedup_add cache key\<rparr> in
         case ParseMsg message of
           Panic \<Rightarrow> Panic
         | Fail e \<Rightarrow> Ret (ack w code_Failed)
         | Ret (PUpload upload) \<Rightarrow>
             (let readings = up_Readings upload in
              if length readings > 0 then
                (case st_SaveReadings (op_store ops) (sv_store w) (clock_now env w) sn readings of
                   (Some err, s) \<Rightarrow> Ret (ack ((tick w)\<lparr>sv_store := s\<rparr>) code_Failed)
                 | (None, s) \<Rightarrow>
                     let (c, f, w) = ack ((tick w)\<lparr>sv_store := s\<rparr>) code_Ok
                     in Ret (c, f, push env sn readings (publish ops sn readings w)))
              else Ret (c, f, w))
         | Ret _ \<Rightarrow> Ret (ack w code_Failed))"

definition handleMessage :: "env \<Rightarrow> ('s, 'c, 'p) server_ops \<Rightarrow> Msg \<Rightarrow> string \<Rightarrow> ('s, 'c, 'p, 'k) session
    \<Rightarrow> (unit, ('s, 'c, 'p, 'k) session) go" where
  "handleMessage env ops message sn st =
     (if m_Type message = MsgTypeUpload then handleUpload env ops message sn st
      else if m_Type message = MsgTypeHeartbeat then Ret (handleHeartbeat env ops message sn st)
      else Ret st)"

text \<open>No handler reads from the connection.\<close>

lemma conn_Write_in [simp]: "c_in (snd (conn_Write c b)) = c_in c" "c_end (snd (conn_Write c b)) = c_end c"
  by (simp_all add: conn_Write_def split: nat.split)

lemma sendAck_in: "sendAck env (c, f, w) t i k = (c', f', w') \<Longrightarrow> c_in c' = c_in c \<and> c_end c' = c_end c"
  by (auto simp: sendAck_def Let_def split_beta split: go.splits if_splits)

lemma sendAck_fst_in [simp]: "c_in (fst (sendAck env (c, f, w) t i k)) = c_in c"
  by (cases "sendAck env (c, f, w) t i k") (simp add: sendAck_in)

lemma handleHeartbeat_in: "c_in (fst (handleHeartbeat env ops m sn (c, f, w))) = c_in c"
  by (simp add: handleHeartbeat_def split_beta Let_def)

lemma handleUpload_in:
  "handleUpload env ops m sn (c, f, w) = Ret st \<Longrightarrow> c_in (fst st) = c_in c"
  by (auto simp: handleUpload_def Let_def split_beta split: if_splits go.splits Packable.splits option.splits prod.splits)

lemma handleMessage_in:
  "handleMessage env ops m sn st = Ret st' \<Longrightarrow> c_in (fst st') = c_in (fst st)"
  by (cases st) (auto simp: handleMessage_def handleUpload_in handleHeartbeat_in split: if_splits)

section \<open>The loop\<close>

lemma go_bind_cong [fundef_cong]:
  "m = m' \<Longrightarrow> (\<And>x. m' = Ret x \<Longrightarrow> f x = g x) \<Longrightarrow> go_bind m f = go_bind m' g"
  by (cases m') simp_all

function serve_loop :: "env \<Rightarrow> ('s, 'c, 'p) server_ops \<Rightarrow> string \<Rightarrow> ('s, 'c, 'p, 'k) session
    \<Rightarrow> (unit, ('s, 'c, 'p, 'k) session) go" where
  "serve_loop env ops sn st =
     (case DecodeFrame (fst st) of
        Panic \<Rightarrow> Panic
      | Fail e \<Rightarrow> Ret st
      | Ret r \<Rightarrow>
          go_bind (handleMessage env ops (fst r) sn (snd r, snd st)) (\<lambda>st'. serve_loop env ops sn st'))"
  by pat_completeness auto
termination
proof (relation "measure (\<lambda>(env, ops, sn, st). length (c_in (fst st)))", goal_cases)
  case 1
  show ?case by (rule wf_measure)
next
  case (2 env ops sn st r st')
  then have "c_in (fst st') = c_in (snd r)" using handleMessage_in by fastforce
  moreover have "length (c_in (snd r)) < length (c_in (fst st))"
    using DecodeFrame_shorter [of "fst st" "fst r" "snd r"] 2(1) by simp
  ultimately show ?case by simp
qed

declare serve_loop.simps [simp del]

definition HandleConnection :: "env \<Rightarrow> ('s, 'c, 'p) server_ops \<Rightarrow> ClientDef list \<Rightarrow> string \<Rightarrow> conn
    \<Rightarrow> ('s, 'c, 'p, 'k) server \<Rightarrow> (unit, conn \<times> ('s, 'c, 'p, 'k) server) go" where
  "HandleConnection env ops clients remoteAddr c w =
     (case authenticateClient env clients (c, NewMsgFactory, w) of
        (Panic, st) \<Rightarrow> Panic
      | (Fail e, (c, f, w)) \<Rightarrow> Ret (c, w)
      | (Ret hsPayload, (c, f, w)) \<Rightarrow>
          let sn = hs_Sn hsPayload;
              w = registerConnection env ops w sn remoteAddr
          in go_bind (serve_loop env ops sn (c, f, w)) (\<lambda>(c, f, w).
             Ret (c, cleanup ops w sn)))"

end
