(* ===== verification/ServerProps.thy ===== *)
theory ServerProps
  imports Server
begin

text \<open>
  What the server guarantees: who is let in, what is answered, what is stored and under which serial
  number, what the upload filter does to a payload sent again, and what becomes of the registration
  of a gateway that connects twice.
\<close>

section \<open>Acknowledgements\<close>

definition ack_frame :: "env \<Rightarrow> MsgFactory \<Rightarrow> ('s, 'c, 'p, 'k) server \<Rightarrow> u8 \<Rightarrow> u16 \<Rightarrow> u8 \<Rightarrow> bytes \<times> Msg" where
  "ack_frame env f w t i k =
     Msg_Encode \<lparr>m_Magic = MagicNumber, m_Version = frame_version, m_Flags = 0, m_Type = t,
       m_MsgID = ucast ((fct_current f + 1) mod 65536), m_PayloadLen = 3,
       m_Timestamp = NewTimestamp (clock_now env w), m_Payload = be16 i @ [k], m_Checksum = 0\<rparr>"

lemma ack_NewMsg:
  "NewMsg f now t (PAck \<lparr>ack_MsgID = i, ack_Code = k\<rparr>) =
     Ret (\<lparr>m_Magic = MagicNumber, m_Version = frame_version, m_Flags = 0, m_Type = t,
       m_MsgID = ucast ((fct_current f + 1) mod 65536), m_PayloadLen = 3,
       m_Timestamp = NewTimestamp now, m_Payload = be16 i @ [k], m_Checksum = 0\<rparr>, f\<lparr>fct_current := fct_current f + 1\<rparr>)"
  by (simp add: NewMsg_def Ack_Encode_def Next_def Let_def)

lemma sendAck_eq:
  "sendAck env (c, f, w) t i k =
     (if m_Checksum (snd (ack_frame env f w t i k)) = 0 then c
      else snd (conn_Write c (fst (ack_frame env f w t i k))),
      f\<lparr>fct_current := fct_current f + 1\<rparr>, tick w)"
  by (simp add: sendAck_def ack_NewMsg ack_frame_def split_beta Let_def)

lemma sendAck_world [simp]:
  "snd (snd (sendAck env (c, f, w) t i k)) = tick w"
  "fst (snd (sendAck env (c, f, w) t i k)) = f\<lparr>fct_current := fct_current f + 1\<rparr>"
  by (simp_all add: sendAck_eq)

lemma ack_frame_decodes:
  assumes "c_in d = fst (ack_frame env f w t i k) @ rest"
    and "t \<in> {MsgTypeHandshakeAck, MsgTypeUploadAck, MsgTypeHeartbeatAck}"
  shows "\<exists>m. DecodeFrame d = Ret (m, d\<lparr>c_in := rest\<rparr>) \<and> m_Type m = t
       \<and> ParseMsg m = Ret (PAck \<lparr>ack_MsgID = i, ack_Code = k\<rparr>)"
proof -
  note new = ack_NewMsg [of f "clock_now env w" t i k]
  have len: "length (be16 i @ [k]) \<le> 65535" by simp
  have "t \<in> packet_types (PAck \<lparr>ack_MsgID = i, ack_Code = k\<rparr>)" using assms(2) by simp
  from NewMsg_DecodeFrame [OF new _ assms(1) [unfolded ack_frame_def]]
    ParseMsg_encoded [OF NewMsg_RetD(1) [OF new], of "snd (ack_frame env f w t i k)"] this len
  show ?thesis by (simp add: ack_frame_def Msg_Encode_def Let_def)
qed

lemma tick_simps [simp]:
  "sv_uploadDedup (tick w) = sv_uploadDedup w" "sv_store (tick w) = sv_store w"
  "sv_conns (tick w) = sv_conns w" "sv_publisher (tick w) = sv_publisher w" "sv_router (tick w) = sv_router w"
  by (simp_all add: tick_def)

section \<open>The upload filter\<close>

lemma publish_simps [simp]:
  "sv_uploadDedup (publish ops sn rs w) = sv_uploadDedup w" "sv_store (publish ops sn rs w) = sv_store w"
  "sv_conns (publish ops sn rs w) = sv_conns w" "sv_router (publish ops sn rs w) = sv_router w"
  by (simp_all add: publish_def split: option.split)

lemma push_simps [simp]:
  "sv_uploadDedup (push env sn rs w) = sv_uploadDedup w" "sv_store (push env sn rs w) = sv_store w"
  "sv_conns (push env sn rs w) = sv_conns w" "sv_publisher (push env sn rs w) = sv_publisher w"
  by (simp_all add: push_def Let_def split: option.split)

lemma handleUpload_dedup:
  assumes "handleUpload env ops m sn (c, f, w) = Ret (c', f', w')"
  shows "sv_uploadDedup w' = dedup.offer (sv_uploadDedup w) (upload_key sn (m_Payload m))"
    and "sv_conns w' = sv_conns w"
  using assms
  by (auto simp: handleUpload_def dedup.offer_def Let_def split_beta sendAck_eq
      split: if_splits go.splits Packable.splits option.splits prod.splits)

lemma handleUpload_dup:
  assumes "fst (dedup_exists (sv_uploadDedup w) (upload_key sn (m_Payload m)))"
  shows "handleUpload env ops m sn (c, f, w) =
    Ret (sendAck env (c, f, w\<lparr>sv_uploadDedup := snd (dedup_exists (sv_uploadDedup w) (upload_key sn (m_Payload m)))\<rparr>)
           MsgTypeUploadAck (m_MsgID m) code_Ok)"
  using assms by (simp add: handleUpload_def split_beta Let_def)

lemma handleUpload_no_panic [no_panic]: "handleUpload env ops m sn st \<noteq> Panic"
  by (cases st) (auto simp: handleUpload_def Let_def split_beta no_panic split: go.splits Packable.splits option.splits prod.splits)

lemma handleMessage_no_panic [no_panic]: "handleMessage env ops m sn st \<noteq> Panic"
  by (simp add: handleMessage_def no_panic)

lemma handleUpload_not_Fail: "handleUpload env ops m sn st \<noteq> Fail e"
  by (cases st) (auto simp: handleUpload_def Let_def split_beta split: go.splits Packable.splits option.splits prod.splits)

lemma serve_loop_no_panic [no_panic]: "serve_loop env ops sn st \<noteq> Panic"
proof (induction env ops sn st rule: serve_loop.induct)
  case (1 env ops sn st)
  then show ?case
    by (subst serve_loop.simps) (auto simp: no_panic go_bind_Panic_iff split: go.split)
qed

lemma serve_loop_not_Fail: "serve_loop env ops sn st \<noteq> Fail e"
proof (induction env ops sn st rule: serve_loop.induct)
  case (1 env ops sn st)
  have nf: "handleMessage env ops m sn st' \<noteq> Fail e" for m st'
    by (simp add: handleMessage_def handleUpload_not_Fail)
  show ?case
  proof (cases "DecodeFrame (fst st)")
    case (Ret r)
    show ?thesis
      using 1 [OF Ret] nf [of "fst r" "(snd r, snd st)"]
      by (subst serve_loop.simps) (cases "handleMessage env ops (fst r) sn (snd r, snd st)"; simp add: Ret)
  qed (subst serve_loop.simps, simp)+
qed

text \<open>Every fact about a whole connection is an invariant of its handlers.\<close>

lemma serve_loop_invariant:
  assumes "serve_loop env ops sn st = Ret st'" and "P st"
    and "\<And>m c f w c1 st1. P (c, f, w) \<Longrightarrow> DecodeFrame c = Ret (m, c1) \<Longrightarrow>
      handleMessage env ops m sn (c1, f, w) = Ret st1 \<Longrightarrow> P st1"
  shows "P st'"
  using assms(1,2)
proof (induction "length (c_in (fst st))" arbitrary: st rule: less_induct)
  case less
  obtain c f w where st: "st = (c, f, w)" by (cases st)
  show ?case
  proof (cases "DecodeFrame c")
    case (Ret r)
    obtain m c1 where r: "r = (m, c1)" by fastforce
    obtain st1 where h: "handleMessage env ops m sn (c1, f, w) = Ret st1"
      and l: "serve_loop env ops sn st1 = Ret st'"
      using less.prems(1) by (subst (asm) serve_loop.simps) (auto simp: st Ret r go_bind_Ret_iff)
    have "length (c_in (fst st1)) < length (c_in (fst st))"
      using DecodeFrame_shorter [of c m c1] handleMessage_in [OF h] Ret r st by simp
    then show ?thesis using less.hyps l assms(3) [OF _ _ h] less.prems(2) Ret r st by blast
  qed (use less.prems in \<open>subst (asm) serve_loop.simps, simp add: st\<close>)+
qed

section \<open>What is stored, and under which serial number\<close>

lemma SaveReadings_rows:
  assumes "pg_laws pg rv dv" and "\<forall>m. mset (order m) = mset m"
    and "SaveReadings pg order db now sn rs = (e, db')"
  shows "\<exists>new. rv db' = rv db @ new \<and> (\<forall>r \<in> set new. sr_Sn r = sn)"
proof (cases "rs = []")
  case False
  have "\<exists>new. rv db' = rv db @ new \<and> (\<forall>r \<in> set new. sr_Sn r = sn)" if "stored_rows (rv db) sn now rs (rv db')"
  proof -
    obtain new where new: "rv db' = rv db @ new" "map (\<lambda>r. r\<lparr>sr_ID := 0\<rparr>) new = map (to_stored sn now) rs"
      using \<open>stored_rows (rv db) sn now rs (rv db')\<close> by (auto simp: stored_rows_def)
    have "sr_Sn r = sn" if "r \<in> set new" for r
    proof -
      have "r\<lparr>sr_ID := 0\<rparr> \<in> to_stored sn now ` set rs" using that new(2) by (metis image_eqI image_set)
      then obtain x where x: "r\<lparr>sr_ID := 0\<rparr> = to_stored sn now x" by blast
      show ?thesis using arg_cong [OF x, of sr_Sn] by (simp add: to_stored_def)
    qed
    with new(1) show ?thesis by blast
  qed
  then show ?thesis using SaveReadings_split [OF assms False] by auto
qed (use assms(3) in \<open>simp add: SaveReadings_def\<close>)

lemma handleUpload_store:
  assumes "handleUpload env ops m sn (c, f, w) = Ret (c', f', w')"
  shows "sv_store w' = sv_store w \<or>
     (\<exists>u now. ParseMsg m = Ret (PUpload u) \<and> up_Readings u \<noteq> []
        \<and> sv_store w' = snd (st_SaveReadings (op_store ops) (sv_store w) now sn (up_Readings u)))"
  using assms
  by (auto simp: handleUpload_def Let_def split_beta sendAck_eq
      split: if_splits go.splits Packable.splits option.splits prod.splits)

lemma serve_loop_rows:
  assumes "pg_laws pg rv dv" and "\<forall>m. mset (order m) = mset m"
    and "op_store ops = postgres_store pg order" and "serve_loop env ops sn (c, f, w) = Ret (c', f', w')"
  shows "\<exists>new. rv (sv_store w') = rv (sv_store w) @ new \<and> (\<forall>r \<in> set new. sr_Sn r = sn)"
proof -
  let ?P = "\<lambda>st. \<exists>new. rv (sv_store (snd (snd st))) = rv (sv_store w) @ new \<and> (\<forall>r \<in> set new. sr_Sn r = sn)"
  have "?P (c', f', w')"
  proof (rule serve_loop_invariant [OF assms(4), of ?P])
    show "?P (c, f, w)" by simp
    fix m c f w0 c1 and st1 :: "('a, 'b, 'c, 'd) session"
    assume P: "?P (c, f, w0)" and h: "handleMessage env ops m sn (c1, f, w0) = Ret st1"
    obtain c2 f2 w2 where st1: "st1 = (c2, f2, w2)" by (cases st1)
    have save: "st_SaveReadings (op_store ops) = SaveReadings pg order" by (simp add: assms(3) postgres_store_def)
    consider (up) "handleUpload env ops m sn (c1, f, w0) = Ret (c2, f2, w2)" | (other) "sv_store w2 = sv_store w0"
      using h st1 by (auto simp: handleMessage_def handleHeartbeat_def split_beta Let_def sendAck_eq split: if_splits)
    then have "sv_store w2 = sv_store w0 \<or> (\<exists>u now. sv_store w2 = snd (SaveReadings pg order (sv_store w0) now sn (up_Readings (u :: UploadPayload))))"
    proof cases
      case up
      from handleUpload_store [OF this] show ?thesis unfolding save by blast
    qed simp
    then show "?P st1"
    proof
      assume "\<exists>u now. sv_store w2 = snd (SaveReadings pg order (sv_store w0) now sn (up_Readings (u :: UploadPayload)))"
      then obtain u :: UploadPayload and now where "sv_store w2 = snd (SaveReadings pg order (sv_store w0) now sn (up_Readings u))" by blast
      then obtain e where "SaveReadings pg order (sv_store w0) now sn (up_Readings u) = (e, sv_store w2)"
        by (metis prod.collapse)
      from SaveReadings_rows [OF assms(1,2) this] P st1 show ?thesis by fastforce
    qed (use P st1 in simp)
  qed
  then show ?thesis by simp
qed

section \<open>The handshake\<close>

definition auth_code :: "ClientDef list \<Rightarrow> Msg \<Rightarrow> u8" where
  "auth_code clients m =
     (if m_Type m \<noteq> MsgTypeHandshake then code_Failed
      else case ParseMsg m of
        Ret (PHandshake hs) \<Rightarrow>
          (case find_client clients (hs_Sn hs) of
             None \<Rightarrow> code_BadSn
           | Some cl \<Rightarrow> if cd_Token cl = hs_Token hs then code_Ok else code_BadToken)
      | _ \<Rightarrow> code_Failed)"

definition admits :: "ClientDef list \<Rightarrow> Msg \<Rightarrow> HandshakePayload \<Rightarrow> bool" where
  "admits clients m hs \<longleftrightarrow> m_Type m = MsgTypeHandshake \<and> ParseMsg m = Ret (PHandshake hs)
     \<and> (\<exists>cl. find_client clients (hs_Sn hs) = Some cl \<and> cd_Token cl = hs_Token hs)"

lemma authenticateClient_answer:
  assumes "DecodeFrame c = Ret (m, c1)"
  shows "snd (authenticateClient env clients (c, f, w)) =
      sendHandshakeResponse env (c1, f, w) (m_MsgID m) (auth_code clients m)"
  using ParseMsg_no_panic [of m] assms
  by (auto simp: authenticateClient_def auth_code_def Let_def code_defs
      split: go.split Packable.split option.split)

lemma authenticateClient_Ret:
  "fst (authenticateClient env clients (c, f, w)) = Ret hs \<longleftrightarrow>
     (\<exists>m c1. DecodeFrame c = Ret (m, c1) \<and> admits clients m hs)"
  by (auto simp: authenticateClient_def admits_def Let_def split: go.split Packable.split option.split)

lemma authenticateClient_no_panic [no_panic]: "fst (authenticateClient env clients (c, f, w)) \<noteq> Panic"
  using ParseMsg_no_panic DecodeFrame_no_panic
  by (auto simp: authenticateClient_def Let_def split: go.split Packable.split option.split prod.split)

lemma authenticateClient_world:
  "\<exists>n. snd (snd (snd (authenticateClient env clients (c, f, w)))) = w\<lparr>sv_ticks := n\<rparr>"
proof (cases "DecodeFrame c")
  case (Ret r)
  then obtain m c1 where "DecodeFrame c = Ret (m, c1)" by (cases r) simp
  then show ?thesis
    by (simp add: authenticateClient_answer sendHandshakeResponse_def tick_def) blast
next
  case (Fail e)
  have "\<exists>n. w = w\<lparr>sv_ticks := n\<rparr>" by (rule exI [of _ "sv_ticks w"]) simp
  then show ?thesis using Fail by (simp add: authenticateClient_def)
next
  case Panic
  then show ?thesis using DecodeFrame_no_panic by blast
qed

lemma HandleConnection_Ret:
  assumes "HandleConnection env ops clients addr c w = Ret (c', w')"
  shows "(\<exists>n. w' = w\<lparr>sv_ticks := n\<rparr>)
    \<or> (\<exists>m c1 hs c2 f2 w2 c3 f3 w3. DecodeFrame c = Ret (m, c1) \<and> admits clients m hs
        \<and> authenticateClient env clients (c, NewMsgFactory, w) = (Ret hs, c2, f2, w2)
        \<and> serve_loop env ops (hs_Sn hs) (c2, f2, registerConnection env ops w2 (hs_Sn hs) addr) = Ret (c3, f3, w3)
        \<and> c' = c3 \<and> w' = cleanup ops w3 (hs_Sn hs))"
proof -
  obtain r c2 f2 w2 where a: "authenticateClient env clients (c, NewMsgFactory, w) = (r, c2, f2, w2)"
    by (metis prod_cases4)
  show ?thesis
  proof (cases r)
    case (Ret hs)
    then obtain m c1 where "DecodeFrame c = Ret (m, c1)" "admits clients m hs"
      using authenticateClient_Ret [of env clients c NewMsgFactory w hs] a by auto
    with Ret a assms show ?thesis
      by (auto simp: HandleConnection_def Let_def go_bind_Ret_iff split: prod.splits)
  next
    case (Fail e)
    with assms a have "w' = w2" by (simp add: HandleConnection_def)
    then show ?thesis using authenticateClient_world [of env clients c NewMsgFactory w] a by auto
  next
    case Panic
    then show ?thesis using assms a by (simp add: HandleConnection_def)
  qed
qed

section \<open>A server for the witnesses\<close>

definition sample_env :: "int \<Rightarrow> env" where
  "sample_env now = \<lparr>ev_clock = \<lambda>_. now, ev_uuid = \<lambda>_. ''uuid'', ev_counts_order = id, ev_groups_order = id\<rparr>"

type_synonym sample_db = "StoredReading list \<times> ((string \<times> string) \<times> StoredDevice) list"

definition sample_ops :: "(sample_db, memory, unit) server_ops" where
  "sample_ops =
     \<lparr>op_store = postgres_store sample_pg id, op_conns = memory_manager id,
      op_serializeReadings = \<lambda>_. None, op_PublishDeviceReadings = \<lambda>p _ _. (True, p)\<rparr>"

definition sample_server :: "(sample_db, memory, unit, unit) server" where
  "sample_server =
     \<lparr>sv_uploadDedup = uploadDedup, sv_store = ([], []), sv_conns = NewMemoryConnectionManager,
      sv_publisher = (), sv_router = None, sv_ticks = 0\<rparr>"

definition sample_clients :: "ClientDef list" where
  "sample_clients = [\<lparr>cd_Sn = ''gw1'', cd_Token = ''secret'', cd_Description = []\<rparr>]"

definition hello :: HandshakePayload where
  "hello = \<lparr>hs_FirmwareVersion = 1, hs_Sn = ''gw1'', hs_Token = ''secret''\<rparr>"

lemma hello_frame:
  obtains m f where "NewMsg NewMsgFactory now MsgTypeHandshake (PHandshake hello) = Ret (m, f)"
    and "\<And>c rest. c_in c = fst (Msg_Encode m) @ rest \<Longrightarrow> DecodeFrame c = Ret (snd (Msg_Encode m), c\<lparr>c_in := rest\<rparr>)"
    and "admits sample_clients (snd (Msg_Encode m)) hello"
proof -
  obtain m f where new: "NewMsg NewMsgFactory now MsgTypeHandshake (PHandshake hello) = Ret (m, f)"
    by (simp add: NewMsg_def Handshake_Encode_def hello_def Next_def Let_def)
  have "length (m_Payload m) \<le> 65535"
    using NewMsg_RetD(1) [OF new, symmetric] by (auto simp: Handshake_Encode_def hello_def)
  note len = this
  have parse: "ParseMsg (snd (Msg_Encode m)) = Ret (PHandshake hello)"
    using ParseMsg_encoded [OF NewMsg_RetD(1) [OF new] len] NewMsg_RetD(2) [OF new]
    by (simp add: Msg_Encode_def Let_def)
  have "admits sample_clients (snd (Msg_Encode m)) hello"
    using parse NewMsg_RetD(2) [OF new]
    by (simp add: admits_def Msg_Encode_def Let_def find_client_def sample_clients_def hello_def)
  with that new NewMsg_DecodeFrame [OF new len] show ?thesis by blast
qed

lemma serve_loop_step:
  "DecodeFrame c = Ret (m, c1) \<Longrightarrow> handleMessage env ops m sn (c1, f, w) = Ret st1 \<Longrightarrow>
     serve_loop env ops sn (c, f, w) = serve_loop env ops sn st1"
  by (subst serve_loop.simps) simp

lemma serve_loop_end: "c_in c = [] \<Longrightarrow> serve_loop env ops sn (c, f, w) = Ret (c, f, w)"
  using DecodeFrame_short_header [of c] by (subst serve_loop.simps) auto

lemma handleMessage_Ret: "\<exists>c' f' w'. handleMessage env ops m sn st = Ret (c', f', w')"
proof (cases "handleMessage env ops m sn st")
  case (Ret r)
  then show ?thesis by (cases r) simp
next
  case (Fail e)
  then show ?thesis by (simp add: handleMessage_def handleUpload_not_Fail split: if_splits)
qed (simp add: handleMessage_no_panic)

text \<open>A connection that says hello, uploads one reading and ends.\<close>

definition sample_upload :: UploadPayload where
  "sample_upload = \<lparr>up_Readings = [sample_reading]\<rparr>"

definition sample_stream :: "bytes \<Rightarrow> bool" where
  "sample_stream b \<longleftrightarrow> (\<exists>m f m2 f2. NewMsg NewMsgFactory 0 MsgTypeHandshake (PHandshake hello) = Ret (m, f)
     \<and> NewMsg f 0 MsgTypeUpload (PUpload sample_upload) = Ret (m2, f2)
     \<and> b = fst (Msg_Encode m) @ fst (Msg_Encode m2))"

lemma sample_upload_frame:
  assumes "NewMsg f now MsgTypeUpload (PUpload sample_upload) = Ret (m, f')"
  shows "c_in c = fst (Msg_Encode m) @ rest \<Longrightarrow> DecodeFrame c = Ret (snd (Msg_Encode m), c\<lparr>c_in := rest\<rparr>)"
    and "ParseMsg (snd (Msg_Encode m)) = Ret (PUpload sample_upload)"
    and "m_Type (snd (Msg_Encode m)) = MsgTypeUpload"
proof -
  have len: "length (m_Payload m) \<le> 65535"
  proof -
    have "Upload_Encode sample_upload = Ret (m_Payload m)" using NewMsg_RetD(1) [OF assms] by simp
    then show ?thesis
      by (auto simp: sample_upload_def Upload_Encode_Ret_iff reading_wire_tlv sample_reading_def DataTypeInt16_def)
  qed
  show "c_in c = fst (Msg_Encode m) @ rest \<Longrightarrow> DecodeFrame c = Ret (snd (Msg_Encode m), c\<lparr>c_in := rest\<rparr>)"
    by (rule NewMsg_DecodeFrame [OF assms len])
  show "ParseMsg (snd (Msg_Encode m)) = Ret (PUpload sample_upload)"
    using ParseMsg_encoded [OF NewMsg_RetD(1) [OF assms] len] NewMsg_RetD(2) [OF assms]
    by (simp add: Msg_Encode_def Let_def)
  show "m_Type (snd (Msg_Encode m)) = MsgTypeUpload"
    using NewMsg_RetD(2) [OF assms] by (simp add: Msg_Encode_def Let_def)
qed

lemma sample_connection:
  obtains b c' w' where "sample_stream b"
    and "HandleConnection (sample_env 0) sample_ops sample_clients ''addr'' (sample_conn b) sample_server = Ret (c', w')"
    and "dedup_keys (sv_uploadDedup w') \<noteq> []"
proof -
  obtain m f where new: "NewMsg NewMsgFactory 0 MsgTypeHandshake (PHandshake hello) = Ret (m, f)"
    and dec: "\<And>c rest. c_in c = fst (Msg_Encode m) @ rest \<Longrightarrow> DecodeFrame c = Ret (snd (Msg_Encode m), c\<lparr>c_in := rest\<rparr>)"
    and adm: "admits sample_clients (snd (Msg_Encode m)) hello"
    using hello_frame [of 0] by metis
  obtain m2 f2 where up: "NewMsg f 0 MsgTypeUpload (PUpload sample_upload) = Ret (m2, f2)"
    by (auto simp: NewMsg_def Next_def Let_def sample_upload_def sample_reading_def Upload_Encode_def
        string_fields_def DataTypeInt16_def)
  let ?b = "fst (Msg_Encode m) @ fst (Msg_Encode m2)" and ?env = "sample_env 0"
  let ?m2 = "snd (Msg_Encode m2)"
  have d: "DecodeFrame (sample_conn ?b) = Ret (snd (Msg_Encode m), sample_conn (fst (Msg_Encode m2)))"
    using dec [of "sample_conn ?b" "fst (Msg_Encode m2)"] by simp
  have ret: "fst (authenticateClient ?env sample_clients (sample_conn ?b, NewMsgFactory, sample_server)) = Ret hello"
    using authenticateClient_Ret d adm by blast
  obtain c2 f3 w2 where a: "authenticateClient ?env sample_clients (sample_conn ?b, NewMsgFactory, sample_server) = (Ret hello, c2, f3, w2)"
    using ret by (metis prod.collapse)
  have "c_in c2 = fst (Msg_Encode m2)"
    using authenticateClient_answer [OF d, of ?env sample_clients NewMsgFactory sample_server] a
      sendAck_fst_in [of ?env "sample_conn (fst (Msg_Encode m2))"]
    by (metis fst_conv sample_conn_simps(1) sendHandshakeResponse_def snd_conv)
  then have d2: "DecodeFrame c2 = Ret (?m2, c2\<lparr>c_in := []\<rparr>)"
    using sample_upload_frame(1) [OF up, of c2 "[]"] by simp
  let ?w = "registerConnection ?env sample_ops w2 ''gw1'' ''addr''"
  obtain c3 f4 w3 where h: "handleMessage ?env sample_ops ?m2 ''gw1'' (c2\<lparr>c_in := []\<rparr>, f3, ?w) = Ret (c3, f4, w3)"
    using handleMessage_Ret by blast
  have "c_in c3 = []" using handleMessage_in [OF h] by simp
  then have "serve_loop ?env sample_ops ''gw1'' (c2, f3, ?w) = Ret (c3, f4, w3)"
    using serve_loop_step [OF d2 h] serve_loop_end by simp
  then have hc: "HandleConnection ?env sample_ops sample_clients ''addr'' (sample_conn ?b) sample_server
      = Ret (c3, cleanup sample_ops w3 ''gw1'')"
    using a by (simp add: HandleConnection_def hello_def)
  have "handleUpload ?env sample_ops ?m2 ''gw1'' (c2\<lparr>c_in := []\<rparr>, f3, ?w) = Ret (c3, f4, w3)"
    using h sample_upload_frame(3) [OF up] by (simp add: handleMessage_def)
  note off = handleUpload_dedup(1) [OF this]
  obtain n where "w2 = sample_server\<lparr>sv_ticks := n\<rparr>"
    using authenticateClient_world [of ?env sample_clients "sample_conn ?b" NewMsgFactory sample_server] a by auto
  then have "sv_uploadDedup ?w = uploadDedup"
    by (simp add: registerConnection_def Let_def sample_server_def)
  then have "dedup_keys (sv_uploadDedup w3) = lru_add 200 (upload_key ''gw1'' (m_Payload ?m2)) []"
    using off dedup.offer_view [where cap = 200 and f = uploadDedup and k = "upload_key ''gw1'' (m_Payload ?m2)"]
    by (simp add: uploadDedup_def dedup_inv_new dedupCacheSize_def)
       (simp add: newDedupCache_def dedup_keys_def)
  then have "dedup_keys (sv_uploadDedup (cleanup sample_ops w3 ''gw1'')) \<noteq> []"
    by (simp add: lru_add_def cleanup_def)
  then show ?thesis using that new up hc unfolding sample_stream_def by blast
qed

section \<open>Properties\<close>

text \<open>
  C4. A peer that does not present the serial number and token of a configured client changes
  nothing: when a whole connection leaves the shared state (the clock apart) different, its first
  frame was a handshake with the token of the first client entry of that serial number.
\<close>

theorem HandleConnection_requires_credentials:
  assumes "HandleConnection env ops clients remoteAddr c w = Ret (c', w')"
    and "w'\<lparr>sv_ticks := sv_ticks w\<rparr> \<noteq> w"
  shows "\<exists>m c1 hs cl. DecodeFrame c = Ret (m, c1) \<and> m_Type m = MsgTypeHandshake
     \<and> ParseMsg m = Ret (PHandshake hs) \<and> find_client clients (hs_Sn hs) = Some cl
     \<and> cd_Token cl = hs_Token hs"
  using HandleConnection_Ret [OF assms(1)] assms(2) by (auto simp: admits_def)

theorem HandleConnection_requires_credentials_witness:
  "\<exists>m c1 hs cl b. DecodeFrame (sample_conn b) = Ret (m, c1) \<and> m_Type m = MsgTypeHandshake
     \<and> ParseMsg m = Ret (PHandshake hs) \<and> find_client sample_clients (hs_Sn hs) = Some cl
     \<and> cd_Token cl = hs_Token hs"
proof -
  obtain b c' w' where h: "HandleConnection (sample_env 0) sample_ops sample_clients ''addr'' (sample_conn b) sample_server = Ret (c', w')"
    and ne: "dedup_keys (sv_uploadDedup w') \<noteq> []"
    by (rule sample_connection)
  have "sv_uploadDedup (w'\<lparr>sv_ticks := sv_ticks sample_server\<rparr>) \<noteq> sv_uploadDedup sample_server"
    using ne by (auto simp: sample_server_def uploadDedup_def newDedupCache_def dedup_keys_def)
  then have "w'\<lparr>sv_ticks := sv_ticks sample_server\<rparr> \<noteq> sample_server" by metis
  from HandleConnection_requires_credentials [OF h this] show ?thesis by blast
qed

text \<open>
  The handshake is answered in every case: with \<^verbatim>\<open>Ok\<close> exactly when the first frame is a handshake
  whose serial number is configured with that token, and otherwise with the code of what is wrong.
  The client is let in exactly when the answer is \<^verbatim>\<open>Ok\<close>.
\<close>

theorem authenticateClient_answers:
  assumes "DecodeFrame c = Ret (m, c1)"
  shows "snd (authenticateClient env clients (c, f, w)) =
       sendAck env (c1, f, w) MsgTypeHandshakeAck (m_MsgID m)
         (if m_Type m \<noteq> MsgTypeHandshake then code_Failed
          else case ParseMsg m of
            Ret (PHandshake hs) \<Rightarrow>
              (case find_client clients (hs_Sn hs) of
                 None \<Rightarrow> code_BadSn
               | Some cl \<Rightarrow> if cd_Token cl = hs_Token hs then code_Ok else code_BadToken)
          | _ \<Rightarrow> code_Failed)
     \<and> ((\<exists>hs. fst (authenticateClient env clients (c, f, w)) = Ret hs) \<longleftrightarrow> auth_code clients m = code_Ok)"
proof -
  have "(\<exists>hs. admits clients m hs) \<longleftrightarrow> auth_code clients m = code_Ok"
    by (auto simp: admits_def auth_code_def code_defs split: go.splits Packable.splits option.splits)
  then have "(\<exists>hs. fst (authenticateClient env clients (c, f, w)) = Ret hs) \<longleftrightarrow> auth_code clients m = code_Ok"
    using authenticateClient_Ret [of env clients c f w] assms by simp
  then show ?thesis
    by (simp only: authenticateClient_answer [OF assms] sendHandshakeResponse_def auth_code_def)
qed

theorem authenticateClient_answers_witness:
  "\<exists>c. fst (authenticateClient (sample_env 0) sample_clients (c, NewMsgFactory, sample_server)) = Ret hello"
proof -
  obtain m f where dec: "\<And>c rest. c_in c = fst (Msg_Encode m) @ rest \<Longrightarrow>
      DecodeFrame c = Ret (snd (Msg_Encode m), c\<lparr>c_in := rest\<rparr>)"
    and adm: "admits sample_clients (snd (Msg_Encode m)) hello"
    by (rule hello_frame [of 0]) metis
  let ?c = "sample_conn (fst (Msg_Encode m) @ [])"
  have d: "DecodeFrame ?c = Ret (snd (Msg_Encode m), sample_conn [])"
    using dec [of ?c "[]"] by (simp del: append_Nil2)
  have "auth_code sample_clients (snd (Msg_Encode m)) = code_Ok"
    using adm by (auto simp: admits_def auth_code_def)
  then obtain hs where hs: "fst (authenticateClient (sample_env 0) sample_clients (?c, NewMsgFactory, sample_server)) = Ret hs"
    using authenticateClient_answers [OF d] by blast
  obtain m' c1 where "DecodeFrame ?c = Ret (m', c1)" and adm': "admits sample_clients m' hs"
    using iffD1 [OF authenticateClient_Ret hs] by blast
  then have "m' = snd (Msg_Encode m)" using d by simp
  then have "hs = hello" using adm adm' by (simp add: admits_def)
  with hs show ?thesis by blast
qed

text \<open>
  C19. A connection is handled to its end without a panic, whatever the peer sends, whatever the
  database, the registry and the publisher answer, and however writes fail.
\<close>

theorem HandleConnection_returns:
  "\<exists>c' w'. HandleConnection env ops clients remoteAddr c w = Ret (c', w')"
proof -
  obtain r c2 f2 w2 where a: "authenticateClient env clients (c, NewMsgFactory, w) = (r, c2, f2, w2)"
    by (metis prod_cases4)
  have "r \<noteq> Panic" using authenticateClient_no_panic [of env clients c NewMsgFactory w] a by simp
  then show ?thesis
  proof (cases r)
    case (Ret hs)
    let ?st = "(c2, f2, registerConnection env ops w2 (hs_Sn hs) remoteAddr)"
    obtain c3 f3 w3 where "serve_loop env ops (hs_Sn hs) ?st = Ret (c3, f3, w3)"
    proof (cases "serve_loop env ops (hs_Sn hs) ?st")
      case (Ret st)
      then show ?thesis using that by (cases st) simp
    qed (simp_all add: serve_loop_not_Fail serve_loop_no_panic)
    with Ret a show ?thesis by (simp add: HandleConnection_def)
  qed (simp_all add: HandleConnection_def a)
qed

text \<open>
  C9. A gateway cannot write under another one's name: every row a connection adds to the readings
  table carries the serial number the connection was admitted with.
\<close>

theorem rows_carry_authenticated_sn:
  assumes "pg_laws pg rv dv" and "\<forall>m. mset (order m) = mset m"
    and "op_store ops = postgres_store pg order"
    and "HandleConnection env ops clients remoteAddr c w = Ret (c', w')"
  shows "\<exists>new. rv (sv_store w') = rv (sv_store w) @ new
     \<and> (new = [] \<or> (\<exists>m c1 hs. DecodeFrame c = Ret (m, c1) \<and> admits clients m hs
          \<and> (\<forall>r \<in> set new. sr_Sn r = hs_Sn hs)))"
  using HandleConnection_Ret [OF assms(4)]
proof
  assume "\<exists>n. w' = w\<lparr>sv_ticks := n\<rparr>"
  then show ?thesis by auto
next
  assume "\<exists>m c1 hs c2 f2 w2 c3 f3 w3. DecodeFrame c = Ret (m, c1) \<and> admits clients m hs
        \<and> authenticateClient env clients (c, NewMsgFactory, w) = (Ret hs, c2, f2, w2)
        \<and> serve_loop env ops (hs_Sn hs) (c2, f2, registerConnection env ops w2 (hs_Sn hs) remoteAddr) = Ret (c3, f3, w3)
        \<and> c' = c3 \<and> w' = cleanup ops w3 (hs_Sn hs)"
  then obtain m c1 hs c2 f2 w2 c3 f3 w3 where d: "DecodeFrame c = Ret (m, c1)" and adm: "admits clients m hs"
    and a: "authenticateClient env clients (c, NewMsgFactory, w) = (Ret hs, c2, f2, w2)"
    and l: "serve_loop env ops (hs_Sn hs) (c2, f2, registerConnection env ops w2 (hs_Sn hs) remoteAddr) = Ret (c3, f3, w3)"
    and w': "w' = cleanup ops w3 (hs_Sn hs)" by blast
  have "sv_store w2 = sv_store w" using authenticateClient_world [of env clients c NewMsgFactory w] a by auto
  then have "sv_store (registerConnection env ops w2 (hs_Sn hs) remoteAddr) = sv_store w"
    by (simp add: registerConnection_def Let_def)
  with serve_loop_rows [OF assms(1-3) l] d adm w' show ?thesis by (auto simp: cleanup_def)
qed

theorem rows_carry_authenticated_sn_witness:
  "\<exists>b c' w' new. HandleConnection (sample_env 0) sample_ops sample_clients ''addr'' (sample_conn b) sample_server = Ret (c', w')
     \<and> sample_stream b \<and> fst (sv_store w') = [] @ new"
proof -
  obtain b c' w' where b: "sample_stream b"
    and h: "HandleConnection (sample_env 0) sample_ops sample_clients ''addr'' (sample_conn b) sample_server = Ret (c', w')"
    by (rule sample_connection)
  have "\<forall>m. mset (id m) = mset (m :: string gomap)" and "op_store sample_ops = postgres_store sample_pg id"
    by (simp_all add: sample_ops_def)
  from rows_carry_authenticated_sn [OF sample_pg_laws this h]
  have "\<exists>new. fst (sv_store w') = [] @ new" by (auto simp: sample_server_def)
  with b h show ?thesis by blast
qed

text \<open>Uploads handled one after the other, on whatever connections they arrive.\<close>

primrec uploads :: "env \<Rightarrow> ('s, 'c, 'p) server_ops \<Rightarrow> (string \<times> Msg \<times> conn \<times> MsgFactory) list
    \<Rightarrow> ('s, 'c, 'p, 'k) server \<Rightarrow> ('s, 'c, 'p, 'k) server" where
  "uploads env ops [] w = w"
| "uploads env ops (u # us) w =
     (let (sn, m, c, f) = u
      in case handleUpload env ops m sn (c, f, w) of
           Ret st \<Rightarrow> uploads env ops us (snd (snd st))
         | _ \<Rightarrow> uploads env ops us w)"

definition upload_id :: "string \<times> Msg \<times> conn \<times> MsgFactory \<Rightarrow> string" where
  "upload_id u = upload_key (fst u) (m_Payload (fst (snd u)))"

lemma uploads_dedup:
  "sv_uploadDedup (uploads env ops us w) = foldl dedup.offer (sv_uploadDedup w) (map upload_id us)"
proof (induction us arbitrary: w)
  case (Cons u us)
  obtain sn m c f where u: "u = (sn, m, c, f)" by (cases u)
  show ?case
  proof (cases "handleUpload env ops m sn (c, f, w)")
    case (Ret st)
    then obtain c' f' w' where "handleUpload env ops m sn (c, f, w) = Ret (c', f', w')" by (cases st) simp
    from handleUpload_dedup(1) [OF this] this Cons.IH [of w'] show ?thesis by (simp add: u upload_id_def)
  qed (simp_all add: handleUpload_not_Fail handleUpload_no_panic)
qed simp

text \<open>
  C5. The upload filter: once an upload has been handled, the same payload from the same gateway is
  answered \<^verbatim>\<open>Ok\<close> and not saved, as long as fewer than 200 other payloads came in between. This holds
  whether or not the first one was saved: a batch whose save failed is acknowledged and lost when
  the gateway sends it again.
\<close>

theorem resent_upload_acked_not_saved:
  assumes "dedup_inv (sv_uploadDedup w)" and "dc_capacity (sv_uploadDedup w) = dedupCacheSize"
    and "card (set (map upload_id us) - {upload_id u}) < 200"
    and "w' = uploads env ops (u # us) w" and "m_Payload m = m_Payload (fst (snd u))"
  shows "\<exists>w''. handleUpload env ops m (fst u) (c, f, w') = Ret (sendAck env (c, f, w'') MsgTypeUploadAck (m_MsgID m) code_Ok)
     \<and> sv_store w'' = sv_store w'"
proof -
  let ?k = "upload_id u" and ?d = "sv_uploadDedup w"
  have "sv_uploadDedup w' = foldl dedup.offer ?d (map upload_id (u # us))"
    unfolding assms(4) by (rule uploads_dedup)
  then have d: "sv_uploadDedup w' = foldl dedup.offer (dedup.offer ?d ?k) (map upload_id us)" by simp
  have "fst (dedup_exists (sv_uploadDedup w') ?k)"
    unfolding d using dedup.offered_seen [where cap = 200] assms(1-3) by (simp add: dedupCacheSize_def)
  then have "fst (dedup_exists (sv_uploadDedup w') (upload_key (fst u) (m_Payload m)))"
    using assms(5) by (simp add: upload_id_def)
  from handleUpload_dup [OF this, of env ops c f] show ?thesis by fastforce
qed

text \<open>A store whose first save fails and whose later saves would not: the retry is answered, not saved.\<close>

definition flaky_ops :: "(nat, memory, unit) server_ops" where
  "flaky_ops =
     \<lparr>op_store = \<lparr>st_SaveReadings = \<lambda>n now sn rs. (if n = 0 then Some InsertFailed else None, n + 1)\<rparr>,
      op_conns = memory_manager id, op_serializeReadings = \<lambda>_. None,
      op_PublishDeviceReadings = \<lambda>p _ _. (True, p)\<rparr>"

definition flaky_server :: "(nat, memory, unit, unit) server" where
  "flaky_server =
     \<lparr>sv_uploadDedup = uploadDedup, sv_store = 0, sv_conns = [], sv_publisher = (), sv_router = None, sv_ticks = 0\<rparr>"

theorem resent_upload_acked_not_saved_witness:
  "\<exists>u w''. sv_store (uploads (sample_env 0) flaky_ops [u] flaky_server) = 1
     \<and> handleUpload (sample_env 0) flaky_ops (fst (snd u)) (fst u)
         (sample_conn [], NewMsgFactory, uploads (sample_env 0) flaky_ops [u] flaky_server)
       = Ret (sendAck (sample_env 0) (sample_conn [], NewMsgFactory, w'') MsgTypeUploadAck (m_MsgID (fst (snd u))) code_Ok)
     \<and> sv_store w'' = 1"
proof -
  obtain m f where up: "NewMsg NewMsgFactory 0 MsgTypeUpload (PUpload sample_upload) = Ret (m, f)"
    by (auto simp: NewMsg_def Next_def Let_def sample_upload_def sample_reading_def Upload_Encode_def
        string_fields_def DataTypeInt16_def)
  let ?m = "snd (Msg_Encode m)"
  let ?u = "(''gw1'', ?m, sample_conn [], NewMsgFactory)"
  let ?w = "uploads (sample_env 0) flaky_ops [?u] flaky_server"
  have "\<not> fst (dedup_exists uploadDedup k)" for k
    by (simp add: dedup_exists_def uploadDedup_def newDedupCache_def)
  then have st: "sv_store ?w = 1"
    using sample_upload_frame(2) [OF up]
    by (simp add: handleUpload_def flaky_ops_def flaky_server_def split_beta Let_def sendAck_eq sample_upload_def)
  have "dedup_inv (sv_uploadDedup flaky_server)" and "dc_capacity (sv_uploadDedup flaky_server) = dedupCacheSize"
    by (simp_all add: flaky_server_def uploadDedup_def dedup_inv_new) (simp add: newDedupCache_def)
  moreover have "card (set (map upload_id []) - {upload_id ?u}) < 200" by simp
  ultimately obtain w'' where "handleUpload (sample_env 0) flaky_ops ?m (fst ?u) (sample_conn [], NewMsgFactory, ?w)
      = Ret (sendAck (sample_env 0) (sample_conn [], NewMsgFactory, w'') MsgTypeUploadAck (m_MsgID ?m) code_Ok)"
    and "sv_store w'' = sv_store ?w"
    using resent_upload_acked_not_saved [where us = "[]" and u = ?u and m = ?m and w' = ?w and w = flaky_server
      and env = "sample_env 0" and ops = flaky_ops and c = "sample_conn []" and f = NewMsgFactory] by auto
  with st show ?thesis by (intro exI [of _ ?u] exI [of _ w'']) simp
qed

text \<open>
  C16. Every ack reaches the client as it was meant, or not at all: if the connection still takes a
  write, exactly one frame is written, and a client that reads it gets the ack's type, the message
  identifier it answers and its code -- except when the checksum of the frame is zero: then nothing
  is written.
\<close>

theorem sendAck_delivers:
  assumes "sendAck env (c, f, w) t i k = (c', f', w')" and "0 < c_writes_left c"
    and "t \<in> {MsgTypeHandshakeAck, MsgTypeUploadAck, MsgTypeHeartbeatAck}"
  shows "if m_Checksum (snd (ack_frame env f w t i k)) = 0 then c' = c
     else \<exists>b. c_out c' = c_out c @ [b]
       \<and> (\<forall>d rest. c_in d = b @ rest \<longrightarrow> (\<exists>m. DecodeFrame d = Ret (m, d\<lparr>c_in := rest\<rparr>) \<and> m_Type m = t
            \<and> ParseMsg m = Ret (PAck \<lparr>ack_MsgID = i, ack_Code = k\<rparr>)))"
proof -
  let ?b = "fst (ack_frame env f w t i k)"
  have c': "c' = (if m_Checksum (snd (ack_frame env f w t i k)) = 0 then c else snd (conn_Write c ?b))"
    using assms(1) by (simp add: sendAck_eq split: if_splits)
  have "c_out (snd (conn_Write c ?b)) = c_out c @ [?b]"
    using assms(2) by (cases "c_writes_left c") (simp_all add: conn_Write_def)
  then show ?thesis using c' ack_frame_decodes [OF _ assms(3)] by auto
qed

text \<open>
  A zero checksum occurs: the ack of heartbeat 7, sent 57668 milliseconds into 2020 as the second
  message of its connection, is never written.
\<close>

lemma zero_checksum_ack:
  "m_Checksum (snd (ack_frame (sample_env (CUSTOM_EPOCH + 57668)) \<lparr>fct_current = 1\<rparr> w MsgTypeHeartbeatAck 7 code_Ok)) = 0"
proof -
  let ?m = "\<lparr>m_Magic = MagicNumber, m_Version = frame_version, m_Flags = 0, m_Type = MsgTypeHeartbeatAck,
     m_MsgID = 2, m_PayloadLen = 3, m_Timestamp = 57668, m_Payload = be16 7 @ [code_Ok], m_Checksum = 0\<rparr>"
  have bytes: "frame_header ?m @ be16 7 @ [code_Ok] = [0x4E, 0x59, 1, 0, 6, 0, 2, 0, 3, 0, 0, 0xE1, 0x44, 0, 7, 1]"
    by (simp add: frame_header_def be16_eq be32_eq MagicNumber_def frame_version_def MsgTypeHeartbeatAck_def code_Ok_def)
  have "CalChecksum (frame_header ?m @ be16 7 @ [code_Ok]) = 0"
    unfolding bytes by (simp add: crc_eval)
  moreover have "NewTimestamp (CUSTOM_EPOCH + 57668) = 57668" by (simp add: NewTimestamp_def)
  ultimately show ?thesis
    by (simp only: ack_frame_def sample_env_def clock_now_def env.simps Msg_Encode_def Let_def snd_conv
        Msg.simps MsgFactory.simps) simp
qed

theorem sendAck_delivers_witness:
  "sendAck (sample_env (CUSTOM_EPOCH + 57668)) (sample_conn [], \<lparr>fct_current = 1\<rparr>, sample_server)
     MsgTypeHeartbeatAck 7 code_Ok = (sample_conn [], \<lparr>fct_current = 2\<rparr>, tick sample_server)"
proof -
  let ?r = "sendAck (sample_env (CUSTOM_EPOCH + 57668)) (sample_conn [], \<lparr>fct_current = 1\<rparr>, sample_server)
     MsgTypeHeartbeatAck 7 code_Ok"
  obtain c' f' w' where r: "?r = (c', f', w')" by (cases ?r)
  have "0 < c_writes_left (sample_conn [])" by (simp add: sample_conn_def)
  then have "c' = sample_conn []" using sendAck_delivers [OF r] by (simp only: zero_checksum_ack) simp
  moreover have "w' = snd (snd ?r)" and "f' = fst (snd ?r)" using r by simp_all
  then have "w' = tick sample_server" and "f' = \<lparr>fct_current = 2\<rparr>" by (simp_all only: sendAck_world) simp
  ultimately show ?thesis using r by simp
qed

end
