(* ===== verification/ServerSystem.thy ===== *)
theory ServerSystem
  imports ServerProps
begin

text \<open>
  Many connections at once. \<^verbatim>\<open>ReceiveLoop\<close> starts a goroutine per accepted connection; they share the
  state \<open>server\<close>. A step of the system is one of the steps of \<^verbatim>\<open>HandleConnection\<close>: the handshake, one
  message of the loop, or the end of the loop with the deferred cleanup. Each step runs without
  interference here; in the code the shared structures are guarded by mutexes one call at a time,
  so a step can also be interrupted between two calls.
\<close>

section \<open>The step relation\<close>

datatype phase = Handshaking string | Serving string | Closed

type_synonym connections = "nat \<rightharpoonup> phase \<times> conn \<times> MsgFactory"

inductive sys_step :: "env \<Rightarrow> ('s, 'c, 'p) server_ops \<Rightarrow> ClientDef list
    \<Rightarrow> connections \<times> ('s, 'c, 'p, 'k) server \<Rightarrow> connections \<times> ('s, 'c, 'p, 'k) server \<Rightarrow> bool"
  for env ops clients where
  Accept: "cs i = None \<Longrightarrow>
    sys_step env ops clients (cs, w) (cs(i \<mapsto> (Handshaking remoteAddr, c, NewMsgFactory)), w)"
| Reject: "cs i = Some (Handshaking remoteAddr, c, f) \<Longrightarrow>
    authenticateClient env clients (c, f, w) = (Fail e, c', f', w') \<Longrightarrow>
    sys_step env ops clients (cs, w) (cs(i \<mapsto> (Closed, c', f')), w')"
| Admit: "cs i = Some (Handshaking remoteAddr, c, f) \<Longrightarrow>
    authenticateClient env clients (c, f, w) = (Ret hs, c', f', w') \<Longrightarrow>
    sys_step env ops clients (cs, w)
      (cs(i \<mapsto> (Serving (hs_Sn hs), c', f')), registerConnection env ops w' (hs_Sn hs) remoteAddr)"
| Message: "cs i = Some (Serving sn, c, f) \<Longrightarrow> DecodeFrame c = Ret (m, c1) \<Longrightarrow>
    handleMessage env ops m sn (c1, f, w) = Ret (c2, f2, w2) \<Longrightarrow>
    sys_step env ops clients (cs, w) (cs(i \<mapsto> (Serving sn, c2, f2)), w2)"
| Finish: "cs i = Some (Serving sn, c, f) \<Longrightarrow> DecodeFrame c = Fail e \<Longrightarrow>
    sys_step env ops clients (cs, w) (cs(i \<mapsto> (Closed, c, f)), cleanup ops w sn)"

inductive_cases sys_stepE: "sys_step env ops clients (cs, w) (cs', w')"

text \<open>One connection alone, run by steps to its end, is \<^verbatim>\<open>HandleConnection\<close>.\<close>

lemma serve_loop_steps:
  assumes "serve_loop env ops sn (c, f, w) = Ret (c', f', w')" and "cs i = Some (Serving sn, c, f)"
  shows "(sys_step env ops clients)\<^sup>*\<^sup>* (cs, w) (cs(i \<mapsto> (Closed, c', f')), cleanup ops w' sn)"
  using assms
proof (induction "length (c_in c)" arbitrary: c f w cs rule: less_induct)
  case less
  show ?case
  proof (cases "DecodeFrame c")
    case (Ret r)
    obtain m c1 where r: "r = (m, c1)" by fastforce
    obtain c2 f2 w2 where h: "handleMessage env ops m sn (c1, f, w) = Ret (c2, f2, w2)"
      using handleMessage_Ret by blast
    have step: "sys_step env ops clients (cs, w) (cs(i \<mapsto> (Serving sn, c2, f2)), w2)"
      by (rule Message [where cs = cs and i = i and c = c and f = f and m = m and ?c1.0 = c1])
         (use less.prems(2) Ret r h in simp_all)
    have shorter: "length (c_in c2) < length (c_in c)"
      using DecodeFrame_shorter [of c m c1] handleMessage_in [OF h] Ret r by simp
    have "serve_loop env ops sn (c2, f2, w2) = Ret (c', f', w')"
      using less.prems(1) serve_loop_step [of c m c1, OF _ h] Ret r by simp
    from less.hyps [OF shorter this, of "cs(i \<mapsto> (Serving sn, c2, f2))"]
    have "(sys_step env ops clients)\<^sup>*\<^sup>* (cs(i \<mapsto> (Serving sn, c2, f2)), w2) (cs(i \<mapsto> (Closed, c', f')), cleanup ops w' sn)"
      by simp
    with step show ?thesis by (rule converse_rtranclp_into_rtranclp)
  next
    case (Fail e)
    then have "c' = c" "f' = f" "w' = w"
      using less.prems(1) by (subst (asm) serve_loop.simps, simp)+
    moreover have "sys_step env ops clients (cs, w) (cs(i \<mapsto> (Closed, c, f)), cleanup ops w sn)"
      by (rule Finish [where cs = cs and i = i and c = c and f = f and e = e]) (use less.prems(2) Fail in simp_all)
    ultimately show ?thesis by blast
  qed (simp add: DecodeFrame_no_panic)
qed

section \<open>Invariants\<close>

definition serving :: "connections \<Rightarrow> string \<Rightarrow> bool" where
  "serving cs sn \<longleftrightarrow> (\<exists>i c f. cs i = Some (Serving sn, c, f))"

definition exclusive :: "connections \<Rightarrow> bool" where
  "exclusive cs \<longleftrightarrow> (\<forall>i j sn c f c' f'. cs i = Some (Serving sn, c, f) \<longrightarrow> cs j = Some (Serving sn, c', f') \<longrightarrow> i = j)"

definition sys_start :: "('s, 'c, 'p, 'k) server \<Rightarrow> bool" where
  "sys_start w \<longleftrightarrow> sv_uploadDedup w = uploadDedup"

definition sys_inv :: "ClientDef list \<Rightarrow> connections \<times> ('s, 'c, 'p, 'k) server \<Rightarrow> bool" where
  "sys_inv clients s \<longleftrightarrow>
     dedup_inv (sv_uploadDedup (snd s)) \<and> dc_capacity (sv_uploadDedup (snd s)) = dedupCacheSize
     \<and> (\<forall>sn. serving (fst s) sn \<longrightarrow> (\<exists>cl \<in> set clients. cd_Sn cl = sn))"

lemma admits_client: "admits clients m hs \<Longrightarrow> \<exists>cl \<in> set clients. cd_Sn cl = hs_Sn hs"
  by (auto simp: admits_def find_client_def find_Some_iff)

lemma serving_upd: "serving (cs(i \<mapsto> (p, c, f))) sn \<Longrightarrow> p = Serving sn \<or> serving cs sn"
  by (auto simp: serving_def split: if_splits)

lemma handleMessage_dedup:
  assumes "handleMessage env ops m sn (c, f, w) = Ret (c', f', w')"
  shows "sv_uploadDedup w' = sv_uploadDedup w
    \<or> sv_uploadDedup w' = dedup.offer (sv_uploadDedup w) (upload_key sn (m_Payload m))"
  using assms handleUpload_dedup(1) [of env ops m sn c f w c' f' w']
  by (auto simp: handleMessage_def handleHeartbeat_def split_beta Let_def sendAck_eq split: if_splits)

lemma authenticateClient_dedup:
  "authenticateClient env clients (c, f, w) = (r, c', f', w') \<Longrightarrow> \<exists>n. w' = w\<lparr>sv_ticks := n\<rparr>"
  using authenticateClient_world [of env clients c f w] by simp

lemma sys_inv_step:
  assumes "sys_step env ops clients s s'" and "sys_inv clients s"
  shows "sys_inv clients s'"
  using assms
proof (induction rule: sys_step.induct)
  case (Accept cs i w remoteAddr c)
  then show ?case by (auto simp: sys_inv_def dest: serving_upd)
next
  case (Reject cs i remoteAddr c f w e c' f' w')
  then show ?case using authenticateClient_dedup [OF Reject(2)] by (auto simp: sys_inv_def dest: serving_upd)
next
  case (Admit cs i remoteAddr c f w hs c' f' w')
  have "fst (authenticateClient env clients (c, f, w)) = Ret hs" using Admit(2) by simp
  then have "\<exists>cl \<in> set clients. cd_Sn cl = hs_Sn hs" using authenticateClient_Ret admits_client by blast
  then show ?case using Admit authenticateClient_dedup [OF Admit(2)]
    by (auto simp: sys_inv_def registerConnection_def Let_def dest!: serving_upd)
next
  case (Message cs i sn c f m c1 w c2 f2 w2)
  have "serving cs sn" using Message(1) by (auto simp: serving_def)
  moreover have "dedup_inv (sv_uploadDedup w2) \<and> dc_capacity (sv_uploadDedup w2) = dedupCacheSize"
    using handleMessage_dedup [OF Message(3)] Message(4) dedup.offer_inv [where cap = dedupCacheSize and f = "sv_uploadDedup w"]
    by (auto simp: sys_inv_def)
  ultimately show ?case using Message(4) by (auto simp: sys_inv_def dest!: serving_upd)
next
  case (Finish cs i sn c f e w)
  then show ?case by (auto simp: sys_inv_def cleanup_def dest: serving_upd)
qed

lemma sys_inv_reachable:
  assumes "(sys_step env ops clients)\<^sup>*\<^sup>* (Map.empty, w0) s" and "sys_start w0"
  shows "sys_inv clients s"
  using assms(1)
proof (induction rule: rtranclp_induct)
  case base
  show ?case using assms(2)
    by (simp add: sys_inv_def sys_start_def uploadDedup_def dedup_inv_new serving_def)
       (simp add: newDedupCache_def)
qed (rule sys_inv_step)

section \<open>Who is registered\<close>

text \<open>With the in-memory registry: the registered gateways against the connections that are served.\<close>

definition registered :: "('s, memory, 'p, 'k) server \<Rightarrow> string \<Rightarrow> bool" where
  "registered w sn \<longleftrightarrow> map_of (sv_conns w) sn \<noteq> None"

lemma handleMessage_registered:
  assumes "op_conns ops = memory_manager order" and "handleMessage env ops m sn (c, f, w) = Ret (c', f', w')"
  shows "registered w' = registered w"
  using assms handleUpload_dedup(2) [of env ops m sn c f w c' f' w']
  by (auto simp: registered_def fun_eq_iff handleMessage_def handleHeartbeat_def memory_manager_def
      mem_heartbeat_view split_beta Let_def sendAck_eq split: if_splits)

lemma registered_simps [simp]:
  "op_conns ops = memory_manager order \<Longrightarrow> registered (cleanup ops w sn) = (registered w)(sn := False)"
  "op_conns ops = memory_manager order \<Longrightarrow> registered (registerConnection env ops w sn a) = (registered w)(sn := True)"
  "registered (w\<lparr>sv_ticks := n\<rparr>) = registered w"
  by (auto simp: registered_def fun_eq_iff cleanup_def registerConnection_def memory_manager_def Let_def
      mem_RemoveConnection_def mem_RegisterConnection_def delete_conv' update_conv')

definition phase_of :: "connections \<Rightarrow> nat \<Rightarrow> phase option" where
  "phase_of cs i = map_option fst (cs i)"

lemma serving_phase: "serving cs sn \<longleftrightarrow> (\<exists>i. phase_of cs i = Some (Serving sn))"
  by (auto simp: serving_def phase_of_def)

lemma phase_of_upd: "phase_of (cs(i \<mapsto> (p, c, f))) = (phase_of cs)(i \<mapsto> p)"
  by (auto simp: phase_of_def fun_eq_iff)

lemma serving_upd_iff:
  assumes "\<And>sn. phase_of cs i \<noteq> Some (Serving sn)"
  shows "serving (cs(i \<mapsto> (p, c, f))) sn \<longleftrightarrow> p = Serving sn \<or> serving cs sn"
  using assms unfolding serving_phase phase_of_upd fun_upd_apply by (metis option.inject)

lemma serving_same:
  assumes "phase_of cs i = Some (Serving sn0)"
  shows "serving (cs(i \<mapsto> (Serving sn0, c, f))) sn \<longleftrightarrow> serving cs sn"
proof -
  have "(phase_of cs)(i \<mapsto> Serving sn0) = phase_of cs" using assms by (simp add: fun_upd_idem)
  then show ?thesis by (simp only: serving_phase phase_of_upd)
qed

lemma exclusive_phase:
  "exclusive cs \<longleftrightarrow> (\<forall>i j sn. phase_of cs i = Some (Serving sn) \<longrightarrow> phase_of cs j = Some (Serving sn) \<longrightarrow> i = j)"
  by (auto simp: exclusive_def phase_of_def)

lemma serving_finish:
  assumes "exclusive cs" and "phase_of cs i = Some (Serving sn0)"
  shows "serving (cs(i \<mapsto> (Closed, c, f))) sn \<longleftrightarrow> serving cs sn \<and> sn \<noteq> sn0"
  using assms unfolding exclusive_phase serving_phase phase_of_upd fun_upd_apply
  by (metis option.inject phase.distinct(5) phase.inject(2))

lemma registered_step:
  assumes "op_conns ops = memory_manager order" and "sys_step env ops clients s s'"
    and "exclusive (fst s)" and "\<forall>sn. registered (snd s) sn \<longleftrightarrow> serving (fst s) sn"
  shows "\<forall>sn. registered (snd s') sn \<longleftrightarrow> serving (fst s') sn"
  using assms(2-4)
proof (induction rule: sys_step.induct)
  case (Accept cs i w remoteAddr c)
  then have "phase_of cs i \<noteq> Some (Serving sn)" for sn by (simp add: phase_of_def)
  from serving_upd_iff [OF this] Accept show ?case by (simp del: fun_upd_apply)
next
  case (Reject cs i remoteAddr c f w e c' f' w')
  then have "phase_of cs i \<noteq> Some (Serving sn)" for sn by (simp add: phase_of_def)
  from serving_upd_iff [OF this] authenticateClient_dedup [OF Reject(2)] Reject show ?case
    by (auto simp del: fun_upd_apply)
next
  case (Admit cs i remoteAddr c f w hs c' f' w')
  then have "phase_of cs i \<noteq> Some (Serving sn)" for sn by (simp add: phase_of_def)
  from serving_upd_iff [OF this] authenticateClient_dedup [OF Admit(2)] Admit assms(1) show ?case
    by (auto simp: fun_upd_apply [of "registered _"] simp del: fun_upd_apply)
next
  case (Message cs i sn c f m c1 w c2 f2 w2)
  then have "phase_of cs i = Some (Serving sn)" by (simp add: phase_of_def)
  from serving_same [OF this] handleMessage_registered [OF assms(1) Message(3)] Message show ?case
    by (simp del: fun_upd_apply)
next
  case (Finish cs i sn c f e w)
  then have "phase_of cs i = Some (Serving sn)" by (simp add: phase_of_def)
  from serving_finish [OF _ this] Finish assms(1) show ?case
    by (simp add: fun_upd_apply [of "registered _"] del: fun_upd_apply)
qed

section \<open>A gateway that connects twice\<close>

lemma authenticate_hello:
  "\<exists>b. \<forall>env (w :: ('s, 'c, 'p, 'k) server). \<exists>c' f' n.
      authenticateClient env sample_clients (sample_conn b, NewMsgFactory, w) = (Ret hello, c', f', w\<lparr>sv_ticks := n\<rparr>)
      \<and> c_in c' = []"
proof -
  obtain m f where "NewMsg NewMsgFactory 0 MsgTypeHandshake (PHandshake hello) = Ret (m, f)"
    and dec: "\<And>c rest. c_in c = fst (Msg_Encode m) @ rest \<Longrightarrow> DecodeFrame c = Ret (snd (Msg_Encode m), c\<lparr>c_in := rest\<rparr>)"
    and adm: "admits sample_clients (snd (Msg_Encode m)) hello"
    using hello_frame [of 0] by metis
  have d: "DecodeFrame (sample_conn (fst (Msg_Encode m))) = Ret (snd (Msg_Encode m), sample_conn [])"
    using dec [of "sample_conn (fst (Msg_Encode m))" "[]"] by simp
  show ?thesis
  proof (intro exI [of _ "fst (Msg_Encode m)"] allI)
    fix env and w :: "('s, 'c, 'p, 'k) server"
    let ?a = "authenticateClient env sample_clients (sample_conn (fst (Msg_Encode m)), NewMsgFactory, w)"
    obtain r c' f' w' where a: "?a = (r, c', f', w')" by (metis prod_cases4)
    have "r = Ret hello" using authenticateClient_Ret d adm a by (metis fst_conv)
    moreover obtain n where "w' = w\<lparr>sv_ticks := n\<rparr>" using authenticateClient_dedup [OF a] by blast
    moreover have "c_in c' = []"
      using authenticateClient_answer [OF d, of env sample_clients NewMsgFactory w] a
        sendAck_fst_in [of env "sample_conn []" NewMsgFactory w] by (metis fst_conv sample_conn_simps(1) sendHandshakeResponse_def snd_conv)
    ultimately show "\<exists>c' f' n. ?a = (Ret hello, c', f', w\<lparr>sv_ticks := n\<rparr>) \<and> c_in c' = []" using a by blast
  qed
qed

lemma hs_Sn_hello: "hs_Sn hello = ''gw1''"
  by (simp add: hello_def)

lemma hello_run:
  fixes w0 :: "('s, memory, 'p, 'k) server"
  obtains c1 f1 w1 c2 f2 w2 b e where
    "sys_step env ops sample_clients (Map.empty, w0) ([1 \<mapsto> (Handshaking a, sample_conn b, NewMsgFactory)], w0)"
    "sys_step env ops sample_clients ([1 \<mapsto> (Handshaking a, sample_conn b, NewMsgFactory)], w0) ([1 \<mapsto> (Serving ''gw1'', c1, f1)], w1)"
    "sys_step env ops sample_clients ([1 \<mapsto> (Serving ''gw1'', c1, f1)], w1)
       ([1 \<mapsto> (Serving ''gw1'', c1, f1), 2 \<mapsto> (Handshaking a, sample_conn b, NewMsgFactory)], w1)"
    "authenticateClient env sample_clients (sample_conn b, NewMsgFactory, w1) = (Ret hello, c2, f2, w2)"
    "DecodeFrame c1 = Fail e"
proof -
  obtain b where b: "\<forall>env (w :: ('s, memory, 'p, 'k) server). \<exists>c' f' n.
      authenticateClient env sample_clients (sample_conn b, NewMsgFactory, w) = (Ret hello, c', f', w\<lparr>sv_ticks := n\<rparr>)
      \<and> c_in c' = []" using authenticate_hello by metis
  let ?new = "(Handshaking a, sample_conn b, NewMsgFactory)"
  obtain c1 f1 n1 where a1: "authenticateClient env sample_clients (sample_conn b, NewMsgFactory, w0) = (Ret hello, c1, f1, w0\<lparr>sv_ticks := n1\<rparr>)"
    and e1: "c_in c1 = []" using b by blast
  let ?w1 = "registerConnection env ops (w0\<lparr>sv_ticks := n1\<rparr>) ''gw1'' a"
  obtain c2 f2 n2 where a2: "authenticateClient env sample_clients (sample_conn b, NewMsgFactory, ?w1) = (Ret hello, c2, f2, ?w1\<lparr>sv_ticks := n2\<rparr>)"
    using b by blast
  obtain e where e: "DecodeFrame c1 = Fail e" using DecodeFrame_short_header [of c1] e1 by auto
  show ?thesis
  proof (rule that [OF _ _ _ a2 e])
    show "sys_step env ops sample_clients (Map.empty, w0) ([1 \<mapsto> ?new], w0)"
      by (rule Accept [where cs = Map.empty and i = 1]) simp
    show "sys_step env ops sample_clients ([1 \<mapsto> ?new], w0) ([1 \<mapsto> (Serving ''gw1'', c1, f1)], ?w1)"
      using Admit [where cs = "[1 \<mapsto> ?new]" and i = 1, OF _ a1, of a ops] by (simp add: hs_Sn_hello)
    show "sys_step env ops sample_clients ([1 \<mapsto> (Serving ''gw1'', c1, f1)], ?w1)
       ([1 \<mapsto> (Serving ''gw1'', c1, f1), 2 \<mapsto> ?new], ?w1)"
      by (rule Accept [where cs = "[1 \<mapsto> (Serving ''gw1'', c1, f1)]" and i = 2]) simp
  qed
qed

text \<open>
  A run in which the same connections serve a gateway all the time, and whatever else happens: none of
  them ends and no further one is admitted.
\<close>

definition same_service :: "string \<Rightarrow> connections \<times> 'w \<Rightarrow> connections \<times> 'w \<Rightarrow> bool" where
  "same_service sn s s' \<longleftrightarrow> (\<forall>i. phase_of (fst s) i = Some (Serving sn) \<longleftrightarrow> phase_of (fst s') i = Some (Serving sn))"

definition steady_run :: "env \<Rightarrow> ('s, 'c, 'p) server_ops \<Rightarrow> ClientDef list \<Rightarrow> string
    \<Rightarrow> connections \<times> ('s, 'c, 'p, 'k) server \<Rightarrow> connections \<times> ('s, 'c, 'p, 'k) server \<Rightarrow> bool" where
  "steady_run env ops clients sn = (\<lambda>s s'. sys_step env ops clients s s' \<and> same_service sn s s')\<^sup>*\<^sup>*"

lemma same_serviceD: "same_service sn s s' \<Longrightarrow> phase_of (fst s) k = Some (Serving sn) \<Longrightarrow> phase_of (fst s') k = Some (Serving sn)"
  by (simp add: same_service_def)

lemma registered_same:
  assumes "op_conns ops = memory_manager order" and "sys_step env ops clients s s'" and "same_service sn s s'"
  shows "registered (snd s') sn = registered (snd s) sn"
  using assms(2,3)
proof (induction rule: sys_step.induct)
  case (Reject cs i remoteAddr c f w e c' f' w')
  then show ?case using authenticateClient_dedup [OF Reject(2)] by auto
next
  case (Admit cs i remoteAddr c f w hs c' f' w')
  then have "phase_of cs i \<noteq> Some (Serving sn)" by (simp add: phase_of_def)
  then have "hs_Sn hs \<noteq> sn" using Admit(3) by (auto simp: same_service_def phase_of_upd split: if_splits)
  then show ?case using authenticateClient_dedup [OF Admit(2)] by (auto simp: registered_simps(2) [OF assms(1)])
next
  case (Message cs i sn' c f m c1 w c2 f2 w2)
  then show ?case using handleMessage_registered [OF assms(1) Message(3)] by simp
next
  case (Finish cs i sn' c f e w)
  then have "phase_of cs i = Some (Serving sn')" by (simp add: phase_of_def)
  then have "sn' \<noteq> sn" using Finish(3) by (auto simp: same_service_def phase_of_upd split: if_splits)
  then show ?case by (simp add: registered_simps(1) [OF assms(1)])
qed simp

lemma steady_run_same:
  assumes "op_conns ops = memory_manager order" and "steady_run env ops clients sn s s'"
  shows "same_service sn s s' \<and> registered (snd s') sn = registered (snd s) sn"
  using assms(2) unfolding steady_run_def
proof (induction rule: rtranclp_induct)
  case (step s1 s2)
  then have "registered (snd s2) sn = registered (snd s1) sn" using registered_same [OF assms(1)] by blast
  with step show ?case by (simp add: same_service_def)
qed (simp add: same_service_def)

section \<open>Properties\<close>

text \<open>
  C17. What holds in every state the server can reach, whatever its connections do and however their
  steps interleave: the upload filter is well formed and holds at most 200 keys, and whoever is
  served is a configured client.
\<close>

theorem reachable_states_safe:
  assumes "(sys_step env ops clients)\<^sup>*\<^sup>* (Map.empty, w0) (cs, w)" and "sv_uploadDedup w0 = uploadDedup"
  shows "dedup_inv (sv_uploadDedup w) \<and> length (dedup_keys (sv_uploadDedup w)) \<le> 200
     \<and> (\<forall>i sn c f. cs i = Some (Serving sn, c, f) \<longrightarrow> (\<exists>cl \<in> set clients. cd_Sn cl = sn))"
proof -
  have inv: "sys_inv clients (cs, w)" using sys_inv_reachable [OF assms(1)] assms(2) by (simp add: sys_start_def)
  then have "length (dedup_keys (sv_uploadDedup w)) \<le> 200"
    by (simp add: sys_inv_def dedup_inv_def dedup_keys_def dedupCacheSize_def)
  then show ?thesis using inv unfolding sys_inv_def serving_def fst_conv snd_conv by blast
qed

text \<open>
  C8. As long as no gateway has two connections served at once, the registry holds exactly the
  gateways that are being served: in every state reached through such states, a serial number is
  registered if and only if some connection serves it.
\<close>

theorem registry_tracks_served_gateways:
  assumes "(\<lambda>s s'. sys_step env ops clients s s' \<and> exclusive (fst s))\<^sup>*\<^sup>* (Map.empty, w0) (cs, w)"
    and "op_conns ops = memory_manager order" and "sv_conns w0 = NewMemoryConnectionManager"
  shows "map_of (sv_conns w) sn \<noteq> None \<longleftrightarrow> (\<exists>i c f. cs i = Some (Serving sn, c, f))"
proof -
  have "\<forall>sn. registered (snd (cs, w)) sn \<longleftrightarrow> serving (fst (cs, w)) sn"
    using assms(1)
  proof (induction rule: rtranclp_induct)
    case base
    show ?case using assms(3) by (simp add: registered_def serving_def NewMemoryConnectionManager_def)
  next
    case (step s s')
    then show ?case using registered_step [OF assms(2)] by blast
  qed
  then show ?thesis by (simp add: registered_def serving_def)
qed

theorem reachable_states_safe_witness:
  "\<exists>cs w. (sys_step (sample_env 0) sample_ops sample_clients)\<^sup>*\<^sup>* (Map.empty, sample_server) (cs, w)
     \<and> length (dedup_keys (sv_uploadDedup w)) \<le> 200
     \<and> (\<exists>i sn c f. cs i = Some (Serving sn, c, f) \<and> (\<exists>cl \<in> set sample_clients. cd_Sn cl = sn))"
proof -
  obtain c1 f1 w1 b where s: "sys_step (sample_env 0) sample_ops sample_clients (Map.empty, sample_server)
      ([1 \<mapsto> (Handshaking [], sample_conn b, NewMsgFactory)], sample_server)"
    "sys_step (sample_env 0) sample_ops sample_clients ([1 \<mapsto> (Handshaking [], sample_conn b, NewMsgFactory)], sample_server)
      ([1 \<mapsto> (Serving ''gw1'', c1, f1)], w1)"
    by (rule hello_run [of "sample_env 0" sample_ops sample_server "[]"]) blast
  let ?cs = "[1 \<mapsto> (Serving ''gw1'', c1, f1)] :: connections"
  have run: "(sys_step (sample_env 0) sample_ops sample_clients)\<^sup>*\<^sup>* (Map.empty, sample_server) (?cs, w1)"
    using s by (meson r_into_rtranclp rtranclp.rtrancl_into_rtrancl)
  have "sv_uploadDedup sample_server = uploadDedup" by (simp add: sample_server_def)
  from reachable_states_safe [OF run this]
  have "length (dedup_keys (sv_uploadDedup w1)) \<le> 200"
    and all: "\<forall>i sn c f. ?cs i = Some (Serving sn, c, f) \<longrightarrow> (\<exists>cl \<in> set sample_clients. cd_Sn cl = sn)"
    by blast+
  moreover have one: "?cs 1 = Some (Serving ''gw1'', c1, f1)" by simp
  moreover from one have "\<exists>cl \<in> set sample_clients. cd_Sn cl = ''gw1''" using all by blast
  ultimately show ?thesis using run by blast
qed

theorem registry_tracks_served_gateways_witness:
  "\<exists>cs w. (\<lambda>s s'. sys_step (sample_env 0) sample_ops sample_clients s s' \<and> exclusive (fst s))\<^sup>*\<^sup>* (Map.empty, sample_server) (cs, w)
     \<and> map_of (sv_conns w) ''gw1'' \<noteq> None"
proof -
  let ?R = "\<lambda>s s'. sys_step (sample_env 0) sample_ops sample_clients s s' \<and> exclusive (fst s)"
  obtain c1 f1 w1 b where s: "sys_step (sample_env 0) sample_ops sample_clients (Map.empty, sample_server)
      ([1 \<mapsto> (Handshaking [], sample_conn b, NewMsgFactory)], sample_server)"
    "sys_step (sample_env 0) sample_ops sample_clients ([1 \<mapsto> (Handshaking [], sample_conn b, NewMsgFactory)], sample_server)
      ([1 \<mapsto> (Serving ''gw1'', c1, f1)], w1)"
    by (rule hello_run [of "sample_env 0" sample_ops sample_server "[]"]) blast
  have "exclusive Map.empty" "exclusive [1 \<mapsto> (Handshaking [], sample_conn b, NewMsgFactory)]"
    by (auto simp: exclusive_def)
  with s have "?R (Map.empty, sample_server) ([1 \<mapsto> (Handshaking [], sample_conn b, NewMsgFactory)], sample_server)"
    and "?R ([1 \<mapsto> (Handshaking [], sample_conn b, NewMsgFactory)], sample_server) ([1 \<mapsto> (Serving ''gw1'', c1, f1)], w1)"
    by simp_all
  then have run: "?R\<^sup>*\<^sup>* (Map.empty, sample_server) ([1 \<mapsto> (Serving ''gw1'', c1, f1)], w1)"
    by (rule rtranclp.rtrancl_into_rtrancl [where r = ?R, OF r_into_rtranclp [where r = ?R]])
  have "op_conns sample_ops = memory_manager id" and "sv_conns sample_server = NewMemoryConnectionManager"
    by (simp_all add: sample_ops_def sample_server_def)
  from registry_tracks_served_gateways [OF run this, of "''gw1''"] run show ?thesis by auto
qed

text \<open>
  C15. Without that restriction the registry loses live gateways. Take any state in which a connection \<open>i\<close> serves a
  gateway, and a second connection \<open>j\<close> whose handshake for the same gateway is accepted. Then the gateway is
  registered under the address of \<open>j\<close>, and stays registered while other connections come, go and send. But once the stream
  of \<open>i\<close> has ended, the step that ends \<open>i\<close> removes the entry although \<open>j\<close> is still served; and whatever the
  connections send after that, heartbeats included, \<open>j\<close> is served and its gateway not registered, until \<open>j\<close> (or yet another
  connection of this gateway) ends or the gateway is admitted once more.
\<close>

theorem reconnect_unregisters_live_gateway:
  assumes "op_conns ops = memory_manager order"
    and "cs i = Some (Serving sn, c, f)" and "cs j = Some (Handshaking addr, d, g)"
    and "authenticateClient env clients (d, g, w) = (Ret hs, d', g', w')" and "hs_Sn hs = sn"
  shows "\<exists>s. sys_step env ops clients (cs, w) s \<and> fst s = cs(j \<mapsto> (Serving sn, d', g'))
     \<and> (\<exists>conn. map_of (sv_conns (snd s)) sn = Some conn \<and> cn_ClientIP conn = addr)
     \<and> (\<forall>cs1 w1 c1 f1 e. steady_run env ops clients sn s (cs1, w1) \<longrightarrow> cs1 i = Some (Serving sn, c1, f1)
          \<longrightarrow> DecodeFrame c1 = Fail e \<longrightarrow>
            map_of (sv_conns w1) sn \<noteq> None
          \<and> (\<exists>s1. sys_step env ops clients (cs1, w1) s1 \<and> fst s1 = cs1(i \<mapsto> (Closed, c1, f1))
               \<and> (\<forall>cs2 w2. steady_run env ops clients sn s1 (cs2, w2) \<longrightarrow>
                    (\<exists>d2 g2. cs2 j = Some (Serving sn, d2, g2)) \<and> map_of (sv_conns w2) sn = None)))"
proof -
  let ?s = "(cs(j \<mapsto> (Serving sn, d', g')), registerConnection env ops w' sn addr)"
  have conn: "\<exists>conn. map_of (sv_conns (snd ?s)) sn = Some conn \<and> cn_ClientIP conn = addr"
    using assms(1) by (simp add: registerConnection_def memory_manager_def mem_RegisterConnection_def Let_def update_conv')
  have ne: "j \<noteq> i" using assms(2,3) by auto
  have "map_of (sv_conns w1) sn \<noteq> None
      \<and> (\<exists>s1. sys_step env ops clients (cs1, w1) s1 \<and> fst s1 = cs1(i \<mapsto> (Closed, c1, f1))
           \<and> (\<forall>cs2 w2. steady_run env ops clients sn s1 (cs2, w2) \<longrightarrow>
                (\<exists>d2 g2. cs2 j = Some (Serving sn, d2, g2)) \<and> map_of (sv_conns w2) sn = None))"
    if run: "steady_run env ops clients sn ?s (cs1, w1)" and c1: "cs1 i = Some (Serving sn, c1, f1)" "DecodeFrame c1 = Fail e"
    for cs1 w1 c1 f1 e
  proof (intro conjI exI [of _ "(cs1(i \<mapsto> (Closed, c1, f1)), cleanup ops w1 sn)"] allI impI)
    note same = steady_run_same [OF assms(1) run]
    show "map_of (sv_conns w1) sn \<noteq> None" using same conn by (auto simp: registered_def)
    show "sys_step env ops clients (cs1, w1) (cs1(i \<mapsto> (Closed, c1, f1)), cleanup ops w1 sn)"
      by (rule Finish [where cs = cs1 and i = i and w = w1, OF c1])
    fix cs2 w2
    assume "steady_run env ops clients sn (cs1(i \<mapsto> (Closed, c1, f1)), cleanup ops w1 sn) (cs2, w2)"
    note same2 = steady_run_same [OF assms(1) this]
    have "\<not> registered (cleanup ops w1 sn) sn" by (simp add: registered_simps(1) [OF assms(1)])
    then show "map_of (sv_conns w2) sn = None" using same2 by (simp add: registered_def)
    have "phase_of cs1 j = Some (Serving sn)" using same_serviceD [OF conjunct1 [OF same], of j] by (simp add: phase_of_upd)
    then have "phase_of cs2 j = Some (Serving sn)" using same_serviceD [OF conjunct1 [OF same2], of j] ne by (simp add: phase_of_upd)
    then show "\<exists>d2 g2. cs2 j = Some (Serving sn, d2, g2)" by (auto simp: phase_of_def)
  qed simp
  moreover have "sys_step env ops clients (cs, w) ?s" using Admit [where cs = cs, OF assms(3,4), of ops] assms(5) by simp
  ultimately show ?thesis using conn by (intro exI [of _ ?s]) simp
qed
theorem reconnect_unregisters_live_gateway_witness:
  "\<exists>cs w d g. (sys_step (sample_env 0) sample_ops sample_clients)\<^sup>*\<^sup>* (Map.empty, sample_server) (cs, w)
     \<and> cs 2 = Some (Serving ''gw1'', d, g) \<and> map_of (sv_conns w) ''gw1'' = None"
proof -
  let ?step = "sys_step (sample_env 0) sample_ops sample_clients"
  let ?steady = "steady_run (sample_env 0) sample_ops sample_clients ''gw1''"
  obtain c1 f1 w1 c2 f2 w2 b e where s: "?step (Map.empty, sample_server) ([1 \<mapsto> (Handshaking [], sample_conn b, NewMsgFactory)], sample_server)"
    "?step ([1 \<mapsto> (Handshaking [], sample_conn b, NewMsgFactory)], sample_server) ([1 \<mapsto> (Serving ''gw1'', c1, f1)], w1)"
    "?step ([1 \<mapsto> (Serving ''gw1'', c1, f1)], w1) ([1 \<mapsto> (Serving ''gw1'', c1, f1), 2 \<mapsto> (Handshaking [], sample_conn b, NewMsgFactory)], w1)"
    and a: "authenticateClient (sample_env 0) sample_clients (sample_conn b, NewMsgFactory, w1) = (Ret hello, c2, f2, w2)"
    and e: "DecodeFrame c1 = Fail e"
    by (rule hello_run [of "sample_env 0" sample_ops sample_server "[]"])
  let ?cs = "[1 \<mapsto> (Serving ''gw1'', c1, f1), 2 \<mapsto> (Handshaking [], sample_conn b, NewMsgFactory)] :: connections"
  have "op_conns sample_ops = memory_manager id" "?cs 1 = Some (Serving ''gw1'', c1, f1)"
    "?cs 2 = Some (Handshaking [], sample_conn b, NewMsgFactory)" by (simp_all add: sample_ops_def)
  from reconnect_unregisters_live_gateway [OF this a hs_Sn_hello] obtain s1 where s1: "?step (?cs, w1) s1"
    "fst s1 = ?cs(2 \<mapsto> (Serving ''gw1'', c2, f2))"
    and lost: "\<forall>cs1 w1 c1 f1 e. ?steady s1 (cs1, w1) \<longrightarrow> cs1 1 = Some (Serving ''gw1'', c1, f1) \<longrightarrow> DecodeFrame c1 = Fail e \<longrightarrow>
          map_of (sv_conns w1) ''gw1'' \<noteq> None
        \<and> (\<exists>s2. ?step (cs1, w1) s2 \<and> fst s2 = cs1(1 \<mapsto> (Closed, c1, f1))
            \<and> (\<forall>cs2 w2. ?steady s2 (cs2, w2) \<longrightarrow>
                 (\<exists>d2 g2. cs2 2 = Some (Serving ''gw1'', d2, g2)) \<and> map_of (sv_conns w2) ''gw1'' = None))"
    by (elim exE conjE) (rule that)
  have stay: "?steady s1 (fst s1, snd s1)" by (simp add: steady_run_def)
  have one: "fst s1 1 = Some (Serving ''gw1'', c1, f1)" using s1(2) by simp
  from lost [THEN spec, THEN spec, THEN spec, THEN spec, THEN spec, THEN mp, THEN mp, THEN mp, OF stay one e, THEN conjunct2]
  obtain s2 where s2: "?step (fst s1, snd s1) s2" and end2: "\<forall>cs2 w2. ?steady s2 (cs2, w2) \<longrightarrow>
      (\<exists>d2 g2. cs2 2 = Some (Serving ''gw1'', d2, g2)) \<and> map_of (sv_conns w2) ''gw1'' = None" by (elim exE conjE) (rule that)
  have "?steady s2 (fst s2, snd s2)" by (simp add: steady_run_def)
  with end2 have "(\<exists>d g. fst s2 2 = Some (Serving ''gw1'', d, g)) \<and> map_of (sv_conns (snd s2)) ''gw1'' = None" by blast
  moreover note then_step = rtranclp.rtrancl_into_rtrancl [where r = ?step]
  have "?step\<^sup>*\<^sup>* (Map.empty, sample_server) (fst s2, snd s2)"
    unfolding prod.collapse
    by (rule then_step [OF then_step [OF then_step [OF then_step [OF r_into_rtranclp [where r = ?step, OF s(1)] s(2)] s(3)] s1(1)]
          s2 [unfolded prod.collapse]])
  ultimately show ?thesis by blast
qed

text \<open>
  C18. The step relation is the code: running \<^verbatim>\<open>HandleConnection\<close> on one connection is a sequence of
  steps of the system that takes that connection from its handshake to its end, with the same bytes
  written and the same shared state.
\<close>

theorem HandleConnection_is_a_run:
  assumes "HandleConnection env ops clients remoteAddr c w = Ret (c', w')"
  shows "\<exists>f'. (sys_step env ops clients)\<^sup>*\<^sup>* (cs(i \<mapsto> (Handshaking remoteAddr, c, NewMsgFactory)), w)
           (cs(i \<mapsto> (Closed, c', f')), w')"
proof -
  obtain r c2 f2 w2 where a: "authenticateClient env clients (c, NewMsgFactory, w) = (r, c2, f2, w2)"
    by (metis prod_cases4)
  let ?cs = "cs(i \<mapsto> (Handshaking remoteAddr, c, NewMsgFactory))"
  have i: "?cs i = Some (Handshaking remoteAddr, c, NewMsgFactory)" by simp
  show ?thesis
  proof (cases r)
    case (Ret hs)
    let ?w = "registerConnection env ops w2 (hs_Sn hs) remoteAddr"
    obtain f3 w3 where l: "serve_loop env ops (hs_Sn hs) (c2, f2, ?w) = Ret (c', f3, w3)" and w': "w' = cleanup ops w3 (hs_Sn hs)"
      using assms a Ret by (auto simp: HandleConnection_def Let_def go_bind_Ret_iff split: prod.splits)
    have "sys_step env ops clients (?cs, w) (?cs(i \<mapsto> (Serving (hs_Sn hs), c2, f2)), ?w)"
      by (rule Admit [where cs = ?cs and i = i and w = w, OF i]) (use a Ret in simp)
    moreover have "(sys_step env ops clients)\<^sup>*\<^sup>* (?cs(i \<mapsto> (Serving (hs_Sn hs), c2, f2)), ?w)
        ((?cs(i \<mapsto> (Serving (hs_Sn hs), c2, f2)))(i \<mapsto> (Closed, c', f3)), cleanup ops w3 (hs_Sn hs))"
      by (rule serve_loop_steps [OF l]) simp
    ultimately show ?thesis using w' by (auto intro: converse_rtranclp_into_rtranclp)
  next
    case (Fail e)
    have "sys_step env ops clients (?cs, w) (?cs(i \<mapsto> (Closed, c2, f2)), w2)"
      by (rule Reject [where cs = ?cs and i = i and w = w, OF i]) (use a Fail in simp)
    moreover have "c' = c2" "w' = w2" using assms a Fail by (simp_all add: HandleConnection_def)
    ultimately show ?thesis by (auto intro: r_into_rtranclp)
  next
    case Panic
    then show ?thesis using assms a by (simp add: HandleConnection_def)
  qed
qed

theorem HandleConnection_is_a_run_witness:
  "\<exists>b c' w' f'. (sys_step (sample_env 0) sample_ops sample_clients)\<^sup>*\<^sup>*
     (Map.empty(1 \<mapsto> (Handshaking ''addr'', sample_conn b, NewMsgFactory)), sample_server)
     (Map.empty(1 \<mapsto> (Closed, c', f')), w') \<and> dedup_keys (sv_uploadDedup w') \<noteq> []"
proof -
  obtain b c' w' where h: "HandleConnection (sample_env 0) sample_ops sample_clients ''addr'' (sample_conn b) sample_server = Ret (c', w')"
    and ne: "dedup_keys (sv_uploadDedup w') \<noteq> []"
    by (rule sample_connection)
  from HandleConnection_is_a_run [OF h, of Map.empty 1] ne show ?thesis by blast
qed

end
