(* ===== verification/ClientStore.thy ===== *)
theory ClientStore
  imports GoStd Model
begin

text \<open>
  \<^verbatim>\<open>internal/client/cache\<close>: the readings a gateway keeps in SQLite until the server has them. A cached
  reading is a reading with the status of its upload. The interface \<^verbatim>\<open>Store\<close> is the record
  \<open>cache_ops\<close>, its contract the locale \<open>upload_cache\<close>, and \<open>sqlite_store\<close> the implementation; the
  statements it sends are the fields of \<open>lite_ops\<close>, since the engine is not part of the program, and
  \<open>lite_laws\<close> is what SQL says of them. The context of a call is a flag that says whether it is
  cancelled: a statement with a cancelled context is refused by \<^verbatim>\<open>database/sql\<close> before it is sent.
\<close>

section \<open>Cached readings\<close>

type_synonym UploadStatus = int

definition UploadNotSent :: UploadStatus where "UploadNotSent = 0"
definition UploadSending :: UploadStatus where "UploadSending = 1"
definition UploadSent :: UploadStatus where "UploadSent = 2"
definition UploadFailed :: UploadStatus where "UploadFailed = 3"

lemmas Upload_status_defs = UploadNotSent_def UploadSending_def UploadSent_def UploadFailed_def

record CachedReading = Reading +
  cr_Status :: UploadStatus

definition cached :: "Reading \<Rightarrow> UploadStatus \<Rightarrow> CachedReading" where
  "cached r s = Reading.extend r \<lparr>cr_Status = s\<rparr>"

definition the_reading :: "CachedReading \<Rightarrow> Reading" where
  "the_reading c = Reading.truncate c"

lemma the_reading_cached [simp]: "the_reading (cached r s) = r"
  by (simp add: the_reading_def cached_def Reading.defs)

lemma cr_Status_cached [simp]: "cr_Status (cached r s) = s"
  by (simp add: cached_def Reading.defs)

lemma r_ID_cached [simp]: "r_ID (cached r s) = r_ID r"
  by (simp add: cached_def Reading.defs)

lemma the_reading_status [simp]: "the_reading (r\<lparr>cr_Status := s\<rparr>) = the_reading r"
  by (simp add: the_reading_def Reading.defs)

section \<open>The interface and the SQLite store\<close>

record 's cache_ops =
  cs_SaveReadings :: "bool \<Rightarrow> 's \<Rightarrow> CachedReading list \<Rightarrow> bool \<times> 's"
  cs_LoadReadings :: "bool \<Rightarrow> 's \<Rightarrow> int \<Rightarrow> CachedReading list option"
  cs_LoadPendingReadings :: "bool \<Rightarrow> 's \<Rightarrow> int \<Rightarrow> CachedReading list option"
  cs_UpdateReadingsStatus :: "bool \<Rightarrow> 's \<Rightarrow> u64 list \<Rightarrow> UploadStatus \<Rightarrow> bool \<times> 's"
  cs_DeleteReadings :: "bool \<Rightarrow> 's \<Rightarrow> u64 list \<Rightarrow> bool \<times> 's"

text \<open>A select: the values its \<^verbatim>\<open>status IN\<close> clause lists, if it has one, and its limit; it is ordered by key.\<close>

record select =
  sl_status :: "UploadStatus list option"
  sl_limit :: int

record 'db lite_ops =
  lt_Insert :: "bool \<Rightarrow> 'db \<Rightarrow> CachedReading list \<Rightarrow> bool \<times> 'db"
  lt_Select :: "bool \<Rightarrow> 'db \<Rightarrow> select \<Rightarrow> CachedReading list option"
  lt_UpdateStatus :: "bool \<Rightarrow> 'db \<Rightarrow> UploadStatus \<Rightarrow> u64 list \<Rightarrow> bool \<times> 'db"
  lt_Delete :: "bool \<Rightarrow> 'db \<Rightarrow> u64 list \<Rightarrow> bool \<times> 'db"

definition lite_SaveReadings :: "'db lite_ops \<Rightarrow> bool \<Rightarrow> 'db \<Rightarrow> CachedReading list \<Rightarrow> bool \<times> 'db" where
  "lite_SaveReadings lt done' db readings = (if readings = [] then (True, db) else lt_Insert lt done' db readings)"

definition lite_LoadReadings :: "'db lite_ops \<Rightarrow> bool \<Rightarrow> 'db \<Rightarrow> int \<Rightarrow> CachedReading list option" where
  "lite_LoadReadings lt done' db limit = lt_Select lt done' db \<lparr>sl_status = None, sl_limit = limit\<rparr>"

definition lite_LoadPendingReadings :: "'db lite_ops \<Rightarrow> bool \<Rightarrow> 'db \<Rightarrow> int \<Rightarrow> CachedReading list option" where
  "lite_LoadPendingReadings lt done' db limit =
     lt_Select lt done' db \<lparr>sl_status = Some [UploadNotSent, UploadFailed], sl_limit = limit\<rparr>"

definition lite_UpdateReadingsStatus :: "'db lite_ops \<Rightarrow> bool \<Rightarrow> 'db \<Rightarrow> u64 list \<Rightarrow> UploadStatus \<Rightarrow> bool \<times> 'db" where
  "lite_UpdateReadingsStatus lt done' db ids status =
     (if ids = [] then (True, db) else lt_UpdateStatus lt done' db status ids)"

definition lite_DeleteReadings :: "'db lite_ops \<Rightarrow> bool \<Rightarrow> 'db \<Rightarrow> u64 list \<Rightarrow> bool \<times> 'db" where
  "lite_DeleteReadings lt done' db ids = (if ids = [] then (True, db) else lt_Delete lt done' db ids)"

definition sqlite_store :: "'db lite_ops \<Rightarrow> 'db cache_ops" where
  "sqlite_store lt =
     \<lparr>cs_SaveReadings = lite_SaveReadings lt, cs_LoadReadings = lite_LoadReadings lt,
      cs_LoadPendingReadings = lite_LoadPendingReadings lt,
      cs_UpdateReadingsStatus = lite_UpdateReadingsStatus lt, cs_DeleteReadings = lite_DeleteReadings lt\<rparr>"

section \<open>The table and what SQL says\<close>

text \<open>The table is the list of its rows in the order of their keys. What each statement makes of it:\<close>

definition set_status :: "u64 list \<Rightarrow> UploadStatus \<Rightarrow> CachedReading list \<Rightarrow> CachedReading list" where
  "set_status ids s rows = map (\<lambda>r. if r_ID r \<in> set ids then r\<lparr>cr_Status := s\<rparr> else r) rows"

definition delete_ids :: "u64 list \<Rightarrow> CachedReading list \<Rightarrow> CachedReading list" where
  "delete_ids ids rows = filter (\<lambda>r. r_ID r \<notin> set ids) rows"

definition same_data :: "CachedReading list \<Rightarrow> CachedReading list \<Rightarrow> bool" where
  "same_data xs ys \<longleftrightarrow> map (\<lambda>r. r\<lparr>r_ID := 0\<rparr>) xs = map (\<lambda>r. r\<lparr>r_ID := 0\<rparr>) ys"

definition is_pending :: "CachedReading \<Rightarrow> bool" where
  "is_pending r \<longleftrightarrow> cr_Status r = UploadNotSent \<or> cr_Status r = UploadFailed"

definition selected :: "select \<Rightarrow> CachedReading list \<Rightarrow> CachedReading list" where
  "selected q rows = filter (\<lambda>r. case sl_status q of None \<Rightarrow> True | Some ss \<Rightarrow> cr_Status r \<in> set ss) rows"

text \<open>
  A select with a positive limit answers with the first rows that satisfy it (the query builder leaves
  the clause out when the limit is not positive). A statement that fails changes nothing.
\<close>

definition lite_laws :: "'db lite_ops \<Rightarrow> ('db \<Rightarrow> CachedReading list) \<Rightarrow> bool" where
  "lite_laws lt rows \<longleftrightarrow> (\<forall>db.
     distinct (map r_ID (rows db))
   \<and> (\<forall>done' rs ok db'. lt_Insert lt done' db rs = (ok, db') \<longrightarrow>
        (if ok then \<not> done' \<and> (\<exists>new. rows db' = rows db @ new \<and> same_data new rs) else rows db' = rows db))
   \<and> (\<forall>done' q rs. lt_Select lt done' db q = Some rs \<longrightarrow> \<not> done' \<and>
        (sl_limit q > 0 \<longrightarrow> rs = take (nat (sl_limit q)) (selected q (rows db))))
   \<and> (\<forall>done' s ids ok db'. lt_UpdateStatus lt done' db s ids = (ok, db') \<longrightarrow>
        (if ok then \<not> done' \<and> rows db' = set_status ids s (rows db) else rows db' = rows db))
   \<and> (\<forall>done' ids ok db'. lt_Delete lt done' db ids = (ok, db') \<longrightarrow>
        (if ok then \<not> done' \<and> rows db' = delete_ids ids (rows db) else rows db' = rows db)))"

lemma lite_laws_Insert:
  "lite_laws lt rows \<Longrightarrow> lt_Insert lt d db rs = (ok, db') \<Longrightarrow>
     if ok then \<not> d \<and> (\<exists>new. rows db' = rows db @ new \<and> same_data new rs) else rows db' = rows db"
  unfolding lite_laws_def by blast

lemma lite_laws_Select:
  "lite_laws lt rows \<Longrightarrow> lt_Select lt d db q = Some rs \<Longrightarrow>
     \<not> d \<and> (sl_limit q > 0 \<longrightarrow> rs = take (nat (sl_limit q)) (selected q (rows db)))"
  unfolding lite_laws_def by blast

lemma lite_laws_Update:
  "lite_laws lt rows \<Longrightarrow> lt_UpdateStatus lt d db s ids = (ok, db') \<Longrightarrow>
     if ok then \<not> d \<and> rows db' = set_status ids s (rows db) else rows db' = rows db"
  unfolding lite_laws_def by blast

lemma lite_laws_Delete:
  "lite_laws lt rows \<Longrightarrow> lt_Delete lt d db ids = (ok, db') \<Longrightarrow>
     if ok then \<not> d \<and> rows db' = delete_ids ids (rows db) else rows db' = rows db"
  unfolding lite_laws_def by blast

lemma lite_laws_distinct: "lite_laws lt rows \<Longrightarrow> distinct (map r_ID (rows db))"
  unfolding lite_laws_def by blast

lemma same_data_Nil [simp]: "same_data [] []" "same_data xs [] \<longleftrightarrow> xs = []" "same_data [] xs \<longleftrightarrow> xs = []"
  by (auto simp: same_data_def)

lemma same_data_append: "same_data a b \<Longrightarrow> same_data c d \<Longrightarrow> same_data (a @ c) (b @ d)"
  by (simp add: same_data_def)

lemma same_data_length: "same_data xs ys \<Longrightarrow> length xs = length ys"
  using map_eq_imp_length_eq unfolding same_data_def by blast

lemma set_status_Nil [simp]: "set_status [] s rows = rows"
  by (simp add: set_status_def)

lemma delete_ids_Nil [simp]: "delete_ids [] rows = rows"
  by (simp add: delete_ids_def)

lemma map_r_ID_set_status [simp]: "map r_ID (set_status ids s rows) = map r_ID rows"
  by (induction rows) (simp_all add: set_status_def)

lemma map_the_reading_set_status [simp]: "map the_reading (set_status ids s rows) = map the_reading rows"
  by (induction rows) (simp_all add: set_status_def)

lemma set_status_twice [simp]: "set_status ids t (set_status ids s rows) = set_status ids t rows"
  by (simp add: set_status_def)

section \<open>The contract\<close>

locale upload_cache =
  fixes ops :: "'s cache_ops"
    and rows :: "'s \<Rightarrow> CachedReading list"
  assumes distinct_rows: "distinct (map r_ID (rows s))"
    and save: "cs_SaveReadings ops d s rs = (ok, s') \<Longrightarrow>
      if ok then (d \<longrightarrow> rs = []) \<and> (\<exists>new. rows s' = rows s @ new \<and> same_data new rs) else rows s' = rows s"
    and load: "0 < limit \<Longrightarrow> cs_LoadReadings ops d s limit = Some rs \<Longrightarrow> rs = take (nat limit) (rows s)"
    and load_pending: "0 < limit \<Longrightarrow> cs_LoadPendingReadings ops d s limit = Some rs \<Longrightarrow>
      rs = take (nat limit) (filter is_pending (rows s))"
    and update: "cs_UpdateReadingsStatus ops d s ids st = (ok, s') \<Longrightarrow>
      if ok then (d \<longrightarrow> ids = []) \<and> rows s' = set_status ids st (rows s) else rows s' = rows s"
    and delete: "cs_DeleteReadings ops d s ids = (ok, s') \<Longrightarrow>
      if ok then (d \<longrightarrow> ids = []) \<and> rows s' = delete_ids ids (rows s) else rows s' = rows s"
begin

definition status_of :: "'s \<Rightarrow> u64 \<Rightarrow> UploadStatus option" where
  "status_of s i = map_option cr_Status (find (\<lambda>r. r_ID r = i) (rows s))"

lemma pending_status:
  assumes "0 < limit" and "cs_LoadPendingReadings ops d s limit = Some rs" and "r \<in> set rs"
  shows "is_pending r \<and> r \<in> set (rows s)"
  using load_pending [OF assms(1,2)] assms(3) set_take_subset by force

lemma update_cases:
  "rows (snd (cs_UpdateReadingsStatus ops d s ids st)) \<in> {rows s, set_status ids st (rows s)}"
  using update [OF prod.collapse [symmetric], of d s ids st] by (auto split: if_splits)

lemma update_ids: "map r_ID (rows (snd (cs_UpdateReadingsStatus ops d s ids st))) = map r_ID (rows s)"
  using update_cases [of d s ids st] by auto

lemma update_done: "ids \<noteq> [] \<Longrightarrow> rows (snd (cs_UpdateReadingsStatus ops True s ids st)) = rows s"
  using update [OF prod.collapse [symmetric], of True s ids st] by (auto split: if_splits)

end

lemma sqlite_is_cache: "lite_laws lt rows \<Longrightarrow> upload_cache (sqlite_store lt) rows"
proof
  assume laws: "lite_laws lt rows"
  show "distinct (map r_ID (rows s))" for s by (rule lite_laws_distinct [OF laws])
  show "if ok then (d \<longrightarrow> rs = []) \<and> (\<exists>new. rows s' = rows s @ new \<and> same_data new rs) else rows s' = rows s"
    if "cs_SaveReadings (sqlite_store lt) d s rs = (ok, s')" for d s rs ok s'
    using that lite_laws_Insert [OF laws, of d s rs ok s']
    by (auto simp: sqlite_store_def lite_SaveReadings_def split: if_splits)
  show "rs = take (nat limit) (rows s)"
    if "0 < limit" "cs_LoadReadings (sqlite_store lt) d s limit = Some rs" for limit d s rs
    using that by (auto simp: sqlite_store_def lite_LoadReadings_def selected_def dest!: lite_laws_Select [OF laws])
  show "rs = take (nat limit) (filter is_pending (rows s))"
    if "0 < limit" "cs_LoadPendingReadings (sqlite_store lt) d s limit = Some rs" for limit d s rs
    using that
    by (auto simp: sqlite_store_def lite_LoadPendingReadings_def selected_def is_pending_def [abs_def] dest!: lite_laws_Select [OF laws])
  show "if ok then (d \<longrightarrow> ids = []) \<and> rows s' = set_status ids st (rows s) else rows s' = rows s"
    if "cs_UpdateReadingsStatus (sqlite_store lt) d s ids st = (ok, s')" for d s ids st ok s'
    using that lite_laws_Update [OF laws, of d s st ids ok s']
    by (auto simp: sqlite_store_def lite_UpdateReadingsStatus_def split: if_splits)
  show "if ok then (d \<longrightarrow> ids = []) \<and> rows s' = delete_ids ids (rows s) else rows s' = rows s"
    if "cs_DeleteReadings (sqlite_store lt) d s ids = (ok, s')" for d s ids ok s'
    using that lite_laws_Delete [OF laws, of d s ids ok s']
    by (auto simp: sqlite_store_def lite_DeleteReadings_def split: if_splits)
qed

section \<open>An engine\<close>

text \<open>
  A small engine, for the witnesses: a table with its rows and the next key. It refuses a statement
  with a cancelled context, and an insert that would use a key twice.
\<close>

typedef table = "{(rows :: CachedReading list). distinct (map r_ID rows)}"
  by (rule exI [of _ "[]"]) simp

setup_lifting type_definition_table

lift_definition table_rows :: "table \<Rightarrow> CachedReading list" is "\<lambda>rows. rows" .
lift_definition empty_table :: table is "[]" by simp

definition with_keys :: "nat \<Rightarrow> CachedReading list \<Rightarrow> CachedReading list" where
  "with_keys n rs = map (\<lambda>(i, r). r\<lparr>r_ID := of_nat i\<rparr>) (zip [n ..< n + length rs] rs)"

lift_definition table_insert :: "table \<Rightarrow> CachedReading list \<Rightarrow> table" is
  "\<lambda>rows rs. let new = rows @ with_keys (Suc (length rows)) rs in if distinct (map r_ID new) then new else rows"
  by (simp add: Let_def)

lift_definition table_update :: "table \<Rightarrow> UploadStatus \<Rightarrow> u64 list \<Rightarrow> table" is
  "\<lambda>rows s ids. set_status ids s rows" by simp

lift_definition table_delete :: "table \<Rightarrow> u64 list \<Rightarrow> table" is
  "\<lambda>rows ids. delete_ids ids rows" by (simp add: delete_ids_def distinct_map_filter)

definition sample_lite :: "table lite_ops" where
  "sample_lite =
     \<lparr>lt_Insert = (\<lambda>d t rs. if d \<or> \<not> distinct (map r_ID (table_rows t @ with_keys (Suc (length (table_rows t))) rs))
                      then (False, t) else (True, table_insert t rs)),
      lt_Select = (\<lambda>d t q. if d then None else
                      Some (if sl_limit q > 0 then take (nat (sl_limit q)) (selected q (table_rows t))
                            else selected q (table_rows t))),
      lt_UpdateStatus = (\<lambda>d t s ids. if d then (False, t) else (True, table_update t s ids)),
      lt_Delete = (\<lambda>d t ids. if d then (False, t) else (True, table_delete t ids))\<rparr>"

lemma with_keys_Cons: "with_keys n (r # rs) = r\<lparr>r_ID := of_nat n\<rparr> # with_keys (Suc n) rs"
  by (simp add: with_keys_def upt_rec)

lemma with_keys_Nil [simp]: "with_keys n [] = []"
  by (simp add: with_keys_def)

lemma same_data_with_keys: "same_data (with_keys n rs) rs"
  by (induction rs arbitrary: n) (simp_all add: with_keys_Cons same_data_def)

lemma sample_lite_laws: "lite_laws sample_lite table_rows"
proof -
  have "table_rows (table_insert t rs) = table_rows t @ with_keys (Suc (length (table_rows t))) rs"
    if "distinct (map r_ID (table_rows t @ with_keys (Suc (length (table_rows t))) rs))" for t rs
    using that by transfer (simp add: Let_def)
  moreover have "distinct (map r_ID (table_rows t))" for t by transfer simp
  moreover have "table_rows (table_update t s ids) = set_status ids s (table_rows t)" for t s ids
    by transfer simp
  moreover have "table_rows (table_delete t ids) = delete_ids ids (table_rows t)" for t ids
    by transfer simp
  ultimately show ?thesis
    by (auto simp: lite_laws_def sample_lite_def same_data_with_keys split: if_splits)
qed

interpretation lite: upload_cache "sqlite_store sample_lite" table_rows
  by (rule sqlite_is_cache) (rule sample_lite_laws)

end
