(* ===== verification/GoFloat.thy ===== *)
theory GoFloat
  imports Prelude
begin

text \<open>
  Go's \<^verbatim>\<open>float64\<close> and \<^verbatim>\<open>float32\<close>, as far as the program computes with them: IEEE 754 binary numbers
  with rounding to nearest, ties to even. A finite number is a sign, a mantissa and an exponent and
  stands for \<open>\<plusminus> m * 2 ^ e\<close>; \<open>wf64\<close> is the canonical form, in which every operation answers. A
  \<^verbatim>\<open>float32\<close> is kept as the \<^verbatim>\<open>float64\<close> of the same value. Converting a number that is out of the range
  of an integer type is implementation-dependent in Go, so these conversions take what the
  implementation answers there as an argument.
\<close>

section \<open>Numbers\<close>

datatype float64 = NaN | Inf bool | Fin bool nat int

definition wf64 :: "float64 \<Rightarrow> bool" where
  "wf64 f = (case f of Fin s m e \<Rightarrow> m < 2 ^ 53 \<and> -1074 \<le> e \<and> e \<le> 971 \<and> (2 ^ 52 \<le> m \<or> e = -1074) | _ \<Rightarrow> True)"

definition is_zero :: "float64 \<Rightarrow> bool" where \<comment> \<open>\<^verbatim>\<open>f == 0\<close>\<close>
  "is_zero f = (case f of Fin s m e \<Rightarrow> m = 0 | _ \<Rightarrow> False)"

section \<open>Rounding\<close>

fun lg :: "nat \<Rightarrow> nat" where
  "lg n = (if n < 2 then 0 else Suc (lg (n div 2)))"

declare lg.simps [simp del]

definition ilog2 :: "nat \<Rightarrow> nat \<Rightarrow> int" where
  "ilog2 num den =
     (let l = int (lg num) - int (lg den)
      in if num * 2 ^ nat (- l) < den * 2 ^ nat l then l - 1 else l)"

text \<open>The fraction \<open>num / den\<close> to \<open>p\<close> bits, with no exponent below \<open>emin\<close>.\<close>

definition rnd :: "nat \<Rightarrow> int \<Rightarrow> nat \<Rightarrow> nat \<Rightarrow> nat \<times> int" where
  "rnd p emin num den =
     (let e = max emin (ilog2 num den - int (p - 1));
          n = num * 2 ^ nat (- e);
          d = den * 2 ^ nat e;
          q = n div d;
          r = n mod d;
          m = (if 2 * r > d \<or> (2 * r = d \<and> odd q) then q + 1 else q)
      in if m = 2 ^ p then (2 ^ (p - 1), e + 1) else (m, e))"

definition round64 :: "bool \<Rightarrow> nat \<Rightarrow> nat \<Rightarrow> float64" where
  "round64 s num den =
     (if num = 0 then Fin s 0 (-1074)
      else let (m, e) = rnd 53 (-1074) num den in if e > 971 then Inf s else Fin s m e)"

text \<open>\<open>m * 2 ^ e\<close> as a fraction\<close>

definition frac :: "nat \<Rightarrow> int \<Rightarrow> nat \<times> nat" where
  "frac m e = (m * 2 ^ nat e, 2 ^ nat (- e))"

definition round_scaled :: "bool \<Rightarrow> nat \<Rightarrow> int \<Rightarrow> float64" where
  "round_scaled s m e = round64 s (fst (frac m e)) (snd (frac m e))"

section \<open>Arithmetic\<close>

definition f_neg :: "float64 \<Rightarrow> float64" where
  "f_neg f = (case f of NaN \<Rightarrow> NaN | Inf s \<Rightarrow> Inf (\<not> s) | Fin s m e \<Rightarrow> Fin (\<not> s) m e)"

definition f_mul :: "float64 \<Rightarrow> float64 \<Rightarrow> float64" where
  "f_mul a b =
     (case (a, b) of
        (NaN, _) \<Rightarrow> NaN
      | (_, NaN) \<Rightarrow> NaN
      | (Inf s, Inf t) \<Rightarrow> Inf (s \<noteq> t)
      | (Inf s, Fin t m e) \<Rightarrow> if m = 0 then NaN else Inf (s \<noteq> t)
      | (Fin s m e, Inf t) \<Rightarrow> if m = 0 then NaN else Inf (s \<noteq> t)
      | (Fin s m e, Fin t n k) \<Rightarrow> round_scaled (s \<noteq> t) (m * n) (e + k))"

definition signed :: "bool \<Rightarrow> nat \<Rightarrow> int" where
  "signed s m = (if s then - int m else int m)"

definition f_add :: "float64 \<Rightarrow> float64 \<Rightarrow> float64" where
  "f_add a b =
     (case (a, b) of
        (NaN, _) \<Rightarrow> NaN
      | (_, NaN) \<Rightarrow> NaN
      | (Inf s, Inf t) \<Rightarrow> if s = t then Inf s else NaN
      | (Inf s, _) \<Rightarrow> Inf s
      | (_, Inf t) \<Rightarrow> Inf t
      | (Fin s m e, Fin t n k) \<Rightarrow>
          let x = min e k;
              v = signed s (m * 2 ^ nat (e - x)) + signed t (n * 2 ^ nat (k - x))
          in if v = 0 then Fin (s \<and> t) 0 (-1074) else round_scaled (v < 0) (nat \<bar>v\<bar>) x)"

definition f_sub :: "float64 \<Rightarrow> float64 \<Rightarrow> float64" where
  "f_sub a b = f_add a (f_neg b)"

definition f_div :: "float64 \<Rightarrow> float64 \<Rightarrow> float64" where
  "f_div a b =
     (case (a, b) of
        (NaN, _) \<Rightarrow> NaN
      | (_, NaN) \<Rightarrow> NaN
      | (Inf s, Inf t) \<Rightarrow> NaN
      | (Inf s, Fin t m e) \<Rightarrow> Inf (s \<noteq> t)
      | (Fin s m e, Inf t) \<Rightarrow> Fin (s \<noteq> t) 0 (-1074)
      | (Fin s m e, Fin t n k) \<Rightarrow>
          if n = 0 then (if m = 0 then NaN else Inf (s \<noteq> t))
          else round64 (s \<noteq> t) (m * 2 ^ nat (e - k)) (n * 2 ^ nat (k - e)))"

text \<open>\<^verbatim>\<open>a < b\<close>, which is false when one of them is NaN.\<close>

definition f_less :: "float64 \<Rightarrow> float64 \<Rightarrow> bool" where
  "f_less a b \<longleftrightarrow>
     (case (a, b) of
        (Inf s, Inf t) \<Rightarrow> s \<and> \<not> t
      | (Inf s, Fin t m e) \<Rightarrow> s
      | (Fin s m e, Inf t) \<Rightarrow> \<not> t
      | (Fin s m e, Fin t n k) \<Rightarrow>
          signed s (m * 2 ^ nat (e - min e k)) < signed t (n * 2 ^ nat (k - min e k))
      | _ \<Rightarrow> False)"

section \<open>Conversions\<close>

definition float64_of_int :: "int \<Rightarrow> float64" where
  "float64_of_int i = round64 (i < 0) (nat \<bar>i\<bar>) 1"

text \<open>The integer part, of a finite number.\<close>

definition f_trunc :: "float64 \<Rightarrow> int option" where
  "f_trunc f = (case f of Fin s m e \<Rightarrow> Some (signed s (fst (frac m e) div snd (frac m e))) | _ \<Rightarrow> None)"

definition to_sint :: "(float64 \<Rightarrow> 'a::len word) \<Rightarrow> float64 \<Rightarrow> 'a word" where
  "to_sint other f =
     (case f_trunc f of
        None \<Rightarrow> other f
      | Some i \<Rightarrow> if - (2 ^ (LENGTH('a) - 1)) \<le> i \<and> i < 2 ^ (LENGTH('a) - 1) then word_of_int i else other f)"

definition to_uint :: "(float64 \<Rightarrow> 'a::len word) \<Rightarrow> float64 \<Rightarrow> 'a word" where
  "to_uint other f =
     (case f_trunc f of
        None \<Rightarrow> other f
      | Some i \<Rightarrow> if 0 \<le> i \<and> i < 2 ^ LENGTH('a) then word_of_int i else other f)"

text \<open>\<^verbatim>\<open>float32(f)\<close>, and the bits of a \<^verbatim>\<open>float32\<close>.\<close>

definition float32_of :: "float64 \<Rightarrow> float64" where
  "float32_of f =
     (case f of
        Fin s m e \<Rightarrow>
          if m = 0 then f
          else let (m', e') = rnd 24 (-149) (fst (frac m e)) (snd (frac m e))
               in if e' > 104 then Inf s else round_scaled s m' e'
      | _ \<Rightarrow> f)"

definition Float32frombits :: "u32 \<Rightarrow> float64" where
  "Float32frombits w =
     (let s = (unat w div 2 ^ 31 = 1);
          ex = unat w div 2 ^ 23 mod 256;
          fr = unat w mod 2 ^ 23
      in if ex = 255 then (if fr = 0 then Inf s else NaN)
         else if ex = 0 then round_scaled s fr (-149)
         else round_scaled s (2 ^ 23 + fr) (int ex - 150))"

text \<open>The bits of NaN differ between platforms in the sign and the payload; this is the quiet NaN of Go's \<^verbatim>\<open>math.NaN\<close>.\<close>

definition Float32bits :: "float64 \<Rightarrow> u32" where
  "Float32bits f =
     (case f of
        NaN \<Rightarrow> 0x7FC00000
      | Inf s \<Rightarrow> (if s then 0xFF800000 else 0x7F800000)
      | Fin s m e \<Rightarrow>
          if m = 0 then (if s then 0x80000000 else 0)
          else let (m', e') = rnd 24 (-149) (fst (frac m e)) (snd (frac m e))
               in of_nat ((if s then 2 ^ 31 else 0)
                    + (if m' < 2 ^ 23 then m' else nat (e' + 150) * 2 ^ 23 + (m' - 2 ^ 23))))"

section \<open>Exactness\<close>

lemma lg_bounds: "0 < n \<Longrightarrow> 2 ^ lg n \<le> n \<and> n < 2 ^ Suc (lg n)"
proof (induction n rule: lg.induct)
  case (1 n)
  show ?case
  proof (cases "n < 2")
    case True
    moreover from this have "lg n = 0" by (subst lg.simps) simp
    ultimately show ?thesis using 1(2) by simp
  next
    case False
    then have "2 ^ lg (n div 2) \<le> n div 2 \<and> n div 2 < 2 ^ Suc (lg (n div 2))" using 1 by simp
    moreover have "lg n = Suc (lg (n div 2))" using False by (subst lg.simps) simp
    ultimately show ?thesis by simp linarith
  qed
qed

lemma lg_unique: "2 ^ k \<le> n \<Longrightarrow> n < 2 ^ Suc k \<Longrightarrow> lg n = k"
proof -
  assume a: "2 ^ k \<le> n" "n < 2 ^ Suc k"
  then have "0 < n" by (metis gr_zeroI le_zero_eq power_eq_0_iff zero_neq_numeral)
  then have b: "2 ^ lg n \<le> n" "n < 2 ^ Suc (lg n)" using lg_bounds by blast+
  have "(2::nat) ^ lg n < 2 ^ Suc k" "(2::nat) ^ k < 2 ^ Suc (lg n)" using a b by linarith+
  have less: "i < j" if "(2::nat) ^ i < 2 ^ j" for i j using that by simp
  have "lg n < Suc k" using \<open>2 ^ lg n < 2 ^ Suc k\<close> by (rule less)
  moreover have "k < Suc (lg n)" using \<open>2 ^ k < 2 ^ Suc (lg n)\<close> by (rule less)
  ultimately show ?thesis by simp
qed

lemma lg_scale: "0 < m \<Longrightarrow> lg (m * 2 ^ a) = lg m + a"
proof (rule lg_unique)
  assume "0 < m"
  then have b: "2 ^ lg m \<le> m" "m < 2 ^ Suc (lg m)" using lg_bounds by blast+
  then show "2 ^ (lg m + a) \<le> m * 2 ^ a" by (simp add: power_add)
  have "m * 2 ^ a < 2 ^ Suc (lg m) * 2 ^ a" using b(2) by (intro mult_strict_right_mono) simp_all
  then show "m * 2 ^ a < 2 ^ Suc (lg m + a)" by (simp add: power_add)
qed

lemma lg_pow [simp]: "lg (2 ^ k) = k"
  by (rule lg_unique) simp_all

lemma ilog2_scaled: "0 < m \<Longrightarrow> ilog2 (m * 2 ^ a) (2 ^ b) = int (lg m) + int a - int b"
proof -
  assume m: "0 < m"
  let ?l = "int (lg m) + int a - int b"
  have "\<not> m * 2 ^ a * 2 ^ nat (- ?l) < 2 ^ b * 2 ^ nat ?l"
  proof -
    have "b + nat ?l = lg m + a + nat (- ?l)" by simp
    then have "(2::nat) ^ b * 2 ^ nat ?l = 2 ^ lg m * (2 ^ a * 2 ^ nat (- ?l))"
      by (metis (no_types) mult.assoc power_add)
    moreover have "2 ^ lg m \<le> m" using lg_bounds [OF m] by simp
    ultimately show ?thesis by (simp add: mult.assoc)
  qed
  then show ?thesis by (simp add: ilog2_def lg_scale m Let_def)
qed

lemma rnd_exact:
  assumes m: "0 < m" "m < 2 ^ p" "2 ^ (p - 1) \<le> m \<or> e = emin" and e: "emin \<le> e"
    and val: "num = m * 2 ^ a" "den = 2 ^ b" "e = int a - int b" and p: "0 < p"
  shows "rnd p emin num den = (m, e)"
proof -
  have lm: "lg m \<le> p - 1"
  proof -
    have "(2::nat) ^ lg m < 2 ^ p" using lg_bounds [OF m(1)] m(2) by linarith
    then have "lg m < p" by simp
    then show ?thesis by simp
  qed
  have "lg m = p - 1" if "2 ^ (p - 1) \<le> m"
    using that m(2) p by (intro lg_unique) simp_all
  then have ee: "max emin (ilog2 num den - int (p - 1)) = e"
    using m(3) e lm ilog2_scaled [OF m(1), of a b] val by auto
  have pow: "a + nat (- e) = b + nat e" using val(3) by simp
  have n: "num * 2 ^ nat (- e) = m * (den * 2 ^ nat e)"
    using pow val(1,2) by (metis (no_types) mult.assoc power_add)
  have d: "0 < den * 2 ^ nat e" using val(2) by simp
  have "m \<noteq> 2 ^ p" using m(2) by simp
  then show ?thesis using d unfolding rnd_def Let_def ee n by simp
qed

text \<open>A number that fits the mantissa is not rounded.\<close>

lemma round64_exact:
  assumes "wf64 (Fin s m e)" and "0 < m" and "num = m * 2 ^ a" and "den = 2 ^ b" and "e = int a - int b"
  shows "round64 s num den = Fin s m e"
proof -
  have "rnd 53 (-1074) num den = (m, e)"
    using assms by (intro rnd_exact [of m 53 e _ _ a _ b]) (auto simp: wf64_def)
  then show ?thesis using assms by (simp add: round64_def wf64_def)
qed

lemma round_scaled_exact: "wf64 (Fin s m e) \<Longrightarrow> 0 < m \<Longrightarrow> round_scaled s m e = Fin s m e"
  by (auto simp: round_scaled_def frac_def intro!: round64_exact [of _ _ _ _ "nat e" _ "nat (- e)"])

definition normal :: "nat \<Rightarrow> float64" where \<comment> \<open>the canonical form of a positive integer below \<open>2 ^ 53\<close>\<close>
  "normal n = Fin False (n * 2 ^ (52 - lg n)) (int (lg n) - 52)"

lemma lg_less: "0 < n \<Longrightarrow> n < 2 ^ k \<Longrightarrow> lg n < k"
proof -
  assume "0 < n" "n < 2 ^ k"
  then have "(2::nat) ^ lg n < 2 ^ k" using lg_bounds [of n] by linarith
  then show ?thesis by (rule power_less_imp_less_exp [rotated]) simp
qed

lemma normal_bounds:
  assumes "0 < n" "n < 2 ^ 53"
  shows "2 ^ 52 \<le> n * 2 ^ (52 - lg n)" and "n * 2 ^ (52 - lg n) < 2 ^ 53"
proof -
  have l: "lg n \<le> 52" using lg_less [OF assms] by simp
  have b: "2 ^ lg n \<le> n" "n < 2 ^ Suc (lg n)" using lg_bounds [OF assms(1)] by blast+
  have "(2::nat) ^ 52 = 2 ^ lg n * 2 ^ (52 - lg n)" using l by (simp flip: power_add)
  also have "\<dots> \<le> n * 2 ^ (52 - lg n)" using b(1) by (rule mult_right_mono) simp
  finally show "2 ^ 52 \<le> n * 2 ^ (52 - lg n)" .
  have "n * 2 ^ (52 - lg n) < 2 ^ Suc (lg n) * 2 ^ (52 - lg n)"
    using b(2) by (rule mult_strict_right_mono) simp
  also have "\<dots> = 2 ^ 53" using l by (simp flip: power_add power_Suc)
  finally show "n * 2 ^ (52 - lg n) < 2 ^ 53" .
qed

lemma wf64_normal: "0 < n \<Longrightarrow> n < 2 ^ 53 \<Longrightarrow> wf64 (normal n)"
  using normal_bounds [of n] lg_less [of n 53] by (simp add: wf64_def normal_def)

lemma round64_int:
  assumes "0 < n" "n < 2 ^ 53"
  shows "round64 s n 1 = Fin s (n * 2 ^ (52 - lg n)) (int (lg n) - 52)"
proof -
  have "rnd 53 (-1074) n 1 = (n * 2 ^ (52 - lg n), int (lg n) - 52)"
  proof -
    let ?l = "lg n"
    have l: "?l \<le> 52" using lg_less [OF assms] by simp
    have i: "ilog2 n 1 = int ?l" using ilog2_scaled [OF assms(1), of 0 0] by simp
    have e: "max (-1074) (ilog2 n 1 - int (53 - 1)) = int ?l - 52" unfolding i by simp
    have "nat (- (int ?l - 52)) = 52 - ?l" "nat (int ?l - 52) = 0" using l by simp_all
    then show ?thesis using normal_bounds(2) [OF assms] unfolding rnd_def Let_def e by simp
  qed
  then show ?thesis using assms lg_less [OF assms] by (simp add: round64_def)
qed

text \<open>An integer of at most 53 bits, its product with one and its sum with zero.\<close>

definition f_one :: float64 where "f_one = Fin False (2 ^ 52) (-52)"
definition f_zero :: float64 where "f_zero = Fin False 0 (-1074)"

lemma f_one_eq: "float64_of_int 1 = f_one"
  using round64_int [of 1 False] by (simp add: float64_of_int_def f_one_def lg.simps)

lemma f_zero_eq: "float64_of_int 0 = f_zero"
  by (simp add: float64_of_int_def f_zero_def round64_def)

lemma wf64_of_int: "\<bar>i\<bar> < 2 ^ 53 \<Longrightarrow> wf64 (float64_of_int i)"
proof (cases "i = 0")
  case False
  assume "\<bar>i\<bar> < 2 ^ 53"
  then have n: "0 < nat \<bar>i\<bar>" "nat \<bar>i\<bar> < 2 ^ 53" using False by simp_all
  show ?thesis using wf64_normal [OF n] unfolding float64_of_int_def round64_int [OF n] normal_def wf64_def
    by simp
qed (simp add: f_zero_eq f_zero_def wf64_def)

lemma f_trunc_of_int: "\<bar>i\<bar> < 2 ^ 53 \<Longrightarrow> f_trunc (float64_of_int i) = Some i"
proof (cases "i = 0")
  case False
  assume "\<bar>i\<bar> < 2 ^ 53"
  then have n: "0 < nat \<bar>i\<bar>" "nat \<bar>i\<bar> < 2 ^ 53" using False by simp_all
  have l: "lg (nat \<bar>i\<bar>) \<le> 52" using lg_less [OF n] by simp
  then have z: "nat (- (int (lg (nat \<bar>i\<bar>)) - 52)) = 52 - lg (nat \<bar>i\<bar>)" "nat (int (lg (nat \<bar>i\<bar>)) - 52) = 0"
    by simp_all
  show ?thesis
    unfolding float64_of_int_def round64_int [OF n] f_trunc_def frac_def float64.case fst_conv snd_conv z
    by (simp add: signed_def)
qed (simp add: f_zero_eq f_zero_def f_trunc_def frac_def signed_def)

text \<open>One and zero are neutral, on numbers in canonical form.\<close>

lemma f_mul_one: "wf64 f \<Longrightarrow> f_mul f f_one = f"
proof (cases f)
  case (Fin s m e)
  assume wf: "wf64 f"
  show ?thesis
  proof (cases "m = 0")
    case True
    then show ?thesis using wf Fin by (simp add: f_mul_def f_one_def round_scaled_def frac_def round64_def wf64_def)
  next
    case False
    have "round64 s (m * 2 ^ 52 * 2 ^ nat (e - 52)) (2 ^ nat (52 - e)) = Fin s m e"
      using wf False Fin
      by (intro round64_exact [of _ _ _ _ "52 + nat (e - 52)" _ "nat (52 - e)"]) (simp_all add: power_add)
    then show ?thesis using Fin by (simp add: f_mul_def f_one_def round_scaled_def frac_def)
  qed
qed (simp_all add: f_mul_def f_one_def)

lemma f_div_one: "wf64 f \<Longrightarrow> f_div f f_one = f"
proof (cases f)
  case (Fin s m e)
  assume wf: "wf64 f"
  show ?thesis
  proof (cases "m = 0")
    case True
    then show ?thesis using wf Fin by (simp add: f_div_def f_one_def round64_def wf64_def)
  next
    case False
    have "round64 s (m * 2 ^ nat (e + 52)) (2 ^ 52 * 2 ^ nat (- 52 - e)) = Fin s m e"
      using wf False Fin
      by (intro round64_exact [of _ _ _ _ "nat (e + 52)" _ "52 + nat (- 52 - e)"]) (simp_all add: power_add)
    then show ?thesis using Fin by (simp add: f_div_def f_one_def)
  qed
qed (simp_all add: f_div_def f_one_def)

text \<open>A sum with zero has the sign of zero lost: \<open>-0 + 0\<close> is \<open>0\<close>.\<close>

lemma signed_simps:
  "signed s 0 = 0" "signed s k = 0 \<longleftrightarrow> k = 0" "nat \<bar>signed s k\<bar> = k" "0 < k \<Longrightarrow> signed s k < 0 \<longleftrightarrow> s"
  by (simp_all add: signed_def)

definition plain_zero :: "float64 \<Rightarrow> float64" where
  "plain_zero f = (if is_zero f then f_zero else f)"

lemma f_add_zero: "wf64 f \<Longrightarrow> f_add f f_zero = plain_zero f"
proof (cases f)
  case (Fin s m e)
  assume wf: "wf64 f"
  show ?thesis
  proof (cases "m = 0")
    case True
    then show ?thesis using wf Fin by (simp add: f_add_def f_zero_def plain_zero_def is_zero_def signed_def)
  next
    case False
    have e: "min e (- 1074) = - 1074" using wf Fin by (simp add: wf64_def)
    have "round64 s (m * 2 ^ nat (e + 1074)) (2 ^ 1074) = Fin s m e"
      using wf False Fin by (intro round64_exact [of _ _ _ _ "nat (e + 1074)" _ 1074]) (auto simp: wf64_def)
    then show ?thesis using Fin False
      by (simp add: f_add_def f_zero_def plain_zero_def is_zero_def signed_simps e round_scaled_def frac_def)
  qed
qed (simp_all add: f_add_def f_zero_def plain_zero_def is_zero_def)

lemma f_sub_zero: "wf64 f \<Longrightarrow> f_sub f f_zero = f"
proof (cases f)
  case (Fin s m e)
  assume wf: "wf64 f"
  show ?thesis
  proof (cases "m = 0")
    case True
    then show ?thesis using wf Fin by (simp add: f_sub_def f_add_def f_neg_def f_zero_def signed_def wf64_def)
  next
    case False
    have e: "min e (- 1074) = - 1074" using wf Fin by (simp add: wf64_def)
    have "round64 s (m * 2 ^ nat (e + 1074)) (2 ^ 1074) = Fin s m e"
      using wf False Fin by (intro round64_exact [of _ _ _ _ "nat (e + 1074)" _ 1074]) (auto simp: wf64_def)
    then show ?thesis using Fin False
      by (simp add: f_sub_def f_neg_def f_add_def f_zero_def signed_simps e round_scaled_def frac_def)
  qed
qed (simp_all add: f_sub_def f_add_def f_neg_def f_zero_def)

end
