(* ===== verification/ClientConfig.thy ===== *)
theory ClientConfig
  imports ConfigErrors Model GoFloat Sha256
begin

text \<open>
  \<^verbatim>\<open>internal/client/config.go\<close>: the gateway's configuration, its Modbus devices and points, its MQTT
  devices and topics, what validation accepts, and the identifier of a device. As on the server, the
  scalar fields come filled from the providers and the nested ones from \<^verbatim>\<open>Unmarshal\<close>. A point is
  validated through its pointer, so the byte order that validation sets is kept: a validation gives
  the error, or the value it leaves. The tables that are printed at start-up are left out.
\<close>

section \<open>Records\<close>

record RtuSlaveConfig =
  rtu_Port :: string
  rtu_BaudRate :: int
  rtu_DataBits :: int
  rtu_Parity :: string
  rtu_StopBits :: int

record TcpSlaveConfig =
  tcp_Host :: string
  tcp_Port :: int

record ModbusPointConfig =
  pt_Name :: string
  pt_FunctionCode :: int
  pt_Address :: u16
  pt_Quantity :: u16
  pt_DataType :: string
  pt_ByteOrder :: string
  pt_Scale :: float64
  pt_Offset :: float64
  pt_Unit :: string
  pt_Access :: string
  pt_CacheEnabled :: bool

record TopicConfig =
  tp_Topic :: string
  tp_QoS :: u8
  tp_PointName :: string
  tp_DataType :: string
  tp_Source :: string
  tp_Unit :: string
  tp_Retain :: bool

record DeviceConfig =
  dv_Name :: string
  dv_Type :: string
  dv_Timeout :: u64
  dv_OfflineThreshold :: u64
  dv_EnableMonitor :: bool
  dv_RTU :: "RtuSlaveConfig option"
  dv_TCP :: "TcpSlaveConfig option"
  dv_SlaveID :: u8
  dv_Points :: "ModbusPointConfig list"
  dv_PollInterval :: u64

record MQTTDeviceConfig =
  md_Name :: string
  md_ClientID :: string
  md_Username :: string
  md_Password :: string
  md_KeepAlive :: u64
  md_CleanSession :: bool
  md_OfflineThreshold :: u64
  md_EnableMonitor :: bool
  md_Topics :: "TopicConfig list"

record Client_MqttConfig =
  mb_BrokerAddr :: string
  mb_Devices :: "MQTTDeviceConfig list"

record PathsConfig =
  pa_LogPath :: string
  pa_DataPath :: string
  pa_LogMaxSize :: int
  pa_LogMaxBackups :: int
  pa_LogMaxAge :: int

record ClientConfig =
  cc_ServerUrl :: string
  cc_Port :: int
  cc_LogLevel :: string
  cc_Sn :: string
  cc_Token :: string
  cc_MaxRetry :: int
  cc_RetryInterval :: int
  cc_BufferSize :: int
  cc_UploadBatchSize :: int
  cc_UploadInterval :: int
  cc_Paths :: PathsConfig
  cc_ControlListenAddr :: string
  cc_Devices :: "DeviceConfig list"
  cc_Mqtt :: "Client_MqttConfig option"

section \<open>Points and devices\<close>

definition validFunctionCodes :: "int list" where
  "validFunctionCodes = [1, 2, 3, 4, 5, 6, 16]"

definition validDataTypes :: "string list" where
  "validDataTypes = [DataTypeBool, DataTypeInt16, DataTypeUint16, DataTypeInt32, DataTypeUint32, DataTypeFloat32]"

definition validByteOrders :: "string list" where
  "validByteOrders = [ByteOrderBigEndian, ByteOrderLittleEndian, ByteOrderMidLittleEndian, ByteOrderMidBigEndian]"

definition Point_Validate :: "ModbusPointConfig \<Rightarrow> go_error + ModbusPointConfig" where
  "Point_Validate p =
     (if pt_Name p = [] then Inl (ValidationError ''name'' ''point name cannot be empty'')
      else if pt_FunctionCode p \<notin> set validFunctionCodes
      then Inl (ValidationError ''function_code'' ''must be 1, 2, 3, 4, 5, 6, or 16'')
      else if pt_Access p = AccessReadOnly \<and> (pt_FunctionCode p = 5 \<or> pt_FunctionCode p = 6 \<or> pt_FunctionCode p = 16)
      then Inl (ValidationError ''access'' ''read-only access incompatible with write function codes'')
      else if pt_DataType p \<notin> set validDataTypes
      then Inl (ValidationError ''data_type'' ''must be bool, int16, uint16, int32, uint32, or float32'')
      else
        let multi = (pt_DataType p = DataTypeInt32 \<or> pt_DataType p = DataTypeUint32 \<or> pt_DataType p = DataTypeFloat32);
            p = (if multi \<and> pt_ByteOrder p = [] then p\<lparr>pt_ByteOrder := ByteOrderBigEndian\<rparr> else p)
        in if multi \<and> pt_ByteOrder p \<notin> set validByteOrders
           then Inl (ValidationError ''byte_order'' ''must be abcd, dcba, badc, or cdab'')
           else if \<not> multi \<and> pt_ByteOrder p \<noteq> [] \<and> pt_ByteOrder p \<noteq> ByteOrderBigEndian
           then Inl (ValidationError ''byte_order'' ''only applicable for multi-register types (int32, uint32, float32)'')
           else if pt_Quantity p \<le> 0 then Inl (ValidationError ''quantity'' ''must be greater than 0'')
           else Inr p)"

primrec validate_points :: "nat \<Rightarrow> ModbusPointConfig list \<Rightarrow> go_error + ModbusPointConfig list" where
  "validate_points i [] = Inr []"
| "validate_points i (p # ps) =
     (case Point_Validate p of
        Inl e \<Rightarrow> Inl (ValidationError (''points['' @ string_of_rune (48 + i) @ '']'') (error_text e))
      | Inr p \<Rightarrow> (case validate_points (Suc i) ps of Inl e \<Rightarrow> Inl e | Inr ps \<Rightarrow> Inr (p # ps)))"

definition Device_Validate :: "DeviceConfig \<Rightarrow> go_error + DeviceConfig" where
  "Device_Validate d =
     (if dv_Name d = [] then Inl (ValidationError ''name'' ''device name cannot be empty'')
      else if dv_Type d \<noteq> ConnectionTypeRTU \<and> dv_Type d \<noteq> ConnectionTypeTCP
      then Inl (ValidationError ''type'' (''must be '' @ [char_of (39 :: nat)] @ ''rtu'' @ [char_of (39 :: nat)]
                  @ '' or '' @ [char_of (39 :: nat)] @ ''tcp'' @ [char_of (39 :: nat)]))
      else if dv_Type d = ConnectionTypeRTU \<and> dv_RTU d = None
      then Inl (ValidationError ''rtu'' ''RTU config required when type=rtu'')
      else if dv_Type d = ConnectionTypeTCP \<and> dv_TCP d = None
      then Inl (ValidationError ''tcp'' ''TCP config required when type=tcp'')
      else if dv_SlaveID d \<le> 0 \<or> dv_SlaveID d > 247
      then Inl (ValidationError ''slave_id'' ''must be between 1 and 247'')
      else if length (dv_Points d) = 0 then Inl (ValidationError ''points'' ''at least one point required'')
      else (case validate_points 0 (dv_Points d) of
              Inl e \<Rightarrow> Inl e
            | Inr ps \<Rightarrow> Inr (d\<lparr>dv_Points := ps\<rparr>)))"

text \<open>The identifier of a device is made from how it is reached, not from its name.\<close>

definition Device_Hash :: "DeviceConfig \<Rightarrow> string + string" where
  "Device_Hash d =
     (if dv_Type d = ConnectionTypeRTU then
        (case dv_RTU d of
           None \<Rightarrow> Inl ''rtu config is nil''
         | Some rtu \<Rightarrow> Inr (EncodeToString (take 8 (Sum256 (s2b
             (''rtu:'' @ rtu_Port rtu @ '':'' @ Itoa (unat (dv_SlaveID d))))))))
      else if dv_Type d = ConnectionTypeTCP then
        (case dv_TCP d of
           None \<Rightarrow> Inl ''tcp config is nil''
         | Some tcp \<Rightarrow> Inr (EncodeToString (take 8 (Sum256 (s2b
             (''tcp:'' @ tcp_Host tcp @ '':'' @ FormatInt (tcp_Port tcp) @ '':'' @ Itoa (unat (dv_SlaveID d))))))))
      else Inl (''unsupported connection type: '' @ dv_Type d))"

definition HashPoint :: "string \<Rightarrow> string \<Rightarrow> string" where
  "HashPoint deviceName pointName = EncodeToString (take 8 (Sum256 (s2b (deviceName @ '':'' @ pointName))))"

definition HashDevice :: "string \<Rightarrow> string" where
  "HashDevice name = EncodeToString (take 8 (Sum256 (s2b name)))"

section \<open>MQTT devices\<close>

definition validateSource :: "string \<Rightarrow> go_error option" where
  "validateSource source =
     (if source = [] then Some (Plain ''cannot be empty; must be json:<path>, plain:, or kv:<key>'')
      else if HasPrefix source ''json:''
      then (if source = ''json:'' then Some (Plain ''json: path cannot be empty'') else None)
      else if source = ''plain:'' then None
      else if HasPrefix source ''kv:''
      then (if source = ''kv:'' then Some (Plain ''kv: key cannot be empty'') else None)
      else Some (Plain ''invalid format; must be json:<path>, plain:, or kv:<key>''))"

definition validateDataType :: "string \<Rightarrow> go_error option" where
  "validateDataType dt =
     (if dt = [] then Some (Plain ''cannot be empty'')
      else if dt \<in> set [DataTypeBool, DataTypeInt16, DataTypeUint16, DataTypeInt32, DataTypeUint32,
                     DataTypeFloat32, DataTypeFloat64, DataTypeJSON] then None
      else Some (Plain (''unsupported data_type: '' @ dt)))"

definition Topic_Validate :: "TopicConfig \<Rightarrow> go_error option" where
  "Topic_Validate t =
     (if tp_Topic t = [] then Some (ValidationError ''topic'' ''cannot be empty'')
      else if tp_PointName t = [] then Some (ValidationError ''point_name'' ''cannot be empty'')
      else if tp_QoS t > 2 then Some (ValidationError ''qos'' ''must be 0, 1, or 2'')
      else case validateSource (tp_Source t) of
        Some e \<Rightarrow> Some (ValidationError ''source'' (error_text e))
      | None \<Rightarrow> (case validateDataType (tp_DataType t) of
          Some e \<Rightarrow> Some (ValidationError ''data_type'' (error_text e))
        | None \<Rightarrow> None))"

primrec validate_topics :: "nat \<Rightarrow> TopicConfig list \<Rightarrow> go_error option" where
  "validate_topics i [] = None"
| "validate_topics i (t # ts) =
     (case Topic_Validate t of
        Some e \<Rightarrow> Some (Wrapped (''topics['' @ Itoa i @ '']'') e)
      | None \<Rightarrow> validate_topics (Suc i) ts)"

definition MQTTDevice_Validate :: "MQTTDeviceConfig \<Rightarrow> go_error option" where
  "MQTTDevice_Validate d =
     (if md_Name d = [] then Some (ValidationError ''name'' ''cannot be empty'')
      else if length (md_Topics d) = 0 then Some (ValidationError ''topics'' ''at least one topic required'')
      else validate_topics 0 (md_Topics d))"

primrec validate_mqtt_devices :: "nat \<Rightarrow> string list \<Rightarrow> MQTTDeviceConfig list \<Rightarrow> go_error option" where
  "validate_mqtt_devices i seen [] = None"
| "validate_mqtt_devices i seen (d # ds) =
     (case MQTTDevice_Validate d of
        Some e \<Rightarrow> Some (Wrapped (''mqtt.devices['' @ Itoa i @ '']'') e)
      | None \<Rightarrow>
          if md_Name d \<in> set seen
          then Some (ValidationError ''mqtt.devices'' (''duplicate device name: '' @ md_Name d))
          else validate_mqtt_devices (Suc i) (md_Name d # seen) ds)"

definition Mqtt_Validate :: "Client_MqttConfig \<Rightarrow> go_error option" where
  "Mqtt_Validate m =
     (if mb_BrokerAddr m = [] then Some (ValidationError ''mqtt.broker_addr'' ''cannot be empty'')
      else if length (mb_Devices m) = 0
      then Some (ValidationError ''mqtt.devices'' ''at least one device required when mqtt is configured'')
      else validate_mqtt_devices 0 [] (mb_Devices m))"

section \<open>The whole configuration\<close>

definition client_validLevels :: "string list" where
  "client_validLevels = [''debug'', ''info'', ''warn'', ''error'']"

definition Client_Validate :: "ClientConfig \<Rightarrow> go_error option" where
  "Client_Validate c =
     (let missing = (if cc_Sn c = [] then [''sn''] else []) @ (if cc_Token c = [] then [''token''] else [])
      in NewConfigValidationErrors
       ((if length missing > 0 then [NewConfigNotSetError missing] else [])
      @ (if cc_Port c \<le> 0 \<or> cc_Port c > 65535 then [NewConfigInvalidError ''port'' ''must be 1-65535''] else [])
      @ (if cc_LogLevel c \<notin> set client_validLevels
         then [NewConfigInvalidError ''log_level'' ''must be debug/info/warn/error''] else [])
      @ (if cc_MaxRetry c < 0 then [NewConfigInvalidError ''max_retry'' ''must be non-negative''] else [])
      @ (if cc_RetryInterval c < 0 then [NewConfigInvalidError ''retry_interval'' ''must be non-negative''] else [])
      @ (if cc_BufferSize c \<le> 0 then [NewConfigInvalidError ''buffer_size'' ''must be positive''] else [])
      @ (if cc_UploadBatchSize c \<le> 0 then [NewConfigInvalidError ''upload_batch_size'' ''must be positive''] else [])
      @ (if cc_UploadInterval c \<le> 0 then [NewConfigInvalidError ''upload_interval'' ''must be positive''] else [])
      @ (if pa_DataPath (cc_Paths c) = [] then [NewConfigInvalidError ''data_path'' ''cannot be empty''] else [])))"

primrec validate_devices :: "nat \<Rightarrow> DeviceConfig list \<Rightarrow> go_error + DeviceConfig list" where
  "validate_devices i [] = Inr []"
| "validate_devices i (d # ds) =
     (case Device_Validate d of
        Inl e \<Rightarrow> Inl (Wrapped (''device['' @ Itoa i @ ''] validation failed'') e)
      | Inr d \<Rightarrow> (case validate_devices (Suc i) ds of Inl e \<Rightarrow> Inl e | Inr ds \<Rightarrow> Inr (d # ds)))"

primrec duplicate_name :: "string list \<Rightarrow> DeviceConfig list \<Rightarrow> string option" where
  "duplicate_name seen [] = None"
| "duplicate_name seen (d # ds) =
     (if dv_Name d \<in> set seen then Some (dv_Name d) else duplicate_name (dv_Name d # seen) ds)"

definition InitClientConfig :: "go_error + ClientConfig \<Rightarrow>
    (go_error + DeviceConfig list) \<times> (go_error + Client_MqttConfig option) \<Rightarrow> bool \<Rightarrow> go_error + ClientConfig" where
  "InitClientConfig populated unmarshal can_unmarshal =
     (case populated of Inl e \<Rightarrow> Inl e | Inr cfg \<Rightarrow>
      case (if \<not> can_unmarshal then Inr cfg else
            case fst unmarshal of Inl e \<Rightarrow> Inl (Wrapped ''failed to unmarshal devices'' e) | Inr devices \<Rightarrow>
            case validate_devices 0 devices of Inl e \<Rightarrow> Inl e | Inr devices \<Rightarrow>
            case duplicate_name [] devices of
              Some n \<Rightarrow> Inl (Plain (''duplicate device name: '' @ n))
            | None \<Rightarrow> Inr (cfg\<lparr>cc_Devices := devices\<rparr>)) of
        Inl e \<Rightarrow> Inl e
      | Inr cfg \<Rightarrow>
      case (if \<not> can_unmarshal then Inr cfg else
            case snd unmarshal of Inl e \<Rightarrow> Inl (Wrapped ''failed to unmarshal mqtt config'' e)
            | Inr None \<Rightarrow> Inr cfg
            | Inr (Some m) \<Rightarrow>
                (case Mqtt_Validate m of
                   Some e \<Rightarrow> Inl (Wrapped ''mqtt config validation failed'' e)
                 | None \<Rightarrow> Inr (cfg\<lparr>cc_Mqtt := Some m\<rparr>))) of
        Inl e \<Rightarrow> Inl e
      | Inr cfg \<Rightarrow>
      case Client_Validate cfg of Some e \<Rightarrow> Inl e | None \<Rightarrow> Inr cfg)"

section \<open>What is accepted\<close>

definition multi_register :: "string \<Rightarrow> bool" where
  "multi_register dt \<longleftrightarrow> dt = DataTypeInt32 \<or> dt = DataTypeUint32 \<or> dt = DataTypeFloat32"

text \<open>A point as validation leaves it.\<close>

definition point_ok :: "ModbusPointConfig \<Rightarrow> bool" where
  "point_ok p \<longleftrightarrow> pt_Name p \<noteq> [] \<and> pt_FunctionCode p \<in> set validFunctionCodes
     \<and> \<not> (pt_Access p = AccessReadOnly \<and> pt_FunctionCode p \<in> {5, 6, 16})
     \<and> pt_DataType p \<in> set validDataTypes
     \<and> (if multi_register (pt_DataType p) then pt_ByteOrder p \<in> set validByteOrders
        else pt_ByteOrder p \<in> {[], ByteOrderBigEndian})
     \<and> pt_Quantity p \<noteq> 0"

definition device_ok :: "DeviceConfig \<Rightarrow> bool" where
  "device_ok d \<longleftrightarrow> dv_Name d \<noteq> [] \<and> dv_Points d \<noteq> [] \<and> list_all point_ok (dv_Points d)
     \<and> (dv_Type d = ConnectionTypeRTU \<and> dv_RTU d \<noteq> None \<or> dv_Type d = ConnectionTypeTCP \<and> dv_TCP d \<noteq> None)
     \<and> dv_SlaveID d \<noteq> 0 \<and> dv_SlaveID d \<le> 247"

lemma validByteOrders_BigEndian [simp]: "ByteOrderBigEndian \<in> set validByteOrders" "[] \<notin> set validByteOrders"
  by (simp_all add: validByteOrders_def ByteOrder_defs)

text \<open>The byte order a multi-register point gets when it has none.\<close>

definition with_order :: "ModbusPointConfig \<Rightarrow> ModbusPointConfig" where
  "with_order p = (if multi_register (pt_DataType p) \<and> pt_ByteOrder p = []
     then p\<lparr>pt_ByteOrder := ByteOrderBigEndian\<rparr> else p)"

lemma with_order_fields [simp]:
  "pt_Name (with_order p) = pt_Name p" "pt_FunctionCode (with_order p) = pt_FunctionCode p"
  "pt_Access (with_order p) = pt_Access p" "pt_DataType (with_order p) = pt_DataType p"
  "pt_Quantity (with_order p) = pt_Quantity p" "pt_Address (with_order p) = pt_Address p"
  by (simp_all add: with_order_def)

lemma with_order_ok: "point_ok p \<Longrightarrow> with_order p = p"
  by (cases "multi_register (pt_DataType p)") (auto simp: point_ok_def with_order_def)

lemma Point_Validate_iff: "Point_Validate p = Inr q \<longleftrightarrow> q = with_order p \<and> point_ok q"
proof -
  let ?ro = "pt_Access p = AccessReadOnly \<and> (pt_FunctionCode p = 5 \<or> pt_FunctionCode p = 6 \<or> pt_FunctionCode p = 16)"
  note fold = Point_Validate_def Let_def multi_register_def [symmetric]
  show ?thesis
  proof (cases "pt_Name p = [] \<or> pt_FunctionCode p \<notin> set validFunctionCodes \<or> ?ro \<or> pt_DataType p \<notin> set validDataTypes")
    case True
    then have "\<not> point_ok (with_order p)" by (simp only: point_ok_def with_order_fields) blast
    moreover have "Point_Validate p \<noteq> Inr q"
      using True unfolding Point_Validate_def by (elim disjE) simp_all
    ultimately show ?thesis by blast
  next
    case False
    then show ?thesis
      by (cases "multi_register (pt_DataType p)"; cases "pt_ByteOrder p = []")
         (auto simp: fold point_ok_def with_order_def)
  qed
qed

lemma Point_Validate_id: "point_ok p \<Longrightarrow> Point_Validate p = Inr p"
  using Point_Validate_iff [of p p] with_order_ok by simp

lemma validate_points_ok: "validate_points i ps = Inr qs \<Longrightarrow> list_all point_ok qs \<and> length qs = length ps"
  by (induction ps arbitrary: i qs) (auto split: sum.splits simp: Point_Validate_iff)

lemma validate_points_id: "list_all point_ok ps \<Longrightarrow> validate_points i ps = Inr ps"
  by (induction ps arbitrary: i) (simp_all add: Point_Validate_id)

lemma Device_Validate_ok: "Device_Validate d = Inr e \<Longrightarrow> device_ok e \<and> dv_Name e = dv_Name d"
  by (auto simp: Device_Validate_def device_ok_def not_less split: if_splits sum.splits
      dest!: validate_points_ok)

lemma Device_Validate_id: "device_ok d \<Longrightarrow> Device_Validate d = Inr d"
  by (auto simp: Device_Validate_def device_ok_def not_less validate_points_id ConnectionType_defs)

lemma device_ok_hash: "device_ok d \<Longrightarrow> \<exists>h. Device_Hash d = Inr h"
  by (auto simp: device_ok_def Device_Hash_def ConnectionType_defs)

lemma validate_devices_ok:
  "validate_devices i ds = Inr es \<Longrightarrow> list_all device_ok es \<and> map dv_Name es = map dv_Name ds"
  by (induction ds arbitrary: i es) (auto split: sum.splits dest: Device_Validate_ok)

lemma validate_devices_id: "list_all device_ok ds \<Longrightarrow> validate_devices i ds = Inr ds"
  by (induction ds arbitrary: i) (simp_all add: Device_Validate_id)

lemma duplicate_name_None: "duplicate_name seen ds = None \<longleftrightarrow> distinct (map dv_Name ds) \<and> set (map dv_Name ds) \<inter> set seen = {}"
  by (induction ds arbitrary: seen) auto

text \<open>Topics and MQTT devices.\<close>

definition topic_ok :: "TopicConfig \<Rightarrow> bool" where
  "topic_ok t \<longleftrightarrow> tp_Topic t \<noteq> [] \<and> tp_PointName t \<noteq> [] \<and> tp_QoS t \<le> 2
     \<and> validateSource (tp_Source t) = None \<and> validateDataType (tp_DataType t) = None"

lemma Topic_Validate_None: "Topic_Validate t = None \<longleftrightarrow> topic_ok t"
  by (auto simp: Topic_Validate_def topic_ok_def not_less split: option.splits)

lemma validate_topics_None: "validate_topics i ts = None \<longleftrightarrow> list_all topic_ok ts"
  by (induction ts arbitrary: i) (auto simp flip: Topic_Validate_None split: option.split)

definition mqtt_device_ok :: "MQTTDeviceConfig \<Rightarrow> bool" where
  "mqtt_device_ok d \<longleftrightarrow> md_Name d \<noteq> [] \<and> md_Topics d \<noteq> [] \<and> list_all topic_ok (md_Topics d)"

lemma MQTTDevice_Validate_None: "MQTTDevice_Validate d = None \<longleftrightarrow> mqtt_device_ok d"
  by (simp add: MQTTDevice_Validate_def mqtt_device_ok_def validate_topics_None)

lemma validate_mqtt_devices_None:
  "validate_mqtt_devices i seen ds = None \<longleftrightarrow>
     list_all mqtt_device_ok ds \<and> distinct (map md_Name ds) \<and> set (map md_Name ds) \<inter> set seen = {}"
  by (induction ds arbitrary: i seen)
     (auto simp flip: MQTTDevice_Validate_None split: option.splits if_splits)

definition mqtt_ok :: "Client_MqttConfig \<Rightarrow> bool" where
  "mqtt_ok m \<longleftrightarrow> mb_BrokerAddr m \<noteq> [] \<and> mb_Devices m \<noteq> [] \<and> list_all mqtt_device_ok (mb_Devices m)
     \<and> distinct (map md_Name (mb_Devices m))"

lemma Mqtt_Validate_None: "Mqtt_Validate m = None \<longleftrightarrow> mqtt_ok m"
  by (simp add: Mqtt_Validate_def mqtt_ok_def validate_mqtt_devices_None)

definition scalars_ok :: "ClientConfig \<Rightarrow> bool" where
  "scalars_ok c \<longleftrightarrow> cc_Sn c \<noteq> [] \<and> cc_Token c \<noteq> [] \<and> 1 \<le> cc_Port c \<and> cc_Port c \<le> 65535
     \<and> cc_LogLevel c \<in> set client_validLevels \<and> 0 \<le> cc_MaxRetry c \<and> 0 \<le> cc_RetryInterval c
     \<and> 1 \<le> cc_BufferSize c \<and> 1 \<le> cc_UploadBatchSize c \<and> 1 \<le> cc_UploadInterval c \<and> pa_DataPath (cc_Paths c) \<noteq> []"

lemma Client_Validate_None: "Client_Validate c = None \<longleftrightarrow> scalars_ok c"
  by (auto simp: Client_Validate_def scalars_ok_def Let_def)

lemma scalars_ok_upd [simp]:
  "scalars_ok (c\<lparr>cc_Devices := ds\<rparr>) = scalars_ok c" "scalars_ok (c\<lparr>cc_Mqtt := m\<rparr>) = scalars_ok c"
  by (simp_all add: scalars_ok_def)

definition sample_cfg :: ClientConfig where
  "sample_cfg = \<lparr>cc_ServerUrl = ''h'', cc_Port = 8883, cc_LogLevel = ''info'', cc_Sn = ''s'', cc_Token = ''t'',
     cc_MaxRetry = 10, cc_RetryInterval = 5000, cc_BufferSize = 1000, cc_UploadBatchSize = 100, cc_UploadInterval = 5000,
     cc_Paths = \<lparr>pa_LogPath = ''l'', pa_DataPath = ''d'', pa_LogMaxSize = 10, pa_LogMaxBackups = 3, pa_LogMaxAge = 28\<rparr>,
     cc_ControlListenAddr = ''c'', cc_Devices = [], cc_Mqtt = None\<rparr>"

definition sample_point :: ModbusPointConfig where
  "sample_point = \<lparr>pt_Name = ''p'', pt_FunctionCode = 3, pt_Address = 0, pt_Quantity = 2, pt_DataType = DataTypeInt32,
     pt_ByteOrder = ByteOrderBigEndian, pt_Scale = f_one, pt_Offset = f_zero, pt_Unit = [], pt_Access = AccessReadWrite,
     pt_CacheEnabled = True\<rparr>"

definition sample_device :: DeviceConfig where
  "sample_device = \<lparr>dv_Name = ''dev'', dv_Type = ConnectionTypeTCP, dv_Timeout = 0, dv_OfflineThreshold = 0,
     dv_EnableMonitor = False, dv_RTU = None, dv_TCP = Some \<lparr>tcp_Host = ''h'', tcp_Port = 502\<rparr>, dv_SlaveID = 1,
     dv_Points = [sample_point], dv_PollInterval = 1000000000\<rparr>"

section \<open>Properties\<close>

text \<open>
  C26. The gateway starts with exactly the configurations whose devices validate, have names of their
  own and are kept as validation leaves them, whose MQTT part is well formed, and whose scalar fields
  are in range. Every accepted device has an identifier, a connection of its type and valid points,
  and an accepted configuration is accepted again unchanged.
\<close>

theorem InitClientConfig_sound:
  assumes "InitClientConfig (Inr cfg) (Inr devices, Inr mqtt) True = Inr c"
  shows "scalars_ok c \<and> distinct (map dv_Name (cc_Devices c)) \<and> map dv_Name (cc_Devices c) = map dv_Name devices
    \<and> (\<forall>d \<in> set (cc_Devices c). device_ok d \<and> (\<exists>h. Device_Hash d = Inr h))
    \<and> (\<forall>m. mqtt = Some m \<longrightarrow> cc_Mqtt c = Some m \<and> mqtt_ok m)
    \<and> InitClientConfig (Inr c) (Inr (cc_Devices c), Inr mqtt) True = Inr c"
proof -
  obtain ds where ds: "validate_devices 0 devices = Inr ds" "duplicate_name [] ds = None"
    using assms by (auto simp: InitClientConfig_def split: sum.splits option.splits)
  let ?c = "cfg\<lparr>cc_Devices := ds\<rparr>"
  have m: "\<forall>m. mqtt = Some m \<longrightarrow> mqtt_ok m" and c: "c = (case mqtt of None \<Rightarrow> ?c | Some m \<Rightarrow> ?c\<lparr>cc_Mqtt := Some m\<rparr>)"
    and sc: "scalars_ok c"
    using assms ds by (auto simp: InitClientConfig_def Mqtt_Validate_None [symmetric] Client_Validate_None [symmetric]
        split: option.splits)
  have devs: "cc_Devices c = ds" "\<forall>m. mqtt = Some m \<longrightarrow> cc_Mqtt c = Some m" using c by (auto split: option.splits)
  note ok = validate_devices_ok [OF ds(1)]
  have dist: "distinct (map dv_Name ds)" using ds(2) by (simp add: duplicate_name_None)
  have val: "validate_devices 0 ds = Inr ds" using ok validate_devices_id by blast
  have cd: "c\<lparr>cc_Devices := ds\<rparr> = c" using devs(1) by simp
  have cv: "Client_Validate c = None" using sc by (simp add: Client_Validate_None)
  have "InitClientConfig (Inr c) (Inr ds, Inr mqtt) True = Inr c"
  proof (cases mqtt)
    case None
    then show ?thesis by (simp add: InitClientConfig_def val ds(2) cd cv)
  next
    case (Some q)
    then have "c\<lparr>cc_Mqtt := Some q\<rparr> = c" "Mqtt_Validate q = None" using devs(2) m by (simp_all add: Mqtt_Validate_None)
    with Some show ?thesis by (simp add: InitClientConfig_def val ds(2) cd cv)
  qed
  then show ?thesis using ok dist sc m devs device_ok_hash unfolding list_all_iff by metis
qed

theorem InitClientConfig_sound_witness:
  "InitClientConfig (Inr sample_cfg) (Inr [sample_device\<lparr>dv_Points := [sample_point\<lparr>pt_ByteOrder := []\<rparr>]\<rparr>], Inr None) True
     = Inr (sample_cfg\<lparr>cc_Devices := [sample_device]\<rparr>)
   \<and> device_ok sample_device \<and> (\<exists>h. Device_Hash sample_device = Inr h)"
proof -
  have "point_ok sample_point"
    by (simp add: point_ok_def sample_point_def validFunctionCodes_def validDataTypes_def multi_register_def
        validByteOrders_def AccessReadOnly_def AccessReadWrite_def)
  moreover have "with_order (sample_point\<lparr>pt_ByteOrder := []\<rparr>) = sample_point"
    by (simp add: with_order_def multi_register_def sample_point_def)
  ultimately have pv: "Point_Validate (sample_point\<lparr>pt_ByteOrder := []\<rparr>) = Inr sample_point"
    by (simp add: Point_Validate_iff)
  let ?d = "sample_device\<lparr>dv_Points := [sample_point\<lparr>pt_ByteOrder := []\<rparr>]\<rparr>"
  have "Device_Validate ?d = Inr (?d\<lparr>dv_Points := [sample_point]\<rparr>)"
    by (simp add: Device_Validate_def pv sample_device_def ConnectionType_defs)
  moreover have "?d\<lparr>dv_Points := [sample_point]\<rparr> = sample_device" by (simp add: sample_device_def)
  ultimately have dv: "Device_Validate ?d = Inr sample_device" by simp
  have "Client_Validate (sample_cfg\<lparr>cc_Devices := [sample_device]\<rparr>) = None"
    by (simp add: Client_Validate_None scalars_ok_def sample_cfg_def client_validLevels_def)
  then have run: "InitClientConfig (Inr sample_cfg) (Inr [?d], Inr None) True = Inr (sample_cfg\<lparr>cc_Devices := [sample_device]\<rparr>)"
    by (simp add: InitClientConfig_def dv)
  from InitClientConfig_sound [OF run] run show ?thesis by simp
qed

end
