(* ===== verification/Client.thy ===== *)
theory Client
  imports Frame ClientStore ClientConfig
begin

text \<open>
  \<^verbatim>\<open>internal/client/client.go\<close>: the gateway's side of the tunnel. The goroutine of a session writes
  (uploads, heartbeats, notifications) and waits; the read loop is a second goroutine that hands each
  message to the channel registered for its type.

  The state of a session is \<open>client\<close>: the local store, the connection, the message factory, the read
  loop, the router with its channels, the counter of timeouts. The channels are in a list and are
  named by their position, because the router and the session share them. What the code leaves to the
  runtime is in \<open>client_env\<close>, by the tick at which it is asked: the clock, whether the context is
  cancelled, how many steps the read loop makes before a wait ends, and which ready case of a
  \<^verbatim>\<open>select\<close> is taken. Logging is left out.
\<close>

section \<open>Channels and the router\<close>

record channel =
  ch_cap :: nat
  ch_buf :: "Packable list"

record msgRouter =
  routes :: "u8 \<rightharpoonup> nat"

definition newMsgRouter :: msgRouter where
  "newMsgRouter = \<lparr>routes = Map.empty\<rparr>"

definition router_register :: "msgRouter \<Rightarrow> u8 \<Rightarrow> nat \<Rightarrow> msgRouter" where
  "router_register r msgType ch = r\<lparr>routes := (routes r)(msgType \<mapsto> ch)\<rparr>"

definition router_unregister :: "msgRouter \<Rightarrow> u8 \<Rightarrow> msgRouter" where
  "router_unregister r msgType = r\<lparr>routes := (routes r)(msgType := None)\<rparr>"

text \<open>Sending on a full channel and receiving from an empty one block (\<open>None\<close>).\<close>

definition chan_send :: "channel list \<Rightarrow> nat \<Rightarrow> Packable \<Rightarrow> channel list option" where
  "chan_send chs i p =
     (let ch = chs ! i in
      if length (ch_buf ch) < ch_cap ch then Some (chs[i := ch\<lparr>ch_buf := ch_buf ch @ [p]\<rparr>]) else None)"

definition chan_recv :: "channel list \<Rightarrow> nat \<Rightarrow> (Packable \<times> channel list) option" where
  "chan_recv chs i =
     (case ch_buf (chs ! i) of
        [] \<Rightarrow> None
      | p # ps \<Rightarrow> Some (p, chs[i := (chs ! i)\<lparr>ch_buf := ps\<rparr>]))"

section \<open>The state of a session\<close>

text \<open>The read loop is reading, blocked in a send, or has ended and closed \<^verbatim>\<open>connDead\<close>; a panic in it ends the program.\<close>

datatype reader = Reads | Blocked nat Packable | Dead | Crashed

datatype fires = OnMessage | OnTimer | OnDone

record client_env =
  ce_clock :: "nat \<Rightarrow> int"
  ce_done :: "nat \<Rightarrow> bool"
  ce_steps :: "nat \<Rightarrow> nat"
  ce_fires :: "nat \<Rightarrow> fires"

record 's client =
  cl_store :: 's
  cl_conn :: conn
  cl_factory :: MsgFactory
  cl_reader :: reader
  cl_router :: msgRouter
  cl_chans :: "channel list"
  cl_timeouts :: int
  cl_ticks :: nat

definition uploadWindowSize :: nat where "uploadWindowSize = 3"
definition maxConsecutiveAllTimeout :: int where "maxConsecutiveAllTimeout = 3"

definition ctick :: "'s client \<Rightarrow> 's client" where
  "ctick cl = cl\<lparr>cl_ticks := cl_ticks cl + 1\<rparr>"

section \<open>The read loop\<close>

definition dispatch :: "u8 \<Rightarrow> Packable \<Rightarrow> 's client \<Rightarrow> 's client" where
  "dispatch msgType payload cl =
     (case routes (cl_router cl) msgType of
        None \<Rightarrow> cl
      | Some ch \<Rightarrow>
         (case chan_send (cl_chans cl) ch payload of
            Some chs \<Rightarrow> cl\<lparr>cl_chans := chs\<rparr>
          | None \<Rightarrow> cl\<lparr>cl_reader := Blocked ch payload\<rparr>))"

text \<open>One round of the loop, or one attempt at a send that blocks.\<close>

definition readLoop_step :: "'s client \<Rightarrow> 's client" where
  "readLoop_step cl =
     (case cl_reader cl of
        Reads \<Rightarrow>
         (case DecodeFrame (cl_conn cl) of
            Panic \<Rightarrow> cl\<lparr>cl_reader := Crashed\<rparr>
          | Fail e \<Rightarrow> cl\<lparr>cl_reader := Dead\<rparr>
          | Ret (m, c) \<Rightarrow>
              let cl = cl\<lparr>cl_conn := (cl_conn cl)\<lparr>c_in := c_in c\<rparr>\<rparr> in
              case ParseMsg m of
                Panic \<Rightarrow> cl\<lparr>cl_reader := Crashed\<rparr>
              | Fail e \<Rightarrow> cl
              | Ret parsed \<Rightarrow> dispatch (m_Type m) parsed cl)
      | Blocked ch p \<Rightarrow>
         (case chan_send (cl_chans cl) ch p of
            Some chs \<Rightarrow> cl\<lparr>cl_chans := chs, cl_reader := Reads\<rparr>
          | None \<Rightarrow> cl)
      | Dead \<Rightarrow> cl
      | Crashed \<Rightarrow> cl)"

definition readLoop :: "nat \<Rightarrow> 's client \<Rightarrow> 's client" where
  "readLoop n cl = (readLoop_step ^^ n) cl"

text \<open>
  A wait for a channel, with a timer and perhaps the context: the read loop goes on in the meantime;
  if no message is there and the context is not what ends it, the timer does.
\<close>

datatype wait_result = Received Packable | TimedOut | Cancelled

definition await :: "client_env \<Rightarrow> bool \<Rightarrow> nat \<Rightarrow> 's client \<Rightarrow> wait_result \<times> 's client" where
  "await env watches_ctx ch cl =
     (let t = cl_ticks cl;
          cl = ctick (readLoop (ce_steps env t) cl)
      in if watches_ctx \<and> ce_fires env t = OnDone \<and> ce_done env t then (Cancelled, cl)
         else if ce_fires env t = OnTimer then (TimedOut, cl)
         else case chan_recv (cl_chans cl) ch of
                Some (p, chs) \<Rightarrow> (Received p, cl\<lparr>cl_chans := chs\<rparr>)
              | None \<Rightarrow> (TimedOut, cl))"

section \<open>Uploads\<close>

datatype session_error =
    ConnectFailed | HandshakeBuild payload_error | HandshakeSend | HandshakeReadError frame_error
  | UnexpectedResponse u8 | HandshakeParse parse_error | UnexpectedPayload | HandshakeRejected u8
  | ConnectionLost | NotifyBuild payload_error | NotifyWrite
  | HeartbeatBuild payload_error | HeartbeatWrite | HeartbeatTimeout
  | BuildUpload payload_error | MarkUploading | WriteUpload | UploadCancelled | TooManyTimeouts int

definition mark :: "client_env \<Rightarrow> 's cache_ops \<Rightarrow> u64 list \<Rightarrow> UploadStatus \<Rightarrow> 's client \<Rightarrow> bool \<times> 's client" where
  "mark env ops ids status cl =
     (let (ok, s) = cs_UpdateReadingsStatus ops (ce_done env (cl_ticks cl)) (cl_store cl) ids status
      in (ok, (ctick cl)\<lparr>cl_store := s\<rparr>))"

text \<open>What follows the wait for the ack of a batch.\<close>

definition upload_ack :: "client_env \<Rightarrow> 's cache_ops \<Rightarrow> u64 list \<Rightarrow> wait_result \<times> 's client
    \<Rightarrow> (session_error, unit) go \<times> 's client" where
  "upload_ack env ops batchIDs w =
     (case w of
        (Received (PAck ackPayload), cl) \<Rightarrow>
          if ack_Code ackPayload = code_Ok
          then (Ret (), (snd (mark env ops batchIDs UploadSent cl))\<lparr>cl_timeouts := 0\<rparr>)
          else (Ret (), snd (mark env ops batchIDs UploadNotSent cl))
      | (Received _, cl) \<Rightarrow> (Panic, cl)
      | (TimedOut, cl) \<Rightarrow>
          let cl = snd (mark env ops batchIDs UploadNotSent cl)
          in (Ret (), cl\<lparr>cl_timeouts := cl_timeouts cl + 1\<rparr>)
      | (Cancelled, cl) \<Rightarrow> (Fail UploadCancelled, cl))"

text \<open>\<^verbatim>\<open>Encode\<close> never returns an error, so its error branch is left out.\<close>

definition upload_batch :: "client_env \<Rightarrow> 's cache_ops \<Rightarrow> nat \<Rightarrow> Msg \<Rightarrow> u64 list \<Rightarrow> 's client
    \<Rightarrow> (session_error, unit) go \<times> 's client" where
  "upload_batch env ops ackCh uploadMsg batchIDs cl =
     (case mark env ops batchIDs UploadSending cl of
        (False, cl) \<Rightarrow> (Fail MarkUploading, cl)
      | (True, cl) \<Rightarrow>
         (case conn_Write (cl_conn cl) (fst (Msg_Encode uploadMsg)) of
            (False, c) \<Rightarrow> (Fail WriteUpload, snd (mark env ops batchIDs UploadFailed (cl\<lparr>cl_conn := c\<rparr>)))
          | (True, c) \<Rightarrow> upload_ack env ops batchIDs (await env True ackCh (cl\<lparr>cl_conn := c\<rparr>))))"

lemma two_or_more: "xs \<noteq> [] \<Longrightarrow> length xs \<noteq> Suc 0 \<Longrightarrow> 0 < length xs div 2"
  using length_0_conv [of xs] by linarith

function uploadReadings :: "client_env \<Rightarrow> 's cache_ops \<Rightarrow> CachedReading list \<Rightarrow> int \<Rightarrow> nat \<Rightarrow> 's client
    \<Rightarrow> (session_error, unit) go \<times> 's client" where
  "uploadReadings env ops readings maxPayloadSize ackCh cl =
     (if readings = [] then (Ret (), cl)
      else
        let batch = map the_reading readings;
            batchIDs = map r_ID readings
        in case NewMsg (cl_factory cl) (ce_clock env (cl_ticks cl)) MsgTypeUpload (PUpload \<lparr>up_Readings = batch\<rparr>) of
             Panic \<Rightarrow> (Panic, cl)
           | Fail e \<Rightarrow> (Fail (BuildUpload e), snd (mark env ops batchIDs UploadFailed cl))
           | Ret (uploadMsg, f) \<Rightarrow>
               let cl = (ctick cl)\<lparr>cl_factory := f\<rparr> in
               if uint (m_PayloadLen uploadMsg) > maxPayloadSize then
                 if length readings = 1 then (Ret (), snd (mark env ops batchIDs UploadFailed cl))
                 else
                   let mid = length readings div 2 in
                   case uploadReadings env ops (take mid readings) maxPayloadSize ackCh cl of
                     (Ret _, cl) \<Rightarrow> uploadReadings env ops (drop mid readings) maxPayloadSize ackCh cl
                   | (r, cl) \<Rightarrow> (r, cl)
               else upload_batch env ops ackCh uploadMsg batchIDs cl)"
  by pat_completeness auto
termination
  by (relation "measure (\<lambda>(env, ops, readings, max, ch, cl). length readings)") (auto simp: two_or_more)

declare uploadReadings.simps [simp del]

section \<open>Heartbeats and notifications\<close>

definition sendHeartbeat :: "client_env \<Rightarrow> 's client \<Rightarrow> (session_error, unit) go \<times> 's client" where
  "sendHeartbeat env cl =
     (let ch = length (cl_chans cl);
          cl = cl\<lparr>cl_chans := cl_chans cl @ [\<lparr>ch_cap = 1, ch_buf = []\<rparr>],
                  cl_router := router_register (cl_router cl) MsgTypeHeartbeatAck ch\<rparr>;
          unregister = (\<lambda>cl. cl\<lparr>cl_router := router_unregister (cl_router cl) MsgTypeHeartbeatAck\<rparr>)
      in case NewMsg (cl_factory cl) (ce_clock env (cl_ticks cl)) MsgTypeHeartbeat PHeartbeat of
           Panic \<Rightarrow> (Panic, cl)
         | Fail e \<Rightarrow> (Fail (HeartbeatBuild e), unregister cl)
         | Ret (hbMsg, f) \<Rightarrow>
             let cl = (ctick cl)\<lparr>cl_factory := f\<rparr> in
             case conn_Write (cl_conn cl) (fst (Msg_Encode hbMsg)) of
               (False, c) \<Rightarrow> (Fail HeartbeatWrite, unregister (cl\<lparr>cl_conn := c\<rparr>))
             | (True, c) \<Rightarrow>
                (case await env False ch (cl\<lparr>cl_conn := c\<rparr>) of
                   (Received _, cl) \<Rightarrow> (Ret (), unregister cl)
                 | (_, cl) \<Rightarrow> (Fail HeartbeatTimeout, unregister cl)))"

definition sendNotify :: "client_env \<Rightarrow> NotifyPayload \<Rightarrow> 's client \<Rightarrow> (session_error, unit) go \<times> 's client" where
  "sendNotify env payload cl =
     (case NewMsg (cl_factory cl) (ce_clock env (cl_ticks cl)) MsgTypeNotify (PNotify payload) of
        Panic \<Rightarrow> (Panic, cl)
      | Fail e \<Rightarrow> (Fail (NotifyBuild e), cl)
      | Ret (m, f) \<Rightarrow>
          let cl = (ctick cl)\<lparr>cl_factory := f\<rparr>;
              (ok, c) = conn_Write (cl_conn cl) (fst (Msg_Encode m))
          in (if ok then Ret () else Fail NotifyWrite, cl\<lparr>cl_conn := c\<rparr>))"

section \<open>Handshake\<close>

definition performHandshake :: "client_env \<Rightarrow> ClientConfig \<Rightarrow> MsgFactory \<Rightarrow> nat \<Rightarrow> conn
    \<Rightarrow> (session_error, conn \<times> MsgFactory) go" where
  "performHandshake env cfg f t c =
     (case NewMsg f (ce_clock env t) MsgTypeHandshake
        (PHandshake \<lparr>hs_FirmwareVersion = 1, hs_Sn = cc_Sn cfg, hs_Token = cc_Token cfg\<rparr>) of
        Panic \<Rightarrow> Panic
      | Fail e \<Rightarrow> Fail (HandshakeBuild e)
      | Ret (hsMsg, f) \<Rightarrow>
         (case conn_Write c (fst (Msg_Encode hsMsg)) of
            (False, c) \<Rightarrow> Fail HandshakeSend
          | (True, c) \<Rightarrow>
             (case DecodeFrame c of
                Panic \<Rightarrow> Panic
              | Fail e \<Rightarrow> Fail (HandshakeReadError e)
              | Ret (respMsg, c) \<Rightarrow>
                  if m_Type respMsg \<noteq> MsgTypeHandshakeAck then Fail (UnexpectedResponse (m_Type respMsg))
                  else case ParseMsg respMsg of
                    Panic \<Rightarrow> Panic
                  | Fail e \<Rightarrow> Fail (HandshakeParse e)
                  | Ret (PAck ack) \<Rightarrow>
                      if ack_Code ack \<noteq> code_Ok then Fail (HandshakeRejected (ack_Code ack)) else Ret (c, f)
                  | Ret _ \<Rightarrow> Fail UnexpectedPayload)))"

section \<open>Dialling\<close>

definition Millisecond :: u64 where "Millisecond = 1000000"
definition Second :: u64 where "Second = 1000000000"

text \<open>\<^verbatim>\<open>baseInterval * time.Duration(1<<uint(attempt))\<close> on 64 bits, then the comparison of signed numbers.\<close>

definition backoff :: "int \<Rightarrow> nat \<Rightarrow> u64" where
  "backoff retryInterval attempt =
     (let baseInterval = word_of_int retryInterval * Millisecond;
          b = baseInterval * push_bit attempt 1
      in if sint b > sint (60 * Second) then 60 * Second else b)"

text \<open>
  \<open>dial n\<close> is what the \<open>n\<close>-th call of \<^verbatim>\<open>net.DialTimeout\<close> gives. The result comes with the waits in
  between; \<open>cancelled n\<close> says whether the context is cancelled at the \<open>n\<close>-th check, the first of an
  attempt or during its wait.
\<close>

datatype dial_result = Connected conn | DialCancelled | GaveUp

fun dial_attempts :: "(nat \<Rightarrow> conn option) \<Rightarrow> (nat \<Rightarrow> bool) \<Rightarrow> int \<Rightarrow> nat \<Rightarrow> nat \<Rightarrow> u64 list \<Rightarrow> dial_result \<times> u64 list" where
  "dial_attempts dial cancelled retryInterval 0 attempt waits = (GaveUp, waits)"
| "dial_attempts dial cancelled retryInterval (Suc left) attempt waits =
     (if cancelled (2 * attempt) then (DialCancelled, waits)
      else case dial attempt of
        Some conn \<Rightarrow> (Connected conn, waits)
      | None \<Rightarrow>
          let waits = waits @ [backoff retryInterval attempt] in
          if cancelled (2 * attempt + 1) then (DialCancelled, waits)
          else dial_attempts dial cancelled retryInterval left (Suc attempt) waits)"

definition dialWithRetry :: "(nat \<Rightarrow> conn option) \<Rightarrow> (nat \<Rightarrow> bool) \<Rightarrow> ClientConfig \<Rightarrow> dial_result \<times> u64 list" where
  "dialWithRetry dial cancelled cfg =
     dial_attempts dial cancelled (cc_RetryInterval cfg) (nat (cc_MaxRetry cfg)) 0 []"

section \<open>The session\<close>

text \<open>The cases of the session's \<^verbatim>\<open>select\<close>; a case that is not ready is not taken.\<close>

datatype session_event = CtxDone | ConnDead | Notify NotifyPayload | HeartbeatTick | UploadTick

datatype outcome = Running | Ended "session_error option" | Crash

definition maxPayloadSize :: int where "maxPayloadSize = 65535"

text \<open>The channel of upload acks is the first one.\<close>

definition uploadAckCh :: nat where "uploadAckCh = 0"

definition result_outcome :: "(session_error, unit) go \<times> 's client \<Rightarrow> outcome \<times> 's client" where
  "result_outcome r =
     (case r of (Ret _, cl) \<Rightarrow> (Running, cl) | (Fail e, cl) \<Rightarrow> (Ended (Some e), cl) | (Panic, cl) \<Rightarrow> (Crash, cl))"

definition session_step :: "client_env \<Rightarrow> 's cache_ops \<Rightarrow> ClientConfig \<Rightarrow> session_event \<Rightarrow> 's client
    \<Rightarrow> outcome \<times> 's client" where
  "session_step env ops cfg ev cl =
     (let t = cl_ticks cl;
          cl = ctick (readLoop (ce_steps env t) cl)
      in if cl_reader cl = Crashed then (Crash, cl)
         else case ev of
           CtxDone \<Rightarrow> if ce_done env t then (Ended None, cl) else (Running, cl)
         | ConnDead \<Rightarrow> if cl_reader cl = Dead then (Ended (Some ConnectionLost), cl) else (Running, cl)
         | Notify n \<Rightarrow> result_outcome (sendNotify env n cl)
         | HeartbeatTick \<Rightarrow> result_outcome (sendHeartbeat env cl)
         | UploadTick \<Rightarrow>
            (case cs_LoadPendingReadings ops (ce_done env (cl_ticks cl)) (cl_store cl) (cc_UploadBatchSize cfg) of
               None \<Rightarrow> (Running, cl)
             | Some readings \<Rightarrow>
                 if length readings = 0 then (Running, cl)
                 else case uploadReadings env ops readings maxPayloadSize uploadAckCh cl of
                   (Ret _, cl) \<Rightarrow>
                     if cl_timeouts cl \<ge> maxConsecutiveAllTimeout
                     then (Ended (Some (TooManyTimeouts (cl_timeouts cl))), cl) else (Running, cl)
                 | r \<Rightarrow> result_outcome r))"

primrec session_loop :: "client_env \<Rightarrow> 's cache_ops \<Rightarrow> ClientConfig \<Rightarrow> session_event list \<Rightarrow> 's client
    \<Rightarrow> outcome \<times> 's client" where
  "session_loop env ops cfg [] cl = (Running, cl)"
| "session_loop env ops cfg (ev # evs) cl =
     (case session_step env ops cfg ev cl of
        (Running, cl) \<Rightarrow> session_loop env ops cfg evs cl
      | (out, cl) \<Rightarrow> (out, cl))"

definition new_session :: "'s \<Rightarrow> conn \<Rightarrow> MsgFactory \<Rightarrow> nat \<Rightarrow> 's client" where
  "new_session s c f t =
     \<lparr>cl_store = s, cl_conn = c, cl_factory = f, cl_reader = Reads,
      cl_router = router_register newMsgRouter MsgTypeUploadAck uploadAckCh,
      cl_chans = [\<lparr>ch_cap = uploadWindowSize, ch_buf = []\<rparr>], cl_timeouts = 0, cl_ticks = t\<rparr>"

text \<open>
  A session from the dialling to its end, over the events its \<^verbatim>\<open>select\<close> takes. It gives the store, and
  the writes of the connection.
\<close>

definition runSession :: "client_env \<Rightarrow> 's cache_ops \<Rightarrow> ClientConfig \<Rightarrow> dial_result \<Rightarrow> session_event list
    \<Rightarrow> 's \<Rightarrow> nat \<Rightarrow> outcome \<times> 's \<times> nat" where
  "runSession env ops cfg dialled evs s t =
     (case dialled of
        Connected c \<Rightarrow>
         (case performHandshake env cfg NewMsgFactory t c of
            Panic \<Rightarrow> (Crash, s, t + 1)
          | Fail e \<Rightarrow> (Ended (Some e), s, t + 1)
          | Ret (c, f) \<Rightarrow>
             (case session_loop env ops cfg evs (new_session s c f (t + 1)) of
                (out, cl) \<Rightarrow> (out, cl_store cl, cl_ticks cl)))
      | _ \<Rightarrow> (Ended (Some ConnectFailed), s, t + 1))"

text \<open>The reconnect loop, over what happens in each session.\<close>

primrec sessionLoop :: "client_env \<Rightarrow> 's cache_ops \<Rightarrow> ClientConfig \<Rightarrow> (dial_result \<times> session_event list) list
    \<Rightarrow> 's \<Rightarrow> nat \<Rightarrow> outcome \<times> 's \<times> nat" where
  "sessionLoop env ops cfg [] s t = (Running, s, t)"
| "sessionLoop env ops cfg (d # ds) s t =
     (case runSession env ops cfg (fst d) (snd d) s t of
        (Ended e, s, t) \<Rightarrow>
          if ce_done env t then (Ended None, s, t) else sessionLoop env ops cfg ds s (t + 1)
      | r \<Rightarrow> r)"

section \<open>The local writer\<close>

text \<open>
  \<^verbatim>\<open>consumeAndWrite\<close>, over what its \<^verbatim>\<open>select\<close> takes: a reading, the end of the channel, the ticker, the
  context. It gives the store and what is left in the buffer when it returns, or so far.
\<close>

datatype writer_event = Incoming Reading | ChannelClosed | WriterTick | WriterCtxDone

definition flush :: "'s cache_ops \<Rightarrow> bool \<Rightarrow> 's \<times> CachedReading list \<Rightarrow> 's \<times> CachedReading list" where
  "flush ops done' w =
     (let (s, buffer) = w in
      if length buffer = 0 then (s, buffer)
      else let (ok, s) = cs_SaveReadings ops done' s buffer in (s, if ok then [] else buffer))"

primrec consumeAndWrite :: "'s cache_ops \<Rightarrow> nat \<Rightarrow> (writer_event \<times> bool) list \<Rightarrow> 's \<times> CachedReading list
    \<Rightarrow> bool \<times> 's \<times> CachedReading list" where
  "consumeAndWrite ops batchSize [] w = (False, w)"
| "consumeAndWrite ops batchSize (e # es) w =
     (case fst e of
        Incoming r \<Rightarrow>
          let w = (fst w, snd w @ [cached r UploadNotSent]);
              w = (if length (snd w) \<ge> batchSize then flush ops (snd e) w else w)
          in consumeAndWrite ops batchSize es w
      | ChannelClosed \<Rightarrow> (True, flush ops (snd e) w)
      | WriterTick \<Rightarrow> consumeAndWrite ops batchSize es (flush ops (snd e) w)
      | WriterCtxDone \<Rightarrow> (True, flush ops True w))"

section \<open>The registry of Modbus runtimes\<close>

definition registerModbusRuntime :: "'rt gomap \<Rightarrow> string \<Rightarrow> 'rt \<Rightarrow> 'rt gomap" where
  "registerModbusRuntime rts name rt = AList.update name rt rts"

definition unregisterModbusRuntime :: "'rt gomap \<Rightarrow> string \<Rightarrow> 'rt gomap" where
  "unregisterModbusRuntime rts name = AList.delete name rts"

definition GetModbusRuntime :: "'rt gomap \<Rightarrow> string \<Rightarrow> 'rt option" where
  "GetModbusRuntime rts name = map_of rts name"

end
