(* ===== verification/ClientTable.thy ===== *)
theory ClientTable
  imports Client
begin

text \<open>
  What the sessions of \<^verbatim>\<open>client.go\<close> do to the local table, proved once for every implementation of the
  store's contract (\<open>upload_cache\<close>): an upload changes only the status of the rows of its batch, so a
  session keeps every reading and leaves alone the rows that are not waiting to be sent. The two
  lifting lemmas, \<open>uploadReadings_rel\<close> and \<open>sessionLoop_rel\<close>, carry a relation from the steps to
  whole uploads and to the reconnect loop.
\<close>

section \<open>What a session does to the local table\<close>

text \<open>
  Only the status of rows with a key in \<open>I\<close> may differ. The operations of a session are all of this
  kind, with the keys of the batches they upload.
\<close>

definition only_status :: "u64 set \<Rightarrow> CachedReading list \<Rightarrow> CachedReading list \<Rightarrow> bool" where
  "only_status I xs ys \<longleftrightarrow> list_all2 (\<lambda>r r'. r' = r \<or> (r_ID r \<in> I \<and> (\<exists>s. r' = r\<lparr>cr_Status := s\<rparr>))) xs ys"

lemma only_status_refl [simp]: "only_status I xs xs"
  by (simp add: only_status_def list_all2_same)

lemma only_status_set_status: "set ids \<subseteq> I \<Longrightarrow> only_status I xs (set_status ids s xs)"
  by (auto simp: only_status_def set_status_def list_all2_map2 list_all2_same)

lemma only_status_trans:
  "only_status I xs ys \<Longrightarrow> only_status I ys zs \<Longrightarrow> only_status I xs zs"
  unfolding only_status_def
proof (erule (1) list_all2_trans [rotated -2], goal_cases)
  case (1 a b c)
  then show ?case by (cases a; cases b; cases c) auto
qed

lemma only_status_mono: "only_status I xs ys \<Longrightarrow> I \<subseteq> J \<Longrightarrow> only_status J xs ys"
  unfolding only_status_def by (erule list_all2_mono) auto

lemma only_status_ids: "only_status I xs ys \<Longrightarrow> map r_ID ys = map r_ID xs"
  unfolding only_status_def
  by (induction rule: list_all2_induct) auto

lemma only_status_readings: "only_status I xs ys \<Longrightarrow> map the_reading ys = map the_reading xs"
  unfolding only_status_def
  by (induction rule: list_all2_induct) auto

lemma only_status_outside:
  assumes "only_status I xs ys" and "r \<in> set xs" and "r_ID r \<notin> I"
  shows "r \<in> set ys"
  using assms unfolding only_status_def by (induction rule: list_all2_induct) auto

text \<open>
  A relation that holds for the steps of an upload holds for the whole of it, halves included.
\<close>

lemma uploadReadings_rel:
  assumes refl: "\<And>c. R c c" and trans: "\<And>c d e. R c d \<Longrightarrow> R d e \<Longrightarrow> R c e"
    and built: "\<And>c f. R c ((ctick c)\<lparr>cl_factory := f\<rparr>)"
    and failed: "\<And>c ids. set ids \<subseteq> I \<Longrightarrow> R c (snd (mark env ops ids UploadFailed c))"
    and batch: "\<And>c m ids. set ids \<subseteq> I \<Longrightarrow> R c (snd (upload_batch env ops ch m ids c))"
  shows "r_ID ` set readings \<subseteq> I \<Longrightarrow> R cl (snd (uploadReadings env ops readings limit ch cl))"
proof (induction readings arbitrary: cl rule: length_induct)
  case (1 readings)
  show ?case
  proof (cases "readings = []")
    case True
    then show ?thesis by (subst uploadReadings.simps) (simp add: refl)
  next
    case ne: False
    let ?ids = "map r_ID readings"
    let ?n = "NewMsg (cl_factory cl) (ce_clock env (cl_ticks cl)) MsgTypeUpload
                (PUpload \<lparr>up_Readings = map the_reading readings\<rparr>)"
    have ids: "set ?ids \<subseteq> I" using 1(2) by simp
    show ?thesis
    proof (cases ?n)
      case Panic
      then show ?thesis using ne by (subst uploadReadings.simps) (simp add: Let_def refl)
    next
      case (Fail e)
      then show ?thesis using ne failed [OF ids, of cl] by (subst uploadReadings.simps) (simp add: Let_def)
    next
      case (Ret mf)
      obtain m f where mf: "mf = (m, f)" by fastforce
      let ?cl = "(ctick cl)\<lparr>cl_factory := f\<rparr>"
      have s: "R cl ?cl" by (rule built)
      show ?thesis
      proof (cases "uint (m_PayloadLen m) > limit")
        case False
        then show ?thesis using ne Ret mf trans [OF s batch [OF ids]]
          by (subst uploadReadings.simps) (simp add: Let_def)
      next
        case big: True
        show ?thesis
        proof (cases "length readings = 1")
          case True
          then show ?thesis using big ne Ret mf trans [OF s failed [OF ids]]
            by (subst uploadReadings.simps) (simp add: Let_def)
        next
          case False
          let ?mid = "length readings div 2"
          let ?l = "take ?mid readings" and ?r = "drop ?mid readings"
          have mid: "0 < ?mid" using two_or_more [OF ne] False by simp
          have lens: "length ?l < length readings" "length ?r < length readings" using mid ne by auto
          have sub: "r_ID ` set ?l \<subseteq> I" "r_ID ` set ?r \<subseteq> I"
            using 1(2) set_take_subset [of ?mid readings] set_drop_subset [of ?mid readings] by blast+
          obtain res cl1 where u1: "uploadReadings env ops ?l limit ch ?cl = (res, cl1)" by fastforce
          have one: "R cl cl1"
            using trans [OF s] 1(1) lens(1) sub(1) u1 by (metis snd_conv)
          have two: "R cl1 (snd (uploadReadings env ops ?r limit ch cl1))"
            using 1(1) lens(2) sub(2) by blast
          have "uploadReadings env ops readings limit ch cl =
              (case res of Ret _ \<Rightarrow> uploadReadings env ops ?r limit ch cl1 | _ \<Rightarrow> (res, cl1))"
            using ne Ret mf big False u1 by (subst uploadReadings.simps) (auto simp: Let_def split: go.split)
          then show ?thesis using one trans [OF one two] by (cases res) simp_all
        qed
      qed
    qed
  qed
qed

lemma readLoop_step_store [simp]: "cl_store (readLoop_step cl) = cl_store cl"
  by (auto simp: readLoop_step_def dispatch_def Let_def split: reader.splits go.splits option.splits)

lemma readLoop_store [simp]: "cl_store (readLoop n cl) = cl_store cl"
  by (induction n) (simp_all add: readLoop_def)

lemma await_store [simp]: "cl_store (snd (await env wc ch cl)) = cl_store cl"
  by (simp add: await_def ctick_def Let_def split: option.split)

context upload_cache
begin

lemma mark_rows: "mark env ops ids st cl = (ok, cl') \<Longrightarrow>
    cl' = (ctick cl)\<lparr>cl_store := cl_store cl'\<rparr>
    \<and> rows (cl_store cl') = (if ok then set_status ids st (rows (cl_store cl)) else rows (cl_store cl))"
  using update [OF prod.collapse [symmetric], of "ce_done env (cl_ticks cl)" "cl_store cl" ids st]
  by (auto simp: mark_def split_beta Let_def)

lemma mark_only: "set ids \<subseteq> I \<Longrightarrow> only_status I (rows (cl_store cl)) (rows (cl_store (snd (mark env ops ids st cl))))"
  using mark_rows [OF prod.collapse [symmetric], of env ids st cl]
  by (auto intro: only_status_set_status split: if_splits)

lemma upload_ack_only:
  assumes "set ids \<subseteq> I"
  shows "only_status I (rows (cl_store (snd w))) (rows (cl_store (snd (upload_ack env ops ids w))))"
  using mark_only [OF assms, of "snd w" env]
  by (cases w) (auto simp: upload_ack_def Let_def split: wait_result.split Packable.split)

lemma upload_batch_only:
  assumes "set ids \<subseteq> I"
  shows "only_status I (rows (cl_store cl)) (rows (cl_store (snd (upload_batch env ops ch m ids cl))))"
proof -
  obtain ok cl1 where mk: "mark env ops ids UploadSending cl = (ok, cl1)" by fastforce
  have one: "only_status I (rows (cl_store cl)) (rows (cl_store cl1))"
    using mark_only [OF assms, of cl env UploadSending] mk by simp
  obtain wok c where wr: "conn_Write (cl_conn cl1) (fst (Msg_Encode m)) = (wok, c)" by fastforce
  let ?cl2 = "cl1\<lparr>cl_conn := c\<rparr>"
  have "only_status I (rows (cl_store cl1)) (rows (cl_store (snd (mark env ops ids UploadFailed ?cl2))))"
    using mark_only [OF assms, of ?cl2 env UploadFailed] by simp
  moreover have "only_status I (rows (cl_store cl1)) (rows (cl_store (snd (upload_ack env ops ids (await env True ch ?cl2)))))"
    using upload_ack_only [OF assms, of "await env True ch ?cl2" env] by simp
  ultimately show ?thesis
    using only_status_trans [OF one] one by (cases ok; cases wok) (simp_all add: upload_batch_def mk wr)
qed

lemma uploadReadings_only:
  "r_ID ` set readings \<subseteq> I \<Longrightarrow>
   only_status I (rows (cl_store cl)) (rows (cl_store (snd (uploadReadings env ops readings limit ch cl))))"
  by (rule uploadReadings_rel [where R = "\<lambda>c d. only_status I (rows (cl_store c)) (rows (cl_store d))"])
     (auto intro: only_status_trans mark_only upload_batch_only simp: ctick_def)

end

lemma sendNotify_store [simp]: "cl_store (snd (sendNotify env n cl)) = cl_store cl"
  by (auto simp: sendNotify_def Let_def ctick_def split_beta split: go.split)

lemma await_storeD: "await env wc ch cl = (w, cl') \<Longrightarrow> cl_store cl' = cl_store cl"
  by (metis await_store snd_conv)

lemma sendHeartbeat_store [simp]: "cl_store (snd (sendHeartbeat env cl)) = cl_store cl"
  by (auto simp: sendHeartbeat_def Let_def ctick_def dest!: await_storeD
      split: go.split wait_result.split prod.split bool.split)

lemma result_outcome_store [simp]: "cl_store (snd (result_outcome r)) = cl_store (snd r)"
  by (auto simp: result_outcome_def split: prod.split go.split)

lemma new_session_store [simp]: "cl_store (new_session s c f t) = s"
  by (simp add: new_session_def)

text \<open>What holds for the steps of a session holds for all sessions.\<close>

lemma session_loop_rel:
  assumes refl: "\<And>s. R s s" and trans: "\<And>a b c. R a b \<Longrightarrow> R b c \<Longrightarrow> R a c"
    and step: "\<And>ev cl. R (cl_store cl) (cl_store (snd (session_step env ops cfg ev cl)))"
  shows "R (cl_store cl) (cl_store (snd (session_loop env ops cfg evs cl)))"
proof (induction evs arbitrary: cl)
  case (Cons ev evs)
  obtain out cl1 where st: "session_step env ops cfg ev cl = (out, cl1)" by fastforce
  have "R (cl_store cl) (cl_store cl1)" using step [of cl ev] st by simp
  then show ?case using trans Cons [of cl1] st by (cases out) auto
qed (simp add: refl)

lemma sessionLoop_rel:
  assumes refl: "\<And>s. R s s" and trans: "\<And>a b c. R a b \<Longrightarrow> R b c \<Longrightarrow> R a c"
    and step: "\<And>ev cl. R (cl_store cl) (cl_store (snd (session_step env ops cfg ev cl)))"
    and run: "sessionLoop env ops cfg ds s t = (out, s', t')"
  shows "R s s'"
proof -
  have one: "R s s'" if "runSession env ops cfg d evs s t = (out, s', t')" for d evs s t out s' t'
  proof (cases "\<exists>c c' f. d = Connected c \<and> performHandshake env cfg NewMsgFactory t c = Ret (c', f)")
    case True
    then obtain c c' f where d: "d = Connected c" "performHandshake env cfg NewMsgFactory t c = Ret (c', f)" by blast
    have "R s (cl_store (snd (session_loop env ops cfg evs (new_session s c' f (t + 1)))))"
      using session_loop_rel [where R = R and cl = "new_session s c' f (t + 1)" and evs = evs, OF refl trans step] by simp
    then show ?thesis using that d by (auto simp: runSession_def split: prod.splits)
  next
    case False
    then have "s' = s" using that by (auto simp: runSession_def split: dial_result.splits go.splits)
    then show ?thesis by (simp add: refl)
  qed
  show ?thesis using run
  proof (induction ds arbitrary: s t)
    case (Cons d ds)
    obtain o1 s1 t1 where r: "runSession env ops cfg (fst d) (snd d) s t = (o1, s1, t1)" by (metis prod_cases3)
    show ?case using Cons one [OF r] trans r by (cases o1) (auto split: if_splits)
  qed (simp add: refl)
qed

context upload_cache
begin

definition pending_ids :: "'s \<Rightarrow> u64 set" where
  "pending_ids s = r_ID ` set (filter is_pending (rows s))"

lemma not_pending_id: "r \<in> set (rows s) \<Longrightarrow> \<not> is_pending r \<Longrightarrow> r_ID r \<notin> pending_ids s"
proof
  assume r: "r \<in> set (rows s)" "\<not> is_pending r" and "r_ID r \<in> pending_ids s"
  then obtain q where q: "q \<in> set (rows s)" "is_pending q" "r_ID q = r_ID r" by (auto simp: pending_ids_def)
  have "inj_on r_ID (set (rows s))" using distinct_rows by (simp add: distinct_map)
  then show False using q r by (metis inj_onD)
qed

lemma session_step_only:
  assumes "0 < cc_UploadBatchSize cfg"
  shows "only_status (pending_ids (cl_store cl)) (rows (cl_store cl)) (rows (cl_store (snd (session_step env ops cfg ev cl))))"
proof -
  let ?cl = "ctick (readLoop (ce_steps env (cl_ticks cl)) cl)"
  have s: "cl_store ?cl = cl_store cl" by (simp add: ctick_def)
  show ?thesis
  proof (cases "ev = UploadTick \<and> cl_reader ?cl \<noteq> Crashed")
    case False
    then show ?thesis using s by (cases ev) (simp_all add: session_step_def Let_def)
  next
    case True
    show ?thesis
    proof (cases "cs_LoadPendingReadings ops (ce_done env (cl_ticks ?cl)) (cl_store cl) (cc_UploadBatchSize cfg)")
      case None
      then show ?thesis using True s by (simp add: session_step_def Let_def)
    next
      case (Some rs)
      have sub: "r_ID ` set rs \<subseteq> pending_ids (cl_store cl)"
        using pending_status [OF assms Some] by (auto simp: pending_ids_def)
      obtain res cl1 where up: "uploadReadings env ops rs maxPayloadSize uploadAckCh ?cl = (res, cl1)" by fastforce
      have "only_status (pending_ids (cl_store cl)) (rows (cl_store cl)) (rows (cl_store cl1))"
        using uploadReadings_only [OF sub, of ?cl env maxPayloadSize uploadAckCh] up s by simp
      then show ?thesis using True Some s up
        by (cases res) (simp_all add: session_step_def Let_def result_outcome_def)
    qed
  qed
qed

text \<open>What a step cannot touch: a row that is not waiting to be sent.\<close>

definition keeps :: "'s \<Rightarrow> 's \<Rightarrow> bool" where
  "keeps s s' \<longleftrightarrow> map r_ID (rows s') = map r_ID (rows s) \<and> map the_reading (rows s') = map the_reading (rows s)
     \<and> (\<forall>r \<in> set (rows s). \<not> is_pending r \<longrightarrow> r \<in> set (rows s'))"

lemma keeps_refl [simp]: "keeps s s"
  by (simp add: keeps_def)

lemma keeps_trans: "keeps s t \<Longrightarrow> keeps t u \<Longrightarrow> keeps s u"
  unfolding keeps_def by metis

lemma session_step_keeps:
  assumes "0 < cc_UploadBatchSize cfg"
  shows "keeps (cl_store cl) (cl_store (snd (session_step env ops cfg ev cl)))"
proof -
  note only = session_step_only [OF assms, of cl env ev]
  show ?thesis
    unfolding keeps_def using only_status_ids [OF only] only_status_readings [OF only]
      only_status_outside [OF only] not_pending_id by blast
qed

lemma sessionLoop_keeps:
  assumes "0 < cc_UploadBatchSize cfg" and "sessionLoop env ops cfg ds s t = (out, s', t')"
  shows "keeps s s'"
  by (rule sessionLoop_rel [OF _ _ _ assms(2)]) (auto intro: keeps_trans session_step_keeps [OF assms(1)])

end

end
