(* ===== verification/ClientAcks.thy ===== *)
theory ClientAcks
  imports ClientTable
begin

text \<open>
  Where the acknowledgements of a session come from: every message in the upload channel was read
  from the connection (\<open>drains\<close>), and a row becomes sent only when one of them says Ok (\<open>careful\<close>).
\<close>

section \<open>Acks\<close>

text \<open>The messages that can still be read from a connection.\<close>

function inbound :: "conn \<Rightarrow> Msg list" where
  "inbound c = (case DecodeFrame c of Ret r \<Rightarrow> fst r # inbound (snd r) | _ \<Rightarrow> [])"
  by pat_completeness auto
termination
  by (relation "measure (\<lambda>c. length (c_in c))") (auto dest: DecodeFrame_shorter)

declare inbound.simps [simp del]

lemma DecodeFrame_in_cong: "c_in c = c_in d \<Longrightarrow> DecodeFrame c = Ret (m, c') \<Longrightarrow> \<exists>d'. DecodeFrame d = Ret (m, d') \<and> c_in d' = c_in c'"
  using DecodeFrame_iff [of c m c'] DecodeFrame_iff [of d m "d\<lparr>c_in := c_in c'\<rparr>"] by auto

lemma inbound_cong: "c_in c = c_in d \<Longrightarrow> inbound c = inbound d"
proof (induction c arbitrary: d rule: inbound.induct)
  case (1 c)
  show ?case
  proof (cases "DecodeFrame c")
    case (Ret r)
    obtain m c' where r: "r = (m, c')" by fastforce
    obtain d' where d: "DecodeFrame d = Ret (m, d')" "c_in d' = c_in c'"
      using DecodeFrame_in_cong [OF 1(2)] Ret r by blast
    then show ?thesis using 1(1) [OF Ret, of d'] Ret r
      by (subst (1 2) inbound.simps) simp
  next
    case (Fail e)
    have "DecodeFrame d \<noteq> Ret q" for q
      using DecodeFrame_in_cong [OF 1(2) [symmetric], of "fst q" "snd q"] Fail by fastforce
    then show ?thesis using Fail by (subst (1 2) inbound.simps) (auto split: go.split)
  next
    case Panic
    then show ?thesis using DecodeFrame_no_panic by blast
  qed
qed

definition upload_msgs :: "'s client \<Rightarrow> Packable set" where
  "upload_msgs cl = set (ch_buf (cl_chans cl ! uploadAckCh))
     \<union> (case cl_reader cl of Blocked ch p \<Rightarrow> if ch = uploadAckCh then {p} else {} | _ \<Rightarrow> {})
     \<union> {p. \<exists>m \<in> set (inbound (cl_conn cl)). m_Type m = MsgTypeUploadAck \<and> ParseMsg m = Ret p}"

definition session_wf :: "'s client \<Rightarrow> bool" where
  "session_wf cl \<longleftrightarrow> cl_chans cl \<noteq> []
     \<and> (\<forall>t. routes (cl_router cl) t = Some uploadAckCh \<longrightarrow> t = MsgTypeUploadAck)"

text \<open>What the steps of a session do to the messages: none appears.\<close>

definition drains :: "'s client \<Rightarrow> 's client \<Rightarrow> bool" where
  "drains cl cl' \<longleftrightarrow> (session_wf cl \<longrightarrow> session_wf cl' \<and> upload_msgs cl' \<subseteq> upload_msgs cl)"

lemma drains_refl [simp]: "drains cl cl"
  by (simp add: drains_def)

lemma drains_trans: "drains a b \<Longrightarrow> drains b c \<Longrightarrow> drains a c"
  by (auto simp: drains_def)

lemma drains_same:
  "cl_chans cl' = cl_chans cl \<Longrightarrow> cl_reader cl' = cl_reader cl \<Longrightarrow> routes (cl_router cl') = routes (cl_router cl) \<Longrightarrow>
   c_in (cl_conn cl') = c_in (cl_conn cl) \<Longrightarrow> drains cl cl'"
  using inbound_cong [of "cl_conn cl'" "cl_conn cl"] by (simp add: drains_def session_wf_def upload_msgs_def)

lemma chan_send_nth: "chan_send chs i p = Some chs' \<Longrightarrow> chs \<noteq> [] \<Longrightarrow>
    chs' \<noteq> [] \<and> set (ch_buf (chs' ! 0)) \<subseteq> set (ch_buf (chs ! 0)) \<union> (if i = 0 then {p} else {})"
  by (auto simp: chan_send_def Let_def nth_list_update split: if_splits)

lemma chan_recv_nth: "chan_recv chs i = Some (p, chs') \<Longrightarrow> chs \<noteq> [] \<Longrightarrow>
    chs' \<noteq> [] \<and> set (ch_buf (chs' ! 0)) \<subseteq> set (ch_buf (chs ! 0)) \<and> (i = 0 \<longrightarrow> p \<in> set (ch_buf (chs ! 0)))"
  by (cases "i = 0") (auto simp: chan_recv_def nth_list_update split: list.splits)

lemma readLoop_step_drains: "drains cl (readLoop_step cl)"
proof (cases "cl_reader cl")
  case (Blocked ch p)
  show ?thesis
  proof (cases "chan_send (cl_chans cl) ch p")
    case (Some chs)
    then show ?thesis using Blocked chan_send_nth [OF Some]
      by (cases "ch = 0") (auto simp: readLoop_step_def drains_def session_wf_def upload_msgs_def uploadAckCh_def)
  qed (use Blocked in \<open>simp add: readLoop_step_def\<close>)
next
  case Reads
  show ?thesis
  proof (cases "DecodeFrame (cl_conn cl)")
    case (Ret r)
    obtain m c where r: "r = (m, c)" by fastforce
    let ?cl = "cl\<lparr>cl_conn := (cl_conn cl)\<lparr>c_in := c_in c\<rparr>\<rparr>"
    have inb: "inbound (cl_conn cl) = m # inbound ((cl_conn cl)\<lparr>c_in := c_in c\<rparr>)"
      using Ret r inbound_cong [of c "(cl_conn cl)\<lparr>c_in := c_in c\<rparr>"] by (subst inbound.simps) simp
    show ?thesis
    proof (cases "ParseMsg m")
      case parsed: (Ret p)
      show ?thesis
      proof (cases "routes (cl_router cl) (m_Type m)")
        case None
        then show ?thesis using Ret r Reads parsed inb
          by (auto simp: readLoop_step_def dispatch_def drains_def session_wf_def upload_msgs_def)
      next
        case (Some ch)
        show ?thesis
        proof (cases "chan_send (cl_chans cl) ch p")
          case sent: (Some chs)
          then show ?thesis using Ret r Reads parsed inb Some chan_send_nth [OF sent]
            by (cases "ch = 0")
               (auto simp: readLoop_step_def dispatch_def drains_def session_wf_def upload_msgs_def uploadAckCh_def)
        qed (use Ret r Reads parsed inb Some in
              \<open>auto simp: readLoop_step_def dispatch_def drains_def session_wf_def upload_msgs_def uploadAckCh_def\<close>)
      qed
    qed (use Ret r Reads inb in \<open>auto simp: readLoop_step_def drains_def session_wf_def upload_msgs_def\<close>)
  qed (use Reads in \<open>auto simp: readLoop_step_def drains_def session_wf_def upload_msgs_def\<close>)
qed (simp_all add: readLoop_step_def)

lemma readLoop_drains: "drains cl (readLoop n cl)"
  by (induction n) (auto simp: readLoop_def intro: drains_trans readLoop_step_drains)

lemma ctick_drains [simp]: "drains cl (ctick cl)"
  by (rule drains_same) (simp_all add: ctick_def)

lemma await_drains:
  assumes "await env wc ch cl = (w, cl')"
  shows "drains cl cl' \<and> (\<forall>p. session_wf cl \<longrightarrow> ch = uploadAckCh \<longrightarrow> w = Received p \<longrightarrow> p \<in> upload_msgs cl)"
proof -
  let ?cl = "ctick (readLoop (ce_steps env (cl_ticks cl)) cl)"
  have d: "drains cl ?cl" by (rule drains_trans [OF readLoop_drains ctick_drains])
  show ?thesis
  proof (cases "chan_recv (cl_chans ?cl) ch")
    case None
    then show ?thesis using assms d by (auto simp: await_def Let_def split: if_splits)
  next
    case (Some r)
    obtain p chs where r: "r = (p, chs)" by fastforce
    have rcv: "drains ?cl (?cl\<lparr>cl_chans := chs\<rparr>)" "session_wf ?cl \<Longrightarrow> ch = uploadAckCh \<Longrightarrow> p \<in> upload_msgs ?cl"
      using chan_recv_nth [of "cl_chans ?cl" ch p chs] Some r
      by (auto simp: drains_def session_wf_def upload_msgs_def uploadAckCh_def)
    then show ?thesis using assms d drains_trans [OF d rcv(1)] Some r
      by (auto simp: await_def Let_def drains_def split: if_splits)
  qed
qed

definition acked :: "'s client \<Rightarrow> bool" where
  "acked cl \<longleftrightarrow> (\<exists>a. PAck a \<in> upload_msgs cl \<and> ack_Code a = code_Ok)"

definition no_new_sent :: "CachedReading list \<Rightarrow> CachedReading list \<Rightarrow> bool" where
  "no_new_sent xs ys \<longleftrightarrow> (\<forall>r \<in> set ys. cr_Status r = UploadSent \<longrightarrow> r \<in> set xs)"

lemma no_new_sent_set_status: "st \<noteq> UploadSent \<Longrightarrow> no_new_sent xs (set_status ids st xs)"
  by (auto simp: no_new_sent_def set_status_def)

context upload_cache
begin

definition careful :: "'s client \<Rightarrow> 's client \<Rightarrow> bool" where
  "careful cl cl' \<longleftrightarrow> drains cl cl' \<and>
     (session_wf cl \<longrightarrow> acked cl \<or> no_new_sent (rows (cl_store cl)) (rows (cl_store cl')))"

lemma careful_refl [simp]: "careful cl cl"
  by (simp add: careful_def no_new_sent_def)

lemma careful_trans: "careful a b \<Longrightarrow> careful b c \<Longrightarrow> careful a c"
  unfolding careful_def acked_def drains_def no_new_sent_def by blast

lemma careful_drains: "drains a b \<Longrightarrow> cl_store b = cl_store a \<Longrightarrow> careful a b"
  by (simp add: careful_def no_new_sent_def)

lemma careful_same:
  "cl_chans b = cl_chans a \<Longrightarrow> cl_reader b = cl_reader a \<Longrightarrow> routes (cl_router b) = routes (cl_router a) \<Longrightarrow>
   c_in (cl_conn b) = c_in (cl_conn a) \<Longrightarrow> cl_store b = cl_store a \<Longrightarrow> careful a b"
  by (rule careful_drains [OF drains_same])

lemma mark_drains: "drains cl (snd (mark env ops ids st cl))"
  by (rule drains_same) (simp_all add: mark_def ctick_def split_beta Let_def)

lemma mark_careful: "st \<noteq> UploadSent \<Longrightarrow> careful cl (snd (mark env ops ids st cl))"
  using mark_rows [OF prod.collapse [symmetric], of env ids st cl] no_new_sent_set_status [of st "rows (cl_store cl)" ids]
    mark_drains
  by (auto simp: careful_def no_new_sent_def)

lemma status_neq: "UploadFailed \<noteq> UploadSent" "UploadSending \<noteq> UploadSent" "UploadNotSent \<noteq> UploadSent"
  by (simp_all add: Upload_status_defs)

text \<open>Waiting for the ack and what follows it.\<close>

lemma upload_ack_careful:
  "careful cl (snd (upload_ack env ops ids (await env True uploadAckCh cl)))"
proof -
  obtain w cl1 where w: "await env True uploadAckCh cl = (w, cl1)" by fastforce
  have d: "drains cl cl1" and rcv: "\<And>p. session_wf cl \<Longrightarrow> w = Received p \<Longrightarrow> p \<in> upload_msgs cl"
    using await_drains [OF w] by simp_all
  have one: "careful cl cl1" by (rule careful_drains [OF d await_storeD [OF w]])
  have two: "careful cl (snd (mark env ops ids st cl1))" if "st \<noteq> UploadSent" for st
    by (rule careful_trans [OF one mark_careful [OF that]])
  have upd: "careful cl (c\<lparr>cl_timeouts := n\<rparr>) \<longleftrightarrow> careful cl c" for c :: "'s client" and n
    by (simp add: careful_def drains_def session_wf_def upload_msgs_def)
  show ?thesis
  proof (cases w)
    case (Received p)
    show ?thesis
    proof (cases "\<exists>a. p = PAck a \<and> ack_Code a = code_Ok")
      case True
      then have "session_wf cl \<Longrightarrow> acked cl" using rcv Received by (auto simp: acked_def)
      then have "careful cl (snd (mark env ops ids UploadSent cl1))"
        using drains_trans [OF d mark_drains] by (auto simp: careful_def)
      then show ?thesis using True Received w by (auto simp: upload_ack_def upd)
    next
      case False
      then show ?thesis using Received w one two status_neq by (cases p) (auto simp: upload_ack_def)
    qed
  next
    case TimedOut
    then show ?thesis using w two status_neq by (simp add: upload_ack_def Let_def upd)
  next
    case Cancelled
    then show ?thesis using w one by (simp add: upload_ack_def)
  qed
qed

lemma conn_Write_careful: "conn_Write (cl_conn cl) b = (ok, c) \<Longrightarrow> careful cl (cl\<lparr>cl_conn := c\<rparr>)"
  by (rule careful_same) (auto simp: conn_Write_def split: nat.splits)

lemma upload_batch_careful: "careful cl (snd (upload_batch env ops uploadAckCh m ids cl))"
proof -
  obtain ok cl1 where mk: "mark env ops ids UploadSending cl = (ok, cl1)" by fastforce
  have one: "careful cl cl1" using mark_careful [of UploadSending cl env ids] mk status_neq by simp
  obtain wok c where wr: "conn_Write (cl_conn cl1) (fst (Msg_Encode m)) = (wok, c)" by fastforce
  have two: "careful cl (cl1\<lparr>cl_conn := c\<rparr>)" by (rule careful_trans [OF one conn_Write_careful [OF wr]])
  have "careful cl (snd (mark env ops ids UploadFailed (cl1\<lparr>cl_conn := c\<rparr>)))"
    by (rule careful_trans [OF two mark_careful]) (rule status_neq)
  moreover have "careful cl (snd (upload_ack env ops ids (await env True uploadAckCh (cl1\<lparr>cl_conn := c\<rparr>))))"
    by (rule careful_trans [OF two upload_ack_careful])
  ultimately show ?thesis using one by (cases ok; cases wok) (simp_all add: upload_batch_def mk wr)
qed

lemma uploadReadings_careful: "careful cl (snd (uploadReadings env ops readings limit uploadAckCh cl))"
proof (rule uploadReadings_rel [where R = careful and I = UNIV])
  show "careful c ((ctick c)\<lparr>cl_factory := f\<rparr>)" for c f
    by (rule careful_same) (simp_all add: ctick_def)
  show "careful c e" if "careful c d" "careful d e" for c d e using that by (rule careful_trans)
  show "careful c (snd (mark env ops ids UploadFailed c))" for c ids by (rule mark_careful) (rule status_neq)
qed (simp_all add: upload_batch_careful)

lemma sendNotify_careful: "careful cl (snd (sendNotify env n cl))"
proof (cases "NewMsg (cl_factory cl) (ce_clock env (cl_ticks cl)) MsgTypeNotify (PNotify n)")
  case (Ret r)
  have "careful cl (snd (sendNotify env n cl))"
    using Ret by (cases r; intro careful_same)
      (auto simp: sendNotify_def ctick_def Let_def split_beta conn_Write_def split: nat.split)
  then show ?thesis .
qed (simp_all add: sendNotify_def)

end

context upload_cache
begin

lemma open_heartbeat_careful:
  "careful cl (cl\<lparr>cl_chans := cl_chans cl @ [ch],
       cl_router := router_register (cl_router cl) MsgTypeHeartbeatAck (length (cl_chans cl))\<rparr>)"
  by (cases "cl_chans cl")
     (auto simp: careful_def drains_def session_wf_def upload_msgs_def router_register_def uploadAckCh_def
       no_new_sent_def split: if_splits)

lemma close_heartbeat_careful:
  "careful cl (cl\<lparr>cl_router := router_unregister (cl_router cl) MsgTypeHeartbeatAck\<rparr>)"
  by (auto simp: careful_def drains_def session_wf_def upload_msgs_def router_unregister_def uploadAckCh_def
      no_new_sent_def split: if_splits)

lemma await_careful: "await env wc ch cl = (w, cl') \<Longrightarrow> careful cl cl'"
  using careful_drains [of cl cl'] await_drains [of env wc ch cl w cl'] await_storeD [of env wc ch cl w cl'] by blast

lemma sendHeartbeat_careful: "careful cl (snd (sendHeartbeat env cl))"
proof -
  let ?open = "cl\<lparr>cl_chans := cl_chans cl @ [\<lparr>ch_cap = 1, ch_buf = []\<rparr>],
       cl_router := router_register (cl_router cl) MsgTypeHeartbeatAck (length (cl_chans cl))\<rparr>"
  let ?close = "\<lambda>c. c\<lparr>cl_router := router_unregister (cl_router c) MsgTypeHeartbeatAck\<rparr>"
  have op: "careful cl ?open" by (rule open_heartbeat_careful)
  note cl_close = careful_trans [OF _ close_heartbeat_careful]
  show ?thesis
  proof (cases "NewMsg (cl_factory cl) (ce_clock env (cl_ticks cl)) MsgTypeHeartbeat PHeartbeat")
    case (Ret r)
    let ?built = "(ctick ?open)\<lparr>cl_factory := snd r\<rparr>"
    have "careful ?open ?built" by (rule careful_same) (simp_all add: ctick_def)
    then have built: "careful cl ?built" by (rule careful_trans [OF op])
    obtain ok c where wr: "conn_Write (cl_conn ?built) (fst (Msg_Encode (fst r))) = (ok, c)" by fastforce
    have written: "careful cl (?built\<lparr>cl_conn := c\<rparr>)" by (rule careful_trans [OF built conn_Write_careful [OF wr]])
    obtain w cl' where aw: "await env False (length (cl_chans cl)) (?built\<lparr>cl_conn := c\<rparr>) = (w, cl')" by fastforce
    have "careful cl cl'" by (rule careful_trans [OF written await_careful [OF aw]])
    moreover have "snd (sendHeartbeat env cl) = (if ok then ?close cl' else ?close (?built\<lparr>cl_conn := c\<rparr>))"
      using Ret wr aw by (cases r; cases ok; cases w) (simp_all add: sendHeartbeat_def Let_def ctick_def)
    ultimately show ?thesis using cl_close written by presburger
  qed (use op cl_close [OF op] in \<open>simp_all add: sendHeartbeat_def Let_def ctick_def\<close>)
qed

lemma session_step_careful: "careful cl (snd (session_step env ops cfg ev cl))"
proof -
  let ?cl = "ctick (readLoop (ce_steps env (cl_ticks cl)) cl)"
  have one: "careful cl ?cl"
    by (rule careful_drains) (rule drains_trans [OF readLoop_drains ctick_drains], simp add: ctick_def)
  have out: "snd (result_outcome r) = snd r" for r :: "(session_error, unit) go \<times> 's client"
    by (auto simp: result_outcome_def split: prod.split go.split)
  show ?thesis
  proof (cases "cl_reader ?cl = Crashed")
    case True
    then show ?thesis using one by (simp add: session_step_def Let_def)
  next
    case False
    show ?thesis
    proof (cases ev)
      case (Notify n)
      then show ?thesis using False careful_trans [OF one sendNotify_careful]
        by (simp add: session_step_def Let_def out)
    next
      case HeartbeatTick
      then show ?thesis using False careful_trans [OF one sendHeartbeat_careful]
        by (simp add: session_step_def Let_def out)
    next
      case UploadTick
      show ?thesis
      proof (cases "cs_LoadPendingReadings ops (ce_done env (cl_ticks ?cl)) (cl_store ?cl) (cc_UploadBatchSize cfg)")
        case None
        then show ?thesis using False UploadTick one by (simp add: session_step_def Let_def)
      next
        case (Some rs)
        obtain res cl1 where up: "uploadReadings env ops rs maxPayloadSize uploadAckCh ?cl = (res, cl1)" by fastforce
        have "careful cl cl1"
          using careful_trans [OF one uploadReadings_careful, of env rs maxPayloadSize] up by simp
        then show ?thesis using False UploadTick Some one up
          by (cases res) (simp_all add: session_step_def Let_def out)
      qed
    qed (use False one in \<open>simp_all add: session_step_def Let_def\<close>)
  qed
qed

lemma session_loop_careful: "careful cl (snd (session_loop env ops cfg evs cl))"
proof (induction evs arbitrary: cl)
  case (Cons ev evs)
  obtain out cl1 where st: "session_step env ops cfg ev cl = (out, cl1)" by fastforce
  have "careful cl cl1" using session_step_careful [of cl env cfg ev] st by simp
  then show ?case using careful_trans Cons [of cl1] st by (cases out) auto
qed simp

text \<open>A fresh session: the channel is empty, and what the handshake left on the connection is to come.\<close>

lemma new_session_wf [simp]: "session_wf (new_session s c f t)"
  by (auto simp: session_wf_def new_session_def newMsgRouter_def router_register_def uploadAckCh_def split: if_splits)

lemma upload_msgs_new_session:
  "upload_msgs (new_session s c f t) = {p. \<exists>m \<in> set (inbound c). m_Type m = MsgTypeUploadAck \<and> ParseMsg m = Ret p}"
  by (simp add: upload_msgs_def new_session_def uploadAckCh_def)

lemma performHandshake_inbound:
  assumes "performHandshake env cfg f t c = Ret (c', f')"
  shows "\<exists>m. inbound c = m # inbound c'"
proof -
  obtain hs f1 where n: "NewMsg f (ce_clock env t) MsgTypeHandshake
      (PHandshake \<lparr>hs_FirmwareVersion = 1, hs_Sn = cc_Sn cfg, hs_Token = cc_Token cfg\<rparr>) = Ret (hs, f1)"
    using assms by (auto simp: performHandshake_def split: go.splits)
  obtain ok c1 where w: "conn_Write c (fst (Msg_Encode hs)) = (ok, c1)" by fastforce
  have "c_in c1 = c_in c" using w by (auto simp: conn_Write_def split: nat.splits)
  moreover have "\<exists>m. DecodeFrame c1 = Ret (m, c')"
    using assms n w by (auto simp: performHandshake_def split: go.splits bool.splits if_splits Packable.splits)
  ultimately obtain m where "inbound c = inbound c1" "DecodeFrame c1 = Ret (m, c')"
    using inbound_cong [of c c1] by auto
  then show ?thesis by (subst (asm) inbound.simps [of c1]) simp
qed

lemma runSession_careful:
  assumes "runSession env ops cfg (Connected c) evs s t = (out, s', t')"
    and "r \<in> set (rows s')" and "cr_Status r = UploadSent" and "r \<notin> set (rows s)"
  shows "\<exists>m a. m \<in> set (inbound c) \<and> m_Type m = MsgTypeUploadAck \<and> ParseMsg m = Ret (PAck a) \<and> ack_Code a = code_Ok"
proof (cases "performHandshake env cfg NewMsgFactory t c")
  case (Ret r1)
  obtain c' f where r1: "r1 = (c', f)" by fastforce
  let ?n = "new_session s c' f (t + 1)"
  have s': "s' = cl_store (snd (session_loop env ops cfg evs ?n))"
    using assms(1) Ret r1 by (auto simp: runSession_def split: prod.splits)
  have "acked ?n"
    using session_loop_careful [of ?n env cfg evs] assms(2-4) s'
    by (auto simp: careful_def no_new_sent_def)
  moreover obtain m where "inbound c = m # inbound c'" using performHandshake_inbound Ret r1 by blast
  ultimately show ?thesis by (auto simp: acked_def upload_msgs_new_session)
qed (use assms in \<open>auto simp: runSession_def\<close>)

end

end
