(* ===== verification/ClientProps.thy ===== *)
theory ClientProps
  imports ClientAcks
begin

text \<open>
  Properties of the gateway: exchanges with a server that answers, what blocks the queue of readings,
  the waits between attempts to connect, and the local writer; then the properties of \<^verbatim>\<open>client.go\<close>.
\<close>

section \<open>Exchanges with a server that answers\<close>

text \<open>An ack that a factory built and encoded, read back.\<close>

lemma read_ack:
  assumes new: "NewMsg g now t (PAck a) = Ret (resp, g')" and c: "c_in c = fst (Msg_Encode resp) @ rest"
    and t: "t \<in> {MsgTypeHandshakeAck, MsgTypeUploadAck, MsgTypeHeartbeatAck}"
  shows "\<exists>m. DecodeFrame c = Ret (m, c\<lparr>c_in := rest\<rparr>) \<and> m_Type m = t \<and> ParseMsg m = Ret (PAck a)"
proof -
  have enc: "Packable_Encode (PAck a) = Ret (m_Payload resp)" "m_Type resp = t"
    using NewMsg_RetD [OF new] by simp_all
  then have "m_Payload resp = be16 (ack_MsgID a) @ [ack_Code a]" by (simp add: Ack_Encode_def)
  then have len: "length (m_Payload resp) \<le> 65535" by simp
  have "DecodeFrame c = Ret (snd (Msg_Encode resp), c\<lparr>c_in := rest\<rparr>)"
    by (rule NewMsg_DecodeFrame [OF new len c])
  moreover have "m_Type (snd (Msg_Encode resp)) = t" "m_Payload (snd (Msg_Encode resp)) = m_Payload resp"
    using enc by (simp_all add: Msg_Encode_def Let_def)
  moreover have "ParseMsg (snd (Msg_Encode resp)) = Ret (PAck a)"
    using ParseMsg_encoded [OF enc(1) len, of "snd (Msg_Encode resp)"] t calculation by simp
  ultimately show ?thesis by blast
qed

lemma performHandshake_answered:
  assumes hs: "NewMsg f (ce_clock env t) MsgTypeHandshake
      (PHandshake \<lparr>hs_FirmwareVersion = 1, hs_Sn = cc_Sn cfg, hs_Token = cc_Token cfg\<rparr>) = Ret (hs, f')"
    and wr: "conn_Write c (fst (Msg_Encode hs)) = (True, c')"
    and new: "NewMsg g now MsgTypeHandshakeAck (PAck a) = Ret (resp, g')"
    and c: "c_in c = fst (Msg_Encode resp) @ rest"
  shows "performHandshake env cfg f t c =
    (if ack_Code a = code_Ok then Ret (c'\<lparr>c_in := rest\<rparr>, f') else Fail (HandshakeRejected (ack_Code a)))"
proof -
  have "c_in c' = fst (Msg_Encode resp) @ rest" using wr c by (auto simp: conn_Write_def split: nat.splits)
  then obtain m where "DecodeFrame c' = Ret (m, c'\<lparr>c_in := rest\<rparr>)" "m_Type m = MsgTypeHandshakeAck" "ParseMsg m = Ret (PAck a)"
    using read_ack [OF new, of c' rest] by blast
  then show ?thesis by (simp add: performHandshake_def hs wr)
qed

lemma await_answered:
  assumes st: "cl_reader cl = Reads" "routes (cl_router cl) MsgTypeUploadAck = Some uploadAckCh"
      "cl_chans cl = \<lparr>ch_cap = uploadWindowSize, ch_buf = []\<rparr> # chs"
    and env: "ce_steps env (cl_ticks cl) = 1" "ce_fires env (cl_ticks cl) = OnMessage"
    and new: "NewMsg g now MsgTypeUploadAck (PAck a) = Ret (resp, g')"
    and c: "c_in (cl_conn cl) = fst (Msg_Encode resp) @ rest"
  shows "\<exists>cl'. await env True uploadAckCh cl = (Received (PAck a), cl')
    \<and> cl' = (ctick cl)\<lparr>cl_conn := (cl_conn cl)\<lparr>c_in := rest\<rparr>\<rparr>"
proof -
  obtain m where "DecodeFrame (cl_conn cl) = Ret (m, (cl_conn cl)\<lparr>c_in := rest\<rparr>)"
      "m_Type m = MsgTypeUploadAck" "ParseMsg m = Ret (PAck a)"
    using read_ack [OF new c] by blast
  then have "readLoop 1 cl = cl\<lparr>cl_conn := (cl_conn cl)\<lparr>c_in := rest\<rparr>,
      cl_chans := \<lparr>ch_cap = uploadWindowSize, ch_buf = [PAck a]\<rparr> # chs\<rparr>"
    using st by (simp add: readLoop_def readLoop_step_def dispatch_def chan_send_def uploadAckCh_def uploadWindowSize_def)
  then show ?thesis using env st
    by (simp add: await_def Let_def chan_recv_def uploadAckCh_def ctick_def)
qed

text \<open>A database that carries out every update whose context is not cancelled.\<close>

definition updates :: "'db lite_ops \<Rightarrow> bool" where
  "updates lt \<longleftrightarrow> (\<forall>s st ids. \<exists>s'. lt_UpdateStatus lt False s st ids = (True, s'))"

lemma mark_updates:
  assumes "updates lt" and "\<not> ce_done env (cl_ticks cl)"
  shows "\<exists>s'. mark env (sqlite_store lt) ids st cl = (True, (ctick cl)\<lparr>cl_store := s'\<rparr>)"
proof (cases ids)
  case Nil
  then show ?thesis using assms
    by (intro exI [of _ "cl_store cl"]) (simp add: mark_def sqlite_store_def lite_UpdateReadingsStatus_def)
next
  case (Cons i rest)
  obtain s' where "lt_UpdateStatus lt False (cl_store cl) st ids = (True, s')"
    using assms(1) unfolding updates_def by blast
  then show ?thesis using Cons assms(2)
    by (intro exI [of _ s']) (simp add: mark_def sqlite_store_def lite_UpdateReadingsStatus_def)
qed

lemma mark_rows_updates:
  assumes "lite_laws lt rows" and "updates lt" and "\<not> ce_done env (cl_ticks cl)"
  shows "\<exists>s'. mark env (sqlite_store lt) ids st cl = (True, (ctick cl)\<lparr>cl_store := s'\<rparr>)
    \<and> rows s' = set_status ids st (rows (cl_store cl))"
proof -
  obtain s' where m: "mark env (sqlite_store lt) ids st cl = (True, (ctick cl)\<lparr>cl_store := s'\<rparr>)"
    using mark_updates [OF assms(2,3)] by blast
  with upload_cache.mark_rows [OF sqlite_is_cache [OF assms(1)] m] show ?thesis by auto
qed

text \<open>
  A batch that is written and whose wait ends with an ack: the rows take the status the ack asks for,
  whatever message it acknowledges.
\<close>

lemma readLoop_out [simp]: "c_out (cl_conn (readLoop n cl)) = c_out (cl_conn cl)"
  by (induction n)
     (auto simp: readLoop_def readLoop_step_def dispatch_def Let_def split: reader.splits go.splits option.splits)

lemma await_out: "await env wc ch cl = (w, cl') \<Longrightarrow> c_out (cl_conn cl') = c_out (cl_conn cl)"
  by (auto simp: await_def ctick_def Let_def split: option.splits if_splits)

lemma upload_batch_acked:
  assumes laws: "lite_laws lt rows" and up: "updates lt" and live: "\<forall>t. \<not> ce_done env t"
    and wr: "conn_Write (cl_conn cl) (fst (Msg_Encode m)) = (True, c)"
    and aw: "\<And>s. \<exists>w. await env True ch ((ctick cl)\<lparr>cl_store := s, cl_conn := c\<rparr>) = (Received (PAck a), w)"
  shows "\<exists>cl'. upload_batch env (sqlite_store lt) ch m ids cl = (Ret (), cl')
    \<and> rows (cl_store cl') = set_status ids (if ack_Code a = code_Ok then UploadSent else UploadNotSent) (rows (cl_store cl))
    \<and> c_out (cl_conn cl') = c_out (cl_conn cl) @ [fst (Msg_Encode m)] \<and> (ack_Code a = code_Ok \<longrightarrow> cl_timeouts cl' = 0)"
proof -
  obtain s1 where m1: "mark env (sqlite_store lt) ids UploadSending cl = (True, (ctick cl)\<lparr>cl_store := s1\<rparr>)"
      "rows s1 = set_status ids UploadSending (rows (cl_store cl))"
    using mark_rows_updates [OF laws up] live by blast
  let ?cl1 = "(ctick cl)\<lparr>cl_store := s1, cl_conn := c\<rparr>"
  obtain w where w: "await env True ch ?cl1 = (Received (PAck a), w)" using aw by blast
  then have sw: "cl_store w = s1" "c_out (cl_conn w) = c_out c"
    using await_storeD [OF w] await_out [OF w] by simp_all
  let ?st = "if ack_Code a = code_Ok then UploadSent else UploadNotSent"
  obtain s2 where m2: "mark env (sqlite_store lt) ids ?st w = (True, (ctick w)\<lparr>cl_store := s2\<rparr>)"
      "rows s2 = set_status ids ?st (rows s1)"
    using mark_rows_updates [OF laws up, of env w ids ?st] live sw(1) by auto
  have out: "c_out c = c_out (cl_conn cl) @ [fst (Msg_Encode m)]"
    using wr by (auto simp: conn_Write_def split: nat.splits)
  have "cl_conn cl = cl_conn ((ctick cl)\<lparr>cl_store := s1\<rparr>)" by (simp add: ctick_def)
  then have "upload_batch env (sqlite_store lt) ch m ids cl = upload_ack env (sqlite_store lt) ids (Received (PAck a), w)"
    using wr w by (simp add: upload_batch_def m1(1))
  then show ?thesis using m1(2) m2 sw(2) out
    by (cases "ack_Code a = code_Ok") (auto simp: upload_ack_def ctick_def)
qed

text \<open>A batch that can be encoded is sent in one frame, whatever its length.\<close>

lemma uploadReadings_one_frame:
  assumes ne: "readings \<noteq> []" and enc: "Upload_Encode \<lparr>up_Readings = map the_reading readings\<rparr> = Ret b"
  shows "\<exists>m f. NewMsg (cl_factory cl) (ce_clock env (cl_ticks cl)) MsgTypeUpload
            (PUpload \<lparr>up_Readings = map the_reading readings\<rparr>) = Ret (m, f)
        \<and> m_Payload m = b
        \<and> uploadReadings env ops readings maxPayloadSize ch cl
          = upload_batch env ops ch m (map r_ID readings) ((ctick cl)\<lparr>cl_factory := f\<rparr>)"
proof -
  obtain m f where new: "NewMsg (cl_factory cl) (ce_clock env (cl_ticks cl)) MsgTypeUpload
      (PUpload \<lparr>up_Readings = map the_reading readings\<rparr>) = Ret (m, f)"
    using enc by (auto simp: NewMsg_def Let_def split_beta)
  have "uint (m_PayloadLen m) < 2 ^ 16" using unsigned_less [of "m_PayloadLen m"] by simp
  then have "\<not> uint (m_PayloadLen m) > maxPayloadSize" by (simp add: maxPayloadSize_def)
  then show ?thesis using ne new NewMsg_RetD(1) [OF new] enc
    by (subst uploadReadings.simps) (simp add: Let_def)
qed

section \<open>A reading that cannot be encoded\<close>

definition poisoned :: "int \<Rightarrow> CachedReading list \<Rightarrow> bool" where
  "poisoned limit xs \<longleftrightarrow> list_ex (\<lambda>r. \<not> short_strings (the_reading r)) (take (nat limit) (filter is_pending xs))"

lemma uploadReadings_poisoned:
  assumes "\<exists>r \<in> set readings. \<not> short_strings (the_reading r)"
  shows "\<exists>e. uploadReadings env ops readings limit ch cl
    = (Fail (BuildUpload e), snd (mark env ops (map r_ID readings) UploadFailed cl))"
proof -
  have "\<not> (\<exists>b. Upload_Encode \<lparr>up_Readings = map the_reading readings\<rparr> = Ret b)"
    using assms by (auto simp: Upload_Encode_Ret_iff)
  then obtain e where "Upload_Encode \<lparr>up_Readings = map the_reading readings\<rparr> = Fail e"
    using Upload_Encode_no_panic by (metis go.exhaust)
  then have "NewMsg (cl_factory cl) (ce_clock env (cl_ticks cl)) MsgTypeUpload
      (PUpload \<lparr>up_Readings = map the_reading readings\<rparr>) = Fail e"
    by (simp add: NewMsg_def)
  moreover have "readings \<noteq> []" using assms by auto
  ultimately show ?thesis by (subst uploadReadings.simps) (simp add: Let_def)
qed

lemma pending_set_failed:
  assumes "\<forall>r \<in> set xs. r_ID r \<in> set ids \<longrightarrow> is_pending r"
  shows "map the_reading (filter is_pending (set_status ids UploadFailed xs)) = map the_reading (filter is_pending xs)"
  using assms by (induction xs) (auto simp: set_status_def is_pending_def)

lemma poisoned_readings:
  "map the_reading (filter is_pending xs) = map the_reading (filter is_pending ys) \<Longrightarrow> poisoned limit xs \<longleftrightarrow> poisoned limit ys"
proof -
  have "list_ex (\<lambda>r. \<not> short_strings (the_reading r)) zs = list_ex (\<lambda>r. \<not> short_strings r) (map the_reading zs)" for zs
    by (induction zs) simp_all
  moreover assume "map the_reading (filter is_pending xs) = map the_reading (filter is_pending ys)"
  ultimately show ?thesis by (simp add: poisoned_def flip: take_map)
qed

context upload_cache
begin

text \<open>A step of a session leaves such a table stuck: no row is sent.\<close>

definition stuck :: "int \<Rightarrow> 's \<Rightarrow> 's \<Rightarrow> bool" where
  "stuck limit s s' \<longleftrightarrow> poisoned limit (rows s) \<longrightarrow> poisoned limit (rows s') \<and> no_new_sent (rows s) (rows s')"

lemma stuck_refl [simp]: "stuck limit s s"
  by (simp add: stuck_def no_new_sent_def)

lemma stuck_trans: "stuck limit a b \<Longrightarrow> stuck limit b c \<Longrightarrow> stuck limit a c"
  by (auto simp: stuck_def no_new_sent_def)

lemma mark_failed_stuck:
  assumes "\<forall>r \<in> set (rows (cl_store cl)). r_ID r \<in> set ids \<longrightarrow> is_pending r"
  shows "stuck limit (cl_store cl) (cl_store (snd (mark env ops ids UploadFailed cl)))"
proof -
  note r = mark_rows [OF prod.collapse [symmetric], of env ids UploadFailed cl]
  show ?thesis
  proof (cases "fst (mark env ops ids UploadFailed cl)")
    case True
    then have "rows (cl_store (snd (mark env ops ids UploadFailed cl))) = set_status ids UploadFailed (rows (cl_store cl))"
      using r by simp
    then show ?thesis
      using poisoned_readings [OF pending_set_failed [OF assms], of limit] no_new_sent_set_status [OF status_neq(1)]
      by (simp add: stuck_def)
  qed (use r in \<open>simp add: stuck_def no_new_sent_def\<close>)
qed

lemma session_step_stuck:
  assumes lim: "0 < cc_UploadBatchSize cfg"
  shows "stuck (cc_UploadBatchSize cfg) (cl_store cl) (cl_store (snd (session_step env ops cfg ev cl)))"
proof (cases "poisoned (cc_UploadBatchSize cfg) (rows (cl_store cl))")
  case False
  then show ?thesis by (simp add: stuck_def)
next
  case poison: True
  let ?cl = "ctick (readLoop (ce_steps env (cl_ticks cl)) cl)"
  have s: "cl_store ?cl = cl_store cl" by (simp add: ctick_def)
  show ?thesis
  proof (cases "ev = UploadTick \<and> cl_reader ?cl \<noteq> Crashed")
    case False
    then show ?thesis using s by (cases ev) (simp_all add: session_step_def Let_def)
  next
    case True
    show ?thesis
    proof (cases "cs_LoadPendingReadings ops (ce_done env (cl_ticks ?cl)) (cl_store cl) (cc_UploadBatchSize cfg)")
      case None
      then show ?thesis using True s by (simp add: session_step_def Let_def)
    next
      case (Some rs)
      have rs: "rs = take (nat (cc_UploadBatchSize cfg)) (filter is_pending (rows (cl_store cl)))"
        by (rule load_pending [OF lim Some])
      then have "\<exists>r \<in> set rs. \<not> short_strings (the_reading r)" using poison by (simp add: poisoned_def list_ex_iff)
      then have "rs \<noteq> []" "\<exists>r \<in> set rs. \<not> short_strings (the_reading r)" by auto
      then obtain e where up: "uploadReadings env ops rs maxPayloadSize uploadAckCh ?cl
          = (Fail (BuildUpload e), snd (mark env ops (map r_ID rs) UploadFailed ?cl))" "rs \<noteq> []"
        using uploadReadings_poisoned [of rs env ops maxPayloadSize uploadAckCh ?cl] by blast
      have "\<forall>r \<in> set (rows (cl_store ?cl)). r_ID r \<in> set (map r_ID rs) \<longrightarrow> is_pending r"
      proof (intro ballI impI)
        fix r assume r: "r \<in> set (rows (cl_store ?cl))" "r_ID r \<in> set (map r_ID rs)"
        then obtain q where "q \<in> set rs" "r_ID q = r_ID r" by auto
        then have "q \<in> set (rows (cl_store cl))" "is_pending q" "r_ID q = r_ID r"
          using pending_status [OF lim Some] by auto
        then show "is_pending r" using r(1) s distinct_rows [of "cl_store cl"] by (metis distinct_map inj_onD)
      qed
      then have "stuck (cc_UploadBatchSize cfg) (cl_store ?cl) (cl_store (snd (mark env ops (map r_ID rs) UploadFailed ?cl)))"
        by (rule mark_failed_stuck)
      then show ?thesis using True Some s up by (simp add: session_step_def Let_def result_outcome_def)
    qed
  qed
qed

end

section \<open>Back-off\<close>

lemma sint64_of_int: "sint (word_of_int k :: u64) = signed_take_bit 63 k"
  by transfer simp

lemma backoff_exact:
  assumes "0 \<le> retryInterval" and "retryInterval * 1000000 * 2 ^ attempt < 2 ^ 63"
  shows "sint (backoff retryInterval attempt) = min 60000000000 (retryInterval * 1000000 * 2 ^ attempt)"
proof -
  let ?v = "retryInterval * 1000000 * 2 ^ attempt"
  have b: "word_of_int retryInterval * Millisecond * push_bit attempt 1 = (word_of_int ?v :: u64)"
    by (simp add: Millisecond_def push_bit_eq_mult)
  have v: "sint (word_of_int ?v :: u64) = ?v"
    unfolding sint64_of_int
  proof (rule signed_take_bit_int_eq_self)
    have "(0 :: int) \<le> ?v" using assms(1) by simp
    then show "- (2 ^ 63) \<le> ?v" by (rule order_trans [rotated]) simp
  qed (rule assms(2))
  have m: "sint (60 * Second) = 60000000000" by (simp add: Second_def)
  show ?thesis unfolding backoff_def b Let_def if_distrib [of sint] m v min_def
    by (cases "60000000000 < ?v") (simp_all only: if_True if_False, simp_all)
qed

lemma backoff_zero: "58 \<le> attempt \<Longrightarrow> backoff retryInterval attempt = 0"
proof -
  assume "58 \<le> attempt"
  then obtain k where k: "attempt = 58 + k" using le_Suc_ex by blast
  have z: "Millisecond * 2 ^ 58 = 0" by (simp add: Millisecond_def)
  have "Millisecond * push_bit attempt 1 = Millisecond * 2 ^ 58 * 2 ^ k"
    by (simp add: push_bit_eq_mult k power_add mult.assoc del: power_numeral)
  then have "Millisecond * push_bit attempt 1 = 0" unfolding z by simp
  then show ?thesis by (simp add: backoff_def Let_def mult.assoc Second_def)
qed

lemma backoff_bounded: "sint (backoff retryInterval attempt) \<le> 60000000000"
  by (auto simp: backoff_def Let_def Second_def)

lemma dial_attempts_fail:
  assumes "\<And>i. attempt \<le> i \<Longrightarrow> i < attempt + n \<Longrightarrow> dial i = None" and "\<And>i. \<not> cancelled i"
  shows "dial_attempts dial cancelled ri n attempt waits
    = (GaveUp, waits @ map (backoff ri) [attempt ..< attempt + n])"
  using assms(1)
proof (induction n arbitrary: attempt waits)
  case (Suc n)
  have "dial attempt = None" using Suc.prems by simp
  moreover have "dial_attempts dial cancelled ri n (Suc attempt) (waits @ [backoff ri attempt])
      = (GaveUp, (waits @ [backoff ri attempt]) @ map (backoff ri) [Suc attempt ..< Suc attempt + n])"
    using Suc by (intro Suc.IH) simp
  moreover have "[attempt ..< attempt + Suc n] = attempt # [Suc attempt ..< Suc attempt + n]"
    by (simp add: upt_conv_Cons del: upt_Suc)
  ultimately show ?case using assms(2) [of "2 * attempt"] assms(2) [of "2 * attempt + 1"] by (simp add: Let_def del: upt_Suc)
qed simp

lemma dial_attempts_reach:
  assumes "\<And>i. attempt \<le> i \<Longrightarrow> i < attempt + k \<Longrightarrow> dial i = None" and "\<And>i. \<not> cancelled i"
    and "dial (attempt + k) = Some c" and "k < n"
  shows "dial_attempts dial cancelled ri n attempt waits
    = (Connected c, waits @ map (backoff ri) [attempt ..< attempt + k])"
  using assms(1,3,4)
proof (induction k arbitrary: attempt waits n)
  case 0
  then show ?case using assms(2) by (cases n) simp_all
next
  case (Suc k)
  obtain n' where n: "n = Suc n'" using Suc.prems(3) by (cases n) simp_all
  have "dial attempt = None" using Suc.prems(1) by simp
  moreover have "dial_attempts dial cancelled ri n' (Suc attempt) (waits @ [backoff ri attempt])
      = (Connected c, (waits @ [backoff ri attempt]) @ map (backoff ri) [Suc attempt ..< Suc attempt + k])"
    using Suc.prems n by (intro Suc.IH) simp_all
  moreover have "[attempt ..< attempt + Suc k] = attempt # [Suc attempt ..< Suc attempt + k]"
    by (simp add: upt_conv_Cons del: upt_Suc)
  ultimately show ?case using assms(2) [of "2 * attempt"] assms(2) [of "2 * attempt + 1"] n
    by (simp add: Let_def del: upt_Suc)
qed

section \<open>The local writer\<close>

fun incoming :: "(writer_event \<times> bool) list \<Rightarrow> Reading list" where
  "incoming [] = []"
| "incoming ((Incoming r, d) # es) = r # incoming es"
| "incoming ((WriterTick, d) # es) = incoming es"
| "incoming ((ChannelClosed, d) # es) = []"
| "incoming ((WriterCtxDone, d) # es) = []"

context upload_cache
begin

definition saved_as :: "'s \<Rightarrow> CachedReading list \<Rightarrow> Reading list \<Rightarrow> 's \<Rightarrow> CachedReading list \<Rightarrow> bool" where
  "saved_as s buf rs s' buf' \<longleftrightarrow>
     (\<exists>new. rows s' = rows s @ new \<and> same_data (new @ buf') (buf @ map (\<lambda>r. cached r UploadNotSent) rs))"

lemma saved_as_refl: "saved_as s buf [] s buf"
  by (simp add: saved_as_def same_data_def)

lemma saved_as_trans: "saved_as s b rs s1 b1 \<Longrightarrow> saved_as s1 b1 rs' s2 b2 \<Longrightarrow> saved_as s b (rs @ rs') s2 b2"
proof -
  let ?z = "map (\<lambda>r. r\<lparr>r_ID := 0\<rparr>)"
  assume "saved_as s b rs s1 b1" and "saved_as s1 b1 rs' s2 b2"
  then obtain n1 n2 where "rows s1 = rows s @ n1" "rows s2 = rows s1 @ n2"
      and d: "?z (n1 @ b1) = ?z (b @ map (\<lambda>r. cached r UploadNotSent) rs)"
        "?z (n2 @ b2) = ?z (b1 @ map (\<lambda>r. cached r UploadNotSent) rs')"
    unfolding saved_as_def same_data_def by blast
  then have "rows s2 = rows s @ (n1 @ n2)" by simp
  moreover have "?z ((n1 @ n2) @ b2) = ?z (b @ map (\<lambda>r. cached r UploadNotSent) (rs @ rs'))"
    using d by (metis (no_types, lifting) append.assoc map_append)
  ultimately show ?thesis unfolding saved_as_def same_data_def by blast
qed

lemma flush_saved: "flush ops d (s, buf) = (s', buf') \<Longrightarrow> saved_as s buf [] s' buf'"
  using save [OF prod.collapse [symmetric], of d s buf]
  by (auto simp: flush_def Let_def split_beta saved_as_def same_data_def split: if_splits)

lemma append_saved: "saved_as s buf [r] s (buf @ [cached r UploadNotSent])"
  by (simp add: saved_as_def same_data_def)

lemma flush_cancelled: "flush ops True (s, buf) = (s', buf') \<Longrightarrow> rows s' = rows s \<and> buf' = buf"
  using save [OF prod.collapse [symmetric], of True s buf]
  by (auto simp: flush_def Let_def split_beta split: if_splits)

lemma consumeAndWrite_saved:
  "consumeAndWrite ops n es (s, buf) = (fin, s', buf') \<Longrightarrow> saved_as s buf (incoming es) s' buf'"
proof (induction es arbitrary: s buf)
  case Nil
  then show ?case by (simp add: saved_as_refl)
next
  case (Cons e es)
  obtain x d where e: "e = (x, d)" by fastforce
  show ?case
  proof (cases x)
    case (Incoming r)
    obtain s1 b1 where st: "(if length (buf @ [cached r UploadNotSent]) \<ge> n then flush ops d (s, buf @ [cached r UploadNotSent])
        else (s, buf @ [cached r UploadNotSent])) = (s1, b1)" by fastforce
    then have "saved_as s (buf @ [cached r UploadNotSent]) [] s1 b1"
      using flush_saved saved_as_refl by (auto split: if_splits)
    then have "saved_as s buf ([r] @ []) s1 b1" by (rule saved_as_trans [OF append_saved])
    moreover have "saved_as s1 b1 (incoming es) s' buf'"
      using Cons.prems st e Incoming
      by (intro Cons.IH) (cases "n \<le> Suc (length buf)", simp_all add: Let_def)
    ultimately show ?thesis using saved_as_trans e Incoming by fastforce
  next
    case WriterTick
    obtain s1 b1 where "flush ops d (s, buf) = (s1, b1)" by fastforce
    then show ?thesis using Cons e WriterTick flush_saved [of d s buf s1 b1] saved_as_trans [of s buf "[]"] by fastforce
  next
    case ChannelClosed
    then show ?thesis using Cons.prems e flush_saved [of d s buf s' buf'] by simp
  next
    case WriterCtxDone
    then show ?thesis using Cons.prems e flush_saved [of True s buf s' buf'] by simp
  qed
qed

end

section \<open>Properties\<close>

definition client_reading :: Reading where
  "client_reading = \<lparr>r_ID = 0, r_Device = ''d'', r_DeviceName = ''n'', r_Point = ''p'', r_PointName = ''q'',
     r_DataType = ''bool'', r_Value = ''true'', r_Quality = QualityGood, r_Unit = [], r_Timestamp = 0\<rparr>"

definition sample_table :: table where
  "sample_table = table_insert empty_table [cached client_reading UploadNotSent, cached client_reading UploadSending]"

definition sample_client_env :: client_env where
  "sample_client_env = \<lparr>ce_clock = (\<lambda>_. 0), ce_done = (\<lambda>_. False), ce_steps = (\<lambda>_. 1), ce_fires = (\<lambda>_. OnMessage)\<rparr>"

lemma table_rows_insert:
  "distinct (map r_ID (table_rows t @ with_keys (Suc (length (table_rows t))) rs)) \<Longrightarrow>
   table_rows (table_insert t rs) = table_rows t @ with_keys (Suc (length (table_rows t))) rs"
  by transfer (simp add: Let_def)

lemma table_rows_empty [simp]: "table_rows empty_table = []"
  by transfer simp

lemma sample_table_rows:
  "table_rows sample_table =
     [(cached client_reading UploadNotSent)\<lparr>r_ID := 1\<rparr>, (cached client_reading UploadSending)\<lparr>r_ID := 2\<rparr>]"
  by (simp add: sample_table_def table_rows_insert with_keys_Cons)

lemma sample_updates: "updates sample_lite"
  by (simp add: updates_def sample_lite_def)

text \<open>
  C11. Whatever happens on the connections, the reconnect loop loses no reading of the local table
  and changes none, and the rows it finds marked as sent or as being sent keep that mark: a row that
  a session left in the state "sending" is never sent by a later one.
\<close>

theorem sessions_keep_rows:
  assumes "lite_laws lt rows" and "0 < cc_UploadBatchSize cfg"
    and "sessionLoop env (sqlite_store lt) cfg ds s t = (out, s', t')"
  shows "map r_ID (rows s') = map r_ID (rows s) \<and> map the_reading (rows s') = map the_reading (rows s)
    \<and> (\<forall>r \<in> set (rows s). cr_Status r = UploadSending \<or> cr_Status r = UploadSent \<longrightarrow> r \<in> set (rows s'))"
  using upload_cache.sessionLoop_keeps [OF sqlite_is_cache [OF assms(1)] assms(2,3)]
  by (auto simp: upload_cache.keeps_def [OF sqlite_is_cache [OF assms(1)]] is_pending_def Upload_status_defs)

theorem sessions_keep_rows_witness:
  "\<exists>out s' t'. sessionLoop sample_client_env (sqlite_store sample_lite) sample_cfg
       [(GaveUp, []), (Connected (sample_conn []), [UploadTick])] sample_table 0 = (out, s', t')
     \<and> (cached client_reading UploadSending)\<lparr>r_ID := 2\<rparr> \<in> set (table_rows s')"
proof -
  obtain out s' t' where run: "sessionLoop sample_client_env (sqlite_store sample_lite) sample_cfg
       [(GaveUp, []), (Connected (sample_conn []), [UploadTick])] sample_table 0 = (out, s', t')" by (metis prod_cases3)
  have "0 < cc_UploadBatchSize sample_cfg" by (simp add: sample_cfg_def)
  from sessions_keep_rows [OF sample_lite_laws this run] sample_table_rows run
  show ?thesis by simp
qed

text \<open>
  C23. A batch is never split: whatever its size, an upload that can be encoded leaves in a single
  frame, because the length it compares with the limit was already cut to sixteen bits. Of a frame
  whose payload is above 65535 bytes the server receives at most a strictly shorter prefix.
\<close>

theorem oversize_batch_sent_whole:
  assumes "readings \<noteq> []" and "Upload_Encode \<lparr>up_Readings = map the_reading readings\<rparr> = Ret b"
  shows "\<exists>m f. m_Payload m = b
    \<and> uploadReadings env ops readings maxPayloadSize ch cl
        = upload_batch env ops ch m (map r_ID readings) ((ctick cl)\<lparr>cl_factory := f\<rparr>)
    \<and> (65535 < length b \<longrightarrow>
        (\<forall>c rest m' c'. c_in c = fst (Msg_Encode m) @ rest \<longrightarrow> DecodeFrame c = Ret (m', c') \<longrightarrow>
           length (m_Payload m') < length b))"
proof -
  obtain m f where m: "m_Payload m = b" "uploadReadings env ops readings maxPayloadSize ch cl
      = upload_batch env ops ch m (map r_ID readings) ((ctick cl)\<lparr>cl_factory := f\<rparr>)"
    using uploadReadings_one_frame [OF assms, of cl env ops ch] by blast
  have "length (m_Payload m') < length b"
    if "65535 < length b" "c_in c = fst (Msg_Encode m) @ rest" "DecodeFrame c = Ret (m', c')" for c rest m' c'
    using DecodeFrame_oversize [OF that(2,3)] m(1) that(1) mod_less_divisor [of 65536 "length b"] by simp
  with m show ?thesis by blast
qed

theorem oversize_batch_sent_whole_witness:
  "\<exists>m f. length (m_Payload m) = 65577 \<and>
     uploadReadings sample_client_env (sqlite_store sample_lite) [cached (client_reading\<lparr>r_Value := replicate 65534 CHR ''x''\<rparr>) UploadNotSent]
       maxPayloadSize uploadAckCh (new_session sample_table (sample_conn []) NewMsgFactory 0)
     = upload_batch sample_client_env (sqlite_store sample_lite) uploadAckCh m [0]
         ((ctick (new_session sample_table (sample_conn []) NewMsgFactory 0))\<lparr>cl_factory := f\<rparr>)"
proof -
  let ?r = "client_reading\<lparr>r_Value := replicate 65534 CHR ''x''\<rparr>"
  let ?cl = "new_session sample_table (sample_conn []) NewMsgFactory 0"
  have enc: "Upload_Encode \<lparr>up_Readings = map the_reading [cached ?r UploadNotSent]\<rparr> = Ret (be32 1 @ reading_wire ?r)"
    by (simp add: Upload_Encode_Ret_iff short_strings_fields client_reading_def)
  have "length (be32 1 @ reading_wire ?r) = 65577"
    by (simp add: reading_wire_tlv client_reading_def)
  moreover obtain m f where "m_Payload m = be32 1 @ reading_wire ?r"
      "uploadReadings sample_client_env (sqlite_store sample_lite) [cached ?r UploadNotSent] maxPayloadSize uploadAckCh ?cl
         = upload_batch sample_client_env (sqlite_store sample_lite) uploadAckCh m (map r_ID [cached ?r UploadNotSent])
             ((ctick ?cl)\<lparr>cl_factory := f\<rparr>)"
    using oversize_batch_sent_whole [OF _ enc, of sample_client_env "sqlite_store sample_lite" uploadAckCh ?cl] by blast
  moreover have "map r_ID [cached ?r UploadNotSent] = [0]" by (simp add: client_reading_def)
  ultimately show ?thesis by metis
qed

text \<open>A database that answers every query whose context is not cancelled.\<close>

definition selects :: "'db lite_ops \<Rightarrow> bool" where
  "selects lt \<longleftrightarrow> (\<forall>s q. lt_Select lt False s q \<noteq> None)"

lemma session_upload_acked:
  assumes laws: "lite_laws lt rows" and up: "updates lt" and sel: "selects lt" and live: "\<forall>t. \<not> ce_done env t"
    and lim: "0 < cc_UploadBatchSize cfg"
    and rs: "rs = take (nat (cc_UploadBatchSize cfg)) (filter is_pending (rows (cl_store cl)))" "rs \<noteq> []"
    and new: "NewMsg (cl_factory cl) (ce_clock env (cl_ticks cl + 1)) MsgTypeUpload
        (PUpload \<lparr>up_Readings = map the_reading rs\<rparr>) = Ret (m, f)"
    and st: "cl_reader cl = Reads" "routes (cl_router cl) MsgTypeUploadAck = Some uploadAckCh"
      "cl_chans cl = \<lparr>ch_cap = uploadWindowSize, ch_buf = []\<rparr> # chs" "c_writes_left (cl_conn cl) = Suc n"
    and env: "ce_steps env (cl_ticks cl) = 0" "ce_steps env (cl_ticks cl + 3) = 1" "ce_fires env (cl_ticks cl + 3) = OnMessage"
    and ack: "NewMsg g now MsgTypeUploadAck (PAck a) = Ret (resp, g')" "ack_Code a = code_Ok"
    and c: "c_in (cl_conn cl) = fst (Msg_Encode resp) @ rest"
  shows "\<exists>cl'. session_step env (sqlite_store lt) cfg UploadTick cl = (Running, cl')
    \<and> rows (cl_store cl') = set_status (map r_ID rs) UploadSent (rows (cl_store cl))
    \<and> c_out (cl_conn cl') = c_out (cl_conn cl) @ [fst (Msg_Encode m)] \<and> cl_timeouts cl' = 0"
proof -
  let ?cl = "ctick cl"
  let ?cl1 = "(ctick ?cl)\<lparr>cl_factory := f\<rparr>"
  obtain q where "lt_Select lt False (cl_store cl) \<lparr>sl_status = Some [UploadNotSent, UploadFailed], sl_limit = cc_UploadBatchSize cfg\<rparr> = Some q"
    using sel unfolding selects_def by blast
  then have load: "cs_LoadPendingReadings (sqlite_store lt) False (cl_store cl) (cc_UploadBatchSize cfg) = Some q"
    by (simp add: sqlite_store_def lite_LoadPendingReadings_def)
  then have q: "q = rs" using upload_cache.load_pending [OF sqlite_is_cache [OF laws] lim] rs(1) by simp
  obtain b where enc: "Upload_Encode \<lparr>up_Readings = map the_reading rs\<rparr> = Ret b"
    using NewMsg_RetD(1) [OF new] by simp
  have upl: "uploadReadings env (sqlite_store lt) rs maxPayloadSize uploadAckCh ?cl
      = upload_batch env (sqlite_store lt) uploadAckCh m (map r_ID rs) ?cl1"
    using uploadReadings_one_frame [OF rs(2) enc, of ?cl env "sqlite_store lt" uploadAckCh] new by (simp add: ctick_def)
  obtain c1 where wr: "conn_Write (cl_conn ?cl1) (fst (Msg_Encode m)) = (True, c1)" "c_in c1 = c_in (cl_conn cl)"
      "c_out c1 = c_out (cl_conn cl) @ [fst (Msg_Encode m)]"
    using st(4) by (simp add: conn_Write_def ctick_def)
  have aw: "\<exists>w. await env True uploadAckCh ((ctick ?cl1)\<lparr>cl_store := s, cl_conn := c1\<rparr>) = (Received (PAck a), w)
      \<and> cl_timeouts w = cl_timeouts cl" for s
    using await_answered [of "(ctick ?cl1)\<lparr>cl_store := s, cl_conn := c1\<rparr>" chs env g now a resp g' rest]
      st env ack wr(2) c by (auto simp: ctick_def numeral_eq_Suc)
  obtain cl' where b: "upload_batch env (sqlite_store lt) uploadAckCh m (map r_ID rs) ?cl1 = (Ret (), cl')"
      "rows (cl_store cl') = set_status (map r_ID rs) UploadSent (rows (cl_store ?cl1))"
      "c_out (cl_conn cl') = c_out (cl_conn ?cl1) @ [fst (Msg_Encode m)]" "cl_timeouts cl' = 0"
    using upload_batch_acked [OF laws up live wr(1), of uploadAckCh a "map r_ID rs"] aw ack(2) by auto
  have "readLoop 0 cl = cl" by (simp add: readLoop_def)
  then have "session_step env (sqlite_store lt) cfg UploadTick cl = (Running, cl')"
    using st(1) env(1) live load q rs(2) upl b(1,4)
    by (simp add: session_step_def Let_def ctick_def maxConsecutiveAllTimeout_def)
  then show ?thesis using b by (simp add: ctick_def)
qed

text \<open>
  C3. In a session, no row becomes sent unless the connection carried an upload acknowledgement with
  the code Ok.
\<close>

theorem sent_needs_ok_ack:
  assumes "lite_laws lt rows"
    and "runSession env (sqlite_store lt) cfg (Connected c) evs s t = (out, s', t')"
    and "r \<in> set (rows s')" and "cr_Status r = UploadSent" and "r \<notin> set (rows s)"
  shows "\<exists>m a. m \<in> set (inbound c) \<and> m_Type m = MsgTypeUploadAck \<and> ParseMsg m = Ret (PAck a) \<and> ack_Code a = code_Ok"
  by (rule upload_cache.runSession_careful [OF sqlite_is_cache [OF assms(1)] assms(2-5)])

lemma NewMsg_ack: "\<exists>resp g'. NewMsg g now t (PAck a) = Ret (resp, g')"
  by (simp add: NewMsg_def Ack_Encode_def Let_def split_beta)

lemma NewMsg_handshake:
  "length (hs_Sn p) \<le> 255 \<Longrightarrow> length (hs_Token p) \<le> 255 \<Longrightarrow> \<exists>m g'. NewMsg g now t (PHandshake p) = Ret (m, g')"
  by (simp add: NewMsg_def Handshake_Encode_def Let_def split_beta)

lemma NewMsg_upload:
  "Upload_Encode \<lparr>up_Readings = rs\<rparr> = Ret b \<Longrightarrow> \<exists>m f. NewMsg g now t (PUpload \<lparr>up_Readings = rs\<rparr>) = Ret (m, f)"
  by (simp add: NewMsg_def Let_def split_beta)

lemma sample_encodes:
  "\<exists>b. Upload_Encode \<lparr>up_Readings = map the_reading [(cached client_reading UploadNotSent)\<lparr>r_ID := 1\<rparr>]\<rparr> = Ret b"
proof -
  have "the_reading ((cached client_reading UploadNotSent)\<lparr>r_ID := 1\<rparr>) = client_reading\<lparr>r_ID := 1\<rparr>"
    by (simp add: the_reading_def cached_def Reading.defs client_reading_def)
  then show ?thesis by (simp add: Upload_Encode_Ret_iff short_strings_fields client_reading_def)
qed

lemma sample_selects: "selects sample_lite"
  by (simp add: selects_def sample_lite_def)

definition steps_env :: client_env where
  "steps_env = sample_client_env\<lparr>ce_steps := (\<lambda>t. if t = 4 then 1 else 0)\<rparr>"

theorem sent_needs_ok_ack_witness:
  "\<exists>c out s' t' m a. runSession steps_env (sqlite_store sample_lite) sample_cfg (Connected c) [UploadTick] sample_table 0 = (out, s', t')
     \<and> (cached client_reading UploadSent)\<lparr>r_ID := 1\<rparr> \<in> set (table_rows s')
     \<and> m \<in> set (inbound c) \<and> m_Type m = MsgTypeUploadAck \<and> ParseMsg m = Ret (PAck a) \<and> ack_Code a = code_Ok"
proof -
  let ?a = "\<lparr>ack_MsgID = 1, ack_Code = code_Ok\<rparr>"
  let ?env = steps_env and ?lt = sample_lite and ?cfg = sample_cfg
  obtain r1 g1 r2 g2 where acks: "NewMsg NewMsgFactory 0 MsgTypeHandshakeAck (PAck ?a) = Ret (r1, g1)"
      "NewMsg g1 0 MsgTypeUploadAck (PAck ?a) = Ret (r2, g2)"
    using NewMsg_ack by metis
  let ?c = "sample_conn (fst (Msg_Encode r1) @ fst (Msg_Encode r2))"
  obtain hs f where hs: "NewMsg NewMsgFactory (ce_clock ?env 0) MsgTypeHandshake
      (PHandshake \<lparr>hs_FirmwareVersion = 1, hs_Sn = cc_Sn ?cfg, hs_Token = cc_Token ?cfg\<rparr>) = Ret (hs, f)"
    using NewMsg_handshake [of "\<lparr>hs_FirmwareVersion = 1, hs_Sn = cc_Sn ?cfg, hs_Token = cc_Token ?cfg\<rparr>"
        NewMsgFactory "ce_clock ?env 0" MsgTypeHandshake]
    by (auto simp: sample_cfg_def)
  obtain c1 where wr: "conn_Write ?c (fst (Msg_Encode hs)) = (True, c1)" "c_writes_left c1 = Suc 7"
    by (simp add: conn_Write_def sample_conn_def)
  let ?n = "new_session sample_table (c1\<lparr>c_in := fst (Msg_Encode r2)\<rparr>) f 1"
  have hsk: "performHandshake ?env ?cfg NewMsgFactory 0 ?c = Ret (c1\<lparr>c_in := fst (Msg_Encode r2)\<rparr>, f)"
    using performHandshake_answered [OF hs wr(1) acks(1)] by simp
  let ?rs = "[(cached client_reading UploadNotSent)\<lparr>r_ID := 1\<rparr>]"
  have rs: "?rs = take (nat (cc_UploadBatchSize ?cfg)) (filter is_pending (table_rows (cl_store ?n)))"
    by (simp add: sample_table_rows is_pending_def Upload_status_defs sample_cfg_def)
  obtain m f' where new: "NewMsg (cl_factory ?n) (ce_clock ?env (cl_ticks ?n + 1)) MsgTypeUpload
        (PUpload \<lparr>up_Readings = map the_reading ?rs\<rparr>) = Ret (m, f')"
    using sample_encodes NewMsg_upload by metis
  obtain cl' where up: "session_step ?env (sqlite_store ?lt) ?cfg UploadTick ?n = (Running, cl')"
      "table_rows (cl_store cl') = set_status (map r_ID ?rs) UploadSent (table_rows (cl_store ?n))"
    using session_upload_acked [OF sample_lite_laws sample_updates sample_selects _ _ rs _ new _ _ _ _ _ _ _ acks(2), of "[]" 7 "[]"] wr(2)
    by (auto simp: steps_env_def sample_client_env_def sample_cfg_def new_session_def newMsgRouter_def router_register_def)
  have run: "runSession ?env (sqlite_store ?lt) ?cfg (Connected ?c) [UploadTick] sample_table 0 = (Running, cl_store cl', cl_ticks cl')"
    using up(1) by (simp add: runSession_def hsk)
  let ?r = "(cached client_reading UploadSent)\<lparr>r_ID := 1\<rparr>"
  have "(cached client_reading UploadNotSent)\<lparr>r_ID := 1, cr_Status := UploadSent\<rparr> = ?r"
    by (simp add: cached_def Reading.defs)
  then have r: "?r \<in> set (table_rows (cl_store cl'))"
    using up(2) by (simp add: sample_table_rows set_status_def)
  have "?r \<notin> set (table_rows sample_table)" "cr_Status ?r = UploadSent"
    by (simp_all add: sample_table_rows cached_def Reading.defs Upload_status_defs)
  from sent_needs_ok_ack [OF sample_lite_laws run r this(2,1)] run r show ?thesis by blast
qed

text \<open>The oldest message of the upload channel stays in front while the read loop works.\<close>

lemma chan_send_head: "chan_send chs i p = Some chs' \<Longrightarrow> chs \<noteq> [] \<Longrightarrow> ch_buf (chs ! 0) = x # q \<Longrightarrow>
    chs' \<noteq> [] \<and> (\<exists>q'. ch_buf (chs' ! 0) = x # q')"
  by (cases "i = 0") (auto simp: chan_send_def Let_def nth_list_update split: if_splits)

lemma readLoop_step_head:
  assumes "cl_chans cl \<noteq> []" and "ch_buf (cl_chans cl ! 0) = x # q"
  shows "cl_chans (readLoop_step cl) \<noteq> [] \<and> (\<exists>q'. ch_buf (cl_chans (readLoop_step cl) ! 0) = x # q')"
  using assms chan_send_head
  by (auto simp: readLoop_step_def dispatch_def Let_def split: reader.splits go.splits option.splits)

lemma readLoop_head:
  "cl_chans cl \<noteq> [] \<Longrightarrow> ch_buf (cl_chans cl ! 0) = x # q \<Longrightarrow>
   cl_chans (readLoop n cl) \<noteq> [] \<and> (\<exists>q'. ch_buf (cl_chans (readLoop n cl) ! 0) = x # q')"
  by (induction n) (use readLoop_step_head in \<open>auto simp: readLoop_def\<close>)

lemma await_waiting_ack:
  assumes "cl_chans cl \<noteq> []" and "ch_buf (cl_chans cl ! uploadAckCh) = PAck a # q"
    and "ce_fires env (cl_ticks cl) \<noteq> OnTimer" and "\<not> ce_done env (cl_ticks cl)"
  shows "\<exists>w. await env True uploadAckCh cl = (Received (PAck a), w)"
  using readLoop_head [OF assms(1), of "PAck a" q "ce_steps env (cl_ticks cl)"] assms(2-4)
  by (auto simp: await_def Let_def chan_recv_def uploadAckCh_def ctick_def)

text \<open>
  C22. The number of the acknowledged message is not compared: an Ok that still waits in the channel,
  of any earlier message, marks the next batch as sent, whether or not the server ever reads it.
\<close>

theorem stale_ack_marks_batch:
  assumes "lite_laws lt rows" and "updates lt" and "\<forall>t. \<not> ce_done env t" and "\<forall>t. ce_fires env t \<noteq> OnTimer"
    and "readings \<noteq> []" and "Upload_Encode \<lparr>up_Readings = map the_reading readings\<rparr> = Ret b"
    and "cl_chans cl \<noteq> []" and "ch_buf (cl_chans cl ! uploadAckCh) = PAck a # q" and "ack_Code a = code_Ok"
    and "c_writes_left (cl_conn cl) = Suc n"
  shows "\<exists>cl'. uploadReadings env (sqlite_store lt) readings maxPayloadSize uploadAckCh cl = (Ret (), cl')
    \<and> rows (cl_store cl') = set_status (map r_ID readings) UploadSent (rows (cl_store cl))"
proof -
  obtain m f where up: "uploadReadings env (sqlite_store lt) readings maxPayloadSize uploadAckCh cl
      = upload_batch env (sqlite_store lt) uploadAckCh m (map r_ID readings) ((ctick cl)\<lparr>cl_factory := f\<rparr>)"
    using uploadReadings_one_frame [OF assms(5,6)] by blast
  obtain c where wr: "conn_Write (cl_conn ((ctick cl)\<lparr>cl_factory := f\<rparr>)) (fst (Msg_Encode m)) = (True, c)"
    using assms(10) by (simp add: conn_Write_def ctick_def)
  have "\<exists>w. await env True uploadAckCh ((ctick ((ctick cl)\<lparr>cl_factory := f\<rparr>))\<lparr>cl_store := s, cl_conn := c\<rparr>) = (Received (PAck a), w)" for s
    using assms(3,4,7,8) by (intro await_waiting_ack [of _ a q]) (simp_all add: ctick_def)
  from upload_batch_acked [OF assms(1-3) wr this, of "map r_ID readings"] up assms(9) show ?thesis
    by (auto simp: ctick_def)
qed

theorem stale_ack_marks_batch_witness:
  "\<exists>cl'. uploadReadings sample_client_env (sqlite_store sample_lite) [(cached client_reading UploadNotSent)\<lparr>r_ID := 1\<rparr>]
         maxPayloadSize uploadAckCh
         ((new_session sample_table (sample_conn []) NewMsgFactory 0)
           \<lparr>cl_chans := [\<lparr>ch_cap = 3, ch_buf = [PAck \<lparr>ack_MsgID = 777, ack_Code = code_Ok\<rparr>]\<rparr>]\<rparr>) = (Ret (), cl')
     \<and> map cr_Status (table_rows (cl_store cl')) = [UploadSent, UploadSending]"
proof -
  let ?rs = "[(cached client_reading UploadNotSent)\<lparr>r_ID := 1\<rparr>]"
  let ?cl = "(new_session sample_table (sample_conn []) NewMsgFactory 0)
           \<lparr>cl_chans := [\<lparr>ch_cap = 3, ch_buf = [PAck \<lparr>ack_MsgID = 777, ack_Code = code_Ok\<rparr>]\<rparr>]\<rparr>"
  obtain b where b: "Upload_Encode \<lparr>up_Readings = map the_reading ?rs\<rparr> = Ret b" using sample_encodes by blast
  let ?a = "\<lparr>ack_MsgID = 777, ack_Code = code_Ok\<rparr> :: AckPayload"
  have env: "\<forall>t. \<not> ce_done sample_client_env t" "\<forall>t. ce_fires sample_client_env t \<noteq> OnTimer"
    by (simp_all add: sample_client_env_def)
  have ch: "cl_chans ?cl \<noteq> []" "ch_buf (cl_chans ?cl ! uploadAckCh) = PAck ?a # []" "ack_Code ?a = code_Ok"
      "c_writes_left (cl_conn ?cl) = Suc 8"
    by (simp_all add: uploadAckCh_def new_session_def sample_conn_def)
  from stale_ack_marks_batch [OF sample_lite_laws sample_updates env _ b ch]
  have "\<exists>cl'. uploadReadings sample_client_env (sqlite_store sample_lite) ?rs maxPayloadSize uploadAckCh ?cl = (Ret (), cl')
      \<and> table_rows (cl_store cl') = set_status (map r_ID ?rs) UploadSent (table_rows (cl_store ?cl))" by simp
  then show ?thesis by (auto simp: set_status_def sample_table_rows)
qed

text \<open>
  C24. A reading with a field of more than 65535 bytes can never be encoded. When one is among the
  first readings waiting, no session ever sends a reading again: each marks the batch as failed,
  which makes it the next batch again.
\<close>

theorem poison_reading_blocks_uploads:
  assumes "lite_laws lt rows" and "0 < cc_UploadBatchSize cfg"
    and "\<exists>r \<in> set (take (nat (cc_UploadBatchSize cfg)) (filter is_pending (rows s))).
           \<not> list_all (\<lambda>x. length x \<le> 65535) (string_fields (the_reading r))"
    and "sessionLoop env (sqlite_store lt) cfg ds s t = (out, s', t')"
  shows "\<forall>r \<in> set (rows s'). cr_Status r = UploadSent \<longrightarrow> r \<in> set (rows s)"
proof -
  note cache = sqlite_is_cache [OF assms(1)]
  have "\<exists>r \<in> set (take (nat (cc_UploadBatchSize cfg)) (filter is_pending (rows s))). \<not> short_strings (the_reading r)"
    using assms(3) by (simp add: short_strings_def list_all_iff)
  then have "poisoned (cc_UploadBatchSize cfg) (rows s)" by (simp add: poisoned_def list_ex_iff)
  moreover have "upload_cache.stuck rows (cc_UploadBatchSize cfg) s s'"
    by (rule sessionLoop_rel [OF _ _ _ assms(4)])
       (auto intro: upload_cache.stuck_trans [OF cache] upload_cache.session_step_stuck [OF cache assms(2)]
         simp: upload_cache.stuck_refl [OF cache])
  ultimately show ?thesis by (simp add: upload_cache.stuck_def [OF cache] no_new_sent_def)
qed

definition poison_table :: table where
  "poison_table = table_insert empty_table [cached (client_reading\<lparr>r_Value := replicate 65536 CHR ''x''\<rparr>) UploadNotSent]"

theorem poison_reading_blocks_uploads_witness:
  "\<exists>out s' t'. sessionLoop sample_client_env (sqlite_store sample_lite) sample_cfg
       [(GaveUp, []), (Connected (sample_conn []), [UploadTick])] poison_table 0 = (out, s', t')
     \<and> (\<forall>r \<in> set (table_rows s'). cr_Status r = UploadSent \<longrightarrow> r \<in> set (table_rows poison_table))"
proof -
  let ?r = "cached (client_reading\<lparr>r_Value := replicate 65536 CHR ''x''\<rparr>) UploadNotSent"
  have rows: "table_rows poison_table = [?r\<lparr>r_ID := 1\<rparr>]"
    by (simp add: poison_table_def table_rows_insert with_keys_Cons)
  have "r_Value (the_reading (?r\<lparr>r_ID := 1\<rparr>)) = replicate 65536 CHR ''x''"
    by (simp add: the_reading_def cached_def Reading.defs)
  then have long: "\<not> list_all (\<lambda>x. length x \<le> 65535) (string_fields (the_reading (?r\<lparr>r_ID := 1\<rparr>)))"
    by (simp add: string_fields_def)
  have "take (nat (cc_UploadBatchSize sample_cfg)) (filter is_pending (table_rows poison_table)) = [?r\<lparr>r_ID := 1\<rparr>]"
    by (simp add: rows sample_cfg_def is_pending_def cached_def Reading.defs)
  then have poison: "\<exists>r \<in> set (take (nat (cc_UploadBatchSize sample_cfg)) (filter is_pending (table_rows poison_table))).
           \<not> list_all (\<lambda>x. length x \<le> 65535) (string_fields (the_reading r))"
    using long by simp
  obtain out s' t' where run: "sessionLoop sample_client_env (sqlite_store sample_lite) sample_cfg
       [(GaveUp, []), (Connected (sample_conn []), [UploadTick])] poison_table 0 = (out, s', t')" by (metis prod_cases3)
  have "0 < cc_UploadBatchSize sample_cfg" by (simp add: sample_cfg_def)
  from poison_reading_blocks_uploads [OF sample_lite_laws this poison run] run show ?thesis by blast
qed

text \<open>
  Dialling ends after at most \<^verbatim>\<open>MaxRetry\<close> attempts: it connects with the first attempt that
  succeeds, after one wait for each failed attempt before it, and gives up when there is none. No
  wait is longer than a minute.
\<close>

theorem dialWithRetry_spec:
  assumes "\<forall>i. \<not> cancelled i"
  shows "dialWithRetry dial cancelled cfg =
      (case find (\<lambda>i. dial i \<noteq> None) [0 ..< nat (cc_MaxRetry cfg)] of
         Some k \<Rightarrow> (Connected (the (dial k)), map (backoff (cc_RetryInterval cfg)) [0 ..< k])
       | None \<Rightarrow> (GaveUp, map (backoff (cc_RetryInterval cfg)) [0 ..< nat (cc_MaxRetry cfg)]))
    \<and> list_all (\<lambda>w. sint w \<le> 60 * 10 ^ 9) (snd (dialWithRetry dial cancelled cfg))"
proof -
  let ?n = "nat (cc_MaxRetry cfg)" and ?w = "\<lambda>k. map (backoff (cc_RetryInterval cfg)) [0 ..< k]"
  have eq: "dialWithRetry dial cancelled cfg =
      (case find (\<lambda>i. dial i \<noteq> None) [0 ..< ?n] of
         Some k \<Rightarrow> (Connected (the (dial k)), ?w k) | None \<Rightarrow> (GaveUp, ?w ?n))"
  proof (cases "find (\<lambda>i. dial i \<noteq> None) [0 ..< ?n]")
    case None
    then have "\<And>i. 0 \<le> i \<Longrightarrow> i < 0 + ?n \<Longrightarrow> dial i = None" by (simp add: find_None_iff)
    from dial_attempts_fail [OF this] None show ?thesis using assms by (simp add: dialWithRetry_def)
  next
    case (Some k)
    then have k: "k < ?n" "dial k \<noteq> None" "\<forall>j < k. dial j = None" by (auto simp: find_Some_iff)
    then obtain c where "dial (0 + k) = Some c" by auto
    with dial_attempts_reach [of 0 k dial cancelled c ?n "cc_RetryInterval cfg" "[]"] k Some assms show ?thesis
      by (simp add: dialWithRetry_def)
  qed
  have "list_all (\<lambda>w. sint w \<le> 60 * 10 ^ 9) (?w k)" for k
    using backoff_bounded by (simp add: list_all_iff)
  then show ?thesis by (simp add: eq split: option.split)
qed

theorem dialWithRetry_spec_witness:
  "dialWithRetry (\<lambda>i. if i = 2 then Some (sample_conn []) else None) (\<lambda>_. False) sample_cfg
     = (Connected (sample_conn []), map (backoff 5000) [0, 1])"
proof -
  let ?d = "\<lambda>i. if i = (2 :: nat) then Some (sample_conn []) else None"
  have "find (\<lambda>i. ?d i \<noteq> None) [0 ..< 10] = Some 2" by (simp add: upt_rec)
  with dialWithRetry_spec [of "\<lambda>_. False" ?d sample_cfg] show ?thesis
    by (simp add: sample_cfg_def upt_rec)
qed

text \<open>
  C25. The wait after the \<open>n\<close>-th failed attempt is the smaller of a minute and the retry interval times
  \<open>2 ^ n\<close>, as long as this product fits a signed 64-bit number of nanoseconds. From the 58th attempt on
  it has overflowed to zero whatever the interval, and the client dials without waiting.
\<close>

theorem backoff_spec:
  assumes "0 \<le> retryInterval"
  shows "(retryInterval * 10 ^ 6 * 2 ^ attempt < 2 ^ 63 \<longrightarrow>
      sint (backoff retryInterval attempt) = min (60 * 10 ^ 9) (retryInterval * 10 ^ 6 * 2 ^ attempt))
    \<and> (58 \<le> attempt \<longrightarrow> backoff retryInterval attempt = 0)"
  using backoff_exact [OF assms, of attempt] backoff_zero [of attempt retryInterval] by simp

theorem backoff_spec_witness:
  "sint (backoff 5000 3) = 40 * 10 ^ 9 \<and> sint (backoff 5000 4) = 60 * 10 ^ 9 \<and> backoff 5000 58 = 0"
  using backoff_spec [of 5000 3] backoff_spec [of 5000 4] backoff_spec [of 5000 58] by simp

lemma consumeAndWrite_append:
  "consumeAndWrite ops n (es @ fs) w =
     (case consumeAndWrite ops n es w of (True, w) \<Rightarrow> (True, w) | (False, w) \<Rightarrow> consumeAndWrite ops n fs w)"
  by (induction es arbitrary: w) (auto simp: Let_def split: writer_event.split)

text \<open>
  The local writer stores the readings it receives in their order, once each and as not sent:
  what is in the table and then in its buffer is what came in, even when some writes fail. When it
  is told to stop by the context, what is still in the buffer is lost: the last write uses the same
  cancelled context.
\<close>

theorem consumeAndWrite_saves:
  assumes "lite_laws lt rows" and "consumeAndWrite (sqlite_store lt) n es (s, []) = (fin, s', buf)"
  shows "(\<exists>new. rows s' = rows s @ new
      \<and> map (\<lambda>r. r\<lparr>r_ID := 0\<rparr>) (new @ buf) = map (\<lambda>r. (cached r UploadNotSent)\<lparr>r_ID := 0\<rparr>) (incoming es))
    \<and> (\<not> fin \<longrightarrow> (\<exists>s2. consumeAndWrite (sqlite_store lt) n (es @ [(WriterCtxDone, d)]) (s, []) = (True, s2, buf)
        \<and> rows s2 = rows s'))"
proof -
  note cache = sqlite_is_cache [OF assms(1)]
  have "upload_cache.saved_as rows s [] (incoming es) s' buf"
    by (rule upload_cache.consumeAndWrite_saved [OF cache assms(2)])
  moreover obtain s2 b2 where fl: "flush (sqlite_store lt) True (s', buf) = (s2, b2)" by fastforce
  then have "rows s2 = rows s' \<and> b2 = buf" by (rule upload_cache.flush_cancelled [OF cache])
  ultimately show ?thesis using assms(2) fl
    by (auto simp: upload_cache.saved_as_def [OF cache] same_data_def comp_def consumeAndWrite_append)
qed

theorem consumeAndWrite_saves_witness:
  "\<exists>s'. consumeAndWrite (sqlite_store sample_lite) 2
       [(Incoming client_reading, False), (Incoming client_reading, False), (Incoming client_reading, False)] (empty_table, [])
     = (False, s', [cached client_reading UploadNotSent]) \<and> length (table_rows s') = 2
     \<and> (\<exists>s2. consumeAndWrite (sqlite_store sample_lite) 2
       ([(Incoming client_reading, False), (Incoming client_reading, False), (Incoming client_reading, False)]
         @ [(WriterCtxDone, True)]) (empty_table, []) = (True, s2, [cached client_reading UploadNotSent])
         \<and> table_rows s2 = table_rows s')"
proof -
  let ?es = "[(Incoming client_reading, False), (Incoming client_reading, False), (Incoming client_reading, False)]"
  let ?b = "[cached client_reading UploadNotSent, cached client_reading UploadNotSent]"
  let ?s = "table_insert empty_table ?b"
  have run: "consumeAndWrite (sqlite_store sample_lite) 2 ?es (empty_table, [])
      = (False, ?s, [cached client_reading UploadNotSent])"
    by (simp add: flush_def sqlite_store_def lite_SaveReadings_def sample_lite_def with_keys_Cons Let_def)
  have "length (table_rows ?s) = 2" by (simp add: table_rows_insert with_keys_Cons)
  with consumeAndWrite_saves [OF sample_lite_laws run, of True] run show ?thesis by blast
qed

end
