(* ===== verification/GoStrconv.thy ===== *)
theory GoStrconv
  imports GoStd GoFloat
begin

text \<open>
  The functions of \<^verbatim>\<open>strconv\<close> that turn booleans and floating-point numbers into text and back. The
  shortest text of a number is found as its definition says: the fewest decimal digits that read back
  as the number, and of these the nearest. An error is \<open>None\<close>; every caller treats a syntax error and
  a range error alike.
\<close>

section \<open>Booleans\<close>

definition FormatBool :: "bool \<Rightarrow> string" where
  "FormatBool b = (if b then ''true'' else ''false'')"

definition ParseBool :: "string \<Rightarrow> bool option" where
  "ParseBool s =
     (if s \<in> set [''1'', ''t'', ''T'', ''true'', ''TRUE'', ''True''] then Some True
      else if s \<in> set [''0'', ''f'', ''F'', ''false'', ''FALSE'', ''False''] then Some False
      else None)"

lemma ParseBool_FormatBool [simp]: "ParseBool (FormatBool b) = Some b"
  by (cases b) (simp_all add: ParseBool_def FormatBool_def)

section \<open>Shortest digits\<close>

text \<open>How often a fraction below one is multiplied by ten until it is not.\<close>

function leading_zeros :: "nat \<Rightarrow> nat \<Rightarrow> nat" where
  "leading_zeros num den = (if num = 0 \<or> den \<le> num then 0 else Suc (leading_zeros (10 * num) den))"
  by pat_completeness auto
termination
  by (relation "measure (\<lambda>(num, den). den - num)") auto

declare leading_zeros.simps [simp del]

text \<open>The position of the decimal point: \<open>num / den\<close> is at least \<open>10 ^ (dp - 1)\<close> and below \<open>10 ^ dp\<close>.\<close>

definition decimal_point :: "nat \<Rightarrow> nat \<Rightarrow> int" where
  "decimal_point num den =
     (if den \<le> num then int (length (Itoa (num div den))) else 1 - int (leading_zeros num den))"

text \<open>The number \<open>c * 10 ^ k\<close> as a floating-point number.\<close>

definition of_decimal :: "bool \<Rightarrow> nat \<Rightarrow> int \<Rightarrow> float64" where
  "of_decimal s c k = round64 s (c * 10 ^ nat k) (10 ^ nat (- k))"

text \<open>\<open>n\<close> digits that read back as \<open>f\<close>, if there are any.\<close>

definition digits_for :: "float64 \<Rightarrow> bool \<Rightarrow> nat \<Rightarrow> nat \<Rightarrow> int \<Rightarrow> nat \<Rightarrow> nat option" where
  "digits_for f s num den dp n =
     (let k = dp - int n;
          a = num * 10 ^ nat (- k);
          b = den * 10 ^ nat k;
          q = a div b;
          r = a mod b;
          c = (if 2 * r > b \<or> (2 * r = b \<and> odd q) then q + 1 else q);
          other = (if c = q then q + 1 else q)
      in if of_decimal s c k = f then Some c
         else if r \<noteq> 0 \<and> of_decimal s other k = f then Some other else None)"

text \<open>The first number of digits that is enough; seventeen always are.\<close>

fun shortest :: "nat \<Rightarrow> float64 \<Rightarrow> bool \<Rightarrow> nat \<Rightarrow> nat \<Rightarrow> int \<Rightarrow> nat \<Rightarrow> nat \<times> nat" where
  "shortest 0 f s num den dp n = (n, 0)"
| "shortest (Suc fuel) f s num den dp n =
     (case digits_for f s num den dp n of
        Some c \<Rightarrow> (n, c)
      | None \<Rightarrow> shortest fuel f s num den dp (Suc n))"

definition strip_zeros :: "string \<Rightarrow> string" where
  "strip_zeros ds = rev (dropWhile (\<lambda>c. c = CHR ''0'') (rev ds))"

text \<open>The digits without trailing zeros, and where the decimal point is.\<close>

definition shortest_digits :: "bool \<Rightarrow> nat \<Rightarrow> int \<Rightarrow> string \<times> int" where
  "shortest_digits s m e =
     (let (num, den) = frac m e;
          dp = decimal_point num den;
          (n, c) = shortest 17 (Fin s m e) s num den dp 1;
          ds = Itoa c
      in (strip_zeros ds, dp + int (length ds) - int n))"

section \<open>FormatFloat\<close>

definition fmt_exponent :: "int \<Rightarrow> string" where
  "fmt_exponent ex =
     (if ex < 0 then ''-'' else ''+'') @ (if \<bar>ex\<bar> < 10 then ''0'' else []) @ Itoa (nat \<bar>ex\<bar>)"

definition fmtE :: "string \<Rightarrow> int \<Rightarrow> string" where
  "fmtE ds dp = take 1 ds @ (if length ds > 1 then ''.'' @ drop 1 ds else []) @ ''e'' @ fmt_exponent (dp - 1)"

definition fmtF :: "string \<Rightarrow> int \<Rightarrow> string" where
  "fmtF ds dp =
     (if dp > 0 then take (nat dp) ds @ replicate (nat dp - length ds) CHR ''0'' else ''0'')
     @ (let frac = int (length ds) - dp in
        if frac > 0 then ''.'' @ replicate (nat (- dp)) CHR ''0'' @ drop (nat dp) ds else [])"

text \<open>\<^verbatim>\<open>strconv.FormatFloat(f, 'g', -1, 64)\<close>\<close>

definition FormatFloat :: "float64 \<Rightarrow> string" where
  "FormatFloat f =
     (case f of
        NaN \<Rightarrow> ''NaN''
      | Inf s \<Rightarrow> if s then ''-Inf'' else ''+Inf''
      | Fin s m e \<Rightarrow>
          (if s then ''-'' else [])
          @ (if m = 0 then ''0''
             else let (ds, dp) = shortest_digits s m e; ex = dp - 1
                  in if ex < -4 \<or> ex \<ge> 6 then fmtE ds dp else fmtF ds dp))"

section \<open>ParseFloat\<close>

definition lower :: "char \<Rightarrow> char" where
  "lower c = (let n = of_char c :: nat in if 65 \<le> n \<and> n \<le> 90 then char_of (n + 32) else c)"

definition is_hex_letter :: "char \<Rightarrow> bool" where
  "is_hex_letter c \<longleftrightarrow> 97 \<le> (of_char (lower c) :: nat) \<and> (of_char (lower c) :: nat) \<le> 102"

definition hex_val :: "char \<Rightarrow> nat" where
  "hex_val c = (if is_digit c then digit_val c else of_char (lower c) - 87)"

text \<open>
  The mantissa: what is left, the digits as a number, how many follow the point, whether there was a
  point, a digit and an underscore.
\<close>

fun read_mantissa :: "bool \<Rightarrow> string \<Rightarrow> nat \<times> nat \<times> bool \<times> bool \<times> bool \<Rightarrow> string \<times> nat \<times> nat \<times> bool \<times> bool \<times> bool" where
  "read_mantissa hex [] st = ([], st)"
| "read_mantissa hex (c # cs) (m, fd, dot, digit, us) =
     (if c = CHR ''_'' then read_mantissa hex cs (m, fd, dot, digit, True)
      else if c = CHR ''.'' then
        (if dot then (c # cs, m, fd, dot, digit, us) else read_mantissa hex cs (m, fd, True, digit, us))
      else if is_digit c \<or> (hex \<and> is_hex_letter c)
      then read_mantissa hex cs ((if hex then 16 else 10) * m + hex_val c, if dot then fd + 1 else fd, dot, True, us)
      else (c # cs, m, fd, dot, digit, us))"

text \<open>The digits of an exponent; beyond \<open>10000\<close> they are only skipped.\<close>

fun read_exponent :: "string \<Rightarrow> nat \<times> bool \<Rightarrow> string \<times> nat \<times> bool" where
  "read_exponent [] st = ([], st)"
| "read_exponent (c # cs) (e, us) =
     (if c = CHR ''_'' then read_exponent cs (e, True)
      else if is_digit c then read_exponent cs (if e < 10000 then 10 * e + digit_val c else e, us)
      else (c # cs, e, us))"

fun underscores_ok :: "bool \<Rightarrow> char \<Rightarrow> string \<Rightarrow> bool" where
  "underscores_ok hex i [] \<longleftrightarrow> i \<noteq> CHR ''_''"
| "underscores_ok hex i (c # cs) \<longleftrightarrow>
     (if is_digit c \<or> (hex \<and> is_hex_letter c) then underscores_ok hex CHR ''0'' cs
      else if c = CHR ''_'' then i = CHR ''0'' \<and> underscores_ok hex CHR ''_'' cs
      else i \<noteq> CHR ''_'' \<and> underscores_ok hex CHR ''!'' cs)"

definition underscoreOK :: "string \<Rightarrow> bool" where
  "underscoreOK s =
     (let s = (case s of c # cs \<Rightarrow> if c = CHR ''-'' \<or> c = CHR ''+'' then cs else s | [] \<Rightarrow> s)
      in if length s \<ge> 2 \<and> s ! 0 = CHR ''0'' \<and> lower (s ! 1) \<in> set ''box''
         then underscores_ok (lower (s ! 1) = CHR ''x'') CHR ''0'' (drop 2 s)
         else underscores_ok False CHR ''^'' s)"

definition read_sign :: "string \<Rightarrow> bool \<times> string" where
  "read_sign s =
     (case s of
        c # cs \<Rightarrow> if c = CHR ''+'' then (False, cs) else if c = CHR ''-'' then (True, cs) else (False, s)
      | [] \<Rightarrow> (False, s))"

text \<open>The whole text as a finite number, before it is checked for overflow.\<close>

definition read_float :: "string \<Rightarrow> float64 option" where
  "read_float s =
     (let (neg, t) = read_sign s;
          hex = (length t > 2 \<and> t ! 0 = CHR ''0'' \<and> lower (t ! 1) = CHR ''x'');
          (rest, m, fd, dot, digit, us) = read_mantissa hex (if hex then drop 2 t else t) (0, 0, False, False, False)
      in if \<not> digit then None
         else
           let ex = (case rest of
                  c # cs \<Rightarrow>
                    if lower c = (if hex then CHR ''p'' else CHR ''e'') then
                      (let (eneg, ds) = read_sign cs in
                       case ds of
                         d # _ \<Rightarrow> if is_digit d
                                then (let (r, e, us') = read_exponent ds (0, us)
                                      in Some (r, if eneg then - int e else int e, us'))
                                else None
                       | [] \<Rightarrow> None)
                    else if hex then None else Some (rest, 0, us)
                | [] \<Rightarrow> if hex then None else Some ([], 0, us))
           in case ex of
                None \<Rightarrow> None
              | Some (r, e, us) \<Rightarrow>
                  if r \<noteq> [] \<or> (us \<and> \<not> underscoreOK s) then None
                  else Some (if hex then round_scaled neg m (e - 4 * int fd) else of_decimal neg m (e - int fd)))"

definition is_special :: "string \<Rightarrow> float64 option" where
  "is_special s =
     (let (neg, t) = read_sign s; l = map lower t
      in if l = ''inf'' \<or> l = ''infinity'' then Some (Inf neg)
         else if map lower s = ''nan'' then Some NaN else None)"

text \<open>\<^verbatim>\<open>strconv.ParseFloat(s, 64)\<close>\<close>

definition ParseFloat :: "string \<Rightarrow> float64 option" where
  "ParseFloat s =
     (case is_special s of
        Some f \<Rightarrow> Some f
      | None \<Rightarrow>
         (case read_float s of
            Some (Inf neg) \<Rightarrow> None
          | r \<Rightarrow> r))"

end
