(* ===== verification/Values.thy ===== *)
theory Values
  imports GoStrconv Model
begin

text \<open>
  \<^verbatim>\<open>internal/model/reading.go\<close>: how the value of a point becomes the text of a reading and back. A
  Go \<^verbatim>\<open>any\<close> of the program is nil, a boolean, a number or a string, and after decoding JSON also a
  \<^verbatim>\<open>[]any\<close> or a \<^verbatim>\<open>map[string]any\<close>.
\<close>

datatype any = AnyNil | AnyBool bool | AnyInt int | AnyFloat float64 | AnyString string
  | AnyArray "any list" | AnyObject "any gomap"

definition numeric_type :: "string \<Rightarrow> bool" where
  "numeric_type dt \<longleftrightarrow> dt \<in> set [DataTypeInt16, DataTypeUint16, DataTypeInt32, DataTypeUint32, DataTypeFloat32, DataTypeFloat64]"

definition SerializeValue :: "string \<Rightarrow> any \<Rightarrow> string" where
  "SerializeValue dt value =
     (if dt = DataTypeBool then (case value of AnyBool b \<Rightarrow> FormatBool b | _ \<Rightarrow> [])
      else if numeric_type dt then (case value of AnyFloat f \<Rightarrow> FormatFloat f | _ \<Rightarrow> [])
      else if dt = DataTypeJSON then (case value of AnyString s \<Rightarrow> s | _ \<Rightarrow> [])
      else [])"

text \<open>The number, the boolean and whether there was an error.\<close>

definition ParseValue :: "string \<Rightarrow> string \<Rightarrow> (float64 \<times> bool) option" where
  "ParseValue dt s =
     (if dt = DataTypeBool then map_option (\<lambda>b. (Fin False 0 (-1074), b)) (ParseBool s)
      else map_option (\<lambda>f. (f, False)) (ParseFloat s))"

end
