(* ===== verification/Modbus.thy ===== *)
theory Modbus
  imports ClientConfig Values
begin

text \<open>
  \<^verbatim>\<open>internal/client/modbus.go\<close> and \<^verbatim>\<open>modbus_runtime.go\<close>: one Modbus device, its polling and the writes
  to it. The Modbus client library is not part of the program: its calls are the fields of
  \<open>modbus_ops\<close>, on a state \<open>'m\<close> that stands for the device, and give the bytes of the answer or the
  text of an error. The goroutine of the writes takes commands from a channel of sixteen; \<open>rt_writing\<close>
  says whether it still runs. What a conversion to an integer gives for a number that is out of range
  is left to the platform, in \<open>conv\<close>.
\<close>

section \<open>Handlers\<close>

datatype modbus_handler =
    TCPClientHandler string u8 u64
  | RTUClientHandler string u8 u64 int int int string

definition createHandler :: "DeviceConfig \<Rightarrow> (string, modbus_handler) go" where
  "createHandler dvc =
     (if dv_Type dvc = ConnectionTypeTCP then
        (case dv_TCP dvc of
           None \<Rightarrow> Panic
         | Some tcp \<Rightarrow> Ret (TCPClientHandler (tcp_Host tcp @ '':'' @ FormatInt (tcp_Port tcp)) (dv_SlaveID dvc) (dv_Timeout dvc)))
      else if dv_Type dvc = ConnectionTypeRTU then
        (case dv_RTU dvc of
           None \<Rightarrow> Panic
         | Some rtu \<Rightarrow> Ret (RTUClientHandler (rtu_Port rtu) (dv_SlaveID dvc) (dv_Timeout dvc)
             (rtu_BaudRate rtu) (rtu_DataBits rtu) (rtu_StopBits rtu) (rtu_Parity rtu)))
      else Fail (''unsupported connection type: '' @ dv_Type dvc))"

section \<open>Values of points\<close>

definition scaled :: "ModbusPointConfig \<Rightarrow> float64 \<Rightarrow> any" where
  "scaled point v = AnyFloat (f_add (f_mul v (pt_Scale point)) (pt_Offset point))"

definition parsePointValue :: "ModbusPointConfig \<Rightarrow> bytes \<Rightarrow> (unit, any) go" where
  "parsePointValue point results =
     (if pt_DataType point = DataTypeBool then
        go_bind (index results 0) (\<lambda>b. Ret (AnyBool (b \<noteq> 0)))
      else if pt_DataType point = DataTypeInt16 then
        go_bind (index results 0) (\<lambda>h. go_bind (index results 1) (\<lambda>l.
        Ret (scaled point (float64_of_int (sint (push_bit 8 (ucast h) OR ucast l :: u16))))))
      else if pt_DataType point = DataTypeUint16 then
        go_bind (index results 0) (\<lambda>h. go_bind (index results 1) (\<lambda>l.
        Ret (scaled point (float64_of_int (uint (push_bit 8 (ucast h) OR ucast l :: u16))))))
      else if pt_DataType point = DataTypeInt32 then
        go_bind (index results 0) (\<lambda>a. go_bind (index results 1) (\<lambda>b.
        go_bind (index results 2) (\<lambda>c. go_bind (index results 3) (\<lambda>d.
        Ret (scaled point (float64_of_int (sint
          (push_bit 24 (ucast a) OR push_bit 16 (ucast b) OR push_bit 8 (ucast c) OR ucast d :: u32))))))))
      else if pt_DataType point = DataTypeUint32 then
        go_bind (index results 0) (\<lambda>a. go_bind (index results 1) (\<lambda>b.
        go_bind (index results 2) (\<lambda>c. go_bind (index results 3) (\<lambda>d.
        Ret (scaled point (float64_of_int (uint
          (push_bit 24 (ucast a) OR push_bit 16 (ucast b) OR push_bit 8 (ucast c) OR ucast d :: u32))))))))
      else if pt_DataType point = DataTypeFloat32 then
        (if length results < 4 then Ret AnyNil
         else go_bind (slice results 0 4) (\<lambda>r.
              go_bind (get32 (ByteOrderConversion r (pt_ByteOrder point))) (\<lambda>bits.
              Ret (scaled point (Float32frombits bits)))))
      else Ret AnyNil)"

section \<open>The runtime of a device\<close>

record writeCmd =
  wc_pointName :: string
  wc_value :: float64

record 'm modbus_ops =
  mo_Connect :: "'m \<Rightarrow> string option \<times> 'm"
  mo_ReadCoils :: "'m \<Rightarrow> u16 \<Rightarrow> u16 \<Rightarrow> (string + bytes) \<times> 'm"
  mo_ReadDiscreteInputs :: "'m \<Rightarrow> u16 \<Rightarrow> u16 \<Rightarrow> (string + bytes) \<times> 'm"
  mo_ReadHoldingRegisters :: "'m \<Rightarrow> u16 \<Rightarrow> u16 \<Rightarrow> (string + bytes) \<times> 'm"
  mo_ReadInputRegisters :: "'m \<Rightarrow> u16 \<Rightarrow> u16 \<Rightarrow> (string + bytes) \<times> 'm"
  mo_WriteSingleCoil :: "'m \<Rightarrow> u16 \<Rightarrow> u16 \<Rightarrow> string option \<times> 'm"
  mo_WriteSingleRegister :: "'m \<Rightarrow> u16 \<Rightarrow> u16 \<Rightarrow> string option \<times> 'm"
  mo_WriteMultipleRegisters :: "'m \<Rightarrow> u16 \<Rightarrow> u16 \<Rightarrow> bytes \<Rightarrow> string option \<times> 'm"

record conv =
  cv_int16 :: "float64 \<Rightarrow> u16"
  cv_uint16 :: "float64 \<Rightarrow> u16"
  cv_int32 :: "float64 \<Rightarrow> u32"
  cv_uint32 :: "float64 \<Rightarrow> u32"

definition stateOffline :: int where "stateOffline = 0"
definition stateOnline :: int where "stateOnline = 1"
definition stateDegraded :: int where "stateDegraded = 2"

lemmas runtime_state_defs = stateOffline_def stateOnline_def stateDegraded_def

record 'm runtime =
  rt_cfg :: DeviceConfig
  rt_client :: 'm
  rt_state :: int
  rt_writeCh :: "writeCmd list"
  rt_writing :: bool

definition NewModbusRuntime :: "(modbus_handler \<Rightarrow> 'm) \<Rightarrow> DeviceConfig \<Rightarrow> (string, 'm runtime) go" where
  "NewModbusRuntime NewClient cfg =
     go_bind (createHandler cfg) (\<lambda>handler.
     Ret \<lparr>rt_cfg = cfg, rt_client = NewClient handler, rt_state = stateOffline, rt_writeCh = [], rt_writing = False\<rparr>)"

definition Start :: "'m modbus_ops \<Rightarrow> 'm runtime \<Rightarrow> string option \<times> 'm runtime" where
  "Start ops rt =
     (case mo_Connect ops (rt_client rt) of
        (Some err, m) \<Rightarrow> (Some err, rt\<lparr>rt_client := m\<rparr>)
      | (None, m) \<Rightarrow> (None, rt\<lparr>rt_client := m, rt_state := stateOnline, rt_writing := True\<rparr>))"

text \<open>\<^verbatim>\<open>Stop\<close> ends both goroutines; it leaves the state as it is.\<close>

definition Stop :: "'m runtime \<Rightarrow> 'm runtime" where
  "Stop rt = rt\<lparr>rt_writing := False\<rparr>"

definition findPoint :: "'m runtime \<Rightarrow> string \<Rightarrow> ModbusPointConfig option" where
  "findPoint rt name = find (\<lambda>p. pt_Name p = name) (dv_Points (rt_cfg rt))"

definition isWriteFunctionCode :: "int \<Rightarrow> bool" where
  "isWriteFunctionCode fc \<longleftrightarrow> fc = 5 \<or> fc = 6 \<or> fc = 16"

section \<open>Polling\<close>

text \<open>The read of one point, if its function code is one of reading.\<close>

definition read_point :: "'m modbus_ops \<Rightarrow> 'm \<Rightarrow> ModbusPointConfig \<Rightarrow> ((string + bytes) \<times> 'm) option" where
  "read_point ops m point =
     (if pt_FunctionCode point = 1 then Some (mo_ReadCoils ops m (pt_Address point) (pt_Quantity point))
      else if pt_FunctionCode point = 2 then Some (mo_ReadDiscreteInputs ops m (pt_Address point) (pt_Quantity point))
      else if pt_FunctionCode point = 3 then Some (mo_ReadHoldingRegisters ops m (pt_Address point) (pt_Quantity point))
      else if pt_FunctionCode point = 4 then Some (mo_ReadInputRegisters ops m (pt_Address point) (pt_Quantity point))
      else None)"

definition point_reading :: "DeviceConfig \<Rightarrow> string \<Rightarrow> ModbusPointConfig \<Rightarrow> any \<Rightarrow> int \<Rightarrow> Reading" where
  "point_reading cfg deviceHash point value now =
     \<lparr>r_ID = 0, r_Device = deviceHash, r_DeviceName = dv_Name cfg, r_Point = HashPoint (dv_Name cfg) (pt_Name point),
      r_PointName = pt_Name point, r_DataType = pt_DataType point, r_Value = SerializeValue (pt_DataType point) value,
      r_Quality = QualityGood, r_Unit = pt_Unit point, r_Timestamp = word_of_int now\<rparr>"

text \<open>The loop over the points: the readings that are sent, and whether a read failed. \<open>now\<close> is the clock, by point.\<close>

fun poll_points :: "'m modbus_ops \<Rightarrow> DeviceConfig \<Rightarrow> string \<Rightarrow> (nat \<Rightarrow> int) \<Rightarrow> nat \<Rightarrow> ModbusPointConfig list \<Rightarrow> 'm
    \<Rightarrow> bool \<Rightarrow> Reading list \<Rightarrow> (unit, 'm \<times> bool \<times> Reading list) go" where
  "poll_points ops cfg deviceHash now i [] m hadError out = Ret (m, hadError, out)"
| "poll_points ops cfg deviceHash now i (point # points) m hadError out =
     (if pt_Access point = AccessWriteOnly \<or> isWriteFunctionCode (pt_FunctionCode point)
      then poll_points ops cfg deviceHash now (Suc i) points m hadError out
      else case read_point ops m point of
        None \<Rightarrow> poll_points ops cfg deviceHash now (Suc i) points m hadError out
      | Some (Inl err, m) \<Rightarrow> poll_points ops cfg deviceHash now (Suc i) points m True out
      | Some (Inr results, m) \<Rightarrow>
          (case parsePointValue point results of
             Panic \<Rightarrow> Panic
           | Fail e \<Rightarrow> Fail e
           | Ret value \<Rightarrow>
               poll_points ops cfg deviceHash now (Suc i) points m hadError
                 (if value = AnyNil then out else out @ [point_reading cfg deviceHash point value (now i)])))"

definition pollOnce :: "'m modbus_ops \<Rightarrow> (nat \<Rightarrow> int) \<Rightarrow> 'm runtime \<Rightarrow> (unit, 'm runtime \<times> Reading list) go" where
  "pollOnce ops now rt =
     (case Device_Hash (rt_cfg rt) of
        Inl e \<Rightarrow> Ret (rt, [])
      | Inr deviceHash \<Rightarrow>
          go_bind (poll_points ops (rt_cfg rt) deviceHash now 0 (dv_Points (rt_cfg rt)) (rt_client rt) False [])
            (\<lambda>(m, hadError, out). Ret (rt\<lparr>rt_client := m, rt_state := if hadError then stateDegraded else stateOnline\<rparr>, out)))"

text \<open>
  \<^verbatim>\<open>pollLoop\<close>: the clock of round \<open>k\<close> is \<open>now k\<close>. Starting the ticker panics when the interval is not
  positive. \<open>PollDone\<close> is the cancelled context or the closed stop channel; a list that ends without it
  is a loop that still waits.
\<close>

datatype poll_event = PollTick | PollDone

fun poll_rounds :: "'m modbus_ops \<Rightarrow> (nat \<Rightarrow> nat \<Rightarrow> int) \<Rightarrow> nat \<Rightarrow> poll_event list \<Rightarrow> 'm runtime \<Rightarrow> Reading list
    \<Rightarrow> (unit, 'm runtime \<times> Reading list) go" where
  "poll_rounds ops now k (PollTick # es) rt out =
     go_bind (pollOnce ops (now k) rt) (\<lambda>(rt, rs). poll_rounds ops now (Suc k) es rt (out @ rs))"
| "poll_rounds ops now k es rt out = Ret (rt, out)"

definition pollLoop :: "'m modbus_ops \<Rightarrow> (nat \<Rightarrow> nat \<Rightarrow> int) \<Rightarrow> poll_event list \<Rightarrow> 'm runtime
    \<Rightarrow> (unit, 'm runtime \<times> Reading list) go" where
  "pollLoop ops now es rt =
     (if sint (dv_PollInterval (rt_cfg rt)) \<le> 0 then Panic else poll_rounds ops now 0 es rt [])"

section \<open>Writes\<close>

definition writeCoil :: "'m modbus_ops \<Rightarrow> 'm \<Rightarrow> u16 \<Rightarrow> float64 \<Rightarrow> string option \<times> 'm" where
  "writeCoil ops m address value = mo_WriteSingleCoil ops m address (if is_zero value then 0 else 0xFF00)"

definition writeSingleReg :: "conv \<Rightarrow> 'm modbus_ops \<Rightarrow> 'm \<Rightarrow> u16 \<Rightarrow> float64 \<Rightarrow> string \<Rightarrow> string option \<times> 'm" where
  "writeSingleReg cv ops m address value dt =
     (if dt = DataTypeInt16 then mo_WriteSingleRegister ops m address (to_sint (cv_int16 cv) value)
      else if dt = DataTypeUint16 then mo_WriteSingleRegister ops m address (to_uint (cv_uint16 cv) value)
      else (Some (''FC6 requires int16/uint16 data type, got '' @ dt), m))"

definition writeMultiReg :: "conv \<Rightarrow> 'm modbus_ops \<Rightarrow> 'm \<Rightarrow> u16 \<Rightarrow> float64 \<Rightarrow> string \<Rightarrow> string \<Rightarrow> string option \<times> 'm" where
  "writeMultiReg cv ops m address value dt byteOrder =
     (let send = (\<lambda>w. mo_WriteMultipleRegisters ops m address 2 (ByteOrderConversion (be32 w) byteOrder))
      in if dt = DataTypeInt32 then send (to_sint (cv_int32 cv) value)
         else if dt = DataTypeUint32 then send (to_uint (cv_uint32 cv) value)
         else if dt = DataTypeFloat32 then send (Float32bits (float32_of value))
         else (Some (''FC16 requires int32/uint32/float32 data type, got '' @ dt), m))"

definition executeWrite :: "conv \<Rightarrow> 'm modbus_ops \<Rightarrow> DeviceConfig \<Rightarrow> 'm \<Rightarrow> writeCmd \<Rightarrow> string option \<times> 'm" where
  "executeWrite cv ops cfg m cmd =
     (case find (\<lambda>p. pt_Name p = wc_pointName cmd) (dv_Points cfg) of
        None \<Rightarrow> (Some (''point '' @ wc_pointName cmd @ '' not found''), m)
      | Some point \<Rightarrow>
          let fc = pt_FunctionCode point; dt = pt_DataType point;
              writeFC = (if fc = 1 then Inr 5
                else if fc = 3 then
                  (if dt = DataTypeInt16 \<or> dt = DataTypeUint16 then Inr 6
                   else if dt = DataTypeInt32 \<or> dt = DataTypeUint32 \<or> dt = DataTypeFloat32 then Inr (16 :: int)
                   else Inl (''unsupported data type for write: '' @ dt))
                else if fc = 2 \<or> fc = 4
                then Inl (''point '' @ wc_pointName cmd @ '' is read-only (function code '' @ FormatInt fc @ '')'')
                else Inl (''unsupported write function code: '' @ FormatInt fc))
          in case writeFC of
               Inl e \<Rightarrow> (Some e, m)
             | Inr wfc \<Rightarrow>
                 if wfc = 5 \<and> dt \<noteq> DataTypeBool
                 then (Some (''FC5 requires bool data type, got '' @ dt), m)
                 else if wfc = 6 \<and> dt = DataTypeBool
                 then (Some ''FC6 requires numeric data type, got bool (use FC5 for coils)'', m)
                 else if wfc = 6 \<and> (dt = DataTypeInt32 \<or> dt = DataTypeUint32 \<or> dt = DataTypeFloat32)
                 then (Some (''FC6 requires int16/uint16 data type, got '' @ dt @ '' (use FC16 for multi-register)''), m)
                 else if wfc = 16 \<and> (dt = DataTypeBool \<or> dt = DataTypeInt16 \<or> dt = DataTypeUint16)
                 then (Some (''FC16 requires int32/uint32/float32 data type, got '' @ dt @ '' (use FC6 for single register)''), m)
                 else
                   let raw = f_div (f_sub (wc_value cmd) (pt_Offset point)) (pt_Scale point)
                   in if wfc = 5 then writeCoil ops m (pt_Address point) raw
                      else if wfc = 6 then writeSingleReg cv ops m (pt_Address point) raw dt
                      else if wfc = 16 then writeMultiReg cv ops m (pt_Address point) raw dt (pt_ByteOrder point)
                      else (Some (''unsupported write function code: '' @ FormatInt fc), m))"

text \<open>One round of \<^verbatim>\<open>writeLoop\<close>: the first command of the channel, its result, and the runtime after it.\<close>

definition writeLoop_step :: "conv \<Rightarrow> 'm modbus_ops \<Rightarrow> 'm runtime \<Rightarrow> (string option \<times> 'm runtime) option" where
  "writeLoop_step cv ops rt =
     (case rt_writeCh rt of
        [] \<Rightarrow> None
      | cmd # rest \<Rightarrow>
          if \<not> rt_writing rt then None
          else let (err, m) = executeWrite cv ops (rt_cfg rt) (rt_client rt) cmd;
                   rt = rt\<lparr>rt_client := m, rt_writeCh := rest\<rparr>
               in Some (err, if err = None then rt else rt\<lparr>rt_state := stateDegraded\<rparr>))"

text \<open>
  \<^verbatim>\<open>Write\<close>: the checks and the send on the channel; then the caller waits for the result of its own
  command, the last of the channel. Nothing answers when the write loop has ended.
\<close>

datatype write_result = Written | WriteError string | Blocks

definition Write_begin :: "'m runtime \<Rightarrow> string \<Rightarrow> float64 \<Rightarrow> string + 'm runtime" where
  "Write_begin rt pointName value =
     (if rt_state rt \<noteq> stateOnline
      then Inl (''device '' @ dv_Name (rt_cfg rt) @ '' is not online (state='' @ FormatInt (rt_state rt) @ '')'')
      else case findPoint rt pointName of
        None \<Rightarrow> Inl (''point '' @ pointName @ '' not found on device '' @ dv_Name (rt_cfg rt))
      | Some point \<Rightarrow>
          if pt_Access point = AccessReadOnly then Inl (''point '' @ pointName @ '' is read-only'')
          else if length (rt_writeCh rt) \<ge> 16
          then Inl (''write channel full for device '' @ dv_Name (rt_cfg rt))
          else Inr (rt\<lparr>rt_writeCh := rt_writeCh rt @ [\<lparr>wc_pointName = pointName, wc_value = value\<rparr>]\<rparr>))"

fun drain_writes :: "nat \<Rightarrow> conv \<Rightarrow> 'm modbus_ops \<Rightarrow> string option \<Rightarrow> 'm runtime \<Rightarrow> write_result \<times> 'm runtime" where
  "drain_writes 0 cv ops err rt = (case err of None \<Rightarrow> (Written, rt) | Some e \<Rightarrow> (WriteError e, rt))"
| "drain_writes (Suc n) cv ops err rt =
     (case writeLoop_step cv ops rt of
        None \<Rightarrow> (Blocks, rt)
      | Some (err, rt) \<Rightarrow> drain_writes n cv ops err rt)"

definition Write :: "conv \<Rightarrow> 'm modbus_ops \<Rightarrow> 'm runtime \<Rightarrow> string \<Rightarrow> float64 \<Rightarrow> write_result \<times> 'm runtime" where
  "Write cv ops rt pointName value =
     (case Write_begin rt pointName value of
        Inl e \<Rightarrow> (WriteError e, rt)
      | Inr rt \<Rightarrow> drain_writes (length (rt_writeCh rt)) cv ops None rt)"

end
