(* ===== verification/ModbusSim.thy ===== *)
theory ModbusSim
  imports GoStd Frame
begin

text \<open>
  \<^verbatim>\<open>cmd/modbus-sim/main.go\<close>: the Modbus TCP server that stands in for four devices. A Go map that is
  never ranged over is a partial function here; \<^verbatim>\<open>m[k] = v\<close> updates it. The messages of Modbus are in
  their bytes: an answer of \<open>None\<close> is the \<^verbatim>\<open>nil\<close> after which the connection is closed. The sizes are
  computed at their width, as in the code: the byte counts in 8 bits, addresses in 16.
\<close>

section \<open>Function codes and the store of a device\<close>

definition fcReadCoils :: u8 where "fcReadCoils = 1"
definition fcReadDiscreteInputs :: u8 where "fcReadDiscreteInputs = 2"
definition fcReadHoldingRegisters :: u8 where "fcReadHoldingRegisters = 3"
definition fcReadInputRegisters :: u8 where "fcReadInputRegisters = 4"
definition fcWriteSingleCoil :: u8 where "fcWriteSingleCoil = 5"
definition fcWriteSingleRegister :: u8 where "fcWriteSingleRegister = 6"
definition fcWriteMultipleRegisters :: u8 where "fcWriteMultipleRegisters = 16"

lemmas fc_defs = fcReadCoils_def fcReadDiscreteInputs_def fcReadHoldingRegisters_def fcReadInputRegisters_def
  fcWriteSingleCoil_def fcWriteSingleRegister_def fcWriteMultipleRegisters_def

record deviceStore =
  ds_name :: string
  ds_slaveID :: u8
  ds_hr :: "u16 \<rightharpoonup> u16"
  ds_ir :: "u16 \<rightharpoonup> u16"
  ds_coils :: "u16 \<rightharpoonup> bool"
  ds_di :: "u16 \<rightharpoonup> bool"

definition newDeviceStore :: "string \<Rightarrow> u8 \<Rightarrow> deviceStore" where
  "newDeviceStore name slaveID =
     \<lparr>ds_name = name, ds_slaveID = slaveID, ds_hr = Map.empty, ds_ir = Map.empty, ds_coils = Map.empty, ds_di = Map.empty\<rparr>"

definition exceptResp :: "u8 \<Rightarrow> u8 \<Rightarrow> bytes" where
  "exceptResp fc code = [fc OR 0x80, code]"

section \<open>Reading\<close>

text \<open>The two loops over \<^verbatim>\<open>range qty\<close>: \<open>None\<close> is an address that the map does not have.\<close>

fun read_words :: "(u16 \<rightharpoonup> u16) \<Rightarrow> u16 \<Rightarrow> nat \<Rightarrow> bytes option" where
  "read_words data addr 0 = Some []"
| "read_words data addr (Suc n) =
     (case data addr of
        None \<Rightarrow> None
      | Some v \<Rightarrow> map_option (\<lambda>bs. be16 v @ bs) (read_words data (addr + 1) n))"

definition readRegs :: "(u16 \<rightharpoonup> u16) \<Rightarrow> bytes \<Rightarrow> bytes" where
  "readRegs data pdu =
     (let fc = pdu ! 0 in
      if length pdu < 5 then exceptResp fc 3
      else
        let addr = be_val (take 2 (drop 1 pdu)) :: u16;
            qty = be_val (take 2 (drop 3 pdu)) :: u16
        in if qty < 1 \<or> qty > 125 then exceptResp fc 3
           else case read_words data addr (unat qty) of
             None \<Rightarrow> exceptResp fc 2
           | Some bs \<Rightarrow> fc # ucast (qty * 2) # bs)"

fun read_bits :: "(u16 \<rightharpoonup> bool) \<Rightarrow> u16 \<Rightarrow> nat \<Rightarrow> nat \<Rightarrow> bytes \<Rightarrow> bytes option" where
  "read_bits data addr i 0 out = Some out"
| "read_bits data addr i (Suc n) out =
     (case data addr of
        None \<Rightarrow> None
      | Some v \<Rightarrow> read_bits data (addr + 1) (Suc i) n
          (if v then out[i div 8 := out ! (i div 8) OR push_bit (i mod 8) 1] else out))"

definition readBits :: "(u16 \<rightharpoonup> bool) \<Rightarrow> bytes \<Rightarrow> bytes" where
  "readBits data pdu =
     (let fc = pdu ! 0 in
      if length pdu < 5 then exceptResp fc 3
      else
        let addr = be_val (take 2 (drop 1 pdu)) :: u16;
            qty = be_val (take 2 (drop 3 pdu)) :: u16
        in if qty < 1 \<or> qty > 2000 then exceptResp fc 3
           else
             let byteCount = ucast ((qty + 7) div 8) :: u8
             in case read_bits data addr 0 (unat qty) (replicate (unat byteCount) 0) of
                  None \<Rightarrow> exceptResp fc 2
                | Some bs \<Rightarrow> fc # byteCount # bs)"

section \<open>Writing\<close>

definition sim_writeSingleCoil :: "deviceStore \<Rightarrow> bytes \<Rightarrow> bytes \<times> deviceStore" where
  "sim_writeSingleCoil s pdu =
     (if length pdu < 5 then (exceptResp fcWriteSingleCoil 3, s)
      else
        let addr = be_val (take 2 (drop 1 pdu)) :: u16;
            val = be_val (take 2 (drop 3 pdu)) :: u16
        in if val = 0 then (take 5 pdu, s\<lparr>ds_coils := (ds_coils s)(addr \<mapsto> False)\<rparr>)
           else if val = 0xFF00 then (take 5 pdu, s\<lparr>ds_coils := (ds_coils s)(addr \<mapsto> True)\<rparr>)
           else (exceptResp fcWriteSingleCoil 3, s))"

definition sim_writeSingleReg :: "deviceStore \<Rightarrow> bytes \<Rightarrow> bytes \<times> deviceStore" where
  "sim_writeSingleReg s pdu =
     (if length pdu < 5 then (exceptResp fcWriteSingleRegister 3, s)
      else
        let addr = be_val (take 2 (drop 1 pdu)) :: u16;
            val = be_val (take 2 (drop 3 pdu)) :: u16
        in (take 5 pdu, s\<lparr>ds_hr := (ds_hr s)(addr \<mapsto> val)\<rparr>))"

fun write_words :: "(u16 \<rightharpoonup> u16) \<Rightarrow> u16 \<Rightarrow> nat \<Rightarrow> bytes \<Rightarrow> (u16 \<rightharpoonup> u16)" where
  "write_words data addr 0 bs = data"
| "write_words data addr (Suc n) bs = write_words (data(addr \<mapsto> be_val (take 2 bs))) (addr + 1) n (drop 2 bs)"

definition sim_writeMultiReg :: "deviceStore \<Rightarrow> bytes \<Rightarrow> bytes \<times> deviceStore" where
  "sim_writeMultiReg s pdu =
     (if length pdu < 6 then (exceptResp fcWriteMultipleRegisters 3, s)
      else
        let addr = be_val (take 2 (drop 1 pdu)) :: u16;
            qty = be_val (take 2 (drop 3 pdu)) :: u16;
            bc = unat (pdu ! 5)
        in if bc \<noteq> unat qty * 2 \<or> length pdu < 6 + bc
           then (exceptResp fcWriteMultipleRegisters 3, s)
           else (fcWriteMultipleRegisters # be16 addr @ be16 qty,
                 s\<lparr>ds_hr := write_words (ds_hr s) addr (unat qty) (drop 6 pdu)\<rparr>))"

section \<open>The server\<close>

definition processPDU :: "deviceStore \<Rightarrow> bytes \<Rightarrow> bytes option \<times> deviceStore" where
  "processPDU s pdu =
     (if pdu = [] then (None, s)
      else
        let fc = pdu ! 0 in
        if fc = fcReadHoldingRegisters then (Some (readRegs (ds_hr s) pdu), s)
        else if fc = fcReadInputRegisters then (Some (readRegs (ds_ir s) pdu), s)
        else if fc = fcReadCoils then (Some (readBits (ds_coils s) pdu), s)
        else if fc = fcReadDiscreteInputs then (Some (readBits (ds_di s) pdu), s)
        else if fc = fcWriteSingleCoil then apfst Some (sim_writeSingleCoil s pdu)
        else if fc = fcWriteSingleRegister then apfst Some (sim_writeSingleReg s pdu)
        else if fc = fcWriteMultipleRegisters then apfst Some (sim_writeMultiReg s pdu)
        else (Some (exceptResp fc 1), s))"

text \<open>
  One round of \<^verbatim>\<open>handleConn\<close>: \<open>None\<close> when it returns and the connection is closed. A frame for another
  unit is read and left without an answer.
\<close>

definition sim_answer :: "bytes \<Rightarrow> u8 \<Rightarrow> bytes \<Rightarrow> bytes" where
  "sim_answer txID unitID respPDU = txID @ [0, 0] @ be16 (of_nat (1 + length respPDU)) @ [unitID] @ respPDU"

definition handleConn_step :: "deviceStore \<Rightarrow> conn \<Rightarrow> (deviceStore \<times> conn) \<times> bool" where
  "handleConn_step s c =
     (case ReadFull c 7 of
        Ret (hdr, c) \<Rightarrow>
          let pduLen = int (unat (be_val (take 2 (drop 4 hdr)) :: u16)) - 1;
              unitID = hdr ! 6
          in if pduLen \<le> 0 then ((s, c), True)
             else (case ReadFull c (nat pduLen) of
               Ret (pdu, c) \<Rightarrow>
                 if unitID \<noteq> ds_slaveID s then ((s, c), False)
                 else (case processPDU s pdu of
                   (None, s) \<Rightarrow> ((s, c), True)
                 | (Some respPDU, s) \<Rightarrow>
                     let (ok, c) = conn_Write c (sim_answer (take 2 hdr) unitID respPDU)
                     in ((s, c), \<not> ok))
             | _ \<Rightarrow> ((s, c), True))
      | _ \<Rightarrow> ((s, c), True))"

lemma ReadFull_shorter: "ReadFull c n = Ret (b, c') \<Longrightarrow> 0 < n \<Longrightarrow> length (c_in c') < length (c_in c)"
  by (auto simp: ReadFull_def split: if_splits)

lemma ReadFull_drop: "ReadFull c n = Ret (b, c') \<Longrightarrow> length (c_in c') \<le> length (c_in c)"
  by (auto simp: ReadFull_def split: if_splits)

lemma conn_Write_same_in [simp]: "conn_Write c b = (ok, c') \<Longrightarrow> c_in c' = c_in c"
  by (auto simp: conn_Write_def split: if_splits nat.splits)

lemma handleConn_step_shorter:
  "handleConn_step s c = ((s', c'), False) \<Longrightarrow> length (c_in c') < length (c_in c)"
proof -
  assume a: "handleConn_step s c = ((s', c'), False)"
  then obtain hdr c1 where r: "ReadFull c 7 = Ret (hdr, c1)"
    by (auto simp: handleConn_step_def split: go.splits)
  let ?n = "int (unat (be_val (take 2 (drop 4 hdr)) :: u16)) - 1"
  from a r have n: "\<not> ?n \<le> 0" by (auto simp: handleConn_step_def Let_def)
  with a r obtain pdu c2 where r2: "ReadFull c1 (nat ?n) = Ret (pdu, c2)"
    by (auto simp: handleConn_step_def Let_def split: go.splits)
  have "c_in c' = c_in c2"
    using a r n r2 by (auto simp: handleConn_step_def Let_def split: if_splits prod.splits option.splits)
  then show ?thesis using ReadFull_shorter [OF r] ReadFull_drop [OF r2] by simp
qed

function handleConn :: "deviceStore \<Rightarrow> conn \<Rightarrow> deviceStore \<times> conn" where
  "handleConn s c = (case handleConn_step s c of ((s, c), closed) \<Rightarrow> if closed then (s, c) else handleConn s c)"
  by pat_completeness auto

termination
  by (relation "measure (\<lambda>(s, c). length (c_in c))") (auto dest: handleConn_step_shorter [OF sym] split: prod.splits)

declare handleConn.simps [simp del]

end
