(* ===== verification/ModbusDevice.thy ===== *)
theory ModbusDevice
  imports Modbus ModbusSim
begin

text \<open>
  What the gateway relies on when it writes a point and polls it again: the contract \<open>modbus_device\<close> of a
  device behind a Modbus client, and the device simulator as one that keeps it. \<open>sim_ops\<close> is a client that
  sends each call as the message the Modbus application protocol gives it and calls the simulator's
  \<^verbatim>\<open>processPDU\<close> directly; it stands for the client library, which is not part of the program.
\<close>

section \<open>The contract of a device\<close>

locale modbus_device =
  fixes ops :: "'m modbus_ops"
    and holding :: "'m \<Rightarrow> (u16 \<rightharpoonup> u16)"
    and coils :: "'m \<Rightarrow> (u16 \<rightharpoonup> bool)"
  assumes read_holding: "0 < q \<Longrightarrow> q \<le> 125 \<Longrightarrow> read_words (holding m) a (unat q) = Some bs
      \<Longrightarrow> mo_ReadHoldingRegisters ops m a q = (Inr bs, m)"
    and read_coil: "coils m a = Some b \<Longrightarrow> mo_ReadCoils ops m a 1 = (Inr [if b then 1 else 0], m)"
    and write_register: "mo_WriteSingleRegister ops m a v = (None, m') \<Longrightarrow> holding m' = (holding m)(a \<mapsto> v)"
    and write_registers: "length bs = 4 \<Longrightarrow> mo_WriteMultipleRegisters ops m a 2 bs = (None, m')
      \<Longrightarrow> holding m' = (holding m)(a \<mapsto> be_val (take 2 bs), a + 1 \<mapsto> be_val (drop 2 bs))"
    and write_coil: "v = 0 \<or> v = 0xFF00 \<Longrightarrow> mo_WriteSingleCoil ops m a v = (None, m')
      \<Longrightarrow> coils m' = (coils m)(a \<mapsto> v \<noteq> 0)"

lemma plus_1_neq [simp]: "(a :: u16) + 1 \<noteq> a" "a \<noteq> a + 1"
  by simp_all

lemma read_words_2: "read_words data a 2 =
    (case (data a, data (a + 1)) of (Some v, Some w) \<Rightarrow> Some (be16 v @ be16 w) | _ \<Rightarrow> None)"
  by (simp add: numeral_2_eq_2 split: option.split)

lemma write_words_2: "write_words data a 2 bs =
    data(a \<mapsto> be_val (take 2 bs), a + 1 \<mapsto> be_val (take 2 (drop 2 bs)))"
proof -
  have "write_words data a (Suc (Suc 0)) bs = data(a \<mapsto> be_val (take 2 bs), a + 1 \<mapsto> be_val (take 2 (drop 2 bs)))"
    by simp
  then show ?thesis by (simp only: numeral_2_eq_2)
qed

context modbus_device
begin

lemma register_read_back:
  assumes "mo_WriteSingleRegister ops m a v = (None, m')"
  shows "mo_ReadHoldingRegisters ops m' a 1 = (Inr (be16 v), m')"
  using write_register [OF assms] by (intro read_holding) (simp_all add: word_le_nat_alt)

lemma registers_read_back:
  assumes len: "length bs = 4" and w: "mo_WriteMultipleRegisters ops m a 2 bs = (None, m')"
  shows "mo_ReadHoldingRegisters ops m' a 2 = (Inr bs, m')"
proof (rule read_holding)
  have "be16 (be_val (take 2 bs)) @ be16 (be_val (drop 2 bs)) = take 2 bs @ drop 2 bs"
    using len by (subst be16_be_val; simp)+
  then show "read_words (holding m') a (unat (2 :: u16)) = Some bs"
    using write_registers [OF len w] by (simp add: read_words_2 split: option.split)
qed (simp_all add: word_le_nat_alt)

lemma coil_read_back:
  assumes "v = 0 \<or> v = 0xFF00" and "mo_WriteSingleCoil ops m a v = (None, m')"
  shows "mo_ReadCoils ops m' a 1 = (Inr [if v \<noteq> 0 then 1 else 0], m')"
  using write_coil [OF assms] by (intro read_coil) simp

end

section \<open>The simulator\<close>

definition sim_read :: "u8 \<Rightarrow> deviceStore \<Rightarrow> u16 \<Rightarrow> u16 \<Rightarrow> (string + bytes) \<times> deviceStore" where
  "sim_read fc s addr qty =
     (case processPDU s (fc # be16 addr @ be16 qty) of
        (Some (f # n # bs), s) \<Rightarrow> (if f = fc then Inr bs else Inl ''exception'', s)
      | (_, s) \<Rightarrow> (Inl ''no answer'', s))"

definition sim_write :: "u8 \<Rightarrow> bytes \<Rightarrow> deviceStore \<Rightarrow> string option \<times> deviceStore" where
  "sim_write fc data s =
     (case processPDU s (fc # data) of
        (Some (f # bs), s) \<Rightarrow> (if f = fc then None else Some ''exception'', s)
      | (_, s) \<Rightarrow> (Some ''no answer'', s))"

definition sim_ops :: "deviceStore modbus_ops" where
  "sim_ops = \<lparr>mo_Connect = (\<lambda>s. (None, s)),
     mo_ReadCoils = sim_read fcReadCoils, mo_ReadDiscreteInputs = sim_read fcReadDiscreteInputs,
     mo_ReadHoldingRegisters = sim_read fcReadHoldingRegisters, mo_ReadInputRegisters = sim_read fcReadInputRegisters,
     mo_WriteSingleCoil = (\<lambda>s a v. sim_write fcWriteSingleCoil (be16 a @ be16 v) s),
     mo_WriteSingleRegister = (\<lambda>s a v. sim_write fcWriteSingleRegister (be16 a @ be16 v) s),
     mo_WriteMultipleRegisters = (\<lambda>s a q bs. sim_write fcWriteMultipleRegisters (be16 a @ be16 q @ of_nat (length bs) # bs) s)\<rparr>"

lemma sim_request [simp]:
  "take 2 (be16 a @ bs) = be16 a" "drop 2 (be16 a @ bs) = bs" "take 2 (be16 a) = be16 a" "drop 2 (be16 a) = []"
  by simp_all

lemma drop_Suc_2 [simp]: "drop 3 (x # xs) = drop 2 xs" "drop 6 (x # xs) = drop 5 xs"
  by (simp_all add: eval_nat_numeral)

lemma sim_request_drop:
  "drop 5 (be16 a @ be16 q @ n # bs) = bs" "(be16 a @ be16 q @ n # bs) ! 4 = n"
  by (simp_all add: be16_eq)

lemma sim_read_holding:
  assumes "0 < q" "q \<le> 125" "read_words (ds_hr s) a (unat q) = Some bs"
  shows "sim_read fcReadHoldingRegisters s a q = (Inr bs, s)"
proof -
  have q: "\<not> (q < 1 \<or> 125 < q)" using assms(1,2) by (auto simp: word_less_nat_alt word_le_nat_alt)
  have "readRegs (ds_hr s) (fcReadHoldingRegisters # be16 a @ be16 q) = fcReadHoldingRegisters # ucast (q * 2) # bs"
    using q assms(3) by (simp add: readRegs_def Let_def)
  then show ?thesis by (simp add: sim_read_def processPDU_def Let_def)
qed

lemma sim_read_coil:
  assumes "ds_coils s a = Some b"
  shows "sim_read fcReadCoils s a 1 = (Inr [if b then 1 else 0], s)"
proof -
  have "readBits (ds_coils s) (fcReadCoils # be16 a @ be16 1) = fcReadCoils # 1 # [if b then 1 else 0]"
    using assms by (simp add: readBits_def Let_def)
  then show ?thesis by (simp add: sim_read_def processPDU_def Let_def fc_defs)
qed

lemma sim_write_register:
  "sim_write fcWriteSingleRegister (be16 a @ be16 v) s = (None, s\<lparr>ds_hr := (ds_hr s)(a \<mapsto> v)\<rparr>)"
proof -
  have "sim_writeSingleReg s (fcWriteSingleRegister # be16 a @ be16 v)
    = (fcWriteSingleRegister # be16 a @ be16 v, s\<lparr>ds_hr := (ds_hr s)(a \<mapsto> v)\<rparr>)"
    by (simp add: sim_writeSingleReg_def Let_def)
  then show ?thesis by (simp add: sim_write_def processPDU_def Let_def fc_defs)
qed

lemma sim_write_coil:
  "v = 0 \<or> v = 0xFF00 \<Longrightarrow>
     sim_write fcWriteSingleCoil (be16 a @ be16 v) s = (None, s\<lparr>ds_coils := (ds_coils s)(a \<mapsto> v \<noteq> 0)\<rparr>)"
proof -
  assume "v = 0 \<or> v = 0xFF00"
  then have "sim_writeSingleCoil s (fcWriteSingleCoil # be16 a @ be16 v)
    = (fcWriteSingleCoil # be16 a @ be16 v, s\<lparr>ds_coils := (ds_coils s)(a \<mapsto> v \<noteq> 0)\<rparr>)"
    by (auto simp: sim_writeSingleCoil_def Let_def)
  then show ?thesis by (simp add: sim_write_def processPDU_def Let_def fc_defs)
qed

lemma sim_write_registers:
  assumes "length bs = 4"
  shows "sim_write fcWriteMultipleRegisters (be16 a @ be16 2 @ of_nat (length bs) # bs) s
    = (None, s\<lparr>ds_hr := (ds_hr s)(a \<mapsto> be_val (take 2 bs), a + 1 \<mapsto> be_val (drop 2 bs))\<rparr>)"
proof -
  let ?pdu = "fcWriteMultipleRegisters # be16 a @ be16 2 @ of_nat (length bs) # bs"
  have "write_words (ds_hr s) a (unat (2 :: u16)) bs = (ds_hr s)(a \<mapsto> be_val (take 2 bs), a + 1 \<mapsto> be_val (drop 2 bs))"
    using assms by (simp add: write_words_2)
  then have "sim_writeMultiReg s ?pdu = (fcWriteMultipleRegisters # be16 a @ be16 2,
      s\<lparr>ds_hr := (ds_hr s)(a \<mapsto> be_val (take 2 bs), a + 1 \<mapsto> be_val (drop 2 bs))\<rparr>)"
    using assms by (simp add: sim_writeMultiReg_def Let_def sim_request_drop)
  then show ?thesis by (simp add: sim_write_def processPDU_def Let_def fc_defs)
qed

lemma sim_write_four:
  "length bs = 4 \<Longrightarrow> sim_write fcWriteMultipleRegisters (be16 a @ be16 2 @ 4 # bs) s
    = (None, s\<lparr>ds_hr := (ds_hr s)(a \<mapsto> be_val (take 2 bs), a + 1 \<mapsto> be_val (drop 2 bs))\<rparr>)"
  using sim_write_registers [of bs a s] by simp

lemma sim_is_device: "modbus_device sim_ops ds_hr ds_coils"
  by unfold_locales
    (auto simp: sim_ops_def sim_read_holding sim_read_coil sim_write_register sim_write_four sim_write_coil)

interpretation sim: modbus_device sim_ops ds_hr ds_coils
  by (rule sim_is_device)

end
