(* ===== verification/ModbusProps.thy ===== *)
theory ModbusProps
  imports ModbusDevice "HOL-Library.Sublist"
begin

text \<open>
  What holds of the gateway's Modbus side: which points can be written and what a write sends, what is
  polled after it, when polling cannot crash, and how a failed write takes the device out of service.
\<close>

section \<open>What a write sends\<close>

definition raw_value :: "ModbusPointConfig \<Rightarrow> float64 \<Rightarrow> float64" where
  "raw_value p v = f_div (f_sub v (pt_Offset p)) (pt_Scale p)"

definition writable :: "ModbusPointConfig \<Rightarrow> bool" where
  "writable p \<longleftrightarrow> pt_FunctionCode p = 1 \<and> pt_DataType p = DataTypeBool
     \<or> pt_FunctionCode p = 3 \<and> (pt_DataType p = DataTypeInt16 \<or> pt_DataType p = DataTypeUint16 \<or> multi_register (pt_DataType p))"

definition point_named :: "DeviceConfig \<Rightarrow> string \<Rightarrow> ModbusPointConfig option" where
  "point_named cfg name = find (\<lambda>p. pt_Name p = name) (dv_Points cfg)"

lemma findPoint_eq: "findPoint rt name = point_named (rt_cfg rt) name"
  by (simp add: findPoint_def point_named_def)

lemma executeWrite_coil:
  "point_named cfg (wc_pointName cmd) = Some p \<Longrightarrow> pt_FunctionCode p = 1 \<Longrightarrow> pt_DataType p = DataTypeBool
    \<Longrightarrow> executeWrite cv ops cfg m cmd = writeCoil ops m (pt_Address p) (raw_value p (wc_value cmd))"
  by (simp add: executeWrite_def point_named_def raw_value_def Let_def)

lemma executeWrite_register:
  "point_named cfg (wc_pointName cmd) = Some p \<Longrightarrow> pt_FunctionCode p = 3
    \<Longrightarrow> pt_DataType p = DataTypeInt16 \<or> pt_DataType p = DataTypeUint16
    \<Longrightarrow> executeWrite cv ops cfg m cmd
      = writeSingleReg cv ops m (pt_Address p) (raw_value p (wc_value cmd)) (pt_DataType p)"
  by (erule disjE; simp add: executeWrite_def point_named_def raw_value_def Let_def DataType_defs)

lemma executeWrite_registers:
  "point_named cfg (wc_pointName cmd) = Some p \<Longrightarrow> pt_FunctionCode p = 3 \<Longrightarrow> multi_register (pt_DataType p)
    \<Longrightarrow> executeWrite cv ops cfg m cmd
      = writeMultiReg cv ops m (pt_Address p) (raw_value p (wc_value cmd)) (pt_DataType p) (pt_ByteOrder p)"
  unfolding multi_register_def
  by (elim disjE; simp add: executeWrite_def point_named_def raw_value_def Let_def DataType_defs)

lemma executeWrite_not_writable:
  assumes "point_named cfg (wc_pointName cmd) = Some p" and "\<not> writable p"
  shows "\<exists>e. executeWrite cv ops cfg m cmd = (Some e, m)"
proof -
  consider "pt_FunctionCode p = 1" "pt_DataType p \<noteq> DataTypeBool" | "pt_FunctionCode p \<noteq> 1" "pt_FunctionCode p \<noteq> 3"
    | "pt_FunctionCode p = 3" "pt_DataType p \<noteq> DataTypeInt16" "pt_DataType p \<noteq> DataTypeUint16" "\<not> multi_register (pt_DataType p)"
    using assms(2) unfolding writable_def by linarith
  then show ?thesis
    using assms(1) by cases (simp_all add: executeWrite_def point_named_def multi_register_def Let_def)
qed

lemma executeWrite_missing:
  "point_named cfg (wc_pointName cmd) = None \<Longrightarrow> \<exists>e. executeWrite cv ops cfg m cmd = (Some e, m)"
  by (simp add: executeWrite_def point_named_def)

section \<open>What is polled after a write\<close>

text \<open>The value that a writable point has in a poll after \<open>raw\<close> was written to it.\<close>

definition polled_value :: "conv \<Rightarrow> ModbusPointConfig \<Rightarrow> float64 \<Rightarrow> any" where
  "polled_value cv p raw =
     (let dt = pt_DataType p; ordered = (\<lambda>w. be_val (ByteOrderConversion (be32 w) (pt_ByteOrder p)) :: u32)
      in if dt = DataTypeBool then AnyBool (\<not> is_zero raw)
         else if dt = DataTypeInt16 then scaled p (float64_of_int (sint (to_sint (cv_int16 cv) raw :: u16)))
         else if dt = DataTypeUint16 then scaled p (float64_of_int (uint (to_uint (cv_uint16 cv) raw :: u16)))
         else if dt = DataTypeInt32 then scaled p (float64_of_int (sint (ordered (to_sint (cv_int32 cv) raw))))
         else if dt = DataTypeUint32 then scaled p (float64_of_int (uint (ordered (to_uint (cv_uint32 cv) raw))))
         else scaled p (Float32frombits (Float32bits (float32_of raw))))"

definition one_value :: "ModbusPointConfig \<Rightarrow> bool" where \<comment> \<open>the point asks for the registers of one value\<close>
  "one_value p \<longleftrightarrow> pt_Quantity p = (if multi_register (pt_DataType p) then 2 else 1)"

lemma be_val_2: "be_val [a, b] = (push_bit 8 (ucast a) OR ucast b :: 'w::len word)"
  by (simp add: be_val_def)

lemma be_val_4: "be_val [a, b, c, d]
    = (push_bit 24 (ucast a) OR push_bit 16 (ucast b) OR push_bit 8 (ucast c) OR ucast d :: u32)"
  by (simp add: be_val_def or.assoc)

lemma parse_two_bytes:
  "pt_DataType p = DataTypeInt16 \<Longrightarrow> parsePointValue p (be16 w) = Ret (scaled p (float64_of_int (sint w)))"
  "pt_DataType p = DataTypeUint16 \<Longrightarrow> parsePointValue p (be16 w) = Ret (scaled p (float64_of_int (uint w)))"
proof -
  have "push_bit 8 (ucast (ucast (drop_bit 8 w) :: u8)) OR ucast (ucast w :: u8) = w"
    using be_val_be(1) [of w] unfolding be16_eq be_val_2 .
  then show "pt_DataType p = DataTypeInt16 \<Longrightarrow> parsePointValue p (be16 w) = Ret (scaled p (float64_of_int (sint w)))"
    "pt_DataType p = DataTypeUint16 \<Longrightarrow> parsePointValue p (be16 w) = Ret (scaled p (float64_of_int (uint w)))"
    by (simp_all add: parsePointValue_def be16_eq index_def DataType_defs)
qed

lemma parse_four_bytes:
  assumes "length bs = 4"
  shows "pt_DataType p = DataTypeInt32 \<Longrightarrow> parsePointValue p bs = Ret (scaled p (float64_of_int (sint (be_val bs :: u32))))"
    and "pt_DataType p = DataTypeUint32 \<Longrightarrow> parsePointValue p bs = Ret (scaled p (float64_of_int (uint (be_val bs :: u32))))"
    and "pt_DataType p = DataTypeFloat32 \<Longrightarrow> parsePointValue p bs
      = Ret (scaled p (Float32frombits (be_val (ByteOrderConversion bs (pt_ByteOrder p)))))"
proof -
  obtain a b c d where bs: "bs = [a, b, c, d]" using assms by (rule length_4_cases)
  show "pt_DataType p = DataTypeInt32 \<Longrightarrow> parsePointValue p bs = Ret (scaled p (float64_of_int (sint (be_val bs :: u32))))"
    "pt_DataType p = DataTypeUint32 \<Longrightarrow> parsePointValue p bs = Ret (scaled p (float64_of_int (uint (be_val bs :: u32))))"
    unfolding bs be_val_4 by (simp_all add: parsePointValue_def index_def DataType_defs)
  show "pt_DataType p = DataTypeFloat32 \<Longrightarrow> parsePointValue p bs
      = Ret (scaled p (Float32frombits (be_val (ByteOrderConversion bs (pt_ByteOrder p)))))"
    unfolding bs by (simp add: parsePointValue_def slice_def get32_def DataType_defs)
qed

text \<open>For a scale of one and an offset of zero nothing is lost but the sign of a zero.\<close>

lemma scaled_one: "pt_Scale p = f_one \<Longrightarrow> pt_Offset p = f_zero \<Longrightarrow> wf64 f \<Longrightarrow> scaled p f = AnyFloat (plain_zero f)"
  by (simp add: scaled_def f_mul_one f_add_zero)

lemma raw_value_one: "pt_Scale p = f_one \<Longrightarrow> pt_Offset p = f_zero \<Longrightarrow> wf64 f \<Longrightarrow> raw_value p f = f"
  by (simp add: raw_value_def f_sub_zero f_div_one)

lemma plain_zero_of_int [simp]: "\<bar>i\<bar> < 2 ^ 53 \<Longrightarrow> plain_zero (float64_of_int i) = float64_of_int i"
proof -
  assume i: "\<bar>i\<bar> < 2 ^ 53"
  have "i = 0" if "is_zero (float64_of_int i)"
  proof -
    have "f_trunc (float64_of_int i) = Some 0"
      using that by (auto simp: is_zero_def f_trunc_def frac_def signed_def split: float64.splits)
    with f_trunc_of_int [OF i] show ?thesis by simp
  qed
  then show ?thesis by (auto simp: plain_zero_def f_zero_eq)
qed

context modbus_device
begin

lemma write_then_poll:
  assumes w: "executeWrite cv ops cfg m cmd = (None, m')"
    and p: "point_named cfg (wc_pointName cmd) = Some p" and one: "one_value p"
  shows "\<exists>bs. read_point ops m' p = Some (Inr bs, m')
    \<and> parsePointValue p bs = Ret (polled_value cv p (raw_value p (wc_value cmd)))"
proof -
  let ?raw = "raw_value p (wc_value cmd)" and ?dt = "pt_DataType p" and ?a = "pt_Address p"
  have "writable p" using executeWrite_not_writable [OF p] w by (metis option.distinct(1) prod.inject)
  then consider "pt_FunctionCode p = 1" "?dt = DataTypeBool"
    | "pt_FunctionCode p = 3" "?dt = DataTypeInt16" | "pt_FunctionCode p = 3" "?dt = DataTypeUint16"
    | "pt_FunctionCode p = 3" "multi_register ?dt"
    unfolding writable_def by blast
  then show ?thesis
  proof cases
    case 1
    have "mo_WriteSingleCoil ops m ?a (if is_zero ?raw then 0 else 0xFF00) = (None, m')"
      using w unfolding executeWrite_coil [OF p 1] writeCoil_def .
    from coil_read_back [OF _ this] have "mo_ReadCoils ops m' ?a 1 = (Inr [if is_zero ?raw then 0 else 1], m')"
      by (simp split: if_splits)
    then show ?thesis using 1 one
      by (simp add: read_point_def one_value_def multi_register_def DataType_defs polled_value_def parsePointValue_def index_def)
  next
    case 2
    have "mo_WriteSingleRegister ops m ?a (to_sint (cv_int16 cv) ?raw) = (None, m')"
      using w executeWrite_register [OF p, of cv ops m] 2 by (simp add: writeSingleReg_def)
    from register_read_back [OF this] show ?thesis using 2 one
      by (simp add: read_point_def one_value_def multi_register_def parse_two_bytes) (simp add: polled_value_def DataType_defs)
  next
    case 3
    have "mo_WriteSingleRegister ops m ?a (to_uint (cv_uint16 cv) ?raw) = (None, m')"
      using w executeWrite_register [OF p, of cv ops m] 3 by (simp add: writeSingleReg_def DataType_defs)
    from register_read_back [OF this] show ?thesis using 3 one
      by (simp add: read_point_def one_value_def multi_register_def parse_two_bytes) (simp add: polled_value_def DataType_defs)
  next
    case 4
    define bits where "bits = (if ?dt = DataTypeInt32 then to_sint (cv_int32 cv) ?raw
      else if ?dt = DataTypeUint32 then to_uint (cv_uint32 cv) ?raw else Float32bits (float32_of ?raw))"
    let ?bs = "ByteOrderConversion (be32 bits) (pt_ByteOrder p)"
    have len: "length ?bs = 4" by simp
    have "mo_WriteMultipleRegisters ops m ?a 2 ?bs = (None, m')"
      using w executeWrite_registers [OF p 4, of cv ops m] 4 unfolding multi_register_def
      by (auto simp: writeMultiReg_def Let_def bits_def DataType_defs)
    from registers_read_back [OF len this] have r: "read_point ops m' p = Some (Inr ?bs, m')"
      using 4 one by (simp add: read_point_def one_value_def)
    have "parsePointValue p ?bs = Ret (polled_value cv p ?raw)"
      using 4 unfolding multi_register_def
      by (elim disjE; simp add: parse_four_bytes [OF len]; simp add: polled_value_def bits_def DataType_defs ByteOrderConversion_involution)
    with r show ?thesis by blast
  qed
qed

end

section \<open>Reading back integers\<close>

text \<open>The integers a point can hold, and those whose bytes the point's order moves.\<close>

definition in_range :: "string \<Rightarrow> int \<Rightarrow> bool" where
  "in_range dt i \<longleftrightarrow>
     (if dt = DataTypeInt16 then - 32768 \<le> i \<and> i < 32768
      else if dt = DataTypeUint16 then 0 \<le> i \<and> i < 65536
      else if dt = DataTypeInt32 then - 2147483648 \<le> i \<and> i < 2147483648
      else dt = DataTypeUint32 \<and> 0 \<le> i \<and> i < 4294967296)"

definition reordered :: "ModbusPointConfig \<Rightarrow> int \<Rightarrow> bool" where
  "reordered p i \<longleftrightarrow> multi_register (pt_DataType p)
     \<and> ByteOrderConversion (be32 (word_of_int i)) (pt_ByteOrder p) \<noteq> be32 (word_of_int i)"

lemma in_range_53: "in_range dt i \<Longrightarrow> \<bar>i\<bar> < 2 ^ 53"
  by (auto simp: in_range_def split: if_splits)

lemma to_sint_of_int: "\<bar>i\<bar> < 2 ^ 53 \<Longrightarrow> - (2 ^ (LENGTH('a) - 1)) \<le> i \<Longrightarrow> i < 2 ^ (LENGTH('a) - 1)
    \<Longrightarrow> (to_sint other (float64_of_int i) :: 'a::len word) = word_of_int i"
  by (simp add: to_sint_def f_trunc_of_int)

lemma to_uint_of_int: "\<bar>i\<bar> < 2 ^ 53 \<Longrightarrow> 0 \<le> i \<Longrightarrow> i < 2 ^ LENGTH('a)
    \<Longrightarrow> (to_uint other (float64_of_int i) :: 'a::len word) = word_of_int i"
  by (simp add: to_uint_def f_trunc_of_int)

lemma float64_of_int_inject: "\<bar>i\<bar> < 2 ^ 53 \<Longrightarrow> \<bar>j\<bar> < 2 ^ 53 \<Longrightarrow> float64_of_int i = float64_of_int j \<longleftrightarrow> i = j"
  by (metis f_trunc_of_int option.inject)

lemma sint_of_int: "- (2 ^ (LENGTH('a) - 1)) \<le> i \<Longrightarrow> i < 2 ^ (LENGTH('a) - 1) \<Longrightarrow> sint (word_of_int i :: 'a::len word) = i"
proof -
  assume r: "- (2 ^ (LENGTH('a) - 1)) \<le> i" "i < 2 ^ (LENGTH('a) - 1)"
  have "sint (word_of_int i :: 'a word) = signed_take_bit (LENGTH('a) - 1) i" by transfer simp
  with r show ?thesis by (simp add: signed_take_bit_int_eq_self)
qed

lemma uint_of_int: "0 \<le> i \<Longrightarrow> i < 2 ^ LENGTH('a) \<Longrightarrow> uint (word_of_int i :: 'a::len word) = i"
  by (simp add: uint_word_of_int)

lemma word32_small: "\<bar>sint (w :: u32)\<bar> < 2 ^ 53" "\<bar>uint w\<bar> < 2 ^ 53"
  using sint_greater_eq [of w] sint_less [of w] uint_bounded [of w] uint_nonnegative [of w] by simp_all

lemma be_val_order_eq:
  "(be_val (ByteOrderConversion (be32 w) order) :: u32) = w \<longleftrightarrow> ByteOrderConversion (be32 w) order = be32 w"
proof
  assume "(be_val (ByteOrderConversion (be32 w) order) :: u32) = w"
  moreover have "be32 (be_val (ByteOrderConversion (be32 w) order)) = ByteOrderConversion (be32 w) order"
    using be_bytes_be_val [of "ByteOrderConversion (be32 w) order", where 'w = 32] by (simp add: be32_def)
  ultimately show "ByteOrderConversion (be32 w) order = be32 w" by simp
qed simp

lemma polled_unscaled_integer:
  assumes p: "pt_Scale p = f_one" "pt_Offset p = f_zero" and i: "in_range (pt_DataType p) i"
  shows "polled_value cv p (float64_of_int i) = AnyFloat (float64_of_int i) \<longleftrightarrow> \<not> reordered p i"
proof -
  let ?dt = "pt_DataType p" and ?w = "be_val (ByteOrderConversion (be32 (word_of_int i)) (pt_ByteOrder p)) :: u32"
  note b = in_range_53 [OF i]
  have one: "scaled p (float64_of_int j) = AnyFloat (float64_of_int j)" if "\<bar>j\<bar> < 2 ^ 53" for j
    using scaled_one [OF p wf64_of_int [OF that]] plain_zero_of_int [OF that] by simp
  consider "?dt = DataTypeInt16" | "?dt = DataTypeUint16" | "?dt = DataTypeInt32" | "?dt = DataTypeUint32"
    using i by (auto simp: in_range_def split: if_splits)
  then show ?thesis
  proof cases
    case 1
    then show ?thesis using i b one
      by (simp add: in_range_def polled_value_def reordered_def multi_register_def DataType_defs to_sint_of_int sint_of_int)
  next
    case 2
    then show ?thesis using i b one
      by (simp add: in_range_def polled_value_def reordered_def multi_register_def DataType_defs to_uint_of_int uint_of_int)
  next
    case 3
    then have r: "- 2147483648 \<le> i" "i < 2147483648" using i by (simp_all add: in_range_def DataType_defs)
    then have "polled_value cv p (float64_of_int i) = AnyFloat (float64_of_int (sint ?w))"
      using 3 b one [OF word32_small(1)] by (simp add: polled_value_def DataType_defs to_sint_of_int)
    moreover have "sint ?w = i \<longleftrightarrow> ?w = word_of_int i"
      using r sint_of_int [of i, where 'a = 32] word_eq_iff_signed [of ?w "word_of_int i", where 'a = int] by simp
    ultimately show ?thesis
      using 3 by (simp add: float64_of_int_inject [OF word32_small(1) b] be_val_order_eq reordered_def multi_register_def)
  next
    case 4
    then have r: "0 \<le> i" "i < 4294967296" using i by (simp_all add: in_range_def DataType_defs)
    then have "polled_value cv p (float64_of_int i) = AnyFloat (float64_of_int (uint ?w))"
      using 4 b one [OF word32_small(2)] by (simp add: polled_value_def DataType_defs to_uint_of_int)
    moreover have "uint ?w = i \<longleftrightarrow> ?w = word_of_int i"
      using r uint_of_int [of i, where 'a = 32] by (auto simp: word_uint_eq_iff)
    ultimately show ?thesis
      using 4 by (simp add: float64_of_int_inject [OF word32_small(2) b] be_val_order_eq reordered_def multi_register_def)
  qed
qed

text \<open>
  C10. An integer that a register point can hold, written without scale and offset, is what the next poll
  of the point reports, for every device that keeps the register contract, except for a 32-bit integer
  whose bytes the configured byte order moves: the write applies the order and the poll of an integer
  does not, so the poll reports another number.
\<close>

theorem written_integer_polled_back:
  assumes "modbus_device ops holding coils"
    and "executeWrite cv ops cfg m \<lparr>wc_pointName = name, wc_value = float64_of_int i\<rparr> = (None, m')"
    and "point_named cfg name = Some p" and "one_value p"
    and "pt_Scale p = f_one" and "pt_Offset p = f_zero" and "in_range (pt_DataType p) i"
  shows "\<exists>bs v. read_point ops m' p = Some (Inr bs, m') \<and> parsePointValue p bs = Ret v
    \<and> (v = AnyFloat (float64_of_int i) \<longleftrightarrow> \<not> reordered p i)"
proof -
  have "raw_value p (float64_of_int i) = float64_of_int i"
    using assms(5,6) wf64_of_int [OF in_range_53 [OF assms(7)]] by (rule raw_value_one)
  with modbus_device.write_then_poll [OF assms(1,2), of p] assms(3,4)
  obtain bs where "read_point ops m' p = Some (Inr bs, m')" "parsePointValue p bs = Ret (polled_value cv p (float64_of_int i))"
    by auto
  with polled_unscaled_integer [OF assms(5-7), of cv] show ?thesis by blast
qed

definition sample_conv :: conv where
  "sample_conv = \<lparr>cv_int16 = (\<lambda>_. 0), cv_uint16 = (\<lambda>_. 0), cv_int32 = (\<lambda>_. 0), cv_uint32 = (\<lambda>_. 0)\<rparr>"

text \<open>The simulator's multi-register device and a gateway whose point has the bytes in the order \<^verbatim>\<open>dcba\<close>.\<close>

definition sample_store :: deviceStore where
  "sample_store = (newDeviceStore ''dev'' 1)\<lparr>ds_hr := [0 \<mapsto> 0, 1 \<mapsto> 1000]\<rparr>"

theorem written_integer_polled_back_witness:
  "let p = sample_point\<lparr>pt_ByteOrder := ByteOrderLittleEndian\<rparr>;
       m' = snd (executeWrite sample_conv sim_ops (sample_device\<lparr>dv_Points := [p]\<rparr>) sample_store
         \<lparr>wc_pointName = ''p'', wc_value = float64_of_int 7\<rparr>)
   in \<exists>bs v. read_point sim_ops m' p = Some (Inr bs, m') \<and> parsePointValue p bs = Ret v \<and> v \<noteq> AnyFloat (float64_of_int 7)"
proof -
  let ?p = "sample_point\<lparr>pt_ByteOrder := ByteOrderLittleEndian\<rparr>"
  let ?cfg = "sample_device\<lparr>dv_Points := [?p]\<rparr>"
  let ?cmd = "\<lparr>wc_pointName = ''p'', wc_value = float64_of_int 7\<rparr>"
  let ?run = "executeWrite sample_conv sim_ops ?cfg sample_store ?cmd"
  have p: "point_named ?cfg ''p'' = Some ?p" by (simp add: point_named_def sample_point_def sample_device_def)
  have m: "multi_register (pt_DataType ?p)" and fc: "pt_FunctionCode ?p = 3"
    by (simp_all add: multi_register_def sample_point_def)
  have "fst ?run = None"
    using executeWrite_registers [of ?cfg ?cmd ?p sample_conv sim_ops sample_store] p m fc
    by (simp add: writeMultiReg_def Let_def sim_ops_def sim_write_registers sim_write_four sample_point_def DataType_defs)
  then have run: "?run = (None, snd ?run)" by (metis prod.collapse)
  have "one_value ?p" using m by (simp add: one_value_def sample_point_def)
  moreover have "in_range (pt_DataType ?p) 7" by (simp add: in_range_def sample_point_def DataType_defs)
  ultimately have "\<exists>bs v. read_point sim_ops (snd ?run) ?p = Some (Inr bs, snd ?run) \<and> parsePointValue ?p bs = Ret v
    \<and> (v = AnyFloat (float64_of_int 7) \<longleftrightarrow> \<not> reordered ?p 7)"
    by (intro written_integer_polled_back [OF sim_is_device run p]) (simp_all add: sample_point_def)
  moreover have "reordered ?p 7"
    using m by (simp add: reordered_def be32_eq ByteOrderConversion_4 ByteOrder_defs)
  ultimately show ?thesis by (simp add: Let_def)
qed

section \<open>Writes from outside\<close>

text \<open>What \<^verbatim>\<open>Write\<close> lets through, when no other write is waiting.\<close>

definition admitted :: "'m runtime \<Rightarrow> string \<Rightarrow> bool" where
  "admitted rt name \<longleftrightarrow> rt_state rt = stateOnline
     \<and> (case point_named (rt_cfg rt) name of None \<Rightarrow> False | Some p \<Rightarrow> pt_Access p \<noteq> AccessReadOnly)"

lemma Write_begin_admitted:
  "rt_writeCh rt = [] \<Longrightarrow> admitted rt name
    \<Longrightarrow> Write_begin rt name v = Inr (rt\<lparr>rt_writeCh := [\<lparr>wc_pointName = name, wc_value = v\<rparr>]\<rparr>)"
  by (auto simp: Write_begin_def admitted_def findPoint_eq split: option.splits)

lemma Write_begin_refused: "\<not> admitted rt name \<Longrightarrow> \<exists>e. Write_begin rt name v = Inl e"
  by (auto simp: Write_begin_def admitted_def findPoint_eq split: option.splits)

lemma Write_refused: "\<not> admitted rt name \<Longrightarrow> \<exists>e. Write cv ops rt name v = (WriteError e, rt)"
  using Write_begin_refused [of rt name v] by (auto simp: Write_def)

lemma Write_executed:
  assumes "rt_writeCh rt = []" "admitted rt name" "rt_writing rt"
    and "executeWrite cv ops (rt_cfg rt) (rt_client rt) \<lparr>wc_pointName = name, wc_value = v\<rparr> = (err, m')"
  shows "Write cv ops rt name v =
    (case err of None \<Rightarrow> (Written, rt\<lparr>rt_client := m'\<rparr>)
     | Some e \<Rightarrow> (WriteError e, rt\<lparr>rt_client := m', rt_state := stateDegraded\<rparr>))"
  using assms Write_begin_admitted [OF assms(1,2), of v]
  by (cases rt) (simp add: Write_def writeLoop_step_def split: option.split)

lemma Write_blocks:
  assumes "rt_writeCh rt = []" "admitted rt name" "\<not> rt_writing rt"
  shows "Write cv ops rt name v = (Blocks, rt\<lparr>rt_writeCh := [\<lparr>wc_pointName = name, wc_value = v\<rparr>]\<rparr>)"
  using assms(3) Write_begin_admitted [OF assms(1,2), of v] by (simp add: Write_def writeLoop_step_def)

text \<open>
  C14. A write is refused, with the device and the runtime untouched, unless the device is online and has a
  point of that name that is not read-only. A write that gets through runs once on the device and gives its
  result, and takes the runtime out of service when that is an error; but when the write loop has ended
  (the session's context is cancelled, while the runtime is still registered) the caller waits for ever.
\<close>

theorem Write_outcomes:
  assumes "rt_writeCh rt = []"
  shows "(\<not> admitted rt name \<longrightarrow> (\<exists>e. Write cv ops rt name v = (WriteError e, rt)))
    \<and> (admitted rt name \<and> \<not> rt_writing rt \<longrightarrow> fst (Write cv ops rt name v) = Blocks)
    \<and> (admitted rt name \<and> rt_writing rt \<longrightarrow>
        (case executeWrite cv ops (rt_cfg rt) (rt_client rt) \<lparr>wc_pointName = name, wc_value = v\<rparr> of
           (None, m) \<Rightarrow> Write cv ops rt name v = (Written, rt\<lparr>rt_client := m\<rparr>)
         | (Some e, m) \<Rightarrow> Write cv ops rt name v = (WriteError e, rt\<lparr>rt_client := m, rt_state := stateDegraded\<rparr>)))"
  using Write_refused Write_blocks [OF assms, of name cv ops v] Write_executed [OF assms, of name cv ops v]
  by (auto split: prod.splits option.splits)

definition sample_runtime :: "ModbusPointConfig list \<Rightarrow> deviceStore runtime" where
  "sample_runtime ps = \<lparr>rt_cfg = sample_device\<lparr>dv_Points := ps\<rparr>, rt_client = sample_store, rt_state = stateOnline,
     rt_writeCh = [], rt_writing = True\<rparr>"

lemma sample_runtime_simps [simp]:
  "rt_writeCh (sample_runtime ps) = []" "rt_writing (sample_runtime ps)" "rt_client (sample_runtime ps) = sample_store"
  "rt_state (sample_runtime ps) = stateOnline" "rt_cfg (sample_runtime ps) = sample_device\<lparr>dv_Points := ps\<rparr>"
  by (simp_all add: sample_runtime_def)

lemma point_ok_sample: "0 < q \<Longrightarrow> fc \<in> {1, 2, 3, 4, 5, 6, 16}
    \<Longrightarrow> point_ok (sample_point\<lparr>pt_FunctionCode := fc\<rparr>) \<and> point_ok (sample_point\<lparr>pt_Quantity := q\<rparr>)"
  by (auto simp: point_ok_def sample_point_def validFunctionCodes_def validDataTypes_def multi_register_def Access_defs)

lemma sample_device_ok: "device_ok (sample_device\<lparr>dv_Points := [p]\<rparr>) = point_ok p"
  by (simp add: device_ok_def sample_device_def ConnectionType_defs)

lemma sample_admitted: "admitted (sample_runtime [sample_point\<lparr>pt_FunctionCode := fc\<rparr>]) ''p''"
  by (simp add: admitted_def point_named_def sample_point_def sample_device_def Access_defs)

theorem Write_outcomes_witness:
  "\<exists>e. Write sample_conv sim_ops (sample_runtime [sample_point]) ''q'' f_one = (WriteError e, sample_runtime [sample_point])"
proof -
  have "\<not> admitted (sample_runtime [sample_point]) ''q''"
    by (simp add: admitted_def point_named_def sample_point_def sample_device_def)
  then show ?thesis using Write_outcomes [of "sample_runtime [sample_point]" "''q''" sample_conv sim_ops f_one] by simp
qed

text \<open>
  Validation accepts points with the function codes 5, 6 and 16, and \<^verbatim>\<open>Write\<close> lets a write to one
  through, but it never reaches the device: it fails, and the failure takes the runtime out of service, so
  that every write to any point of the device is then refused until a poll succeeds.
\<close>

theorem write_to_write_code_point_disables_device:
  assumes "rt_writeCh rt = []" and "rt_writing rt" and "admitted rt name"
    and "point_named (rt_cfg rt) name = Some p" and "isWriteFunctionCode (pt_FunctionCode p)"
  shows "\<exists>e rt'. Write cv ops rt name v = (WriteError e, rt') \<and> rt_client rt' = rt_client rt
    \<and> (\<forall>name' v'. \<exists>e'. Write cv ops rt' name' v' = (WriteError e', rt'))"
proof -
  have "\<not> writable p" using assms(5) by (auto simp: writable_def isWriteFunctionCode_def)
  then obtain e where "executeWrite cv ops (rt_cfg rt) (rt_client rt) \<lparr>wc_pointName = name, wc_value = v\<rparr> = (Some e, rt_client rt)"
    using executeWrite_not_writable [of "rt_cfg rt" "\<lparr>wc_pointName = name, wc_value = v\<rparr>" p cv ops "rt_client rt"] assms(4) by auto
  from Write_executed [OF assms(1,3,2) this]
  have w: "Write cv ops rt name v = (WriteError e, rt\<lparr>rt_state := stateDegraded\<rparr>)" by simp
  have "\<not> admitted (rt\<lparr>rt_state := stateDegraded\<rparr>) name'" for name'
    by (simp add: admitted_def runtime_state_defs)
  then have "\<exists>e'. Write cv ops (rt\<lparr>rt_state := stateDegraded\<rparr>) name' v' = (WriteError e', rt\<lparr>rt_state := stateDegraded\<rparr>)" for name' v'
    by (rule Write_refused)
  with w show ?thesis by force
qed

theorem write_to_write_code_point_disables_device_witness:
  "\<exists>e rt'. Write sample_conv sim_ops (sample_runtime [sample_point\<lparr>pt_FunctionCode := 16\<rparr>]) ''p'' f_one = (WriteError e, rt')
    \<and> (\<forall>name' v'. \<exists>e'. Write sample_conv sim_ops rt' name' v' = (WriteError e', rt'))
    \<and> device_ok (sample_device\<lparr>dv_Points := [sample_point\<lparr>pt_FunctionCode := 16\<rparr>]\<rparr>)"
proof -
  let ?p = "sample_point\<lparr>pt_FunctionCode := 16\<rparr>"
  have p: "point_named (rt_cfg (sample_runtime [?p])) ''p'' = Some ?p"
    by (simp add: point_named_def sample_point_def sample_device_def)
  have "isWriteFunctionCode (pt_FunctionCode ?p)" by (simp add: isWriteFunctionCode_def)
  moreover have "device_ok (sample_device\<lparr>dv_Points := [?p]\<rparr>)" by (simp add: sample_device_ok point_ok_sample [of 1])
  ultimately show ?thesis
    using write_to_write_code_point_disables_device [OF _ _ sample_admitted p, where cv = sample_conv and v = f_one] by force
qed

section \<open>Polling\<close>

text \<open>The contract of a Modbus client on the length of its answers.\<close>

locale modbus_answers =
  fixes ops :: "'m modbus_ops"
  assumes coil_bytes: "mo_ReadCoils ops m a q = (Inr bs, m') \<Longrightarrow> q \<noteq> 0 \<Longrightarrow> bs \<noteq> []"
    and discrete_bytes: "mo_ReadDiscreteInputs ops m a q = (Inr bs, m') \<Longrightarrow> q \<noteq> 0 \<Longrightarrow> bs \<noteq> []"
    and holding_bytes: "mo_ReadHoldingRegisters ops m a q = (Inr bs, m') \<Longrightarrow> length bs = 2 * unat q"
    and input_bytes: "mo_ReadInputRegisters ops m a q = (Inr bs, m') \<Longrightarrow> length bs = 2 * unat q"

definition polled :: "ModbusPointConfig \<Rightarrow> bool" where
  "polled p \<longleftrightarrow> pt_Access p \<noteq> AccessWriteOnly \<and> \<not> isWriteFunctionCode (pt_FunctionCode p)"

text \<open>The answer to the read of the point has the bytes that its data type takes.\<close>

definition enough_bytes :: "ModbusPointConfig \<Rightarrow> nat \<Rightarrow> bool" where
  "enough_bytes p n \<longleftrightarrow>
     (if pt_DataType p = DataTypeBool then 1 \<le> n else if multi_register (pt_DataType p) then 4 \<le> n else 2 \<le> n)"

definition poll_safe :: "ModbusPointConfig \<Rightarrow> bool" where
  "poll_safe p \<longleftrightarrow> enough_bytes p (if pt_FunctionCode p = 1 \<or> pt_FunctionCode p = 2 then 1 else 2 * unat (pt_Quantity p))"

lemma valid_type_cases:
  assumes "point_ok p"
  obtains "pt_DataType p = DataTypeBool" | "pt_DataType p = DataTypeInt16" | "pt_DataType p = DataTypeUint16"
    | "pt_DataType p = DataTypeInt32" | "pt_DataType p = DataTypeUint32" | "pt_DataType p = DataTypeFloat32"
  using assms unfolding point_ok_def validDataTypes_def by auto

lemma parsePointValue_enough:
  assumes "point_ok p" and "enough_bytes p (length bs)"
  shows "\<exists>v. parsePointValue p bs = Ret v \<and> v \<noteq> AnyNil"
proof -
  have four: "4 \<le> length bs \<Longrightarrow> bs \<noteq> []" and two: "2 \<le> length bs \<Longrightarrow> bs \<noteq> []" by auto
  from assms(1) show ?thesis
    by (rule valid_type_cases; insert assms(2) four two;
        simp add: parsePointValue_def enough_bytes_def multi_register_def scaled_def index_def slice_def get32_def DataType_defs Suc_le_eq)
qed

lemma parsePointValue_short:
  assumes "pt_DataType p = DataTypeInt32 \<or> pt_DataType p = DataTypeUint32" and "length bs < 4"
  shows "parsePointValue p bs = Panic"
proof -
  have "\<not> 3 < length bs" using assms(2) by simp
  with assms(1) show ?thesis
    by (elim disjE; simp add: parsePointValue_def index_def DataType_defs)
qed

text \<open>A poll of points that ask for enough registers: the readings are those of a part of the points, all of them when no read failed.\<close>

definition poll_result :: "DeviceConfig \<Rightarrow> string \<Rightarrow> ModbusPointConfig list \<Rightarrow> bool \<Rightarrow> Reading list
    \<Rightarrow> (unit, 'm \<times> bool \<times> Reading list) go \<Rightarrow> bool" where
  "poll_result cfg h ps b out res \<longleftrightarrow>
     (\<exists>m b' rs. res = Ret (m, b', out @ rs) \<and> (b \<longrightarrow> b')
       \<and> (\<not> b' \<longrightarrow> map r_PointName rs = map pt_Name (filter polled ps))
       \<and> subseq (map r_PointName rs) (map pt_Name (filter polled ps))
       \<and> (\<forall>r \<in> set rs. r_Device r = h \<and> r_DeviceName r = dv_Name cfg))"

lemma poll_result_skip: "\<not> polled p \<Longrightarrow> poll_result cfg h (p # ps) b out res = poll_result cfg h ps b out res"
  by (simp add: poll_result_def)

lemma poll_result_failed: "polled p \<Longrightarrow> poll_result cfg h ps True out res \<Longrightarrow> poll_result cfg h (p # ps) b out res"
  unfolding poll_result_def by auto

lemma poll_result_read:
  assumes "polled p" and "poll_result cfg h ps b (out @ [point_reading cfg h p v t]) res"
  shows "poll_result cfg h (p # ps) b out res"
proof -
  have r: "r_PointName (point_reading cfg h p v t) = pt_Name p" "r_Device (point_reading cfg h p v t) = h"
    "r_DeviceName (point_reading cfg h p v t) = dv_Name cfg"
    by (simp_all add: point_reading_def)
  obtain m b' rs where "res = Ret (m, b', (out @ [point_reading cfg h p v t]) @ rs)" "b \<longrightarrow> b'"
    "\<not> b' \<longrightarrow> map r_PointName rs = map pt_Name (filter polled ps)"
    "subseq (map r_PointName rs) (map pt_Name (filter polled ps))"
    "\<forall>r \<in> set rs. r_Device r = h \<and> r_DeviceName r = dv_Name cfg"
    using assms(2) unfolding poll_result_def by blast
  then show ?thesis unfolding poll_result_def
    by (intro exI [of _ m] exI [of _ b'] exI [of _ "point_reading cfg h p v t # rs"]) (simp add: assms(1) r)
qed

lemma poll_points_skip:
  "\<not> polled p \<Longrightarrow> poll_points ops cfg h now i (p # ps) m b out = poll_points ops cfg h now (Suc i) ps m b out"
  by (auto simp: polled_def)

lemma poll_points_polled:
  "polled p \<Longrightarrow> poll_points ops cfg h now i (p # ps) m b out =
     (case read_point ops m p of
        None \<Rightarrow> poll_points ops cfg h now (Suc i) ps m b out
      | Some (Inl e, m) \<Rightarrow> poll_points ops cfg h now (Suc i) ps m True out
      | Some (Inr bs, m) \<Rightarrow>
          (case parsePointValue p bs of
             Panic \<Rightarrow> Panic
           | Fail e \<Rightarrow> Fail e
           | Ret v \<Rightarrow> poll_points ops cfg h now (Suc i) ps m b
               (if v = AnyNil then out else out @ [point_reading cfg h p v (now i)])))"
  by (simp add: polled_def)

declare poll_points.simps(2) [simp del]

context modbus_answers
begin

lemma read_point_enough:
  assumes "read_point ops m p = Some (Inr bs, m')" "poll_safe p" "pt_Quantity p \<noteq> 0"
  shows "enough_bytes p (length bs)"
proof (cases "pt_FunctionCode p = 1 \<or> pt_FunctionCode p = 2")
  case True
  then have "bs \<noteq> []"
    using assms(1,3) coil_bytes [of m "pt_Address p" "pt_Quantity p" bs m'] discrete_bytes [of m "pt_Address p" "pt_Quantity p" bs m']
    by (auto simp: read_point_def)
  moreover have "enough_bytes p 1" using assms(2) True by (simp add: poll_safe_def)
  ultimately show ?thesis by (simp add: enough_bytes_def Suc_le_eq split: if_splits)
next
  case False
  then have "length bs = 2 * unat (pt_Quantity p)"
    using assms(1) by (auto simp: read_point_def holding_bytes input_bytes split: if_splits)
  with False assms(2) show ?thesis by (simp add: poll_safe_def)
qed

lemma poll_points_spec:
  assumes "list_all point_ok ps" and "\<forall>p \<in> set ps. polled p \<longrightarrow> poll_safe p"
  shows "poll_result cfg h ps b out (poll_points ops cfg h now i ps m b out)"
  using assms
proof (induction ps arbitrary: i m b out)
  case (Cons p ps)
  have ih: "poll_result cfg h ps b out (poll_points ops cfg h now (Suc i) ps m b out)" for m b out
    using Cons.IH Cons.prems by simp
  have ok: "point_ok p" using Cons.prems(1) by simp
  show ?case
  proof (cases "polled p")
    case False
    then show ?thesis using ih [of b out m] by (simp add: poll_points_skip poll_result_skip)
  next
    case True
    then have fc: "pt_FunctionCode p \<in> {1, 2, 3, 4}" and safe: "poll_safe p"
      using ok Cons.prems(2) by (auto simp: polled_def isWriteFunctionCode_def point_ok_def validFunctionCodes_def)
    have "read_point ops m p \<noteq> None" using fc by (auto simp: read_point_def)
    then obtain r m1 where r: "read_point ops m p = Some (r, m1)" by auto
    show ?thesis
    proof (cases r)
      case (Inl e)
      with r show ?thesis using ih [of True out m1] by (simp add: poll_points_polled [OF True] poll_result_failed [OF True])
    next
      case (Inr bs)
      have "pt_Quantity p \<noteq> 0" using ok by (simp add: point_ok_def)
      then obtain v where v: "parsePointValue p bs = Ret v" "v \<noteq> AnyNil"
        using parsePointValue_enough [OF ok read_point_enough] r safe Inr by blast
      with r Inr show ?thesis using ih [of b "out @ [point_reading cfg h p v (now i)]" m1]
        by (simp add: poll_points_polled [OF True] poll_result_read [OF True])
    qed
  qed
qed (simp add: poll_result_def)

end

lemma read_words_length: "read_words data a n = Some bs \<Longrightarrow> length bs = 2 * n"
  by (induction data a n arbitrary: bs rule: read_words.induct) (auto split: option.splits)

lemma read_bits_length: "read_bits data a i n out = Some bs \<Longrightarrow> length bs = length out"
  by (induction data a i n out arbitrary: bs rule: read_bits.induct) (auto split: option.splits if_splits)

lemma sim_read_registers_length:
  assumes "sim_read fc s a q = (Inr bs, s')" "fc = fcReadHoldingRegisters \<or> fc = fcReadInputRegisters"
  shows "length bs = 2 * unat q"
proof -
  have "length bs = 2 * unat q" if "readRegs data (fc # be16 a @ be16 q) = f # n # bs" "f = fc" for data f n
    using that assms(2) by (auto simp: readRegs_def exceptResp_def Let_def fc_defs read_words_length split: if_splits option.splits)
  with assms show ?thesis
    by (auto simp: sim_read_def processPDU_def Let_def fc_defs split: list.splits if_splits)
qed

lemma sim_read_bits_length:
  assumes "sim_read fc s a q = (Inr bs, s')" "fc = fcReadCoils \<or> fc = fcReadDiscreteInputs" "q \<noteq> 0"
  shows "bs \<noteq> []"
proof -
  have b: "unat (ucast ((q + 7) div 8) :: u8) \<noteq> 0" if "\<not> (q < 1 \<or> 2000 < q)"
  proof -
    have q: "1 \<le> unat q" "unat q \<le> 2000" using that assms(3) by (auto simp: word_less_nat_alt)
    have "unat (q + 7) = unat q + 7" using q(2) by (simp add: unat_word_ariths)
    then have "unat (ucast ((q + 7) div 8) :: u8) = (unat q + 7) div 8 mod 256"
      by (simp add: unsigned_ucast_eq unat_div take_bit_eq_mod)
    with q show ?thesis by simp
  qed
  have "bs \<noteq> []" if "readBits data (fc # be16 a @ be16 q) = f # n # bs" "f = fc" for data f n
    using that b assms(2) by (auto simp: readBits_def exceptResp_def Let_def fc_defs dest: read_bits_length split: if_splits option.splits)
  with assms show ?thesis
    by (auto simp: sim_read_def processPDU_def Let_def fc_defs split: list.splits if_splits)
qed

lemma sim_answers: "modbus_answers sim_ops"
  by unfold_locales (auto simp: sim_ops_def sim_read_registers_length sim_read_bits_length)

interpretation sim_polled: modbus_answers sim_ops
  by (rule sim_answers)

text \<open>
  C27. Polling a validated device whose points ask for the registers their types take never crashes, for
  every Modbus client that keeps the length of its answers: it ends with the runtime online or degraded,
  every reading carries the device's identifier and name, the readings come in the order of the points,
  and a poll that leaves the runtime online has a reading of every point that is read.
\<close>

theorem poll_of_sufficient_points:
  assumes "modbus_answers ops" and "device_ok (rt_cfg rt)"
    and "\<forall>p \<in> set (dv_Points (rt_cfg rt)). polled p \<longrightarrow> poll_safe p"
  shows "\<exists>rt' rs h. Device_Hash (rt_cfg rt) = Inr h \<and> pollOnce ops now rt = Ret (rt', rs)
    \<and> rt_state rt' \<in> {stateOnline, stateDegraded}
    \<and> subseq (map r_PointName rs) (map pt_Name (filter polled (dv_Points (rt_cfg rt))))
    \<and> (rt_state rt' = stateOnline \<longrightarrow> map r_PointName rs = map pt_Name (filter polled (dv_Points (rt_cfg rt))))
    \<and> (\<forall>r \<in> set rs. r_Device r = h \<and> r_DeviceName r = dv_Name (rt_cfg rt))"
proof -
  obtain h where h: "Device_Hash (rt_cfg rt) = Inr h" using device_ok_hash [OF assms(2)] by blast
  let ?ps = "dv_Points (rt_cfg rt)"
  have ps: "list_all point_ok ?ps" using assms(2) by (simp add: device_ok_def)
  obtain m b rs where r: "poll_points ops (rt_cfg rt) h now 0 ?ps (rt_client rt) False [] = Ret (m, b, rs)"
      "\<not> b \<longrightarrow> map r_PointName rs = map pt_Name (filter polled ?ps)"
      "subseq (map r_PointName rs) (map pt_Name (filter polled ?ps))"
      "\<forall>r \<in> set rs. r_Device r = h \<and> r_DeviceName r = dv_Name (rt_cfg rt)"
    using modbus_answers.poll_points_spec [OF assms(1) ps assms(3), of "rt_cfg rt" h False "[]" now 0 "rt_client rt"]
    unfolding poll_result_def by auto
  then have "pollOnce ops now rt = Ret (rt\<lparr>rt_client := m, rt_state := if b then stateDegraded else stateOnline\<rparr>, rs)"
    by (simp add: pollOnce_def h)
  with h r show ?thesis by (cases b) (auto simp: runtime_state_defs)
qed

theorem poll_of_sufficient_points_witness:
  "\<exists>rt' rs. pollOnce sim_ops (\<lambda>_. 0) (sample_runtime [sample_point]) = Ret (rt', rs)
    \<and> (rt_state rt' = stateOnline \<longrightarrow> map r_PointName rs = [''p''])"
proof -
  have "device_ok (rt_cfg (sample_runtime [sample_point]))"
    using point_ok_sample [of 2 3] by (simp add: sample_device_ok) (simp add: sample_point_def)
  moreover have "polled sample_point" "poll_safe sample_point"
    by (simp_all add: polled_def isWriteFunctionCode_def poll_safe_def enough_bytes_def multi_register_def sample_point_def
        Access_defs DataType_defs)
  ultimately have "\<exists>rt' rs h. Device_Hash (rt_cfg (sample_runtime [sample_point])) = Inr h
    \<and> pollOnce sim_ops (\<lambda>_. 0) (sample_runtime [sample_point]) = Ret (rt', rs)
    \<and> rt_state rt' \<in> {stateOnline, stateDegraded}
    \<and> subseq (map r_PointName rs) (map pt_Name (filter polled (dv_Points (rt_cfg (sample_runtime [sample_point])))))
    \<and> (rt_state rt' = stateOnline \<longrightarrow>
        map r_PointName rs = map pt_Name (filter polled (dv_Points (rt_cfg (sample_runtime [sample_point])))))
    \<and> (\<forall>r \<in> set rs. r_Device r = h \<and> r_DeviceName r = dv_Name (rt_cfg (sample_runtime [sample_point])))"
    by (intro poll_of_sufficient_points [OF sim_answers]) simp_all
  moreover have "pt_Name sample_point = ''p''" by (simp add: sample_point_def)
  ultimately show ?thesis using \<open>polled sample_point\<close> by auto
qed

text \<open>
  A configuration that validation accepts can crash the gateway: the first point of the device is a
  32-bit integer read from holding or input registers with a quantity of one, and the device answers. The
  answer has two bytes, and the conversion of the value indexes past them, a run-time panic in the
  goroutine of the poll.
\<close>

theorem validated_point_crashes_poll:
  assumes "modbus_answers ops" and "device_ok (rt_cfg rt)" and "dv_Points (rt_cfg rt) = p # ps"
    and "polled p" and "pt_FunctionCode p = 3 \<or> pt_FunctionCode p = 4" and "pt_Quantity p = 1"
    and "pt_DataType p = DataTypeInt32 \<or> pt_DataType p = DataTypeUint32"
    and "read_point ops (rt_client rt) p = Some (Inr bs, m')"
  shows "pollOnce ops now rt = Panic"
proof -
  obtain h where h: "Device_Hash (rt_cfg rt) = Inr h" using device_ok_hash [OF assms(2)] by blast
  have "length bs = 2"
    using assms(5,6,8) modbus_answers.holding_bytes [OF assms(1), of "rt_client rt" "pt_Address p" 1 bs m']
      modbus_answers.input_bytes [OF assms(1), of "rt_client rt" "pt_Address p" 1 bs m']
    by (auto simp: read_point_def)
  then have "parsePointValue p bs = Panic" using parsePointValue_short [OF assms(7)] by simp
  then show ?thesis using assms(8) by (simp add: pollOnce_def h assms(3) poll_points_polled [OF assms(4)])
qed

theorem validated_point_crashes_poll_witness:
  "device_ok (sample_device\<lparr>dv_Points := [sample_point\<lparr>pt_Quantity := 1\<rparr>]\<rparr>)
   \<and> pollOnce sim_ops (\<lambda>_. 0) (sample_runtime [sample_point\<lparr>pt_Quantity := 1\<rparr>]) = Panic"
proof -
  let ?p = "sample_point\<lparr>pt_Quantity := 1\<rparr>"
  have ok: "device_ok (sample_device\<lparr>dv_Points := [?p]\<rparr>)"
    using point_ok_sample [of 1 3] by (simp add: sample_device_ok)
  have r: "read_point sim_ops (rt_client (sample_runtime [?p])) ?p = Some (Inr (be16 0), sample_store)"
    by (simp add: read_point_def sim_ops_def sample_point_def sample_store_def sim_read_holding)
  have "polled ?p" by (simp add: polled_def isWriteFunctionCode_def sample_point_def Access_defs)
  then show ?thesis
    using ok validated_point_crashes_poll [OF sim_answers _ _ _ _ _ _ r, of "[]"]
    by (simp add: sample_point_def)
qed

end
