(* ===== verification/GoJson.thy ===== *)
theory GoJson
  imports Values "HOL-Library.Char_ord" "HOL-Library.List_Lexorder"
begin

text \<open>
  The functions of \<^verbatim>\<open>encoding/json\<close> that the program uses: \<^verbatim>\<open>Marshal\<close> of booleans, numbers, strings, maps
  and structs, and \<^verbatim>\<open>Unmarshal\<close> into an \<^verbatim>\<open>any\<close>. An error is \<open>None\<close>: no caller looks at its text.
\<close>

section \<open>UTF-8\<close>

definition byte :: "char \<Rightarrow> nat" where "byte c = of_char c"

definition is_cont :: "char \<Rightarrow> bool" where
  "is_cont c \<longleftrightarrow> 128 \<le> byte c \<and> byte c < 192"

text \<open>How many bytes the valid sequence at the head has; zero when there is none.\<close>

definition utf8_head :: "string \<Rightarrow> nat" where
  "utf8_head s =
     (case s of
        [] \<Rightarrow> 0
      | a # r \<Rightarrow>
          if byte a < 128 then 1
          else if 194 \<le> byte a \<and> byte a < 224 then
            (case r of b # _ \<Rightarrow> if is_cont b then 2 else 0 | [] \<Rightarrow> 0)
          else if 224 \<le> byte a \<and> byte a < 240 then
            (case r of b # c # _ \<Rightarrow>
               if is_cont b \<and> is_cont c \<and> (byte a = 224 \<longrightarrow> 160 \<le> byte b) \<and> (byte a = 237 \<longrightarrow> byte b < 160) then 3 else 0
             | _ \<Rightarrow> 0)
          else if 240 \<le> byte a \<and> byte a < 245 then
            (case r of b # c # d # _ \<Rightarrow>
               if is_cont b \<and> is_cont c \<and> is_cont d \<and> (byte a = 240 \<longrightarrow> 144 \<le> byte b) \<and> (byte a = 244 \<longrightarrow> byte b < 144)
               then 4 else 0
             | _ \<Rightarrow> 0)
          else 0)"

definition replacement :: string where \<comment> \<open>U+FFFD\<close>
  "replacement = string_of_rune 65533"

section \<open>Marshal\<close>

definition hex_digit :: "nat \<Rightarrow> char" where
  "hex_digit n = (if n < 10 then digit_char n else char_of (87 + n))"

definition json_escape :: "char \<Rightarrow> string" where
  "json_escape c =
     (if c = CHR 0x22 \<or> c = CHR 0x5C then [CHR 0x5C, c]
      else if byte c = 8 then [CHR 0x5C, CHR ''b'']
      else if byte c = 12 then [CHR 0x5C, CHR ''f'']
      else if byte c = 10 then [CHR 0x5C, CHR ''n'']
      else if byte c = 13 then [CHR 0x5C, CHR ''r'']
      else if byte c = 9 then [CHR 0x5C, CHR ''t'']
      else if byte c < 32 \<or> c = CHR ''<'' \<or> c = CHR ''>'' \<or> c = CHR ''&''
      then [CHR 0x5C] @ ''u00'' @ [hex_digit (byte c div 16), hex_digit (byte c mod 16)]
      else [c])"

text \<open>The body of a string. An invalid byte becomes \<^verbatim>\<open>\\ufffd\<close>; the line separators U+2028 and U+2029 are escaped.\<close>

fun json_text :: "nat \<Rightarrow> string \<Rightarrow> string" where
  "json_text 0 s = []"
| "json_text (Suc fuel) s =
     (case s of
        [] \<Rightarrow> []
      | c # r \<Rightarrow>
          (let n = utf8_head s
           in if n = 0 then [CHR 0x5C] @ ''ufffd'' @ json_text fuel r
              else if n = 1 then json_escape c @ json_text fuel r
              else if take n s = string_of_rune 8232 then [CHR 0x5C] @ ''u2028'' @ json_text fuel (drop n s)
              else if take n s = string_of_rune 8233 then [CHR 0x5C] @ ''u2029'' @ json_text fuel (drop n s)
              else take n s @ json_text fuel (drop n s)))"

definition json_string :: "string \<Rightarrow> string" where
  "json_string s = [CHR 0x22] @ json_text (length s) s @ [CHR 0x22]"

text \<open>A number: the shortest digits, with an exponent below \<open>10 ^ -6\<close> and from \<open>10 ^ 21\<close> on.\<close>

definition json_float :: "float64 \<Rightarrow> string option" where
  "json_float f =
     (case f of
        Fin s m e \<Rightarrow> Some ((if s then ''-'' else []) @
          (if m = 0 then ''0''
           else let (ds, dp) = shortest_digits s m e
                in if dp < -5 then
                     (let n = Itoa (nat (1 - dp)) in take 1 ds @ (if length ds > 1 then ''.'' @ drop 1 ds else []) @ ''e-'' @ n)
                   else if dp > 21 then fmtE ds dp
                   else fmtF ds dp))
      | _ \<Rightarrow> None)"

text \<open>The fields of a struct come in their order, the keys of a map sorted.\<close>

definition json_members :: "(string \<times> string) list \<Rightarrow> string" where
  "json_members kvs = ''{'' @ concat (case map (\<lambda>(k, v). json_string k @ '':'' @ v) kvs of
      [] \<Rightarrow> [] | x # xs \<Rightarrow> x # map (\<lambda>y. '','' @ y) xs) @ ''}''"

definition json_elements :: "string list \<Rightarrow> string" where
  "json_elements vs = ''['' @ concat (case vs of [] \<Rightarrow> [] | x # xs \<Rightarrow> x # map (\<lambda>y. '','' @ y) xs) @ '']''"

fun all_some :: "'a option list \<Rightarrow> 'a list option" where
  "all_some [] = Some []"
| "all_some (None # xs) = None"
| "all_some (Some x # xs) = map_option (Cons x) (all_some xs)"

function json_any :: "any \<Rightarrow> string option" where
  "json_any AnyNil = Some ''null''"
| "json_any (AnyBool b) = Some (FormatBool b)"
| "json_any (AnyInt i) = Some (FormatInt i)"
| "json_any (AnyFloat f) = json_float f"
| "json_any (AnyString s) = Some (json_string s)"
| "json_any (AnyArray vs) = map_option json_elements (all_some (map json_any vs))"
| "json_any (AnyObject kvs) = map_option json_members
     (all_some (map (\<lambda>(k, v). map_option (Pair k) (json_any v)) (sort_key fst kvs)))"
  by pat_completeness auto
termination
  by (relation "measure size") (auto simp: less_Suc_eq_le intro: size_list_estimation')

declare json_any.simps [simp del]

section \<open>Unmarshal\<close>

definition is_ws :: "char \<Rightarrow> bool" where
  "is_ws c \<longleftrightarrow> c = CHR '' '' \<or> byte c = 9 \<or> byte c = 10 \<or> byte c = 13"

definition skip_ws :: "string \<Rightarrow> string" where
  "skip_ws s = dropWhile is_ws s"

definition read_hex4 :: "string \<Rightarrow> (nat \<times> string) option" where
  "read_hex4 s =
     (if length s \<ge> 4 \<and> list_all (\<lambda>c. is_digit c \<or> is_hex_letter c) (take 4 s)
      then Some (foldl (\<lambda>a c. 16 * a + hex_val c) 0 (take 4 s), drop 4 s) else None)"

text \<open>The code point of an escape \<^verbatim>\<open>\\u\<close>; half a surrogate pair stands for U+FFFD.\<close>

definition read_rune :: "string \<Rightarrow> (nat \<times> string) option" where
  "read_rune s =
     (case read_hex4 s of
        None \<Rightarrow> None
      | Some (r, t) \<Rightarrow>
          if 55296 \<le> r \<and> r < 57344 then
            (if length t \<ge> 2 \<and> take 2 t = [CHR 0x5C, CHR ''u''] then
               (case read_hex4 (drop 2 t) of
                  Some (r2, u) \<Rightarrow>
                    if r < 56320 \<and> 56320 \<le> r2 \<and> r2 < 57344
                    then Some (65536 + (r - 55296) * 1024 + (r2 - 56320), u) else Some (65533, t)
                | None \<Rightarrow> Some (65533, t))
             else Some (65533, t))
          else Some (r, t))"

text \<open>The body of a string, up to its closing quote; every round takes a character.\<close>

fun read_text :: "nat \<Rightarrow> string \<Rightarrow> string \<Rightarrow> (string \<times> string) option" where
  "read_text 0 s acc = None"
| "read_text (Suc fuel) s acc =
     (case s of
        [] \<Rightarrow> None
      | c # r \<Rightarrow>
          if c = CHR 0x22 then Some (acc, r)
          else if c = CHR 0x5C then
            (case r of
               [] \<Rightarrow> None
             | e # t \<Rightarrow>
                 if e = CHR ''u'' then
                   (case read_rune t of None \<Rightarrow> None | Some (n, u) \<Rightarrow> read_text fuel u (acc @ string_of_rune n))
                 else if e = CHR 0x22 \<or> e = CHR 0x5C \<or> e = CHR ''/'' then read_text fuel t (acc @ [e])
                 else if e = CHR ''b'' then read_text fuel t (acc @ [char_of (8::nat)])
                 else if e = CHR ''f'' then read_text fuel t (acc @ [char_of (12::nat)])
                 else if e = CHR ''n'' then read_text fuel t (acc @ [char_of (10::nat)])
                 else if e = CHR ''r'' then read_text fuel t (acc @ [char_of (13::nat)])
                 else if e = CHR ''t'' then read_text fuel t (acc @ [char_of (9::nat)])
                 else None)
          else if byte c < 32 then None
          else let n = utf8_head s
               in if n = 0 then read_text fuel r (acc @ replacement)
                  else read_text fuel (drop n s) (acc @ take n s))"

text \<open>The text of a number, by the grammar of JSON.\<close>

definition split_digits :: "string \<Rightarrow> string \<times> string" where
  "split_digits s = (takeWhile is_digit s, dropWhile is_digit s)"

definition read_number :: "string \<Rightarrow> (string \<times> string) option" where
  "read_number s =
     (let (sign, s1) = (case s of c # r \<Rightarrow> if c = CHR ''-'' then (''-'', r) else ([], s) | [] \<Rightarrow> ([], s));
          (ds, s2) = split_digits s1
      in if ds = [] then None
         else
           let (ds, s2) = (if hd ds = CHR ''0'' then (''0'', tl ds @ s2) else (ds, s2));
               frac = (case s2 of
                   c # r \<Rightarrow> if c = CHR ''.'' then (case split_digits r of (fs, t) \<Rightarrow> if fs = [] then None else Some (''.'' @ fs, t))
                            else Some ([], s2)
                 | [] \<Rightarrow> Some ([], s2))
           in case frac of
                None \<Rightarrow> None
              | Some (fs, s3) \<Rightarrow>
                  (case s3 of
                     c # r \<Rightarrow>
                       if lower c = CHR ''e'' then
                         (let (es, t) = (case r of d # u \<Rightarrow> if d = CHR ''-'' \<or> d = CHR ''+'' then ([d], u) else ([], r) | [] \<Rightarrow> ([], r));
                              (xs, v) = split_digits t
                          in if xs = [] then None else Some (sign @ ds @ fs @ [c] @ es @ xs, v))
                       else Some (sign @ ds @ fs, s3)
                   | [] \<Rightarrow> Some (sign @ ds @ fs, s3)))"

text \<open>
  A value, and what is left. The fuel bounds the length of the text that is read; the depth is the limit
  of ten thousand that the library sets on nesting.
\<close>

fun read_value :: "nat \<Rightarrow> nat \<Rightarrow> string \<Rightarrow> (any \<times> string) option"
  and read_elements :: "nat \<Rightarrow> nat \<Rightarrow> string \<Rightarrow> any list \<Rightarrow> (any \<times> string) option"
  and read_members :: "nat \<Rightarrow> nat \<Rightarrow> string \<Rightarrow> any gomap \<Rightarrow> (any \<times> string) option" where
  "read_value 0 depth s = None"
| "read_value (Suc fuel) depth s =
     (case skip_ws s of
        [] \<Rightarrow> None
      | c # r \<Rightarrow>
          if c = CHR ''{'' then
            (if depth = 0 then None
             else case skip_ws r of
               d # t \<Rightarrow> if d = CHR ''}'' then Some (AnyObject [], t) else read_members fuel (depth - 1) r []
             | [] \<Rightarrow> None)
          else if c = CHR ''['' then
            (if depth = 0 then None
             else case skip_ws r of
               d # t \<Rightarrow> if d = CHR '']'' then Some (AnyArray [], t) else read_elements fuel (depth - 1) r []
             | [] \<Rightarrow> None)
          else if c = CHR 0x22 then map_option (\<lambda>(x, t). (AnyString x, t)) (read_text (length r) r [])
          else if take 4 (c # r) = ''true'' then Some (AnyBool True, drop 4 (c # r))
          else if take 5 (c # r) = ''false'' then Some (AnyBool False, drop 5 (c # r))
          else if take 4 (c # r) = ''null'' then Some (AnyNil, drop 4 (c # r))
          else (case read_number (c # r) of
                  None \<Rightarrow> None
                | Some (n, t) \<Rightarrow> map_option (\<lambda>f. (AnyFloat f, t)) (ParseFloat n)))"
| "read_elements 0 depth s acc = None"
| "read_elements (Suc fuel) depth s acc =
     (case read_value fuel depth s of
        None \<Rightarrow> None
      | Some (v, t) \<Rightarrow>
         (case skip_ws t of
            c # r \<Rightarrow> if c = CHR '','' then read_elements fuel depth r (acc @ [v])
                     else if c = CHR '']'' then Some (AnyArray (acc @ [v]), r) else None
          | [] \<Rightarrow> None))"
| "read_members 0 depth s acc = None"
| "read_members (Suc fuel) depth s acc =
     (case skip_ws s of
        q # r \<Rightarrow>
          if q \<noteq> CHR 0x22 then None
          else (case read_text (length r) r [] of
            None \<Rightarrow> None
          | Some (k, t) \<Rightarrow>
             (case skip_ws t of
                c # u \<Rightarrow>
                  if c \<noteq> CHR '':'' then None
                  else (case read_value fuel depth u of
                    None \<Rightarrow> None
                  | Some (v, w) \<Rightarrow>
                     (case skip_ws w of
                        d # x \<Rightarrow> if d = CHR '','' then read_members fuel depth x (AList.update k v acc)
                                 else if d = CHR ''}'' then Some (AnyObject (AList.update k v acc), x) else None
                      | [] \<Rightarrow> None))
              | [] \<Rightarrow> None))
      | [] \<Rightarrow> None)"

declare read_value.simps [simp del] read_elements.simps [simp del] read_members.simps [simp del]

text \<open>\<^verbatim>\<open>json.Unmarshal(s, &v)\<close> for a variable of type \<^verbatim>\<open>any\<close>\<close>

definition Unmarshal :: "string \<Rightarrow> any option" where
  "Unmarshal s =
     (case read_value (2 * length s + 1) 10000 s of
        Some (v, t) \<Rightarrow> if skip_ws t = [] then Some v else None
      | None \<Rightarrow> None)"

end
