(* ===== verification/Mqtt.thy ===== *)
theory Mqtt
  imports ClientConfig GoJson Payload
begin

text \<open>
  \<^verbatim>\<open>internal/client/mqtt.go\<close>: how a message on a topic of the local MQTT broker becomes a reading. The
  broker is a library: a subscription is what the broker is given, and \<open>handleMqttReading\<close> is what it calls.
  \<open>time_Parse\<close> is \<^verbatim>\<open>time.Parse\<close> of the standard library, to milliseconds; \<open>cv\<close> converts a number that is
  out of the range of \<^verbatim>\<open>int64\<close>. The errors of extraction are only logged.
\<close>

section \<open>Sources\<close>

record sourceFormat =
  sf_format :: string
  sf_path :: string

definition parseSource :: "string \<Rightarrow> string + sourceFormat" where
  "parseSource source =
     (if HasPrefix source ''json:'' then Inr \<lparr>sf_format = ''json'', sf_path = drop 5 source\<rparr>
      else if source = ''plain:'' then Inr \<lparr>sf_format = ''plain'', sf_path = []\<rparr>
      else if HasPrefix source ''kv:'' then Inr \<lparr>sf_format = ''kv'', sf_path = drop 3 source\<rparr>
      else Inl (''invalid source: '' @ source))"

definition virtualDeviceHash :: "string \<Rightarrow> string" where
  "virtualDeviceHash name = EncodeToString (take 8 (Sum256 (s2b (''mqtt:'' @ name))))"

datatype mqtt_error = JsonParse | NotAnObject string | KeyNotFound string | PlainEmpty | KvKeyNotFound string
  | UnknownFormat string | TypeMismatch | TimestampType | TimestampFormat string

section \<open>Extraction of a value\<close>

definition join_dots :: "string list \<Rightarrow> string" where
  "join_dots parts = concat (case parts of [] \<Rightarrow> [] | p # ps \<Rightarrow> p # map (\<lambda>q. ''.'' @ q) ps)"

text \<open>The walk along the path: \<open>i\<close> parts are done.\<close>

fun walk_path :: "string \<Rightarrow> string list \<Rightarrow> nat \<Rightarrow> string list \<Rightarrow> any \<Rightarrow> mqtt_error + any" where
  "walk_path path parts i [] current = Inr current"
| "walk_path path parts i (part # rest) current =
     (case current of
        AnyObject m \<Rightarrow>
          (case map_of m part of
             None \<Rightarrow> Inl (KeyNotFound path)
           | Some v \<Rightarrow> walk_path path parts (Suc i) rest v)
      | _ \<Rightarrow> Inl (NotAnObject (join_dots (take i parts))))"

definition extractJSONValue :: "string \<Rightarrow> string \<Rightarrow> mqtt_error + any" where
  "extractJSONValue payload path =
     (case Unmarshal payload of
        None \<Rightarrow> Inl JsonParse
      | Some root \<Rightarrow> let parts = Split path (CHR ''.'') in walk_path path parts 0 parts root)"

text \<open>Number first, then boolean, then string.\<close>

definition scalar_of :: "string \<Rightarrow> any" where
  "scalar_of s =
     (case ParseFloat s of
        Some f \<Rightarrow> AnyFloat f
      | None \<Rightarrow> (case ParseBool s of Some b \<Rightarrow> AnyBool b | None \<Rightarrow> AnyString s))"

definition extractPlainValue :: "string \<Rightarrow> mqtt_error + any" where
  "extractPlainValue payload =
     (let s = TrimSpace payload in if s = [] then Inl PlainEmpty else Inr (scalar_of s))"

text \<open>The pairs of \<^verbatim>\<open>KEY1=VAL1;KEY2=VAL2\<close>, trimmed; what is no pair is skipped.\<close>

definition kv_pairs :: "string \<Rightarrow> (string \<times> string) list" where
  "kv_pairs payload =
     List.map_filter (\<lambda>pair. let pair = TrimSpace pair in
        if pair = [] then None
        else (case SplitN2 pair (CHR ''='') of [k, v] \<Rightarrow> Some (TrimSpace k, TrimSpace v) | _ \<Rightarrow> None))
       (Split (TrimSpace payload) (CHR '';''))"

definition extractKVValue :: "string \<Rightarrow> string \<Rightarrow> mqtt_error + any" where
  "extractKVValue payload key =
     (case find (\<lambda>kv. fst kv = key) (kv_pairs payload) of
        None \<Rightarrow> Inl (KvKeyNotFound key)
      | Some kv \<Rightarrow> Inr (scalar_of (snd kv)))"

definition extractValue :: "sourceFormat \<Rightarrow> string \<Rightarrow> mqtt_error + any" where
  "extractValue sf payload =
     (if sf_format sf = ''json'' then extractJSONValue payload (sf_path sf)
      else if sf_format sf = ''plain'' then extractPlainValue payload
      else if sf_format sf = ''kv'' then extractKVValue payload (sf_path sf)
      else Inl (UnknownFormat (sf_format sf)))"

section \<open>Types\<close>

text \<open>\<^verbatim>\<open>f == math.Trunc(f)\<close>, which holds of the infinities and not of NaN.\<close>

definition is_integral :: "float64 \<Rightarrow> bool" where
  "is_integral f = (case f of NaN \<Rightarrow> False | Inf s \<Rightarrow> True | Fin s m e \<Rightarrow> fst (frac m e) mod snd (frac m e) = 0)"

definition checkDataType :: "any \<Rightarrow> string \<Rightarrow> bool" where
  "checkDataType val dt =
     (if dt = DataTypeFloat32 \<or> dt = DataTypeFloat64 then (case val of AnyFloat f \<Rightarrow> True | _ \<Rightarrow> False)
      else if dt = DataTypeInt16 \<or> dt = DataTypeUint16 \<or> dt = DataTypeInt32 \<or> dt = DataTypeUint32
      then (case val of AnyFloat f \<Rightarrow> is_integral f | _ \<Rightarrow> False)
      else if dt = DataTypeBool then (case val of AnyBool b \<Rightarrow> True | _ \<Rightarrow> False)
      else if dt = DataTypeString then (case val of AnyString s \<Rightarrow> True | _ \<Rightarrow> False)
      else True)"

section \<open>Timestamps\<close>

definition timestamp_layouts :: "string list" where
  "timestamp_layouts = [''2006-01-02T15:04:05Z07:00'', ''2006-01-02T15:04:05.999999999Z07:00'',
     ''2006-01-02T15:04:05Z07:00'', ''2006-01-02 15:04:05'', ''2006-01-02T15:04:05'', ''2006/01/02 15:04:05'']"

text \<open>Numbers from \<open>10 ^ 12\<close> on are milliseconds, smaller ones seconds; the product is one of \<^verbatim>\<open>int64\<close>.\<close>

definition detectTimestampString :: "(string \<Rightarrow> string \<Rightarrow> u64 option) \<Rightarrow> string \<Rightarrow> mqtt_error + u64" where
  "detectTimestampString time_Parse s =
     (let s = TrimSpace s in
      if s = [] then Inr 0
      else case ParseInt s of
        Some n \<Rightarrow> Inr (if n > 10 ^ 12 then word_of_int n else word_of_int (n * 1000))
      | None \<Rightarrow>
         (case find (\<lambda>layout. time_Parse layout s \<noteq> None) timestamp_layouts of
            Some layout \<Rightarrow> Inr (the (time_Parse layout s))
          | None \<Rightarrow> Inl (TimestampFormat s)))"

definition detectTimestamp :: "(string \<Rightarrow> string \<Rightarrow> u64 option) \<Rightarrow> (float64 \<Rightarrow> u64) \<Rightarrow> any \<Rightarrow> mqtt_error + u64" where
  "detectTimestamp time_Parse cv v =
     (case v of
        AnyFloat t \<Rightarrow>
          if f_less (float64_of_int (10 ^ 12)) t then Inr (to_sint cv t)
          else Inr (to_sint cv (f_mul t (float64_of_int 1000)))
      | AnyString s \<Rightarrow> detectTimestampString time_Parse s
      | _ \<Rightarrow> Inl TimestampType)"

definition extractJSONTimestamp :: "(string \<Rightarrow> string \<Rightarrow> u64 option) \<Rightarrow> (float64 \<Rightarrow> u64) \<Rightarrow> string \<Rightarrow> mqtt_error + u64" where
  "extractJSONTimestamp time_Parse cv payload =
     (case Unmarshal payload of
        Some (AnyObject root) \<Rightarrow>
          (case find (\<lambda>name. map_of root name \<noteq> None) [''ts'', ''timestamp'', ''time''] of
             Some name \<Rightarrow> detectTimestamp time_Parse cv (the (map_of root name))
           | None \<Rightarrow> Inr 0)
      | _ \<Rightarrow> Inr 0)"

text \<open>\<^verbatim>\<open>strings.EqualFold(s, "ts")\<close>: the long s, U+017F, folds to s.\<close>

definition is_ts :: "string \<Rightarrow> bool" where
  "is_ts s \<longleftrightarrow> s \<in> set [''ts'', ''tS'', ''Ts'', ''TS'', ''t'' @ string_of_rune 383, ''T'' @ string_of_rune 383]"

definition extractKVTimestamp :: "(string \<Rightarrow> string \<Rightarrow> u64 option) \<Rightarrow> string \<Rightarrow> mqtt_error + u64" where
  "extractKVTimestamp time_Parse payload =
     (case find (\<lambda>kv. is_ts (fst kv)) (kv_pairs payload) of
        None \<Rightarrow> Inr 0
      | Some kv \<Rightarrow> detectTimestampString time_Parse (snd kv))"

definition extractTimestamp :: "(string \<Rightarrow> string \<Rightarrow> u64 option) \<Rightarrow> (float64 \<Rightarrow> u64) \<Rightarrow> sourceFormat \<Rightarrow> string
    \<Rightarrow> mqtt_error + u64" where
  "extractTimestamp time_Parse cv sf payload =
     (if sf_format sf = ''json'' then extractJSONTimestamp time_Parse cv payload
      else if sf_format sf = ''kv'' then extractKVTimestamp time_Parse payload
      else Inr 0)"

section \<open>A message on a topic\<close>

text \<open>The reading that is sent on; \<open>now\<close> is the clock.\<close>

definition handleMqttReading :: "(string \<Rightarrow> string \<Rightarrow> u64 option) \<Rightarrow> (float64 \<Rightarrow> u64) \<Rightarrow> u64 \<Rightarrow> string \<Rightarrow> string gomap
    \<Rightarrow> TopicConfig \<Rightarrow> string \<Rightarrow> sourceFormat \<Rightarrow> mqtt_error + Reading" where
  "handleMqttReading time_Parse cv now payload deviceHashes tc devName sf =
     (case extractValue sf payload of
        Inl e \<Rightarrow> Inl e
      | Inr val \<Rightarrow>
          if \<not> checkDataType val (tp_DataType tc) then Inl TypeMismatch
          else (case extractTimestamp time_Parse cv sf payload of
            Inl e \<Rightarrow> Inl e
          | Inr ts \<Rightarrow>
              Inr \<lparr>r_ID = 0, r_Device = map_get [] deviceHashes devName, r_DeviceName = devName,
                   r_Point = HashPoint devName (tp_PointName tc), r_PointName = tp_PointName tc,
                   r_DataType = tp_DataType tc, r_Value = SerializeValue (tp_DataType tc) val,
                   r_Quality = QualityGood, r_Unit = tp_Unit tc, r_Timestamp = (if ts = 0 then now else ts)\<rparr>))"

section \<open>The broker\<close>

record subscription =
  sb_Topic :: string
  sb_id :: nat
  sb_config :: TopicConfig
  sb_device :: string
  sb_source :: sourceFormat

definition mqtt_tables :: "MQTTDeviceConfig list \<Rightarrow> string gomap \<times> string gomap" where
  "mqtt_tables devs =
     (foldl (\<lambda>m dev. AList.update (md_Name dev) (virtualDeviceHash (md_Name dev)) m) [] devs,
      foldl (\<lambda>m dev. if md_ClientID dev = [] then m else AList.update (md_ClientID dev) (md_Name dev) m) [] devs)"

fun subscribe_topics :: "MQTTDeviceConfig \<Rightarrow> nat \<Rightarrow> TopicConfig list \<Rightarrow> string + subscription list" where
  "subscribe_topics dev n [] = Inr []"
| "subscribe_topics dev n (tc # tcs) =
     (case parseSource (tp_Source tc) of
        Inl e \<Rightarrow> Inl (''device '' @ md_Name dev @ '' topic '' @ tp_Topic tc @ '': '' @ e)
      | Inr sf \<Rightarrow>
          map_sum id (Cons \<lparr>sb_Topic = tp_Topic tc, sb_id = Suc n, sb_config = tc, sb_device = md_Name dev, sb_source = sf\<rparr>)
            (subscribe_topics dev (Suc n) tcs))"

fun subscribe_devices :: "nat \<Rightarrow> MQTTDeviceConfig list \<Rightarrow> string + subscription list" where
  "subscribe_devices n [] = Inr []"
| "subscribe_devices n (dev # devs) =
     (case subscribe_topics dev n (md_Topics dev) of
        Inl e \<Rightarrow> Inl e
      | Inr ss \<Rightarrow> map_sum id (\<lambda>ts. ss @ ts) (subscribe_devices (n + length ss) devs))"

text \<open>\<^verbatim>\<open>StartMqttBroker\<close> up to the start of the server: its subscriptions and the two tables of the hook.\<close>

definition StartMqttBroker :: "(string \<Rightarrow> string option) \<Rightarrow> Client_MqttConfig
    \<Rightarrow> string + (subscription list \<times> string gomap \<times> string gomap)" where
  "StartMqttBroker AddListener mqttCfg =
     (case AddListener (mb_BrokerAddr mqttCfg) of
        Some err \<Rightarrow> Inl (''add mqtt tcp listener: '' @ err)
      | None \<Rightarrow> map_sum id (\<lambda>subs. (subs, mqtt_tables (mb_Devices mqttCfg))) (subscribe_devices 0 (mb_Devices mqttCfg)))"

text \<open>
  \<^verbatim>\<open>OnDisconnect\<close>: a notification is put on the channel of capacity \<open>cap\<close> unless it is full. \<open>now\<close> is the
  clock in seconds.
\<close>

definition OnDisconnect :: "nat \<Rightarrow> int \<Rightarrow> string gomap \<Rightarrow> string gomap \<Rightarrow> string \<Rightarrow> bool \<Rightarrow> NotifyPayload list \<Rightarrow> NotifyPayload list" where
  "OnDisconnect cap now clientIDIndex deviceHashes clientID expire notifyCh =
     (if \<not> expire then notifyCh
      else case map_of clientIDIndex clientID of
        None \<Rightarrow> notifyCh
      | Some deviceName \<Rightarrow>
          let payload = \<lparr>nt_EventCode = 2, nt_DeviceHash = map_get [] deviceHashes deviceName,
                         nt_Timestamp = word_of_int now, nt_Severity = 0, nt_Message = ''device offline'', nt_RawData = []\<rparr>
          in if length notifyCh < cap then notifyCh @ [payload] else notifyCh)"

end
