(* ===== verification/Publish.thy ===== *)
theory Publish
  imports GoJson Output
begin

text \<open>
  The readings as they leave the program in JSON: the publisher of the gateway
  (\<^verbatim>\<open>internal/client/publisher.go\<close>) and of the server (\<^verbatim>\<open>internal/server/publisher.go\<close>, with the topics of
  \<^verbatim>\<open>internal/server/mqtt.go\<close>), the ThingsBoard formatter (\<^verbatim>\<open>internal/output/formatter_tb.go\<close>) and the MQTT
  sink (\<^verbatim>\<open>sinker_tb_mqtt.go\<close>). The MQTT clients and the broker are libraries: their calls are arguments
  on a state of any type, and give the text of an error.
\<close>

section \<open>Readings for subscribers\<close>

record MqttReading =
  mr_DeviceName :: string
  mr_PointName :: string
  mr_DataType :: string
  mr_Value :: any
  mr_Unit :: string
  mr_Timestamp :: int

text \<open>Zero of \<^verbatim>\<open>float64\<close> stands in for a number that cannot be read.\<close>

definition typed_value :: "Reading \<Rightarrow> any" where
  "typed_value r =
     (if r_DataType r = DataTypeBool
      then AnyBool (case ParseBool (r_Value r) of Some v \<Rightarrow> v | None \<Rightarrow> False)
      else if r_DataType r = DataTypeJSON then AnyString (r_Value r)
      else AnyFloat (case ParseFloat (r_Value r) of Some v \<Rightarrow> v | None \<Rightarrow> f_zero))"

definition fromModelReading :: "Reading \<Rightarrow> MqttReading" where
  "fromModelReading r =
     \<lparr>mr_DeviceName = r_DeviceName r, mr_PointName = r_PointName r, mr_DataType = r_DataType r,
      mr_Value = typed_value r, mr_Unit = r_Unit r, mr_Timestamp = sint (r_Timestamp r)\<rparr>"

text \<open>The fields of the struct with their tags; an empty unit is left out.\<close>

definition Marshal_MqttReading :: "MqttReading \<Rightarrow> string option" where
  "Marshal_MqttReading mr =
     map_option (\<lambda>v. json_members
        ([(''device_name'', json_string (mr_DeviceName mr)), (''point_name'', json_string (mr_PointName mr)),
          (''data_type'', json_string (mr_DataType mr)), (''value'', v)]
         @ (if mr_Unit mr = [] then [] else [(''unit'', json_string (mr_Unit mr))])
         @ [(''timestamp'', FormatInt (mr_Timestamp mr))]))
       (json_any (mr_Value mr))"

section \<open>The publisher of the gateway\<close>

text \<open>\<open>publish p topic qos retained payload\<close> is the call of the MQTT client with the wait for its token.\<close>

type_synonym 'p mqtt_publish = "'p \<Rightarrow> string \<Rightarrow> nat \<Rightarrow> bool \<Rightarrow> string \<Rightarrow> string option \<times> 'p"

datatype publish_error = MarshalReading | Publishing string

definition PublishReading :: "'p mqtt_publish \<Rightarrow> 'p \<Rightarrow> Reading \<Rightarrow> publish_error option \<times> 'p" where
  "PublishReading publish p reading =
     (case Marshal_MqttReading (fromModelReading reading) of
        None \<Rightarrow> (Some MarshalReading, p)
      | Some payload \<Rightarrow>
          apfst (map_option Publishing)
            (publish p (''device/'' @ r_DeviceName reading @ ''/reading'') 1 False payload))"

definition PublishRaw :: "'p mqtt_publish \<Rightarrow> 'p \<Rightarrow> string \<Rightarrow> string \<Rightarrow> string option \<times> 'p" where
  "PublishRaw publish p topic payload =
     (case publish p topic 1 False payload of
        (Some e, p) \<Rightarrow> (Some (''publish to '' @ topic @ '': '' @ e), p)
      | (None, p) \<Rightarrow> (None, p))"

section \<open>The publisher of the server\<close>

definition server_typed_value :: "Reading \<Rightarrow> any" where
  "server_typed_value r =
     (if r_DataType r = DataTypeBool
      then AnyBool (case ParseBool (r_Value r) of Some v \<Rightarrow> v | None \<Rightarrow> False)
      else if r_DataType r = DataTypeJSON then AnyString (r_Value r)
      else AnyFloat (case ParseFloat (r_Value r) of Some v \<Rightarrow> v | None \<Rightarrow> f_zero))"

definition serializeReadings :: "Reading list \<Rightarrow> string option" where
  "serializeReadings readings =
     map_option json_elements (all_some (map (\<lambda>r. Marshal_MqttReading
        \<lparr>mr_DeviceName = r_DeviceName r, mr_PointName = r_PointName r, mr_DataType = r_DataType r,
         mr_Value = server_typed_value r, mr_Unit = r_Unit r, mr_Timestamp = sint (r_Timestamp r)\<rparr>) readings))"

definition MqttBroker_Publish :: "('b \<Rightarrow> string \<Rightarrow> string \<Rightarrow> bool \<Rightarrow> nat \<Rightarrow> string option \<times> 'b)
    \<Rightarrow> 'b \<Rightarrow> string \<Rightarrow> string \<Rightarrow> bool \<Rightarrow> nat \<Rightarrow> string option \<times> 'b" where
  "MqttBroker_Publish publish b topic payload retain qos = publish b topic payload retain qos"

definition PublishDeviceReadings :: "('b \<Rightarrow> string \<Rightarrow> string \<Rightarrow> bool \<Rightarrow> nat \<Rightarrow> string option \<times> 'b)
    \<Rightarrow> 'b \<Rightarrow> string \<Rightarrow> string \<Rightarrow> string option \<times> 'b" where
  "PublishDeviceReadings publish b sn payload =
     MqttBroker_Publish publish b (''device/'' @ sn @ ''/reading'') payload False 1"

definition Nop_PublishDeviceReadings :: "'b \<Rightarrow> string \<Rightarrow> string \<Rightarrow> string option \<times> 'b" where
  "Nop_PublishDeviceReadings b sn payload = (None, b)"

definition isLocalAddr :: "string \<Rightarrow> bool" where
  "isLocalAddr addr \<longleftrightarrow> \<not> HasPrefix addr '':'' \<and> (HasPrefix addr ''127.'' \<or> HasPrefix addr ''localhost'')"

section \<open>The ThingsBoard formatter\<close>

datatype format_error = NoReadings string | ParseValueFailed string | MarshalFailed

text \<open>\<open>cv\<close> converts a number that is out of the range of \<^verbatim>\<open>int64\<close>.\<close>

definition parseReadingValue :: "(float64 \<Rightarrow> u64) \<Rightarrow> Reading \<Rightarrow> any option" where
  "parseReadingValue cv r =
     (let dt = r_DataType r in
      if dt = DataTypeBool then Some (AnyBool (r_Value r = ''true''))
      else if dt = DataTypeInt16 \<or> dt = DataTypeInt32 \<or> dt = DataTypeUint16 \<or> dt = DataTypeUint32 then
        map_option (\<lambda>(f, b). AnyInt (sint (to_sint cv f))) (ParseValue dt (r_Value r))
      else if dt = DataTypeFloat32 \<or> dt = DataTypeFloat64 then
        map_option (\<lambda>(f, b). AnyFloat f) (ParseValue dt (r_Value r))
      else if dt = DataTypeJSON then
        Some (case Unmarshal (r_Value r) of None \<Rightarrow> AnyString (r_Value r) | Some js \<Rightarrow> js)
      else Some (AnyString (r_Value r)))"

text \<open>The loop over the readings: the entries, each a timestamp and a map with one key.\<close>

fun format_entries :: "(float64 \<Rightarrow> u64) \<Rightarrow> Reading list \<Rightarrow> format_error + (int \<times> string \<times> any) list" where
  "format_entries cv [] = Inr []"
| "format_entries cv (r # rs) =
     (case parseReadingValue cv r of
        None \<Rightarrow> Inl (ParseValueFailed (r_PointName r))
      | Some val \<Rightarrow>
          let key = (if r_PointName r = [] then r_Point r else r_PointName r)
          in map_sum id (Cons (sint (r_Timestamp r), key, val)) (format_entries cv rs))"

definition Marshal_entry :: "int \<times> string \<times> any \<Rightarrow> string option" where
  "Marshal_entry e =
     (case e of (ts, key, val) \<Rightarrow>
        map_option (\<lambda>v. json_members ((if ts = 0 then [] else [(''ts'', FormatInt ts)]) @ [(''values'', json_members [(key, v)])]))
          (json_any val))"

definition Format :: "(float64 \<Rightarrow> u64) \<Rightarrow> string \<Rightarrow> Reading list \<Rightarrow> format_error + string" where
  "Format cv deviceKey readings =
     (if readings = [] then Inl (NoReadings deviceKey)
      else case format_entries cv readings of
        Inl e \<Rightarrow> Inl e
      | Inr entries \<Rightarrow>
         (case all_some (map Marshal_entry entries) of
            None \<Rightarrow> Inl MarshalFailed
          | Some es \<Rightarrow> Inr (json_members [(deviceKey, json_elements es)])))"

section \<open>The MQTT sink\<close>

definition tbGatewayTelemetryTopic :: string where "tbGatewayTelemetryTopic = ''v1/gateway/telemetry''"

record mqtt_options =
  mo_broker :: string
  mo_clientID :: string
  mo_username :: string

record 'c mqtt_client_ops =
  mq_NewClient :: "mqtt_options \<Rightarrow> 'c"
  mq_Connect :: "'c \<Rightarrow> bool \<times> 'c"
  mq_IsConnected :: "'c \<Rightarrow> bool"
  mq_Publish :: "'c \<Rightarrow> string \<Rightarrow> u8 \<Rightarrow> bool \<Rightarrow> string \<Rightarrow> bool \<times> 'c"
  mq_Disconnect :: "'c \<Rightarrow> 'c"

record 'c mqtt_sink =
  mk_sinker :: tbMqttSinker
  mk_client :: "'c option"

text \<open>The flag is the success of the call. The client is kept even when it fails to connect.\<close>

definition tbMqtt_connect :: "'c mqtt_client_ops \<Rightarrow> 'c mqtt_sink \<Rightarrow> bool \<times> 'c mqtt_sink" where
  "tbMqtt_connect mq s =
     (let cfg = ms_cfg (mk_sinker s);
          (ok, c) = mq_Connect mq (mq_NewClient mq
             \<lparr>mo_broker = ''tcp://'' @ oc_Host cfg @ '':'' @ FormatInt (oc_Port cfg), mo_clientID = oc_Name cfg,
              mo_username = oc_Token cfg\<rparr>)
      in (ok, s\<lparr>mk_client := Some c\<rparr>))"

definition tbMqtt_connected :: "'c mqtt_client_ops \<Rightarrow> 'c mqtt_sink \<Rightarrow> bool" where
  "tbMqtt_connected mq s = (case mk_client s of None \<Rightarrow> False | Some c \<Rightarrow> mq_IsConnected mq c)"

definition tbMqtt_Send :: "(string \<Rightarrow> Reading list \<Rightarrow> format_error + string) \<Rightarrow> 'c mqtt_client_ops \<Rightarrow> 'c mqtt_sink
    \<Rightarrow> string \<Rightarrow> Reading list \<Rightarrow> send_error option \<times> 'c mqtt_sink" where
  "tbMqtt_Send fmt mq s deviceKey readings =
     (let (ok, s) = (if tbMqtt_connected mq s then (True, s) else tbMqtt_connect mq s)
      in if \<not> ok then (Some ConnectError, s)
         else case fmt deviceKey readings of
           Inl e \<Rightarrow> (Some FormatError, s)
         | Inr payload \<Rightarrow>
            (case mk_client s of
               None \<Rightarrow> (Some PublishError, s)
             | Some c \<Rightarrow>
                 let (ok, c) = mq_Publish mq c tbGatewayTelemetryTopic (word_of_int (oc_QoS (ms_cfg (mk_sinker s)))) False payload
                 in (if ok then None else Some PublishError, s\<lparr>mk_client := Some c\<rparr>)))"

definition tbMqtt_HealthCheck :: "'c mqtt_client_ops \<Rightarrow> 'c mqtt_sink \<Rightarrow> bool" where
  "tbMqtt_HealthCheck mq s = tbMqtt_connected mq s"

definition tbMqtt_Close :: "'c mqtt_client_ops \<Rightarrow> 'c mqtt_sink \<Rightarrow> 'c mqtt_sink" where
  "tbMqtt_Close mq s =
     (case mk_client s of
        Some c \<Rightarrow> if mq_IsConnected mq c then s\<lparr>mk_client := Some (mq_Disconnect mq c)\<rparr> else s
      | None \<Rightarrow> s)"

end
