(* ===== verification/Control.thy ===== *)
theory Control
  imports Client Modbus Publish
begin

text \<open>
  \<^verbatim>\<open>internal/client/control.go\<close>: the HTTP interface for commands, and from \<^verbatim>\<open>modbus.go\<close> what puts a device
  into the registry the interface looks in. The HTTP server and the decoding of the request into the
  struct are arguments; the response is its status and its body before it is encoded. The registry is the
  state that handlers and polling share: a write to a runtime updates its entry.
\<close>

section \<open>Polling a device\<close>

text \<open>
  \<^verbatim>\<open>ModbusDevicePolling\<close> up to its wait for the context: the runtime is in the registry before it is
  connected, and is taken out again when it cannot be.
\<close>

definition polling_begin :: "(modbus_handler \<Rightarrow> 'm) \<Rightarrow> 'm modbus_ops \<Rightarrow> DeviceConfig \<Rightarrow> 'm runtime gomap
    \<Rightarrow> (string, unit) go \<times> 'm runtime gomap" where
  "polling_begin NewClient ops dvc rts =
     (case NewModbusRuntime NewClient dvc of
        Panic \<Rightarrow> (Panic, rts)
      | Fail e \<Rightarrow> (Fail e, rts)
      | Ret rt \<Rightarrow>
          let rts = registerModbusRuntime rts (dv_Name dvc) rt
          in case Start ops rt of
               (Some err, rt) \<Rightarrow> (Fail err, unregisterModbusRuntime rts (dv_Name dvc))
             | (None, rt) \<Rightarrow> (Ret (), AList.update (dv_Name dvc) rt rts))"

text \<open>Its end. Both goroutines also end by themselves when the context is cancelled, before this.\<close>

definition polling_end :: "string \<Rightarrow> 'm runtime gomap \<Rightarrow> 'm runtime gomap" where
  "polling_end name rts = unregisterModbusRuntime (AList.map_entry name Stop rts) name"

section \<open>Requests and responses\<close>

record writeEntry =
  we_Point :: string
  we_Value :: float64

record commandRequest =
  cr_Device :: string
  cr_Writes :: "writeEntry list"

record writeResult =
  wr_Point :: string
  wr_Success :: bool
  wr_Error :: string

record commandResponse =
  cs_Device :: string
  cs_Results :: "writeResult list"

datatype response_body = ErrorBody string | CommandBody commandResponse

type_synonym response = "nat \<times> response_body"

definition StatusOK :: nat where "StatusOK = 200"
definition StatusBadRequest :: nat where "StatusBadRequest = 400"
definition StatusInternalServerError :: nat where "StatusInternalServerError = 500"

lemmas status_defs = StatusOK_def StatusBadRequest_def StatusInternalServerError_def

text \<open>The request as JSON; a value that JSON has no number for is an error.\<close>

definition Marshal_request :: "commandRequest \<Rightarrow> string option" where
  "Marshal_request req =
     map_option (\<lambda>ws. json_members [(''device'', json_string (cr_Device req)), (''writes'', json_elements ws)])
       (all_some (map (\<lambda>w. map_option (\<lambda>v. json_members [(''point'', json_string (we_Point w)), (''value'', v)])
          (json_float (we_Value w))) (cr_Writes req)))"

definition marshal_error :: "commandRequest \<Rightarrow> string" where
  "marshal_error req = ''json: unsupported value: '' @
     (case find (\<lambda>w. json_float (we_Value w) = None) (cr_Writes req) of Some w \<Rightarrow> FormatFloat (we_Value w) | None \<Rightarrow> [])"

section \<open>Handlers\<close>

text \<open>The loop of \<^verbatim>\<open>handleModbusCommand\<close>; \<open>None\<close> when a write never returns.\<close>

fun modbus_writes :: "conv \<Rightarrow> 'm modbus_ops \<Rightarrow> writeEntry list \<Rightarrow> 'm runtime \<Rightarrow> writeResult list
    \<Rightarrow> writeResult list option \<times> 'm runtime" where
  "modbus_writes cv ops [] rt results = (Some results, rt)"
| "modbus_writes cv ops (wc # writes) rt results =
     (let result = (\<lambda>ok e. results @ [\<lparr>wr_Point = we_Point wc, wr_Success = ok, wr_Error = e\<rparr>])
      in case findPoint rt (we_Point wc) of
           None \<Rightarrow> modbus_writes cv ops writes rt (result False ''point not found'')
         | Some pt \<Rightarrow>
             if pt_Access pt = AccessReadOnly then modbus_writes cv ops writes rt (result False ''point is read-only'')
             else case Write cv ops rt (we_Point wc) (we_Value wc) of
                    (WriteError err, rt) \<Rightarrow> modbus_writes cv ops writes rt (result False err)
                  | (Written, rt) \<Rightarrow> modbus_writes cv ops writes rt (result True [])
                  | (Blocks, rt) \<Rightarrow> (None, rt))"

definition handleModbusCommand :: "conv \<Rightarrow> 'm modbus_ops \<Rightarrow> string \<Rightarrow> writeEntry list \<Rightarrow> 'm runtime
    \<Rightarrow> response option \<times> 'm runtime" where
  "handleModbusCommand cv ops device writes rt =
     apfst (map_option (\<lambda>rs. (StatusOK, CommandBody \<lparr>cs_Device = device, cs_Results = rs\<rparr>)))
       (modbus_writes cv ops writes rt [])"

definition handleMqttCommand :: "'p mqtt_publish \<Rightarrow> commandRequest \<Rightarrow> 'p option \<Rightarrow> response \<times> 'p option" where
  "handleMqttCommand publish req pub =
     (case pub of
        None \<Rightarrow> ((StatusInternalServerError, ErrorBody ''no mqtt publisher available''), None)
      | Some p \<Rightarrow>
         (case Marshal_request req of
            None \<Rightarrow> ((StatusInternalServerError, ErrorBody (''marshal: '' @ marshal_error req)), pub)
          | Some payload \<Rightarrow>
             (case PublishRaw publish p (''device/'' @ cr_Device req @ ''/command'') payload of
                (Some err, p) \<Rightarrow> ((StatusInternalServerError, ErrorBody (''publish: '' @ err)), Some p)
              | (None, p) \<Rightarrow>
                  ((StatusOK, CommandBody \<lparr>cs_Device = cr_Device req,
                      cs_Results = map (\<lambda>wc. \<lparr>wr_Point = we_Point wc, wr_Success = True, wr_Error = []\<rparr>) (cr_Writes req)\<rparr>),
                   Some p))))"

record ('m, 'p) control =
  ct_runtimes :: "'m runtime gomap"
  ct_pub :: "'p option"

definition handleCommand :: "conv \<Rightarrow> 'm modbus_ops \<Rightarrow> 'p mqtt_publish \<Rightarrow> string + commandRequest \<Rightarrow> ('m, 'p) control
    \<Rightarrow> response option \<times> ('m, 'p) control" where
  "handleCommand cv ops publish decoded cs =
     (case decoded of
        Inl err \<Rightarrow> (Some (StatusBadRequest, ErrorBody (''invalid json: '' @ err)), cs)
      | Inr req \<Rightarrow>
          if cr_Device req = [] then (Some (StatusBadRequest, ErrorBody ''device is required''), cs)
          else if length (cr_Writes req) = 0 then (Some (StatusBadRequest, ErrorBody ''writes is required''), cs)
          else case GetModbusRuntime (ct_runtimes cs) (cr_Device req) of
            Some rt \<Rightarrow>
              let (resp, rt) = handleModbusCommand cv ops (cr_Device req) (cr_Writes req) rt
              in (resp, cs\<lparr>ct_runtimes := AList.update (cr_Device req) rt (ct_runtimes cs)\<rparr>)
          | None \<Rightarrow>
              let (resp, pub) = handleMqttCommand publish req (ct_pub cs)
              in (Some resp, cs\<lparr>ct_pub := pub\<rparr>))"

end
