(* ===== verification/PublishProps.thy ===== *)
theory PublishProps
  imports Mqtt Control ModbusProps Server
begin

text \<open>
  What holds of the readings that leave the program in JSON, and of commands that come in: JSON has no
  infinity and no NaN, so one reading with such a value keeps its whole batch from being published.
\<close>

section \<open>What JSON cannot carry\<close>

definition finite_float :: "float64 \<Rightarrow> bool" where
  "finite_float f = (case f of Fin s m e \<Rightarrow> True | _ \<Rightarrow> False)"

lemma json_float_None: "json_float f = None \<longleftrightarrow> \<not> finite_float f"
  by (cases f) (simp_all add: json_float_def finite_float_def)

lemma all_some_None: "all_some xs = None \<longleftrightarrow> None \<in> set xs"
  by (induction xs rule: all_some.induct) auto

lemma None_image: "None \<in> f ` S \<longleftrightarrow> (\<exists>x \<in> S. f x = None)"
  by force

text \<open>The text of a numeric reading that is read as an infinity or as NaN.\<close>

definition not_a_number :: "Reading \<Rightarrow> bool" where
  "not_a_number r \<longleftrightarrow> r_DataType r \<noteq> DataTypeBool \<and> r_DataType r \<noteq> DataTypeJSON
     \<and> (case ParseFloat (r_Value r) of None \<Rightarrow> False | Some f \<Rightarrow> \<not> finite_float f)"

lemma json_typed_value: "json_any (typed_value r) = None \<longleftrightarrow> not_a_number r"
proof -
  have "finite_float f_zero" by (simp add: finite_float_def f_zero_def)
  then show ?thesis
    by (simp add: typed_value_def not_a_number_def json_any.simps json_float_None DataType_defs split: option.split)
qed

lemma Marshal_reading_None: "Marshal_MqttReading (fromModelReading r) = None \<longleftrightarrow> not_a_number r"
  by (simp add: Marshal_MqttReading_def fromModelReading_def json_typed_value)

lemma serializeReadings_eq:
  "serializeReadings rs = map_option json_elements (all_some (map (\<lambda>r. Marshal_MqttReading (fromModelReading r)) rs))"
  by (simp add: serializeReadings_def fromModelReading_def server_typed_value_def typed_value_def)

lemma serializeReadings_None: "serializeReadings rs = None \<longleftrightarrow> (\<exists>r \<in> set rs. not_a_number r)"
  by (simp add: serializeReadings_eq all_some_None None_image Marshal_reading_None)

lemma char_of_110: "char_of (110 :: nat) = CHR ''n''"
  by (simp add: char_of_def bit_Suc_0_iff)

lemma special_NaN: "is_special ''NaN'' = Some NaN"
  by (simp add: is_special_def read_sign_def lower_def char_of_110)

lemma not_a_number_NaN: "r_DataType r = DataTypeFloat32 \<Longrightarrow> r_Value r = ''NaN'' \<Longrightarrow> not_a_number r"
  by (simp add: not_a_number_def ParseFloat_def special_NaN finite_float_def DataType_defs)

lemma NaN_bits: "Float32frombits (be_val [0x7F, 0xC0, 0, 0]) = NaN"
  by (simp add: be_val_4 Float32frombits_def)

lemma scaled_NaN: "scaled p NaN = AnyFloat NaN"
  by (simp add: scaled_def f_mul_def f_add_def)

text \<open>
  A float register that holds the bits of NaN is polled as a good reading with the text "NaN", whatever
  its scale. Every batch of an upload that contains it is stored but never published by the server: the
  batch as a whole cannot be encoded as JSON, and the publisher is not called.
\<close>

theorem nan_register_stops_publication:
  assumes "pt_DataType p = DataTypeFloat32" and "pt_ByteOrder p = ByteOrderBigEndian"
    and "op_serializeReadings ops = (\<lambda>rs. map_option s2b (serializeReadings rs))"
  shows "\<exists>v. parsePointValue p [0x7F, 0xC0, 0, 0] = Ret v
    \<and> (\<forall>cfg h now. r_Value (point_reading cfg h p v now) = ''NaN'' \<and> r_Quality (point_reading cfg h p v now) = QualityGood
        \<and> (\<forall>rs sn w. point_reading cfg h p v now \<in> set rs \<longrightarrow> publish ops sn rs w = w))"
proof -
  have v: "parsePointValue p [0x7F, 0xC0, 0, 0] = Ret (AnyFloat NaN)"
    using parse_four_bytes(3) [of "[0x7F, 0xC0, 0, 0]" p] assms(1,2)
    by (simp add: ByteOrderConversion_4 ByteOrder_defs NaN_bits scaled_NaN)
  have val: "r_Value (point_reading cfg h p (AnyFloat NaN) now) = ''NaN''" for cfg h now
    by (simp add: point_reading_def assms(1) SerializeValue_def numeric_type_def FormatFloat_def DataType_defs)
  have dt: "r_DataType (point_reading cfg h p (AnyFloat NaN) now) = DataTypeFloat32"
    and q: "r_Quality (point_reading cfg h p (AnyFloat NaN) now) = QualityGood" for cfg h now
    by (simp_all add: point_reading_def assms(1))
  have "publish ops sn rs w = w" if "point_reading cfg h p (AnyFloat NaN) now \<in> set rs" for cfg h now rs sn w
  proof -
    have "serializeReadings rs = None"
      using serializeReadings_None not_a_number_NaN [OF dt val] that by blast
    then show ?thesis by (simp add: publish_def assms(3))
  qed
  with v val q show ?thesis by blast
qed

definition sample_json_ops :: "(unit, memory, (string \<times> bytes) list) server_ops" where
  "sample_json_ops = \<lparr>op_store = \<lparr>st_SaveReadings = (\<lambda>s now sn rs. (None, s))\<rparr>, op_conns = memory_manager id,
     op_serializeReadings = (\<lambda>rs. map_option s2b (serializeReadings rs)),
     op_PublishDeviceReadings = (\<lambda>p sn payload. (True, p @ [(sn, payload)]))\<rparr>"

theorem nan_register_stops_publication_witness:
  "\<exists>v. parsePointValue (sample_point\<lparr>pt_DataType := DataTypeFloat32\<rparr>) [0x7F, 0xC0, 0, 0] = Ret v
    \<and> (\<forall>sn (w :: (unit, memory, (string \<times> bytes) list, unit) server).
        publish sample_json_ops sn [point_reading ClientConfig.sample_device [] (sample_point\<lparr>pt_DataType := DataTypeFloat32\<rparr>) v 0] w = w)"
proof -
  let ?p = "sample_point\<lparr>pt_DataType := DataTypeFloat32\<rparr>"
  have "pt_DataType ?p = DataTypeFloat32" "pt_ByteOrder ?p = ByteOrderBigEndian" by (simp_all add: sample_point_def)
  moreover have "op_serializeReadings sample_json_ops = (\<lambda>rs. map_option s2b (serializeReadings rs))"
    by (simp add: sample_json_ops_def)
  ultimately obtain v where "parsePointValue ?p [0x7F, 0xC0, 0, 0] = Ret v"
    "\<forall>rs sn (w :: (unit, memory, (string \<times> bytes) list, unit) server). point_reading ClientConfig.sample_device [] ?p v 0 \<in> set rs \<longrightarrow> publish sample_json_ops sn rs w = w"
    using nan_register_stops_publication [of ?p sample_json_ops] by blast
  then show ?thesis by (intro exI [of _ v]) simp
qed

section \<open>Commands\<close>

text \<open>
  What a command does, stated on the device and not on the runtime: the writes in their order, each on the
  device as the one before left it, none after the first that the device fails. \<open>up\<close> says whether the device
  is in service.
\<close>

fun command_spec :: "conv \<Rightarrow> 'm modbus_ops \<Rightarrow> DeviceConfig \<Rightarrow> writeEntry list \<Rightarrow> bool \<times> 'm \<Rightarrow> (string \<times> bool) list \<times> bool \<times> 'm" where
  "command_spec cv ops cfg [] (up, m) = ([], up, m)"
| "command_spec cv ops cfg (w # ws) (up, m) =
     (let allowed = (case point_named cfg (we_Point w) of None \<Rightarrow> False | Some p \<Rightarrow> pt_Access p \<noteq> AccessReadOnly)
      in if \<not> (up \<and> allowed)
         then apfst (Cons (we_Point w, False)) (command_spec cv ops cfg ws (up, m))
         else case executeWrite cv ops cfg m \<lparr>wc_pointName = we_Point w, wc_value = we_Value w\<rparr> of
           (None, m) \<Rightarrow> apfst (Cons (we_Point w, True)) (command_spec cv ops cfg ws (True, m))
         | (Some e, m) \<Rightarrow> apfst (Cons (we_Point w, False)) (command_spec cv ops cfg ws (False, m)))"

definition abs_runtime :: "'m runtime \<Rightarrow> bool \<times> 'm" where
  "abs_runtime rt = (rt_state rt = stateOnline, rt_client rt)"

definition abs_results :: "writeResult list \<Rightarrow> (string \<times> bool) list" where
  "abs_results rs = map (\<lambda>r. (wr_Point r, wr_Success r)) rs"

definition writes_result :: "conv \<Rightarrow> 'm modbus_ops \<Rightarrow> DeviceConfig \<Rightarrow> writeEntry list \<Rightarrow> bool \<times> 'm \<Rightarrow> writeResult list
    \<Rightarrow> writeResult list option \<times> 'm runtime \<Rightarrow> bool" where
  "writes_result cv ops cfg ws st acc res \<longleftrightarrow>
     (\<exists>rs rt'. res = (Some (acc @ rs), rt') \<and> rt_cfg rt' = cfg
       \<and> (abs_results rs, abs_runtime rt') = command_spec cv ops cfg ws st)"

lemma writes_result_Cons:
  assumes "writes_result cv ops cfg ws st (acc @ [r]) res"
    and "command_spec cv ops cfg (w # ws) st0 = apfst (Cons (wr_Point r, wr_Success r)) (command_spec cv ops cfg ws st)"
  shows "writes_result cv ops cfg (w # ws) st0 acc res"
proof -
  obtain rs rt' where "res = (Some ((acc @ [r]) @ rs), rt')" "rt_cfg rt' = cfg"
    "(abs_results rs, abs_runtime rt') = command_spec cv ops cfg ws st"
    using assms(1) unfolding writes_result_def by blast
  moreover from this(3) have "(abs_results (r # rs), abs_runtime rt') = command_spec cv ops cfg (w # ws) st0"
    unfolding assms(2) by (cases "command_spec cv ops cfg ws st") (simp add: abs_results_def)
  ultimately show ?thesis unfolding writes_result_def by (intro exI [of _ "r # rs"] exI [of _ rt']) simp
qed

lemma modbus_writes_spec:
  assumes "rt_writeCh rt = []" "rt_writing rt"
  shows "writes_result cv ops (rt_cfg rt) ws (abs_runtime rt) acc (modbus_writes cv ops ws rt acc)"
  using assms
proof (induction ws arbitrary: rt acc)
  case Nil
  then show ?case by (simp add: writes_result_def abs_results_def abs_runtime_def)
next
  case (Cons w ws)
  let ?name = "we_Point w" and ?v = "we_Value w"
  let ?run = "executeWrite cv ops (rt_cfg rt) (rt_client rt) \<lparr>wc_pointName = ?name, wc_value = ?v\<rparr>"
  have same: "abs_runtime rt = (rt_state rt = stateOnline, rt_client rt)" by (simp add: abs_runtime_def)
  have refused: ?case
    if "modbus_writes cv ops (w # ws) rt acc = modbus_writes cv ops ws rt (acc @ [\<lparr>wr_Point = ?name, wr_Success = False, wr_Error = e\<rparr>])"
      and "\<not> admitted rt ?name" for e
    unfolding that(1)
  proof (rule writes_result_Cons [OF Cons.IH [OF Cons.prems]])
    show "command_spec cv ops (rt_cfg rt) (w # ws) (abs_runtime rt) =
      apfst (Cons (wr_Point \<lparr>wr_Point = ?name, wr_Success = False, wr_Error = e\<rparr>,
          wr_Success \<lparr>wr_Point = ?name, wr_Success = False, wr_Error = e\<rparr>)) (command_spec cv ops (rt_cfg rt) ws (abs_runtime rt))"
      using that(2) by (auto simp: same admitted_def Let_def split: option.splits)
  qed
  show ?case
  proof (cases "admitted rt ?name")
    case False
    obtain e where "Write cv ops rt ?name ?v = (WriteError e, rt)" using Write_refused [OF False] by blast
    then show ?thesis
      using False refused by (auto simp: Let_def split: option.split)
  next
    case True
    then obtain p where p: "point_named (rt_cfg rt) ?name = Some p" "pt_Access p \<noteq> AccessReadOnly" "rt_state rt = stateOnline"
      by (auto simp: admitted_def split: option.splits)
    obtain err m where run: "?run = (err, m)" by fastforce
    note w = Write_executed [OF Cons.prems(1) True Cons.prems(2) run]
    show ?thesis
    proof (cases err)
      case None
      let ?rt = "rt\<lparr>rt_client := m\<rparr>" and ?r = "\<lparr>wr_Point = ?name, wr_Success = True, wr_Error = []\<rparr>"
      have "modbus_writes cv ops (w # ws) rt acc = modbus_writes cv ops ws ?rt (acc @ [?r])"
        using p w None by (simp add: findPoint_eq)
      moreover have "writes_result cv ops (rt_cfg ?rt) ws (abs_runtime ?rt) (acc @ [?r]) (modbus_writes cv ops ws ?rt (acc @ [?r]))"
        using Cons.prems by (intro Cons.IH) simp_all
      ultimately show ?thesis
        using p run None by (auto intro!: writes_result_Cons simp: same abs_runtime_def)
    next
      case (Some e)
      let ?rt = "rt\<lparr>rt_client := m, rt_state := stateDegraded\<rparr>" and ?r = "\<lparr>wr_Point = ?name, wr_Success = False, wr_Error = e\<rparr>"
      have "modbus_writes cv ops (w # ws) rt acc = modbus_writes cv ops ws ?rt (acc @ [?r])"
        using p w Some by (simp add: findPoint_eq)
      moreover have "writes_result cv ops (rt_cfg ?rt) ws (abs_runtime ?rt) (acc @ [?r]) (modbus_writes cv ops ws ?rt (acc @ [?r]))"
        using Cons.prems by (intro Cons.IH) simp_all
      moreover have "abs_runtime ?rt = (False, m)" by (simp add: abs_runtime_def runtime_state_defs)
      ultimately show ?thesis
        using p run Some by (auto intro!: writes_result_Cons simp: same)
    qed
  qed
qed

text \<open>
  C13. A command for a device that is polled is answered with one result per write, in their order, and runs
  as on the device alone: each write on the device as the one before left it, only on points that exist
  and are not read-only, and none after the first that the device fails. What is reported as done is what
  the device took, and the registry keeps the runtime as the last write left it.
\<close>

theorem command_refines_device_writes:
  assumes "GetModbusRuntime (ct_runtimes cs) (cr_Device req) = Some rt" and "rt_writeCh rt = []" and "rt_writing rt"
    and "cr_Device req \<noteq> []" and "cr_Writes req \<noteq> []"
  shows "\<exists>rs rt'. handleCommand cv ops pub (Inr req) cs
      = (Some (StatusOK, CommandBody \<lparr>cs_Device = cr_Device req, cs_Results = rs\<rparr>),
         cs\<lparr>ct_runtimes := AList.update (cr_Device req) rt' (ct_runtimes cs)\<rparr>)
    \<and> (abs_results rs, abs_runtime rt') = command_spec cv ops (rt_cfg rt) (cr_Writes req) (abs_runtime rt)
    \<and> map wr_Point rs = map we_Point (cr_Writes req)"
proof -
  obtain rs rt' where w: "modbus_writes cv ops (cr_Writes req) rt [] = (Some rs, rt')"
    and spec: "(abs_results rs, abs_runtime rt') = command_spec cv ops (rt_cfg rt) (cr_Writes req) (abs_runtime rt)"
    using modbus_writes_spec [OF assms(2,3), of cv ops "cr_Writes req" "[]"] unfolding writes_result_def by auto
  have "map fst (fst (command_spec cv ops cfg ws st)) = map we_Point ws" for cfg ws and st :: "bool \<times> 'a"
    by (induction cv ops cfg ws st rule: command_spec.induct) (auto simp: Let_def split: prod.splits option.splits)
  from this [of "rt_cfg rt" "cr_Writes req" "abs_runtime rt"] have "map fst (abs_results rs) = map we_Point (cr_Writes req)"
    by (simp flip: spec)
  then have "map wr_Point rs = map we_Point (cr_Writes req)" by (simp add: abs_results_def comp_def)
  with w spec show ?thesis using assms(1,4,5) by (auto simp: handleCommand_def handleModbusCommand_def)
qed

theorem command_refines_device_writes_witness:
  "\<exists>rs. fst (handleCommand sample_conv sim_ops (\<lambda>p t q r x. (None, p))
       (Inr \<lparr>cr_Device = ''dev'', cr_Writes = [\<lparr>we_Point = ''q'', we_Value = f_one\<rparr>]\<rparr>)
       \<lparr>ct_runtimes = [(''dev'', sample_runtime [sample_point])], ct_pub = Some ()\<rparr>)
     = Some (StatusOK, CommandBody \<lparr>cs_Device = ''dev'', cs_Results = rs\<rparr>) \<and> abs_results rs = [(''q'', False)]"
proof -
  let ?cs = "\<lparr>ct_runtimes = [(''dev'', sample_runtime [sample_point])], ct_pub = Some ()\<rparr>"
  let ?req = "\<lparr>cr_Device = ''dev'', cr_Writes = [\<lparr>we_Point = ''q'', we_Value = f_one\<rparr>]\<rparr>"
  have "GetModbusRuntime (ct_runtimes ?cs) (cr_Device ?req) = Some (sample_runtime [sample_point])"
    by (simp add: GetModbusRuntime_def)
  then obtain rs rt' where r: "fst (handleCommand sample_conv sim_ops (\<lambda>p t q r x. (None, p)) (Inr ?req) ?cs)
      = Some (StatusOK, CommandBody \<lparr>cs_Device = ''dev'', cs_Results = rs\<rparr>)"
    and spec: "(abs_results rs, abs_runtime rt') = command_spec sample_conv sim_ops (rt_cfg (sample_runtime [sample_point]))
        (cr_Writes ?req) (abs_runtime (sample_runtime [sample_point]))"
    using command_refines_device_writes [of ?cs ?req "sample_runtime [sample_point]" sample_conv sim_ops "\<lambda>p t q r x. (None, p)"]
    by auto
  have "point_named (ClientConfig.sample_device\<lparr>dv_Points := [sample_point]\<rparr>) ''q'' = None"
    by (simp add: point_named_def sample_point_def)
  then have "abs_results rs = [(''q'', False)]" using spec by (simp add: abs_runtime_def)
  with r show ?thesis by blast
qed

text \<open>
  A command for a device that is not polled, a misspelt name for one, is published for an MQTT device
  of that name and answered as done for every write, as soon as the local broker takes it.
\<close>

theorem unknown_device_reported_done:
  assumes "GetModbusRuntime (ct_runtimes cs) (cr_Device req) = None" and "ct_pub cs = Some p"
    and "cr_Device req \<noteq> []" and "cr_Writes req \<noteq> []" and "\<forall>w \<in> set (cr_Writes req). finite_float (we_Value w)"
    and "\<forall>topic payload. \<exists>p'. send p topic 1 False payload = (None, p')"
  shows "\<exists>cs' rs. handleCommand cv ops send (Inr req) cs
      = (Some (StatusOK, CommandBody \<lparr>cs_Device = cr_Device req, cs_Results = rs\<rparr>), cs')
    \<and> ct_runtimes cs' = ct_runtimes cs \<and> abs_results rs = map (\<lambda>w. (we_Point w, True)) (cr_Writes req)"
proof -
  have "Marshal_request req \<noteq> None"
    using assms(5) by (auto simp: Marshal_request_def all_some_None None_image json_float_None)
  then obtain payload where m: "Marshal_request req = Some payload" by auto
  obtain p' where "send p (''device/'' @ cr_Device req @ ''/command'') 1 False payload = (None, p')" using assms(6) by blast
  with m show ?thesis using assms(1-4)
    by (simp add: handleCommand_def handleMqttCommand_def PublishRaw_def abs_results_def comp_def)
qed

theorem unknown_device_reported_done_witness:
  "\<exists>cs' rs. handleCommand sample_conv sim_ops (\<lambda>p t q r x. (None, p))
       (Inr \<lparr>cr_Device = ''dve'', cr_Writes = [\<lparr>we_Point = ''p'', we_Value = f_one\<rparr>]\<rparr>)
       \<lparr>ct_runtimes = [(''dev'', sample_runtime [sample_point])], ct_pub = Some ()\<rparr>
     = (Some (StatusOK, CommandBody \<lparr>cs_Device = ''dve'', cs_Results = rs\<rparr>), cs') \<and> abs_results rs = [(''p'', True)]"
  using unknown_device_reported_done [of
      "\<lparr>ct_runtimes = [(''dev'', sample_runtime [sample_point])], ct_pub = Some ()\<rparr>"
      "\<lparr>cr_Device = ''dve'', cr_Writes = [\<lparr>we_Point = ''p'', we_Value = f_one\<rparr>]\<rparr>" "()" "\<lambda>p t q r x. (None, p)" sample_conv sim_ops]
  by (force simp: GetModbusRuntime_def finite_float_def f_one_def)

end
