(* ===== verification/MqttProps.thy ===== *)
theory MqttProps
  imports Mqtt
begin

text \<open>
  What holds of the MQTT side of the gateway: an accepted configuration can be subscribed as a whole, and
  what a reading made from a message carries.
\<close>

lemma parseSource_validated: "validateSource s = None \<Longrightarrow> \<exists>sf. parseSource s = Inr sf"
  by (auto simp: validateSource_def parseSource_def split: if_splits)

text \<open>The topics of the devices, each with its device.\<close>

definition topics_of :: "MQTTDeviceConfig list \<Rightarrow> (string \<times> TopicConfig) list" where
  "topics_of devs = concat (map (\<lambda>d. map (Pair (md_Name d)) (md_Topics d)) devs)"

definition subscribed :: "subscription \<Rightarrow> string \<times> TopicConfig" where
  "subscribed s = (sb_device s, sb_config s)"

definition well_subscribed :: "nat \<Rightarrow> (string \<times> TopicConfig) list \<Rightarrow> subscription list \<Rightarrow> bool" where
  "well_subscribed n ts subs \<longleftrightarrow> map subscribed subs = ts \<and> map sb_id subs = [Suc n ..< Suc n + length ts]
     \<and> (\<forall>s \<in> set subs. sb_Topic s = tp_Topic (sb_config s) \<and> parseSource (tp_Source (sb_config s)) = Inr (sb_source s))"

lemma well_subscribed_append:
  "well_subscribed n ts subs \<Longrightarrow> well_subscribed (n + length subs) ts' subs' \<Longrightarrow> well_subscribed n (ts @ ts') (subs @ subs')"
proof -
  assume a: "well_subscribed n ts subs" and b: "well_subscribed (n + length subs) ts' subs'"
  have len: "length ts = length subs" using a by (auto simp: well_subscribed_def)
  have "[Suc n ..< Suc n + length (ts @ ts')] = [Suc n ..< Suc n + length ts] @ [Suc n + length ts ..< Suc n + length ts + length ts']"
    using upt_add_eq_append [of "Suc n" "Suc n + length ts" "length ts'"] by (simp add: add.assoc del: upt_Suc)
  with a b len show ?thesis by (auto simp: well_subscribed_def)
qed

lemma subscribe_topics_ok:
  "list_all topic_ok tcs \<Longrightarrow> \<exists>subs. subscribe_topics dev n tcs = Inr subs \<and> well_subscribed n (map (Pair (md_Name dev)) tcs) subs"
proof (induction dev n tcs rule: subscribe_topics.induct)
  case (2 dev n tc tcs)
  from 2(2) obtain sf where sf: "parseSource (tp_Source tc) = Inr sf"
    using parseSource_validated by (auto simp: topic_ok_def)
  from 2(1) [OF sf] 2(2) obtain subs where subs: "subscribe_topics dev (Suc n) tcs = Inr subs"
    "well_subscribed (Suc n) (map (Pair (md_Name dev)) tcs) subs" by auto
  let ?s = "\<lparr>sb_Topic = tp_Topic tc, sb_id = Suc n, sb_config = tc, sb_device = md_Name dev, sb_source = sf\<rparr>"
  have "well_subscribed n [(md_Name dev, tc)] [?s]"
    by (simp add: well_subscribed_def subscribed_def sf)
  from well_subscribed_append [OF this] subs(2) have "well_subscribed n (map (Pair (md_Name dev)) (tc # tcs)) (?s # subs)" by simp
  with subs(1) sf show ?case by simp
qed (simp add: well_subscribed_def)

lemma subscribe_devices_ok:
  "list_all mqtt_device_ok devs \<Longrightarrow> \<exists>subs. subscribe_devices n devs = Inr subs \<and> well_subscribed n (topics_of devs) subs"
proof (induction n devs rule: subscribe_devices.induct)
  case (2 n dev devs)
  obtain ss where ss: "subscribe_topics dev n (md_Topics dev) = Inr ss"
    "well_subscribed n (map (Pair (md_Name dev)) (md_Topics dev)) ss"
    using subscribe_topics_ok [of "md_Topics dev" dev n] 2(2) by (auto simp: mqtt_device_ok_def)
  from 2(1) [OF ss(1)] 2(2) obtain subs where "subscribe_devices (n + length ss) devs = Inr subs"
    "well_subscribed (n + length ss) (topics_of devs) subs" by auto
  with ss well_subscribed_append [OF ss(2)] show ?case by (simp add: topics_of_def)
qed (simp add: well_subscribed_def topics_of_def)

lemma update_fold_other: "d \<notin> set (map md_Name devs)
   \<Longrightarrow> map_of (foldl (\<lambda>m dev. AList.update (md_Name dev) (virtualDeviceHash (md_Name dev)) m) m devs) d = map_of m d"
  by (induction devs arbitrary: m) (auto simp: update_conv')

lemma device_hash_table:
  "d \<in> set (map md_Name devs) \<Longrightarrow> map_of (fst (mqtt_tables devs)) d = Some (virtualDeviceHash d)"
proof -
  have "map_of (foldl (\<lambda>m dev. AList.update (md_Name dev) (virtualDeviceHash (md_Name dev)) m) m devs) d
      = (if d \<in> set (map md_Name devs) then Some (virtualDeviceHash d) else map_of m d)" for m
    by (induction devs arbitrary: m) (auto simp: update_conv')
  then show "d \<in> set (map md_Name devs) \<Longrightarrow> ?thesis" by (simp add: mqtt_tables_def)
qed

text \<open>
  When the MQTT part of a configuration is accepted, the broker subscribes every topic of every device
  once, with numbers from one on, and no source is refused any more; and every reading that a subscription
  makes from a message carries the identifier of its device, the data type and the point of its topic, and
  a time.
\<close>

theorem accepted_topics_subscribed:
  assumes "Mqtt_Validate cfg = None" and "AddListener (mb_BrokerAddr cfg) = None"
  shows "\<exists>subs hashes index. StartMqttBroker AddListener cfg = Inr (subs, hashes, index)
    \<and> map subscribed subs = topics_of (mb_Devices cfg) \<and> map sb_id subs = [1 ..< Suc (length subs)]
    \<and> (\<forall>s \<in> set subs. \<forall>tp cv now payload r.
        handleMqttReading tp cv now payload hashes (sb_config s) (sb_device s) (sb_source s) = Inr r \<longrightarrow>
        r_Device r = virtualDeviceHash (sb_device s) \<and> r_DataType r = tp_DataType (sb_config s)
        \<and> r_Point r = HashPoint (sb_device s) (tp_PointName (sb_config s)) \<and> (now \<noteq> 0 \<longrightarrow> r_Timestamp r \<noteq> 0))"
proof -
  have ok: "list_all mqtt_device_ok (mb_Devices cfg)" using assms(1) by (simp add: Mqtt_Validate_None mqtt_ok_def)
  obtain subs where subs: "subscribe_devices 0 (mb_Devices cfg) = Inr subs" "well_subscribed 0 (topics_of (mb_Devices cfg)) subs"
    using subscribe_devices_ok [OF ok] by blast
  let ?t = "mqtt_tables (mb_Devices cfg)"
  have len: "length (topics_of (mb_Devices cfg)) = length subs"
    using subs(2) by (metis length_map well_subscribed_def)
  have dev: "map_get [] (fst ?t) (sb_device s) = virtualDeviceHash (sb_device s)" if "s \<in> set subs" for s
  proof -
    have "(sb_device s, sb_config s) \<in> set (topics_of (mb_Devices cfg))"
      using that subs(2) by (metis image_eqI list.set_map subscribed_def well_subscribed_def)
    then have "sb_device s \<in> set (map md_Name (mb_Devices cfg))" by (auto simp: topics_of_def)
    from device_hash_table [OF this] show ?thesis by (simp add: map_get_def)
  qed
  have fields: "r_Device r = virtualDeviceHash (sb_device s) \<and> r_DataType r = tp_DataType (sb_config s)
      \<and> r_Point r = HashPoint (sb_device s) (tp_PointName (sb_config s)) \<and> (now \<noteq> 0 \<longrightarrow> r_Timestamp r \<noteq> 0)"
    if "s \<in> set subs" "handleMqttReading tp cv now payload (fst ?t) (sb_config s) (sb_device s) (sb_source s) = Inr r"
    for s tp cv now payload r
    using that(2) dev [OF that(1)] by (auto simp: handleMqttReading_def split: sum.splits if_splits)
  have "StartMqttBroker AddListener cfg = Inr (subs, fst ?t, snd ?t)"
    using assms(2) subs(1) by (simp add: StartMqttBroker_def)
  moreover have "map subscribed subs = topics_of (mb_Devices cfg)" "map sb_id subs = [1 ..< Suc (length subs)]"
    using subs(2) len by (simp_all add: well_subscribed_def)
  ultimately show ?thesis using fields by blast
qed

definition sample_topic :: "string \<Rightarrow> TopicConfig" where
  "sample_topic dt = \<lparr>tp_Topic = ''t'', tp_QoS = 0, tp_PointName = ''p'', tp_DataType = dt, tp_Source = ''plain:'', tp_Unit = [],
     tp_Retain = False\<rparr>"

definition sample_mqtt :: Client_MqttConfig where
  "sample_mqtt = \<lparr>mb_BrokerAddr = '':1'', mb_Devices = [\<lparr>md_Name = ''d'', md_ClientID = [], md_Username = [], md_Password = [],
     md_KeepAlive = 0, md_CleanSession = True, md_OfflineThreshold = 0, md_EnableMonitor = False,
     md_Topics = [sample_topic DataTypeBool]\<rparr>]\<rparr>"

theorem accepted_topics_subscribed_witness:
  "\<exists>subs hashes index. StartMqttBroker (\<lambda>_. None) sample_mqtt = Inr (subs, hashes, index)
    \<and> map subscribed subs = [(''d'', sample_topic DataTypeBool)]"
proof -
  have "validateSource ''plain:'' = None" "validateDataType DataTypeBool = None"
    by (simp_all add: validateSource_def HasPrefix_def validateDataType_def DataType_defs)
  then have "topic_ok (sample_topic DataTypeBool)" by (simp add: topic_ok_def sample_topic_def)
  then have "Mqtt_Validate sample_mqtt = None"
    by (simp add: Mqtt_Validate_None mqtt_ok_def mqtt_device_ok_def sample_mqtt_def)
  from accepted_topics_subscribed [OF this, of "\<lambda>_. None"]
  show ?thesis by (auto simp: topics_of_def sample_mqtt_def)
qed

text \<open>
  A reading of a message carries the extracted value in full when its topic has a boolean or a numeric
  type, and integers are whole numbers (they may be out of the range of their type). On a topic of type
  JSON only a string survives: an object, a list, a number or a boolean is accepted and its value is lost.
\<close>

theorem mqtt_reading_value:
  assumes "handleMqttReading tp cv now payload hashes tc dev sf = Inr r" and "extractValue sf payload = Inr v"
    and "topic_ok tc"
  shows "if tp_DataType tc = DataTypeJSON then r_Value r = (case v of AnyString s \<Rightarrow> s | _ \<Rightarrow> [])
    else if tp_DataType tc = DataTypeBool then (\<exists>b. v = AnyBool b \<and> r_Value r = FormatBool b)
    else \<exists>f. v = AnyFloat f \<and> r_Value r = FormatFloat f
      \<and> (tp_DataType tc \<notin> {DataTypeFloat32, DataTypeFloat64} \<longrightarrow> is_integral f)"
proof -
  let ?dt = "tp_DataType tc"
  have c: "checkDataType v ?dt" and r: "r_Value r = SerializeValue ?dt v"
    using assms(1,2) by (auto simp: handleMqttReading_def split: if_splits sum.splits)
  have "validateDataType ?dt = None" using assms(3) by (simp add: topic_ok_def)
  then consider "?dt = DataTypeBool" | "?dt = DataTypeInt16" | "?dt = DataTypeUint16" | "?dt = DataTypeInt32"
    | "?dt = DataTypeUint32" | "?dt = DataTypeFloat32" | "?dt = DataTypeFloat64" | "?dt = DataTypeJSON"
    by (auto simp: validateDataType_def split: if_splits)
  then show ?thesis
    using c r by cases (cases v; simp add: checkDataType_def SerializeValue_def numeric_type_def DataType_defs)+
qed

lemma plain_t: "extractPlainValue ''t'' = Inr (AnyBool True)"
proof -
  have "TrimSpace ''t'' = ''t''" by (intro TrimSpace_visible) (simp_all add: visible_def)
  then show ?thesis
    by (simp add: extractPlainValue_def scalar_of_def ParseFloat_def is_special_def read_sign_def lower_def read_float_def is_digit_def ParseBool_def)
qed
theorem mqtt_reading_value_witness:
  "\<exists>r. handleMqttReading (\<lambda>_ _. None) (\<lambda>_. 0) 5 ''t'' [] (sample_topic DataTypeJSON) ''d'' \<lparr>sf_format = ''plain'', sf_path = []\<rparr> = Inr r
    \<and> r_Value r = []"
proof -
  let ?sf = "\<lparr>sf_format = ''plain'', sf_path = []\<rparr>"
  have v: "extractValue ?sf ''t'' = Inr (AnyBool True)" by (simp add: extractValue_def plain_t)
  then obtain r where r: "handleMqttReading (\<lambda>_ _. None) (\<lambda>_. 0) 5 ''t'' [] (sample_topic DataTypeJSON) ''d'' ?sf = Inr r"
    by (simp add: handleMqttReading_def checkDataType_def extractTimestamp_def sample_topic_def DataType_defs)
  have "topic_ok (sample_topic DataTypeJSON)"
    by (simp add: topic_ok_def sample_topic_def validateSource_def HasPrefix_def validateDataType_def DataTypeJSON_def)
  from mqtt_reading_value [OF r v this] r show ?thesis by (simp add: sample_topic_def)
qed

end
