(* ===== verification/Tunnel.thy ===== *)
theory Tunnel
  imports ServerSystem ClientProps
begin

text \<open>
  The two ends of the tunnel together: what the gateway of \<^verbatim>\<open>internal/client\<close> writes is what the server of
  \<^verbatim>\<open>internal/server\<close> reads, and the other way round.
\<close>

section \<open>Frames across the connection\<close>

lemma conn_Write_can: "0 < c_writes_left c \<Longrightarrow> \<exists>c'. conn_Write c b = (True, c')"
  by (cases "c_writes_left c") (simp_all add: conn_Write_def)

lemma handshake_payload_small: "Handshake_Encode p = Ret b \<Longrightarrow> length b \<le> 65535"
  by (auto simp: Handshake_Encode_def split: if_splits)

lemma frame_crosses:
  assumes new: "NewMsg f now t p = Ret (m, f')" and t: "t \<in> packet_types p"
    and len: "length (m_Payload m) \<le> 65535" and c: "c_in c = fst (Msg_Encode m) @ rest"
  shows "DecodeFrame c = Ret (snd (Msg_Encode m), c\<lparr>c_in := rest\<rparr>)" and "ParseMsg (snd (Msg_Encode m)) = Ret p"
    and "m_Type (snd (Msg_Encode m)) = t" and "m_MsgID (snd (Msg_Encode m)) = m_MsgID m"
    and "m_Payload (snd (Msg_Encode m)) = m_Payload m"
proof -
  show "DecodeFrame c = Ret (snd (Msg_Encode m), c\<lparr>c_in := rest\<rparr>)" by (rule NewMsg_DecodeFrame [OF new len c])
  show ty: "m_Type (snd (Msg_Encode m)) = t" and "m_MsgID (snd (Msg_Encode m)) = m_MsgID m"
    and pl: "m_Payload (snd (Msg_Encode m)) = m_Payload m"
    using NewMsg_RetD(2) [OF new] by (simp_all add: Msg_Encode_def Let_def)
  show "ParseMsg (snd (Msg_Encode m)) = Ret p"
    using ParseMsg_encoded [OF NewMsg_RetD(1) [OF new] len _ pl] t ty by simp
qed

text \<open>The acknowledgement the server writes, as the message of its factory.\<close>

lemma sendAck_written:
  assumes "0 < c_writes_left c" and "m_Checksum (snd (ack_frame env g w t i k)) \<noteq> 0"
  shows "\<exists>resp g'. NewMsg g (clock_now env w) t (PAck \<lparr>ack_MsgID = i, ack_Code = k\<rparr>) = Ret (resp, g')
    \<and> c_out (fst (sendAck env (c, g, w) t i k)) = c_out c @ [fst (Msg_Encode resp)]"
proof -
  obtain resp g' where new: "NewMsg g (clock_now env w) t (PAck \<lparr>ack_MsgID = i, ack_Code = k\<rparr>) = Ret (resp, g')"
      and frame: "ack_frame env g w t i k = Msg_Encode resp"
    by (simp add: ack_NewMsg ack_frame_def)
  obtain n where "c_writes_left c = Suc n" using assms(1) by (cases "c_writes_left c") auto
  then have "c_out (fst (sendAck env (c, g, w) t i k)) = c_out c @ [fst (Msg_Encode resp)]"
    using assms(2) frame by (simp add: sendAck_eq conn_Write_def)
  with new show ?thesis by blast
qed

section \<open>Handshake\<close>

definition registered_client :: "ClientDef list \<Rightarrow> string \<Rightarrow> string \<Rightarrow> bool" where
  "registered_client clients sn token \<longleftrightarrow> (\<exists>cl. find_client clients sn = Some cl \<and> cd_Token cl = token)"

definition handshake_code :: "ClientDef list \<Rightarrow> string \<Rightarrow> string \<Rightarrow> u8" where
  "handshake_code clients sn token =
     (if registered_client clients sn token then code_Ok
      else if find_client clients sn = None then code_BadSn else code_BadToken)"

lemma auth_code_handshake:
  assumes "m_Type m = MsgTypeHandshake" and "ParseMsg m = Ret (PHandshake p)"
  shows "auth_code clients m = handshake_code clients (hs_Sn p) (hs_Token p)"
  using assms by (simp add: auth_code_def registered_client_def handshake_code_def split: option.split)

text \<open>The acknowledgements of the examples, written at the epoch of the frames' clock, have a checksum.\<close>

lemma sample_ack_checksum:
  "m_Checksum (snd (ack_frame (sample_env CUSTOM_EPOCH) NewMsgFactory w MsgTypeHandshakeAck 1 code_Ok)) \<noteq> 0"
  "m_Checksum (snd (ack_frame (sample_env CUSTOM_EPOCH) NewMsgFactory w MsgTypeUploadAck 1 code_Ok)) \<noteq> 0"
proof -
  let ?m = "\<lambda>t. \<lparr>m_Magic = MagicNumber, m_Version = frame_version, m_Flags = 0, m_Type = t,
     m_MsgID = 1, m_PayloadLen = 3, m_Timestamp = 0, m_Payload = be16 1 @ [code_Ok], m_Checksum = 0\<rparr>"
  have bytes: "frame_header (?m t) @ be16 1 @ [code_Ok] = [0x4E, 0x59, 1, 0, t, 0, 1, 0, 3, 0, 0, 0, 0, 0, 1, 1]" for t
    by (simp add: frame_header_def be16_eq be32_eq MagicNumber_def frame_version_def code_Ok_def)
  have hs: "CalChecksum (frame_header (?m MsgTypeHandshakeAck) @ be16 1 @ [code_Ok]) \<noteq> 0"
    unfolding bytes by (simp add: crc_eval MsgTypeHandshakeAck_def)
  have up: "CalChecksum (frame_header (?m MsgTypeUploadAck) @ be16 1 @ [code_Ok]) \<noteq> 0"
    unfolding bytes by (simp add: crc_eval MsgTypeUploadAck_def)
  have ts: "NewTimestamp CUSTOM_EPOCH = 0" and id: "fct_current NewMsgFactory = 0"
    by (simp_all add: NewTimestamp_def NewMsgFactory_def)
  show "m_Checksum (snd (ack_frame (sample_env CUSTOM_EPOCH) NewMsgFactory w MsgTypeHandshakeAck 1 code_Ok)) \<noteq> 0"
    "m_Checksum (snd (ack_frame (sample_env CUSTOM_EPOCH) NewMsgFactory w MsgTypeUploadAck 1 code_Ok)) \<noteq> 0"
    using hs up
    by (simp_all only: ack_frame_def sample_env_def clock_now_def env.simps Msg_Encode_def Let_def snd_conv
        Msg.simps ts id) simp_all
qed

text \<open>
  C2. Both ends of the tunnel agree on a handshake. When the server reads what the gateway wrote and the
  gateway reads what the server answered, the server admits the gateway exactly when its serial number and
  token are configured, and the gateway's handshake succeeds in exactly that case; otherwise it fails with
  the code that says whether the number or the token is wrong. (An answer whose checksum happens to be zero
  is not sent; it is excluded here.)
\<close>

theorem handshake_end_to_end:
  assumes hs: "NewMsg f (ce_clock cenv t) MsgTypeHandshake
      (PHandshake \<lparr>hs_FirmwareVersion = 1, hs_Sn = cc_Sn cfg, hs_Token = cc_Token cfg\<rparr>) = Ret (hs, f')"
    and gw: "0 < c_writes_left gc"
    and sc: "c_in sc = fst (Msg_Encode hs) @ rest" "0 < c_writes_left sc"
    and srv: "authenticateClient env clients (sc, g, w) = (r, sc', g', w')"
    and reply: "c_in gc = concat (drop (length (c_out sc)) (c_out sc')) @ later"
    and ck: "m_Checksum (snd (ack_frame env g w MsgTypeHandshakeAck (m_MsgID hs)
        (handshake_code clients (cc_Sn cfg) (cc_Token cfg)))) \<noteq> 0"
  shows "if registered_client clients (cc_Sn cfg) (cc_Token cfg)
    then r = Ret \<lparr>hs_FirmwareVersion = 1, hs_Sn = cc_Sn cfg, hs_Token = cc_Token cfg\<rparr>
      \<and> (\<exists>gc'. performHandshake cenv cfg f t gc = Ret (gc', f') \<and> c_in gc' = later)
    else (\<forall>p. r \<noteq> Ret p)
      \<and> performHandshake cenv cfg f t gc = Fail (HandshakeRejected (handshake_code clients (cc_Sn cfg) (cc_Token cfg)))"
proof -
  let ?p = "\<lparr>hs_FirmwareVersion = 1, hs_Sn = cc_Sn cfg, hs_Token = cc_Token cfg\<rparr>"
  let ?m = "snd (Msg_Encode hs)"
  have "Handshake_Encode ?p = Ret (m_Payload hs)" using NewMsg_RetD(1) [OF hs] by simp
  note small = handshake_payload_small [OF this]
  note cross = frame_crosses [OF hs _ small sc(1)]
  have t: "MsgTypeHandshake \<in> packet_types (PHandshake ?p)" by simp
  note dec = cross(1) [OF t]
  have code: "auth_code clients ?m = handshake_code clients (cc_Sn cfg) (cc_Token cfg)"
    by (simp only: auth_code_handshake [OF cross(3) [OF t] cross(2) [OF t]] HandshakePayload.select_convs)
  have adm: "admits clients ?m q \<longleftrightarrow> q = ?p \<and> registered_client clients (cc_Sn cfg) (cc_Token cfg)" for q
  proof (cases "q = ?p")
    case True
    then show ?thesis using cross(2,3) [OF t] by (simp add: admits_def registered_client_def)
  next
    case False
    then show ?thesis using cross(2) [OF t] by (simp add: admits_def)
  qed
  have r: "r = Ret q \<longleftrightarrow> admits clients ?m q" for q
    using authenticateClient_Ret [of env clients sc g w q] srv dec by auto
  obtain resp h where new: "NewMsg g (clock_now env w) MsgTypeHandshakeAck
        (PAck \<lparr>ack_MsgID = m_MsgID hs, ack_Code = auth_code clients ?m\<rparr>) = Ret (resp, h)"
    and out: "c_out (fst (sendAck env (sc\<lparr>c_in := rest\<rparr>, g, w) MsgTypeHandshakeAck (m_MsgID hs) (auth_code clients ?m)))
        = c_out (sc\<lparr>c_in := rest\<rparr>) @ [fst (Msg_Encode resp)]"
    using sendAck_written [of "sc\<lparr>c_in := rest\<rparr>" env g w MsgTypeHandshakeAck "m_MsgID hs" "auth_code clients ?m"] sc(2) ck code
    by auto
  have "(sc', g', w') = sendAck env (sc\<lparr>c_in := rest\<rparr>, g, w) MsgTypeHandshakeAck (m_MsgID hs) (auth_code clients ?m)"
    using authenticateClient_answer [OF dec, of env clients g w] srv cross(4) [OF t] by (simp add: sendHandshakeResponse_def)
  then have "sc' = fst (sendAck env (sc\<lparr>c_in := rest\<rparr>, g, w) MsgTypeHandshakeAck (m_MsgID hs) (auth_code clients ?m))"
    by (metis fst_conv)
  with out reply have gin: "c_in gc = fst (Msg_Encode resp) @ later" by simp
  obtain gc1 where "conn_Write gc (fst (Msg_Encode hs)) = (True, gc1)"
    using conn_Write_can [OF gw] by blast
  note ended = performHandshake_answered [OF hs this new gin]
  have ok: "handshake_code clients (cc_Sn cfg) (cc_Token cfg) = code_Ok \<longleftrightarrow> registered_client clients (cc_Sn cfg) (cc_Token cfg)"
    by (simp add: handshake_code_def code_defs)
  show ?thesis
  proof (cases "registered_client clients (cc_Sn cfg) (cc_Token cfg)")
    case True
    then show ?thesis using ended code ok r [of ?p] adm [of ?p] by simp
  next
    case False
    then have "r \<noteq> Ret q" for q using r [of q] adm [of q] by simp
    with False ended code ok show ?thesis by simp
  qed
qed

theorem handshake_end_to_end_witness:
  "\<exists>sc gc r sc' g' w' gc' f'. authenticateClient (sample_env CUSTOM_EPOCH) [\<lparr>cd_Sn = ''s'', cd_Token = ''t'', cd_Description = []\<rparr>]
       (sc, NewMsgFactory, sample_server) = (r, sc', g', w') \<and> c_in gc = concat (c_out sc')
     \<and> r = Ret \<lparr>hs_FirmwareVersion = 1, hs_Sn = ''s'', hs_Token = ''t''\<rparr>
     \<and> performHandshake sample_client_env sample_cfg NewMsgFactory 0 gc = Ret (gc', f')"
proof -
  let ?cl = "[\<lparr>cd_Sn = ''s'', cd_Token = ''t'', cd_Description = []\<rparr>]"
  have cfg: "cc_Sn sample_cfg = ''s''" "cc_Token sample_cfg = ''t''" by (simp_all add: sample_cfg_def)
  have reg: "registered_client ?cl (cc_Sn sample_cfg) (cc_Token sample_cfg)"
    by (simp add: registered_client_def find_client_def cfg)
  obtain hs f where hs: "NewMsg NewMsgFactory (ce_clock sample_client_env 0) MsgTypeHandshake
      (PHandshake \<lparr>hs_FirmwareVersion = 1, hs_Sn = cc_Sn sample_cfg, hs_Token = cc_Token sample_cfg\<rparr>) = Ret (hs, f)"
    using NewMsg_handshake [of "\<lparr>hs_FirmwareVersion = 1, hs_Sn = cc_Sn sample_cfg, hs_Token = cc_Token sample_cfg\<rparr>"
        NewMsgFactory "ce_clock sample_client_env 0" MsgTypeHandshake]
    by (auto simp: cfg)
  let ?sc = "sample_conn (fst (Msg_Encode hs) @ [])"
  obtain r sc' g' w' where srv: "authenticateClient (sample_env CUSTOM_EPOCH) ?cl (?sc, NewMsgFactory, sample_server) = (r, sc', g', w')"
    by (metis prod_cases4)
  let ?gc = "sample_conn (concat (c_out sc'))"
  have id: "m_MsgID hs = 1" using NewMsg_RetD(5,6) [OF hs] by (simp add: NewMsgFactory_def)
  have ck: "m_Checksum (snd (ack_frame (sample_env CUSTOM_EPOCH) NewMsgFactory sample_server MsgTypeHandshakeAck (m_MsgID hs)
      (handshake_code ?cl (cc_Sn sample_cfg) (cc_Token sample_cfg)))) \<noteq> 0"
    using sample_ack_checksum(1) reg by (simp add: id handshake_code_def)
  have gw: "0 < c_writes_left ?gc" and sc: "c_in ?sc = fst (Msg_Encode hs) @ []" "0 < c_writes_left ?sc"
    and reply: "c_in ?gc = concat (drop (length (c_out ?sc)) (c_out sc')) @ []"
    by (simp_all add: sample_conn_def)
  from handshake_end_to_end [OF hs gw sc srv reply ck] reg
  obtain gc' where "r = Ret \<lparr>hs_FirmwareVersion = 1, hs_Sn = cc_Sn sample_cfg, hs_Token = cc_Token sample_cfg\<rparr>"
    "performHandshake sample_client_env sample_cfg NewMsgFactory 0 ?gc = Ret (gc', f)"
    by auto
  with srv cfg show ?thesis
    by (intro exI [of _ ?sc] exI [of _ ?gc] exI [of _ r] exI [of _ sc'] exI [of _ g'] exI [of _ w']
        exI [of _ gc'] exI [of _ f]) simp
qed

section \<open>Upload\<close>

text \<open>What the server does with an upload it has not seen and can save.\<close>

lemma handleUpload_saves:
  fixes w :: "('s, 'c, 'p, 'k) server"
  assumes "ParseMsg m = Ret (PUpload \<lparr>up_Readings = rs\<rparr>)" and "rs \<noteq> []"
    and "\<not> fst (dedup_exists (sv_uploadDedup w) (upload_key sn (m_Payload m)))"
    and "st_SaveReadings (op_store ops) (sv_store w) (clock_now env w) sn rs = (None, s)"
  shows "\<exists>(w1 :: ('s, 'c, 'p, 'k) server) g2 w2. handleUpload env ops m sn (c, g, w)
      = Ret (fst (sendAck env (c, g, w1) MsgTypeUploadAck (m_MsgID m) code_Ok), g2, w2)
    \<and> clock_now env w1 = ev_clock env (sv_ticks w + 1) \<and> sv_store w2 = s"
proof -
  obtain d where d: "dedup_exists (sv_uploadDedup w) (upload_key sn (m_Payload m)) = (False, d)"
    using assms(3) by (metis (full_types) prod.collapse)
  let ?w0 = "w\<lparr>sv_uploadDedup := dedup_add d (upload_key sn (m_Payload m))\<rparr>"
  let ?w1 = "(tick ?w0)\<lparr>sv_store := s\<rparr>"
  obtain c1 g1 w1 where ack: "sendAck env (c, g, ?w1) MsgTypeUploadAck (m_MsgID m) code_Ok = (c1, g1, w1)" by (metis prod_cases3)
  have "sv_store w1 = s" using sendAck_world(1) [of env c g ?w1 MsgTypeUploadAck "m_MsgID m" code_Ok] ack by simp
  moreover have "clock_now env ?w1 = ev_clock env (sv_ticks w + 1)" by (simp add: clock_now_def tick_def)
  moreover have "clock_now env ?w0 = clock_now env w" by (simp add: clock_now_def)
  ultimately show ?thesis
    using d assms(1,2,4) ack
    by (intro exI [of _ ?w1] exI [of _ g1] exI [of _ "push env sn rs (publish ops sn rs w1)"]) (simp add: handleUpload_def)
qed

text \<open>
  C1. A batch arrives. A session whose local table has readings waiting sends the first of them in one
  frame at the next tick. When the server reads this frame, has not seen the payload before and its
  database takes the rows, and the gateway reads the answer in time, the batch is marked as sent on the
  gateway and the server's table has a row for each reading, in order and under the gateway's serial
  number. (The frame must fit the length field, and an acknowledgement with checksum zero is excluded.)
\<close>

theorem upload_end_to_end:
  fixes w :: "('s, 'c, 'p, 'k) server"
  assumes laws: "lite_laws lt rows" and "updates lt" and "selects lt" and "\<forall>t. \<not> ce_done env t"
    and "0 < cc_UploadBatchSize cfg"
    and rs: "rs = take (nat (cc_UploadBatchSize cfg)) (filter is_pending (rows (cl_store cl)))" "rs \<noteq> []"
    and new: "NewMsg (cl_factory cl) (ce_clock env (cl_ticks cl + 1)) MsgTypeUpload
        (PUpload \<lparr>up_Readings = map the_reading rs\<rparr>) = Ret (m, f)"
    and small: "length (m_Payload m) \<le> 65535"
    and st: "cl_reader cl = Reads" "routes (cl_router cl) MsgTypeUploadAck = Some uploadAckCh"
      "cl_chans cl = \<lparr>ch_cap = uploadWindowSize, ch_buf = []\<rparr> # chs" "c_writes_left (cl_conn cl) = Suc n"
    and steps: "ce_steps env (cl_ticks cl) = 0" "ce_steps env (cl_ticks cl + 3) = 1" "ce_fires env (cl_ticks cl + 3) = OnMessage"
    and sc: "c_in sc = fst (Msg_Encode m) @ rest" "0 < c_writes_left sc"
    and fresh: "\<not> fst (dedup_exists (sv_uploadDedup w) (upload_key sn (m_Payload m)))"
    and pg: "pg_laws pg rv dv" "\<forall>m. mset (order m) = mset m" "op_store ops = postgres_store pg order"
    and save: "SaveReadings pg order (sv_store w) (clock_now senv w) sn (map the_reading rs) = (None, db')"
    and srv: "DecodeFrame sc = Ret (m', sc1)" "handleMessage senv ops m' sn (sc1, g, w) = Ret (sc2, g2, w2)"
    and reply: "c_in (cl_conn cl) = concat (drop (length (c_out sc)) (c_out sc2)) @ later"
    and ck: "m_Checksum (snd (ack_frame senv g (tick w) MsgTypeUploadAck (m_MsgID m) code_Ok)) \<noteq> 0"
  shows "\<exists>cl'. session_step env (sqlite_store lt) cfg UploadTick cl = (Running, cl')
    \<and> rows (cl_store cl') = set_status (map r_ID rs) UploadSent (rows (cl_store cl))
    \<and> c_out (cl_conn cl') = c_out (cl_conn cl) @ [fst (Msg_Encode m)]
    \<and> stored_rows (rv (sv_store w)) sn (clock_now senv w) (map the_reading rs) (rv (sv_store w2))"
proof -
  have t: "MsgTypeUpload \<in> packet_types (PUpload \<lparr>up_Readings = map the_reading rs\<rparr>)" by simp
  note cross = frame_crosses [OF new t small sc(1)]
  have m': "m' = snd (Msg_Encode m)" "sc1 = sc\<lparr>c_in := rest\<rparr>" using cross(1) srv(1) by simp_all
  have "st_SaveReadings (op_store ops) (sv_store w) (clock_now senv w) sn (map the_reading rs) = (None, db')"
    using save pg(3) by (simp add: postgres_store_def)
  from handleUpload_saves [OF cross(2) _ _ this, of sc1 g] rs(2) fresh cross(5)
  obtain w1 :: "('s, 'c, 'p, 'k) server" and g3 w3 where h: "handleUpload senv ops m' sn (sc1, g, w)
      = Ret (fst (sendAck senv (sc1, g, w1) MsgTypeUploadAck (m_MsgID m) code_Ok), g3, w3)" "sv_store w3 = db'" "clock_now senv w1 = clock_now senv (tick w)"
    using m'(1) cross(4) by (auto simp: clock_now_def tick_def)
  have "handleMessage senv ops m' sn (sc1, g, w) = handleUpload senv ops m' sn (sc1, g, w)"
    using cross(3) m'(1) by (simp add: handleMessage_def)
  with h(1,2) srv(2) have srv2: "sc2 = fst (sendAck senv (sc1, g, w1) MsgTypeUploadAck (m_MsgID m) code_Ok)" "sv_store w2 = db'"
    by simp_all
  have "m_Checksum (snd (ack_frame senv g w1 MsgTypeUploadAck (m_MsgID m) code_Ok)) \<noteq> 0"
    using ck h(3) by (simp add: ack_frame_def)
  then obtain resp h where ack: "NewMsg g (clock_now senv w1) MsgTypeUploadAck (PAck \<lparr>ack_MsgID = m_MsgID m, ack_Code = code_Ok\<rparr>) = Ret (resp, h)"
      "c_out sc2 = c_out sc1 @ [fst (Msg_Encode resp)]"
    using sendAck_written [of sc1 senv g w1 MsgTypeUploadAck "m_MsgID m" code_Ok] sc(2) m'(2) srv2(1) by auto
  have gin: "c_in (cl_conn cl) = fst (Msg_Encode resp) @ later" using reply ack(2) m'(2) by simp
  obtain cl' where "session_step env (sqlite_store lt) cfg UploadTick cl = (Running, cl')"
    "rows (cl_store cl') = set_status (map r_ID rs) UploadSent (rows (cl_store cl))"
    "c_out (cl_conn cl') = c_out (cl_conn cl) @ [fst (Msg_Encode m)]"
    using session_upload_acked [OF assms(1-5) rs new st steps ack(1) _ gin] by auto
  moreover have "stored_rows (rv (sv_store w)) sn (clock_now senv w) (map the_reading rs) (rv (sv_store w2))"
    using SaveReadings_split [OF pg(1,2) save] rs(2) srv2(2) by auto
  ultimately show ?thesis by blast
qed

lemma sample_payload_small:
  "Packable_Encode (PUpload \<lparr>up_Readings = [client_reading\<lparr>r_ID := 1\<rparr>]\<rparr>) = Ret b \<Longrightarrow> length b \<le> 65535"
  by (auto simp: Upload_Encode_Ret_iff reading_wire_tlv client_reading_def)

lemma handleMessage_upload_Ret:
  "m_Type m = MsgTypeUpload \<Longrightarrow> \<exists>c g w'. handleMessage env ops m sn st = Ret (c, g, w')"
  by (cases "handleUpload env ops m sn st") (auto simp: handleMessage_def handleUpload_not_Fail handleUpload_no_panic)

theorem upload_end_to_end_witness:
  "\<exists>cl cl' sc w2 m. session_step steps_env (sqlite_store sample_lite) sample_cfg UploadTick cl = (Running, cl')
     \<and> (\<exists>sc1 sc2 g2. DecodeFrame sc = Ret (m, sc1)
       \<and> handleMessage (sample_env CUSTOM_EPOCH) sample_ops m ''gw'' (sc1, NewMsgFactory, sample_server) = Ret (sc2, g2, w2))
     \<and> (cached client_reading UploadSent)\<lparr>r_ID := 1\<rparr> \<in> set (table_rows (cl_store cl'))
     \<and> stored_rows [] ''gw'' CUSTOM_EPOCH [client_reading\<lparr>r_ID := 1\<rparr>] (fst (sv_store w2))"
proof -
  let ?rs = "[(cached client_reading UploadNotSent)\<lparr>r_ID := 1\<rparr>]" and ?env = "sample_env CUSTOM_EPOCH"
  let ?n = "\<lambda>c. new_session sample_table c NewMsgFactory 1"
  have reading: "map the_reading ?rs = [client_reading\<lparr>r_ID := 1\<rparr>]"
    by (simp add: the_reading_def cached_def Reading.defs client_reading_def)
  have rs: "?rs = take (nat (cc_UploadBatchSize sample_cfg)) (filter is_pending (table_rows (cl_store (?n c))))" for c
    by (simp add: sample_table_rows is_pending_def Upload_status_defs sample_cfg_def)
  obtain m f where new: "NewMsg NewMsgFactory 0 MsgTypeUpload (PUpload \<lparr>up_Readings = map the_reading ?rs\<rparr>) = Ret (m, f)"
    using sample_encodes NewMsg_upload by metis
  have new': "NewMsg (cl_factory (?n c)) (ce_clock steps_env (cl_ticks (?n c) + 1)) MsgTypeUpload
      (PUpload \<lparr>up_Readings = map the_reading ?rs\<rparr>) = Ret (m, f)" for c
    using new by (simp add: steps_env_def sample_client_env_def new_session_def)
  have small: "length (m_Payload m) \<le> 65535" and id: "m_MsgID m = 1"
    using sample_payload_small [of "m_Payload m"] NewMsg_RetD(1,5,6) [OF new] reading by (simp_all add: NewMsgFactory_def)
  let ?sc = "sample_conn (fst (Msg_Encode m) @ [])"
  have dec: "DecodeFrame ?sc = Ret (snd (Msg_Encode m), ?sc\<lparr>c_in := []\<rparr>)"
    using NewMsg_DecodeFrame [OF new small, of ?sc] by simp
  obtain sc2 g2 w2 where srv: "handleMessage ?env sample_ops (snd (Msg_Encode m)) ''gw'' (?sc\<lparr>c_in := []\<rparr>, NewMsgFactory, sample_server)
      = Ret (sc2, g2, w2)"
    using handleMessage_upload_Ret [of "snd (Msg_Encode m)"] NewMsg_RetD(2) [OF new] by (fastforce simp: Msg_Encode_def Let_def)
  obtain db' where save: "SaveReadings sample_pg id (sv_store sample_server) (clock_now ?env sample_server) ''gw'' (map the_reading ?rs) = (None, db')"
    by (simp add: SaveReadings_def sample_pg_def seen_devices_def sample_server_def)
  let ?cl = "?n (sample_conn (concat (c_out sc2)))"
  have fresh: "\<not> fst (dedup_exists (sv_uploadDedup sample_server) k)" for k
    by (simp add: dedup_exists_def uploadDedup_def newDedupCache_def sample_server_def)
  have ck: "m_Checksum (snd (ack_frame ?env NewMsgFactory (tick sample_server) MsgTypeUploadAck (m_MsgID m) code_Ok)) \<noteq> 0"
    using sample_ack_checksum(2) by (simp add: id)
  have order: "\<forall>m. mset (id m) = mset (m :: string gomap)" and store: "op_store sample_ops = postgres_store sample_pg id"
    by (simp_all add: sample_ops_def)
  have "\<exists>cl'. session_step steps_env (sqlite_store sample_lite) sample_cfg UploadTick ?cl = (Running, cl')
    \<and> table_rows (cl_store cl') = set_status (map r_ID ?rs) UploadSent (table_rows (cl_store ?cl))
    \<and> c_out (cl_conn cl') = c_out (cl_conn ?cl) @ [fst (Msg_Encode m)]
    \<and> stored_rows (fst (sv_store sample_server)) ''gw'' (clock_now ?env sample_server) (map the_reading ?rs) (fst (sv_store w2))"
    by (rule upload_end_to_end [OF sample_lite_laws sample_updates sample_selects _ _ rs _ new' small _ _ _ _ _ _ _ _ _
        fresh sample_pg_laws order store save dec srv _ ck, where later = "[]" and chs = "[]" and n = 8])
       (simp_all add: steps_env_def sample_client_env_def sample_cfg_def new_session_def newMsgRouter_def router_register_def sample_conn_def)
  then obtain cl' where step: "session_step steps_env (sqlite_store sample_lite) sample_cfg UploadTick ?cl = (Running, cl')"
      and sent: "table_rows (cl_store cl') = set_status (map r_ID ?rs) UploadSent (table_rows sample_table)"
      and stored: "stored_rows [] ''gw'' CUSTOM_EPOCH [client_reading\<lparr>r_ID := 1\<rparr>] (fst (sv_store w2))"
    unfolding reading by (auto simp: sample_server_def clock_now_def sample_env_def new_session_def)
  have "(cached client_reading UploadNotSent)\<lparr>r_ID := 1, cr_Status := UploadSent\<rparr> = (cached client_reading UploadSent)\<lparr>r_ID := 1\<rparr>"
    by (simp add: cached_def Reading.defs)
  then have "(cached client_reading UploadSent)\<lparr>r_ID := 1\<rparr> \<in> set (table_rows (cl_store cl'))"
    using sent by (simp add: sample_table_rows set_status_def)
  with step stored dec srv show ?thesis
    by (intro exI [of _ ?cl] exI [of _ cl'] exI [of _ ?sc] exI [of _ w2] exI [of _ "snd (Msg_Encode m)"] conjI exI [of _ "?sc\<lparr>c_in := []\<rparr>"]
        exI [of _ sc2] exI [of _ g2])
qed

end
