(* ===== verification/Providers.thy ===== *)
theory Providers
  imports ConfigErrors GoStrconv
begin

text \<open>
  The sources of configuration values: \<^verbatim>\<open>internal/config/provider/{default,env,file,flag}.go\<close>, the chain of
  \<^verbatim>\<open>internal/config/provider.go\<close> and its construction in \<^verbatim>\<open>config.go\<close>. A source is the record of what it
  answers, as the interface \<^verbatim>\<open>IProvider\<close> asks for it, with the type the chain asserts. The environment of the process
  and what viper has read from files are arguments. Mutexes are not modelled: nothing writes after the
  construction.
\<close>

section \<open>Values and sources\<close>

text \<open>The values a map from strings to \<^verbatim>\<open>any\<close> holds here; a slice is \<open>None\<close> when it is nil.\<close>

datatype setting = SetString string | SetInt int | SetBool bool | SetFloat float64 | SetStrings "string list option"

type_synonym source = u64

definition SourceDefault :: source where "SourceDefault = 1"
definition SourceEnv :: source where "SourceEnv = 2"
definition SourceFile :: source where "SourceFile = 4"
definition SourceFlag :: source where "SourceFlag = 8"

lemmas source_defs = SourceDefault_def SourceEnv_def SourceFile_def SourceFlag_def

record provider =
  pv_source :: source \<comment> \<open>\<^verbatim>\<open>sourceOf\<close>\<close>
  pv_GetString :: "string \<Rightarrow> string"
  pv_GetInt :: "string \<Rightarrow> int"
  pv_GetBool :: "string \<Rightarrow> bool"
  pv_GetStringSlice :: "string \<Rightarrow> string list option"
  pv_Get :: "string \<Rightarrow> setting option"
  pv_IsSet :: "string \<Rightarrow> bool"

section \<open>Strings\<close>

text \<open>\<^verbatim>\<open>strings.ToLower\<close> and \<^verbatim>\<open>strings.ToUpper\<close>, on ASCII letters; the keys of the program are ASCII.\<close>

definition upper :: "char \<Rightarrow> char" where
  "upper c = (let n = of_char c :: nat in if 97 \<le> n \<and> n \<le> 122 then char_of (n - 32) else c)"

definition ToLower :: "string \<Rightarrow> string" where "ToLower s = map lower s"
definition ToUpper :: "string \<Rightarrow> string" where "ToUpper s = map upper s"

text \<open>
  \<^verbatim>\<open>strconv.Atoi\<close>: its value and whether there is no error. The value of a text that is no number is 0, that
  of a number out of range the nearest one in range.
\<close>

definition Atoi :: "string \<Rightarrow> int \<times> bool" where
  "Atoi s =
     (case ParseInt s of
        Some n \<Rightarrow> (n, True)
      | None \<Rightarrow>
          let neg = HasPrefix s ''-'';
              t = (if neg \<or> HasPrefix s ''+'' then tl s else s)
          in if t = [] \<or> \<not> list_all is_digit t then (0, False)
             else (if neg then - (2 ^ 63) else 2 ^ 63 - 1, False))"

section \<open>Defaults and flags\<close>

text \<open>\<open>cv\<close> converts a number that is out of the range of \<^verbatim>\<open>int\<close>.\<close>

definition DefaultProvider :: "(float64 \<Rightarrow> u64) \<Rightarrow> setting gomap \<Rightarrow> provider" where
  "DefaultProvider cv defaults =
     \<lparr>pv_source = SourceDefault,
      pv_GetString = \<lambda>key. (case map_of defaults key of Some (SetString s) \<Rightarrow> s | _ \<Rightarrow> []),
      pv_GetInt = \<lambda>key. (case map_of defaults key of
          Some (SetInt val) \<Rightarrow> val
        | Some (SetFloat val) \<Rightarrow> sint (to_sint cv val)
        | _ \<Rightarrow> 0),
      pv_GetBool = \<lambda>key. (case map_of defaults key of Some (SetBool b) \<Rightarrow> b | _ \<Rightarrow> False),
      pv_GetStringSlice = \<lambda>key. (case map_of defaults key of Some (SetStrings s) \<Rightarrow> s | _ \<Rightarrow> None),
      pv_Get = map_of defaults,
      pv_IsSet = \<lambda>key. map_of defaults key \<noteq> None\<rparr>"

definition FlagProvider :: "setting gomap \<Rightarrow> provider" where
  "FlagProvider data =
     \<lparr>pv_source = SourceFlag,
      pv_GetString = \<lambda>key. (case map_of data key of Some (SetString v) \<Rightarrow> v | _ \<Rightarrow> []),
      pv_GetInt = \<lambda>key. (case map_of data key of Some (SetInt v) \<Rightarrow> v | _ \<Rightarrow> 0),
      pv_GetBool = \<lambda>key. (case map_of data key of Some (SetBool v) \<Rightarrow> v | _ \<Rightarrow> False),
      pv_GetStringSlice = \<lambda>key. (case map_of data key of Some (SetStrings v) \<Rightarrow> v | _ \<Rightarrow> None),
      pv_Get = map_of data,
      pv_IsSet = \<lambda>key. map_of data key \<noteq> None\<rparr>"

text \<open>\<^verbatim>\<open>Set\<close> for every entry of the map of flags.\<close>

definition set_flags :: "setting gomap \<Rightarrow> setting gomap \<Rightarrow> setting gomap" where
  "set_flags data flagValues = foldl (\<lambda>d (k, v). AList.update k v d) data flagValues"

section \<open>The environment\<close>

text \<open>
  \<^verbatim>\<open>os.Environ()\<close> is a list of entries \<open>name=value\<close>; \<^verbatim>\<open>os.Getenv\<close> takes the first with the name, and gives the
  empty text if there is none.
\<close>

fun Getenv :: "string list \<Rightarrow> string \<Rightarrow> string" where
  "Getenv [] name = []"
| "Getenv (e # environ) name =
     (case SplitN2 e (CHR ''='') of
        [k, v] \<Rightarrow> if k = name then v else Getenv environ name
      | _ \<Rightarrow> Getenv environ name)"

record EnvProvider =
  ep_prefix :: string
  ep_loaded :: bool
  ep_data :: "string gomap"
  ep_mapping :: "string gomap"

definition NewEnvProvider :: "string \<Rightarrow> EnvProvider" where
  "NewEnvProvider prefix = \<lparr>ep_prefix = prefix, ep_loaded = False, ep_data = [], ep_mapping = []\<rparr>"

definition SetMapping :: "EnvProvider \<Rightarrow> string \<Rightarrow> string \<Rightarrow> EnvProvider" where
  "SetMapping p configKey envKey = p\<lparr>ep_mapping := AList.update configKey envKey (ep_mapping p)\<rparr>"

fun load_entries :: "string \<Rightarrow> string list \<Rightarrow> string gomap \<Rightarrow> string gomap" where
  "load_entries prefix [] data = data"
| "load_entries prefix (e # environ) data =
     load_entries prefix environ
       (case SplitN2 e (CHR ''='') of
          [key, v] \<Rightarrow>
            if prefix = [] \<or> HasPrefix key prefix
            then AList.update (ToLower (TrimPrefix key prefix)) v data
            else data
        | _ \<Rightarrow> data)"

definition Env_Load :: "string list \<Rightarrow> EnvProvider \<Rightarrow> EnvProvider" where
  "Env_Load environ p = p\<lparr>ep_data := load_entries (ep_prefix p) environ (ep_data p), ep_loaded := True\<rparr>"

definition ensureLoaded :: "string list \<Rightarrow> EnvProvider \<Rightarrow> EnvProvider" where
  "ensureLoaded environ p = (if \<not> ep_loaded p then Env_Load environ p else p)"

definition getEnvKey :: "EnvProvider \<Rightarrow> string \<Rightarrow> string" where
  "getEnvKey p key =
     (case map_of (ep_mapping p) key of
        Some envKey \<Rightarrow> envKey
      | None \<Rightarrow> if ep_prefix p \<noteq> [] then ep_prefix p @ ToUpper key else ToUpper key)"

text \<open>Every getter loads the environment first if that has not been done; as it does not change, the record need not be kept.\<close>

definition Env_GetString :: "string list \<Rightarrow> EnvProvider \<Rightarrow> string \<Rightarrow> string" where
  "Env_GetString environ p key =
     (let p = ensureLoaded environ p; envKey = getEnvKey p key
      in if envKey \<noteq> [] \<and> Getenv environ envKey \<noteq> [] then Getenv environ envKey
         else map_get [] (ep_data p) key)"

definition Env_GetInt :: "string list \<Rightarrow> EnvProvider \<Rightarrow> string \<Rightarrow> int" where
  "Env_GetInt environ p key =
     (let s = Env_GetString environ p key in if s = [] then 0 else fst (Atoi s))"

definition Env_GetBool :: "string list \<Rightarrow> EnvProvider \<Rightarrow> string \<Rightarrow> bool" where
  "Env_GetBool environ p key =
     (let s = Env_GetString environ p key
      in if s = [] then False else (case ParseBool s of Some b \<Rightarrow> b | None \<Rightarrow> False))"

definition Env_GetStringSlice :: "string list \<Rightarrow> EnvProvider \<Rightarrow> string \<Rightarrow> string list option" where
  "Env_GetStringSlice environ p key =
     (let s = Env_GetString environ p key in if s = [] then None else Some (Split s (CHR '','')))"

definition Env_IsSet :: "string list \<Rightarrow> EnvProvider \<Rightarrow> string \<Rightarrow> bool" where
  "Env_IsSet environ p key =
     (let p = ensureLoaded environ p; envKey = getEnvKey p key
      in if envKey \<noteq> [] then Getenv environ envKey \<noteq> [] else map_of (ep_data p) key \<noteq> None)"

definition env_provider :: "string list \<Rightarrow> EnvProvider \<Rightarrow> provider" where
  "env_provider environ p =
     \<lparr>pv_source = SourceEnv,
      pv_GetString = Env_GetString environ p, pv_GetInt = Env_GetInt environ p, pv_GetBool = Env_GetBool environ p,
      pv_GetStringSlice = Env_GetStringSlice environ p,
      pv_Get = \<lambda>key. Some (SetString (Env_GetString environ p key)), pv_IsSet = Env_IsSet environ p\<rparr>"

section \<open>Files\<close>

text \<open>
  The calls of viper the program makes, on a state of any type. Reading gives no error or one, and the
  state; \<open>vi_env\<close> is what the separate instance for \<^verbatim>\<open>.env\<close> has after \<^verbatim>\<open>MergeInConfig\<close>, \<open>None\<close> when that fails.
\<close>

record 'v viper =
  vi_New :: 'v
  vi_SetConfigFile :: "'v \<Rightarrow> string \<Rightarrow> 'v"
  vi_SetConfigType :: "'v \<Rightarrow> string \<Rightarrow> 'v"
  vi_ReadInConfig :: "'v \<Rightarrow> string option \<times> 'v"
  vi_env :: "(string \<times> setting) list option"
  vi_Set :: "'v \<Rightarrow> string \<Rightarrow> setting \<Rightarrow> 'v"
  vi_GetString :: "'v \<Rightarrow> string \<Rightarrow> string"
  vi_GetInt :: "'v \<Rightarrow> string \<Rightarrow> int"
  vi_GetBool :: "'v \<Rightarrow> string \<Rightarrow> bool"
  vi_GetStringSlice :: "'v \<Rightarrow> string \<Rightarrow> string list option"
  vi_Get :: "'v \<Rightarrow> string \<Rightarrow> setting option"
  vi_IsSet :: "'v \<Rightarrow> string \<Rightarrow> bool"

record 'v FileProvider =
  fp_v :: 'v
  fp_loaded :: bool
  fp_fileType :: string

definition NewFileProvider :: "'v viper \<Rightarrow> string \<Rightarrow> 'v FileProvider" where
  "NewFileProvider vi fileType = \<lparr>fp_v = vi_New vi, fp_loaded = False, fp_fileType = fileType\<rparr>"

definition SetConfigFile :: "'v viper \<Rightarrow> 'v FileProvider \<Rightarrow> string \<Rightarrow> 'v FileProvider" where
  "SetConfigFile vi p path = p\<lparr>fp_v := vi_SetConfigFile vi (fp_v p) path\<rparr>"

definition File_Load :: "'v viper \<Rightarrow> 'v FileProvider \<Rightarrow> string option \<times> 'v FileProvider" where
  "File_Load vi p =
     (let v = (if fp_fileType p \<noteq> [] then vi_SetConfigType vi (fp_v p) (fp_fileType p) else fp_v p);
          (err, v) = vi_ReadInConfig vi v
      in (err, p\<lparr>fp_v := v, fp_loaded := (err = None)\<rparr>))"

text \<open>The argument says whether \<^verbatim>\<open>.env\<close> is there.\<close>

definition LoadDotEnv :: "'v viper \<Rightarrow> bool \<Rightarrow> 'v FileProvider \<Rightarrow> 'v FileProvider" where
  "LoadDotEnv vi exists p =
     (if \<not> exists then p
      else case vi_env vi of
        None \<Rightarrow> p
      | Some entries \<Rightarrow> p\<lparr>fp_v := foldl (\<lambda>v (k, x). vi_Set vi v k x) (fp_v p) entries\<rparr>)"

definition file_provider :: "'v viper \<Rightarrow> 'v FileProvider \<Rightarrow> provider" where
  "file_provider vi p =
     \<lparr>pv_source = SourceFile,
      pv_GetString = vi_GetString vi (fp_v p), pv_GetInt = vi_GetInt vi (fp_v p), pv_GetBool = vi_GetBool vi (fp_v p),
      pv_GetStringSlice = vi_GetStringSlice vi (fp_v p), pv_Get = vi_Get vi (fp_v p), pv_IsSet = vi_IsSet vi (fp_v p)\<rparr>"

section \<open>The chain\<close>

text \<open>The sources in the order they are given, lowest priority first; all but \<^verbatim>\<open>IsSet\<close> go from the last to the first.\<close>

fun chain_GetString :: "provider list \<Rightarrow> string \<Rightarrow> string" where
  "chain_GetString [] key = []"
| "chain_GetString (p # ps) key =
     (let v = pv_GetString p key in if v \<noteq> [] then v else chain_GetString ps key)"

fun first_set :: "provider list \<Rightarrow> string \<Rightarrow> provider option" where
  "first_set [] key = None"
| "first_set (p # ps) key = (if pv_IsSet p key then Some p else first_set ps key)"

fun chain_GetStringSlice :: "provider list \<Rightarrow> string \<Rightarrow> string list option" where
  "chain_GetStringSlice [] key = None"
| "chain_GetStringSlice (p # ps) key =
     (case pv_GetStringSlice p key of Some v \<Rightarrow> Some v | None \<Rightarrow> chain_GetStringSlice ps key)"

fun chain_Get :: "provider list \<Rightarrow> string \<Rightarrow> setting option" where
  "chain_Get [] key = None"
| "chain_Get (p # ps) key = (case pv_Get p key of Some v \<Rightarrow> Some v | None \<Rightarrow> chain_Get ps key)"

definition Chain_GetString :: "provider list \<Rightarrow> string \<Rightarrow> string" where
  "Chain_GetString providers key = chain_GetString (rev providers) key"

definition Chain_GetInt :: "provider list \<Rightarrow> string \<Rightarrow> int" where
  "Chain_GetInt providers key = (case first_set (rev providers) key of Some p \<Rightarrow> pv_GetInt p key | None \<Rightarrow> 0)"

definition Chain_GetBool :: "provider list \<Rightarrow> string \<Rightarrow> bool" where
  "Chain_GetBool providers key = (case first_set (rev providers) key of Some p \<Rightarrow> pv_GetBool p key | None \<Rightarrow> False)"

definition Chain_GetStringSlice :: "provider list \<Rightarrow> string \<Rightarrow> string list option" where
  "Chain_GetStringSlice providers key = chain_GetStringSlice (rev providers) key"

definition Chain_Get :: "provider list \<Rightarrow> string \<Rightarrow> setting option" where
  "Chain_Get providers key = chain_Get (rev providers) key"

definition Chain_IsSet :: "provider list \<Rightarrow> string \<Rightarrow> bool" where
  "Chain_IsSet providers key = list_ex (\<lambda>p. pv_IsSet p key) providers"

section \<open>Its construction\<close>

text \<open>
  \<^verbatim>\<open>NewProviders\<close>; the extra defaults are merged in the order they come. Loading the files may fail, and this is
  ignored.
\<close>

definition NewProviders :: "(float64 \<Rightarrow> u64) \<Rightarrow> string list \<Rightarrow> 'v viper \<Rightarrow> bool \<Rightarrow> setting gomap \<Rightarrow> string \<Rightarrow> string
    \<Rightarrow> setting gomap list \<Rightarrow> provider list" where
  "NewProviders cv environ vi dotEnv flagValues cfgFile defaultConfigPath extraDefaults =
     (let flagProv = FlagProvider (set_flags [] flagValues);
          envProv = env_provider environ (Env_Load environ (NewEnvProvider []));
          fileProv = NewFileProvider vi ''toml'';
          fileProv = SetConfigFile vi fileProv (if cfgFile \<noteq> [] then cfgFile else defaultConfigPath);
          fileProv = LoadDotEnv vi dotEnv (snd (File_Load vi fileProv));
          defaults = foldl set_flags [] extraDefaults
      in [DefaultProvider cv defaults, envProv, file_provider vi fileProv, flagProv])"

end
