(* ===== verification/Populate.thy ===== *)
theory Populate
  imports Providers ServerConfig ClientConfig
begin

text \<open>
  \<^verbatim>\<open>internal/config/populate.go\<close>: how the fields of a configuration struct are filled from the chain of
  sources, by reflection over the tags of its type, and the two struct types of the program,
  \<^verbatim>\<open>ServerConfig\<close> and \<^verbatim>\<open>ClientConfig\<close>, as such descriptions. A value of a struct is the list of the
  values of its fields.
\<close>

section \<open>Types and values\<close>

datatype go_kind = KindString | KindInt | KindBool | KindStruct "struct_field list" | KindOther
and struct_field = Field (fd_Name: string) (fd_exported: bool) (fd_config: string) (fd_default: string) (fd_sources: string)
    (fd_kind: go_kind)

datatype go_value = ValString string | ValInt int | ValBool bool | ValStruct "go_value list" | ValOther

text \<open>The zero value of a type.\<close>

fun zero_value :: "go_kind \<Rightarrow> go_value" and zero_field :: "struct_field \<Rightarrow> go_value" where
  "zero_value KindString = ValString []"
| "zero_value KindInt = ValInt 0"
| "zero_value KindBool = ValBool False"
| "zero_value (KindStruct fs) = ValStruct (map zero_field fs)"
| "zero_value KindOther = ValOther"
| "zero_field (Field n ex c d s k) = zero_value k"

section \<open>Tags\<close>

definition source_of_name :: "string \<Rightarrow> source" where
  "source_of_name part =
     (let part = TrimSpace part in
      if part = ''default'' then SourceDefault
      else if part = ''env'' then SourceEnv
      else if part = ''file'' then SourceFile
      else if part = ''flag'' then SourceFlag
      else 0)"

definition parseSources :: "string \<Rightarrow> source" where
  "parseSources tag =
     (if tag = [] then 0 else foldl (\<lambda>s part. s OR source_of_name part) 0 (Split tag (CHR '','')))"

fun hasConfigFields :: "go_kind \<Rightarrow> bool" and has_config :: "struct_field \<Rightarrow> bool" where
  "hasConfigFields (KindStruct fs) = list_ex has_config fs"
| "hasConfigFields k = False"
| "has_config (Field n ex c d s k) = (c \<noteq> [] \<or> hasConfigFields k)"

section \<open>Filling a struct\<close>

text \<open>The error \<^verbatim>\<open>strconv\<close> returns for a text that is no number or out of range.\<close>

definition quote_text :: "string \<Rightarrow> string" where
  "quote_text s = [CHR ''\"''] @ s @ [CHR ''\"'']"

definition Atoi_error :: "string \<Rightarrow> go_error" where
  "Atoi_error s = Plain (''strconv.Atoi: parsing '' @ quote_text s @
     (if fst (Atoi s) = 0 then '': invalid syntax'' else '': value out of range''))"

definition ParseBool_error :: "string \<Rightarrow> go_error" where
  "ParseBool_error s = Plain (''strconv.ParseBool: parsing '' @ quote_text s @ '': invalid syntax'')"

definition setFromDefaultTag :: "go_kind \<Rightarrow> go_value \<Rightarrow> string \<Rightarrow> go_error + go_value" where
  "setFromDefaultTag kind fieldVal defaultTag =
     (case kind of
        KindString \<Rightarrow> Inr (ValString defaultTag)
      | KindInt \<Rightarrow>
          if snd (Atoi defaultTag) then Inr (ValInt (fst (Atoi defaultTag)))
          else Inl (Wrapped (''invalid default int value '' @ quote_text defaultTag) (Atoi_error defaultTag))
      | KindBool \<Rightarrow>
         (case ParseBool defaultTag of
            Some b \<Rightarrow> Inr (ValBool b)
          | None \<Rightarrow> Inl (Wrapped (''invalid default bool value '' @ quote_text defaultTag) (ParseBool_error defaultTag)))
      | _ \<Rightarrow> Inr fieldVal)"

text \<open>The loop over the sources, highest priority first; \<open>None\<close> when no source has the key.\<close>

fun first_source :: "go_kind \<Rightarrow> string \<Rightarrow> source \<Rightarrow> provider list \<Rightarrow> go_value option" where
  "first_source kind key sources [] = None"
| "first_source kind key sources (p # ps) =
     (if sources AND pv_source p = 0 then first_source kind key sources ps
      else case kind of
        KindString \<Rightarrow> if pv_IsSet p key then Some (ValString (pv_GetString p key)) else first_source kind key sources ps
      | KindInt \<Rightarrow> if pv_IsSet p key then Some (ValInt (pv_GetInt p key)) else first_source kind key sources ps
      | KindBool \<Rightarrow> if pv_IsSet p key then Some (ValBool (pv_GetBool p key)) else first_source kind key sources ps
      | _ \<Rightarrow> first_source kind key sources ps)"

definition populateField :: "go_kind \<Rightarrow> go_value \<Rightarrow> string \<Rightarrow> source \<Rightarrow> string \<Rightarrow> provider list \<Rightarrow> go_error + go_value" where
  "populateField kind fieldVal key sources defaultTag providers =
     (case first_source kind key sources (rev providers) of
        Some v \<Rightarrow> Inr v
      | None \<Rightarrow>
          if defaultTag \<noteq> [] \<and> sources AND SourceDefault \<noteq> 0 then setFromDefaultTag kind fieldVal defaultTag
          else Inr fieldVal)"

text \<open>The loop over the fields; the value of a field that is a struct is filled in its turn.\<close>

fun populateStruct :: "provider list \<Rightarrow> struct_field list \<Rightarrow> go_value list \<Rightarrow> go_error + go_value list"
  and populate_one :: "provider list \<Rightarrow> struct_field \<Rightarrow> go_value \<Rightarrow> go_error + go_value"
  and populate_nested :: "provider list \<Rightarrow> go_kind \<Rightarrow> go_value \<Rightarrow> go_error + go_value" where
  "populateStruct providers (f # fs) (v # vs) =
     (case populate_one providers f v of
        Inl e \<Rightarrow> Inl e
      | Inr v \<Rightarrow> map_sum id (Cons v) (populateStruct providers fs vs))"
| "populateStruct providers fs vs = Inr vs"
| "populate_one providers (Field name exported configKey defaultTag sourcesTag kind) fieldVal =
     (if \<not> exported then Inr fieldVal
      else if sourcesTag = [] then populate_nested providers kind fieldVal
      else if configKey = [] then
        Inl (Plain (''PopulateFromProvider: field '' @ name @ '' has sources tag but no config tag''))
      else case populateField kind fieldVal configKey (parseSources sourcesTag) defaultTag providers of
        Inl err \<Rightarrow> Inl (Wrapped (''field '' @ name) err)
      | Inr fieldVal \<Rightarrow> populate_nested providers kind fieldVal)"
| "populate_nested providers (KindStruct fs) (ValStruct vs) =
     (if hasConfigFields (KindStruct fs) then map_sum id ValStruct (populateStruct providers fs vs)
      else Inr (ValStruct vs))"
| "populate_nested providers kind fieldVal = Inr fieldVal"

section \<open>Defaults\<close>

definition parseDefault :: "string \<Rightarrow> go_kind \<Rightarrow> setting" where
  "parseDefault s kind =
     (case kind of
        KindInt \<Rightarrow> if snd (Atoi s) then SetInt (fst (Atoi s)) else SetString s
      | KindBool \<Rightarrow> (case ParseBool s of Some b \<Rightarrow> SetBool b | None \<Rightarrow> SetString s)
      | _ \<Rightarrow> SetString s)"

fun extractFromStruct :: "struct_field list \<Rightarrow> setting gomap \<Rightarrow> setting gomap"
  and extract_field :: "struct_field \<Rightarrow> setting gomap \<Rightarrow> setting gomap"
  and extract_kind :: "go_kind \<Rightarrow> setting gomap \<Rightarrow> setting gomap" where
  "extractFromStruct [] result = result"
| "extractFromStruct (f # fs) result = extractFromStruct fs (extract_field f result)"
| "extract_field (Field name exported configKey defaultVal sourcesTag kind) result =
     (if configKey \<noteq> [] \<and> defaultVal \<noteq> [] then AList.update configKey (parseDefault defaultVal kind) result
      else extract_kind kind result)"
| "extract_kind (KindStruct fs) result = extractFromStruct fs result"
| "extract_kind kind result = result"

definition ExtractDefaults :: "struct_field list list \<Rightarrow> setting gomap" where
  "ExtractDefaults cfgs = foldl (\<lambda>result fs. extractFromStruct fs result) [] cfgs"

end
