(* ===== verification/ConfigTypes.thy ===== *)
theory ConfigTypes
  imports Populate
begin

text \<open>
  The two configuration types with their tags, as \<^verbatim>\<open>internal/server/config.go\<close> and
  \<^verbatim>\<open>internal/client/config.go\<close> declare them, what the start of each program reads its configuration from, and
  the records the rest of the development has for them.
\<close>

section \<open>The types\<close>

abbreviation tagged :: "string \<Rightarrow> go_kind \<Rightarrow> string \<Rightarrow> string \<Rightarrow> string \<Rightarrow> struct_field" where
  "tagged name kind config dflt sources \<equiv> Field name True config dflt sources kind"

abbreviation untagged :: "string \<Rightarrow> go_kind \<Rightarrow> struct_field" where
  "untagged name kind \<equiv> Field name True [] [] [] kind"

definition MqttConfig_fields :: "struct_field list" where
  "MqttConfig_fields =
    [tagged ''TCPAddr'' KindString ''mqtt_tcp'' ''127.0.0.1:1883'' ''file,env,default'',
     tagged ''WSAddr'' KindString ''mqtt_ws'' ''127.0.0.1:8083'' ''file,env,default'']"

definition RedisConfig_fields :: "struct_field list" where
  "RedisConfig_fields =
    [tagged ''Addr'' KindString ''redis_addr'' ''127.0.0.1:6379'' ''file,env,default'',
     tagged ''Password'' KindString ''redis_password'' [] ''file,env'',
     tagged ''DB'' KindInt ''redis_db'' ''0'' ''file,env,default'']"

definition PgConfig_fields :: "struct_field list" where
  "PgConfig_fields =
    [tagged ''Host'' KindString ''pg_host'' ''127.0.0.1'' ''file,env,default'',
     tagged ''Port'' KindInt ''pg_port'' ''5432'' ''file,env,default'',
     tagged ''User'' KindString ''pg_user'' ''lepgs'' ''file,env,default'',
     tagged ''Password'' KindString ''pg_password'' [] ''file,env'',
     tagged ''DBName'' KindString ''pg_dbname'' ''lepgs'' ''file,env,default'',
     tagged ''SSLMode'' KindString ''pg_sslmode'' ''disable'' ''file,env,default'']"

definition ServerConfig_fields :: "struct_field list" where
  "ServerConfig_fields =
    [tagged ''Port'' KindInt ''port'' ''8883'' ''file,flag,env,default'',
     tagged ''LogLevel'' KindString ''log_level'' ''info'' ''file,env,default'',
     tagged ''LogPath'' KindString ''log_path'' ''logs/'' ''file,env,default'',
     tagged ''DataPath'' KindString ''data_path'' ''/var/cache/lepgs/lepgs.db'' ''file,env,default'',
     tagged ''LogMaxSize'' KindInt ''log_max_size'' ''10'' ''file,env,default'',
     tagged ''LogMaxBackups'' KindInt ''log_max_backups'' ''3'' ''file,env,default'',
     tagged ''LogMaxAge'' KindInt ''log_max_age'' ''28'' ''file,env,default'',
     untagged ''Mqtt'' (KindStruct MqttConfig_fields),
     untagged ''Redis'' (KindStruct RedisConfig_fields),
     untagged ''Pg'' (KindStruct PgConfig_fields),
     untagged ''Clients'' KindOther,
     untagged ''Outputs'' KindOther]"

definition PathsConfig_fields :: "struct_field list" where
  "PathsConfig_fields =
    [tagged ''LogPath'' KindString ''log_path'' ''logs/'' ''file,env,default'',
     tagged ''DataPath'' KindString ''data_path'' ''./data/data.db'' ''file,env,default'',
     tagged ''LogMaxSize'' KindInt ''log_max_size'' ''10'' ''file,env,default'',
     tagged ''LogMaxBackups'' KindInt ''log_max_backups'' ''3'' ''file,env,default'',
     tagged ''LogMaxAge'' KindInt ''log_max_age'' ''28'' ''file,env,default'']"

definition ClientConfig_fields :: "struct_field list" where
  "ClientConfig_fields =
    [tagged ''ServerUrl'' KindString ''server'' ''http://localhost'' ''file,flag,env,default'',
     tagged ''Port'' KindInt ''port'' ''8883'' ''file,flag,env,default'',
     tagged ''LogLevel'' KindString ''log_level'' ''info'' ''file,env,default'',
     tagged ''Sn'' KindString ''sn'' [] ''file,env'',
     tagged ''Token'' KindString ''token'' [] ''file,env'',
     tagged ''MaxRetry'' KindInt ''max_retry'' ''10'' ''file,env,default'',
     tagged ''RetryInterval'' KindInt ''retry_interval'' ''5000'' ''file,env,default'',
     tagged ''BufferSize'' KindInt ''buffer_size'' ''1000'' ''file,env,default'',
     tagged ''UploadBatchSize'' KindInt ''upload_batch_size'' ''100'' ''file,env,default'',
     tagged ''UploadInterval'' KindInt ''upload_interval'' ''5000'' ''file,env,default'',
     untagged ''Paths'' (KindStruct PathsConfig_fields),
     tagged ''ControlListenAddr'' KindString ''control.listen_addr'' ''127.0.0.1:9090'' ''file,env,default'',
     untagged ''Devices'' KindOther,
     untagged ''Mqtt'' KindOther]"

section \<open>The records of the types\<close>

fun string_of :: "go_value \<Rightarrow> string" where
  "string_of (ValString s) = s" | "string_of v = []"

fun int_of_value :: "go_value \<Rightarrow> int" where
  "int_of_value (ValInt n) = n" | "int_of_value v = 0"

fun fields_of :: "go_value \<Rightarrow> go_value list" where
  "fields_of (ValStruct vs) = vs" | "fields_of v = []"

definition ServerConfig_of :: "go_value list \<Rightarrow> ServerConfig" where
  "ServerConfig_of v =
     (let mq = fields_of (v ! 7); rd = fields_of (v ! 8); pg = fields_of (v ! 9) in
      \<lparr>sc_Port = int_of_value (v ! 0), sc_LogLevel = string_of (v ! 1), sc_LogPath = string_of (v ! 2),
       sc_DataPath = string_of (v ! 3), sc_LogMaxSize = int_of_value (v ! 4), sc_LogMaxBackups = int_of_value (v ! 5),
       sc_LogMaxAge = int_of_value (v ! 6),
       sc_Mqtt = \<lparr>mq_TCPAddr = string_of (mq ! 0), mq_WSAddr = string_of (mq ! 1)\<rparr>,
       sc_Redis = \<lparr>rc_Addr = string_of (rd ! 0), rc_Password = string_of (rd ! 1), rc_DB = int_of_value (rd ! 2)\<rparr>,
       sc_Pg = \<lparr>pg_Host = string_of (pg ! 0), pg_Port = int_of_value (pg ! 1), pg_User = string_of (pg ! 2),
         pg_Password = string_of (pg ! 3), pg_DBName = string_of (pg ! 4), pg_SSLMode = string_of (pg ! 5)\<rparr>,
       sc_Clients = [], sc_Outputs = []\<rparr>)"

definition ClientConfig_of :: "go_value list \<Rightarrow> ClientConfig" where
  "ClientConfig_of v =
     (let pa = fields_of (v ! 10) in
      \<lparr>cc_ServerUrl = string_of (v ! 0), cc_Port = int_of_value (v ! 1), cc_LogLevel = string_of (v ! 2),
       cc_Sn = string_of (v ! 3), cc_Token = string_of (v ! 4), cc_MaxRetry = int_of_value (v ! 5),
       cc_RetryInterval = int_of_value (v ! 6), cc_BufferSize = int_of_value (v ! 7),
       cc_UploadBatchSize = int_of_value (v ! 8), cc_UploadInterval = int_of_value (v ! 9),
       cc_Paths = \<lparr>pa_LogPath = string_of (pa ! 0), pa_DataPath = string_of (pa ! 1), pa_LogMaxSize = int_of_value (pa ! 2),
         pa_LogMaxBackups = int_of_value (pa ! 3), pa_LogMaxAge = int_of_value (pa ! 4)\<rparr>,
       cc_ControlListenAddr = string_of (v ! 11), cc_Devices = [], cc_Mqtt = None\<rparr>)"

text \<open>\<^verbatim>\<open>PopulateFromProvider\<close> on a zero struct of the type.\<close>

definition populate_server :: "provider list \<Rightarrow> go_error + ServerConfig" where
  "populate_server providers =
     map_sum id ServerConfig_of (populateStruct providers ServerConfig_fields (map zero_field ServerConfig_fields))"

definition populate_client :: "provider list \<Rightarrow> go_error + ClientConfig" where
  "populate_client providers =
     map_sum id ClientConfig_of (populateStruct providers ClientConfig_fields (map zero_field ClientConfig_fields))"

section \<open>The value of a field\<close>

text \<open>
  What is to be: of the sources its tag allows, the one of the highest priority that has the key gives the value;
  when none has it, the default.
\<close>

definition pick :: "provider list \<Rightarrow> source \<Rightarrow> (provider \<Rightarrow> string \<Rightarrow> 'a) \<Rightarrow> string \<Rightarrow> 'a \<Rightarrow> 'a" where
  "pick providers allowed get key dflt =
     (case find (\<lambda>p. allowed AND pv_source p \<noteq> 0 \<and> pv_IsSet p key) (rev providers) of
        Some p \<Rightarrow> get p key
      | None \<Rightarrow> dflt)"

definition with_default :: source where "with_default = SourceFile OR SourceEnv OR SourceDefault"
definition also_flag :: source where "also_flag = SourceFile OR SourceFlag OR SourceEnv OR SourceDefault"
definition no_default :: source where "no_default = SourceFile OR SourceEnv"

lemma first_source_find:
  "first_source KindString key sources ps
     = map_option (\<lambda>p. ValString (pv_GetString p key)) (find (\<lambda>p. sources AND pv_source p \<noteq> 0 \<and> pv_IsSet p key) ps)"
  "first_source KindInt key sources ps
     = map_option (\<lambda>p. ValInt (pv_GetInt p key)) (find (\<lambda>p. sources AND pv_source p \<noteq> 0 \<and> pv_IsSet p key) ps)"
  "first_source KindBool key sources ps
     = map_option (\<lambda>p. ValBool (pv_GetBool p key)) (find (\<lambda>p. sources AND pv_source p \<noteq> 0 \<and> pv_IsSet p key) ps)"
  by (induction ps) simp_all

lemma populateField_string:
  "populateField KindString (ValString []) key sources d ps =
     Inr (ValString (pick ps sources pv_GetString key (if sources AND SourceDefault \<noteq> 0 then d else [])))"
  by (simp add: populateField_def first_source_find pick_def setFromDefaultTag_def split: option.split)

lemma populateField_int:
  "snd (Atoi d) \<Longrightarrow> d \<noteq> [] \<Longrightarrow> sources AND SourceDefault \<noteq> 0 \<Longrightarrow>
   populateField KindInt (ValInt 0) key sources d ps = Inr (ValInt (pick ps sources pv_GetInt key (fst (Atoi d))))"
  by (simp add: populateField_def first_source_find pick_def setFromDefaultTag_def split: option.split)

lemma source_names: "source_of_name ''default'' = SourceDefault" "source_of_name ''env'' = SourceEnv"
  "source_of_name ''file'' = SourceFile" "source_of_name ''flag'' = SourceFlag"
  by (simp_all add: source_of_name_def TrimSpace_visible visible_def Let_def)

lemma tag_sources: "parseSources ''file,env,default'' = with_default"
  "parseSources ''file,flag,env,default'' = also_flag" "parseSources ''file,env'' = no_default"
  by (simp_all add: parseSources_def source_names with_default_def also_flag_def no_default_def or.assoc)

lemma tag_numbers: "Atoi ''0'' = (0, True)" "Atoi ''3'' = (3, True)" "Atoi ''10'' = (10, True)" "Atoi ''28'' = (28, True)"
  "Atoi ''100'' = (100, True)" "Atoi ''1000'' = (1000, True)" "Atoi ''5000'' = (5000, True)" "Atoi ''5432'' = (5432, True)"
  "Atoi ''8883'' = (8883, True)"
  by (simp_all add: Atoi_def ParseInt_def is_digit_def dec_val_def digit_val_def)

section \<open>The sources of the programs\<close>

text \<open>The defaults come from the tags of the type, the path of the file from the constants of the program.\<close>

definition server_NewProviders :: "(float64 \<Rightarrow> u64) \<Rightarrow> string list \<Rightarrow> 'v viper \<Rightarrow> bool \<Rightarrow> setting gomap \<Rightarrow> string \<Rightarrow> provider list" where
  "server_NewProviders cv environ vi dotEnv flagValues cfgFile =
     NewProviders cv environ vi dotEnv flagValues cfgFile ''config/server.toml'' [ExtractDefaults [ServerConfig_fields]]"

definition client_NewProviders :: "(float64 \<Rightarrow> u64) \<Rightarrow> string list \<Rightarrow> 'v viper \<Rightarrow> bool \<Rightarrow> setting gomap \<Rightarrow> string \<Rightarrow> provider list" where
  "client_NewProviders cv environ vi dotEnv flagValues cfgFile =
     NewProviders cv environ vi dotEnv flagValues cfgFile ''config/client.toml'' [ExtractDefaults [ClientConfig_fields]]"

definition server_GetDefaultValues :: "setting gomap" where
  "server_GetDefaultValues =
     AList.update ''config_path'' (SetString ''/etc/lepgs/config.toml'') (ExtractDefaults [ServerConfig_fields])"

definition client_GetDefaultValues :: "setting gomap" where
  "client_GetDefaultValues =
     AList.update ''config_path'' (SetString ''/etc/lepgc/config.toml'') (ExtractDefaults [ClientConfig_fields])"

end
