(* ===== verification/ConfigProps.thy ===== *)
theory ConfigProps
  imports ConfigTypes Client
begin

text \<open>
  What the configuration of the two programs is: each field has the value of the strongest source its tag
  allows, flags reach no other field than the address, the defaults of the tags and of the source of the
  defaults are the same, and a number in the environment that is none becomes zero.
\<close>

section \<open>Precedence\<close>

lemmas schema_defs = ServerConfig_fields_def MqttConfig_fields_def RedisConfig_fields_def PgConfig_fields_def
  ClientConfig_fields_def PathsConfig_fields_def

lemma sources_with_default [simp]:
  "with_default AND SourceDefault \<noteq> 0" "also_flag AND SourceDefault \<noteq> 0" "no_default AND SourceDefault = 0"
  "with_default AND SourceFlag = 0" "no_default AND SourceFlag = 0" "also_flag AND SourceFlag \<noteq> 0"
  "with_default AND SourceEnv \<noteq> 0" "also_flag AND SourceEnv \<noteq> 0" "no_default AND SourceEnv \<noteq> 0"
  "with_default AND SourceFile \<noteq> 0" "also_flag AND SourceFile \<noteq> 0" "no_default AND SourceFile \<noteq> 0"
  by (simp_all add: with_default_def also_flag_def no_default_def source_defs)

lemma populate_client_eq:
  "populate_client ps = Inr
     \<lparr>cc_ServerUrl = pick ps also_flag pv_GetString ''server'' ''http://localhost'',
      cc_Port = pick ps also_flag pv_GetInt ''port'' 8883,
      cc_LogLevel = pick ps with_default pv_GetString ''log_level'' ''info'',
      cc_Sn = pick ps no_default pv_GetString ''sn'' [],
      cc_Token = pick ps no_default pv_GetString ''token'' [],
      cc_MaxRetry = pick ps with_default pv_GetInt ''max_retry'' 10,
      cc_RetryInterval = pick ps with_default pv_GetInt ''retry_interval'' 5000,
      cc_BufferSize = pick ps with_default pv_GetInt ''buffer_size'' 1000,
      cc_UploadBatchSize = pick ps with_default pv_GetInt ''upload_batch_size'' 100,
      cc_UploadInterval = pick ps with_default pv_GetInt ''upload_interval'' 5000,
      cc_Paths = \<lparr>pa_LogPath = pick ps with_default pv_GetString ''log_path'' ''logs/'',
        pa_DataPath = pick ps with_default pv_GetString ''data_path'' ''./data/data.db'',
        pa_LogMaxSize = pick ps with_default pv_GetInt ''log_max_size'' 10,
        pa_LogMaxBackups = pick ps with_default pv_GetInt ''log_max_backups'' 3,
        pa_LogMaxAge = pick ps with_default pv_GetInt ''log_max_age'' 28\<rparr>,
      cc_ControlListenAddr = pick ps with_default pv_GetString ''control.listen_addr'' ''127.0.0.1:9090'',
      cc_Devices = [], cc_Mqtt = None\<rparr>"
  by (simp add: populate_client_def schema_defs tag_sources tag_numbers populateField_string populateField_int ClientConfig_of_def)

lemma populate_server_eq:
  "populate_server ps = Inr
     \<lparr>sc_Port = pick ps also_flag pv_GetInt ''port'' 8883,
      sc_LogLevel = pick ps with_default pv_GetString ''log_level'' ''info'',
      sc_LogPath = pick ps with_default pv_GetString ''log_path'' ''logs/'',
      sc_DataPath = pick ps with_default pv_GetString ''data_path'' ''/var/cache/lepgs/lepgs.db'',
      sc_LogMaxSize = pick ps with_default pv_GetInt ''log_max_size'' 10,
      sc_LogMaxBackups = pick ps with_default pv_GetInt ''log_max_backups'' 3,
      sc_LogMaxAge = pick ps with_default pv_GetInt ''log_max_age'' 28,
      sc_Mqtt = \<lparr>mq_TCPAddr = pick ps with_default pv_GetString ''mqtt_tcp'' ''127.0.0.1:1883'',
        mq_WSAddr = pick ps with_default pv_GetString ''mqtt_ws'' ''127.0.0.1:8083''\<rparr>,
      sc_Redis = \<lparr>rc_Addr = pick ps with_default pv_GetString ''redis_addr'' ''127.0.0.1:6379'',
        rc_Password = pick ps no_default pv_GetString ''redis_password'' [],
        rc_DB = pick ps with_default pv_GetInt ''redis_db'' 0\<rparr>,
      sc_Pg = \<lparr>pg_Host = pick ps with_default pv_GetString ''pg_host'' ''127.0.0.1'',
        pg_Port = pick ps with_default pv_GetInt ''pg_port'' 5432,
        pg_User = pick ps with_default pv_GetString ''pg_user'' ''lepgs'',
        pg_Password = pick ps no_default pv_GetString ''pg_password'' [],
        pg_DBName = pick ps with_default pv_GetString ''pg_dbname'' ''lepgs'',
        pg_SSLMode = pick ps with_default pv_GetString ''pg_sslmode'' ''disable''\<rparr>,
      sc_Clients = [], sc_Outputs = []\<rparr>"
  by (simp add: populate_server_def schema_defs tag_sources tag_numbers populateField_string populateField_int ServerConfig_of_def)

section \<open>Defaults\<close>

lemma find_append: "find P (xs @ ys) = (case find P xs of None \<Rightarrow> find P ys | Some x \<Rightarrow> Some x)"
  by (induction xs) simp_all

lemma pick_Cons:
  "pick (p # ps) allowed get key dflt
     = pick ps allowed get key (if allowed AND pv_source p \<noteq> 0 \<and> pv_IsSet p key then get p key else dflt)"
  by (simp add: pick_def find_append split: option.split)

lemma extracted_client:
  "ExtractDefaults [ClientConfig_fields] =
     [(''server'', SetString ''http://localhost''), (''port'', SetInt 8883), (''log_level'', SetString ''info''),
      (''max_retry'', SetInt 10), (''retry_interval'', SetInt 5000), (''buffer_size'', SetInt 1000),
      (''upload_batch_size'', SetInt 100), (''upload_interval'', SetInt 5000), (''log_path'', SetString ''logs/''),
      (''data_path'', SetString ''./data/data.db''), (''log_max_size'', SetInt 10), (''log_max_backups'', SetInt 3),
      (''log_max_age'', SetInt 28), (''control.listen_addr'', SetString ''127.0.0.1:9090'')]"
  by (simp add: ExtractDefaults_def schema_defs parseDefault_def tag_numbers)

lemma extracted_server:
  "ExtractDefaults [ServerConfig_fields] =
     [(''port'', SetInt 8883), (''log_level'', SetString ''info''), (''log_path'', SetString ''logs/''),
      (''data_path'', SetString ''/var/cache/lepgs/lepgs.db''), (''log_max_size'', SetInt 10),
      (''log_max_backups'', SetInt 3), (''log_max_age'', SetInt 28), (''mqtt_tcp'', SetString ''127.0.0.1:1883''),
      (''mqtt_ws'', SetString ''127.0.0.1:8083''), (''redis_addr'', SetString ''127.0.0.1:6379''), (''redis_db'', SetInt 0),
      (''pg_host'', SetString ''127.0.0.1''), (''pg_port'', SetInt 5432), (''pg_user'', SetString ''lepgs''),
      (''pg_dbname'', SetString ''lepgs''), (''pg_sslmode'', SetString ''disable'')]"
  by (simp add: ExtractDefaults_def schema_defs parseDefault_def tag_numbers)

lemma default_source:
  "pv_source (DefaultProvider cv m) = SourceDefault" "pv_IsSet (DefaultProvider cv m) key \<longleftrightarrow> map_of m key \<noteq> None"
  "map_of m key = Some (SetString s) \<Longrightarrow> pv_GetString (DefaultProvider cv m) key = s"
  "map_of m key = Some (SetInt n) \<Longrightarrow> pv_GetInt (DefaultProvider cv m) key = n"
  by (simp_all add: DefaultProvider_def)

lemma default_source_redundant:
  "populate_client (DefaultProvider cv (ExtractDefaults [ClientConfig_fields]) # ps) = populate_client ps"
  "populate_server (DefaultProvider cv (ExtractDefaults [ServerConfig_fields]) # ps) = populate_server ps"
  by (simp_all add: populate_client_eq populate_server_eq pick_Cons default_source extracted_client extracted_server)

section \<open>The chain of a program\<close>

text \<open>The sources of \<^verbatim>\<open>NewProviders\<close> and what is known of them.\<close>

lemma set_flags_get: "distinct (map fst fl) \<Longrightarrow> map_of (set_flags d fl) k = (case map_of fl k of None \<Rightarrow> map_of d k | Some v \<Rightarrow> Some v)"
proof (induction fl arbitrary: d)
  case (Cons e fl)
  obtain j v where e: "e = (j, v)" by fastforce
  have "map_of fl j = None" using Cons.prems e by (simp add: map_of_eq_None_iff)
  moreover have "map_of (set_flags d (e # fl)) k = map_of (set_flags (AList.update j v d) fl) k"
    by (simp add: set_flags_def e)
  ultimately show ?case using Cons e by (simp add: update_conv' split: option.split)
qed (simp add: set_flags_def)

lemma set_flags_self: "distinct (map fst fl) \<Longrightarrow> map_of (set_flags [] fl) = map_of fl"
  by (rule ext) (simp add: set_flags_get split: option.split)

definition env_source :: "string list \<Rightarrow> provider" where
  "env_source environ = env_provider environ (Env_Load environ (NewEnvProvider []))"

definition file_source :: "'v viper \<Rightarrow> bool \<Rightarrow> string \<Rightarrow> provider" where
  "file_source vi dotEnv path =
     file_provider vi (LoadDotEnv vi dotEnv (snd (File_Load vi (SetConfigFile vi (NewFileProvider vi ''toml'') path))))"

lemma NewProviders_eq:
  "NewProviders cv environ vi dotEnv flags cfgFile path [defaults]
     = [DefaultProvider cv (set_flags [] defaults), env_source environ,
        file_source vi dotEnv (if cfgFile \<noteq> [] then cfgFile else path), FlagProvider (set_flags [] flags)]"
  by (simp add: NewProviders_def env_source_def file_source_def Let_def)

lemma sources_of [simp]:
  "pv_source (env_source environ) = SourceEnv" "pv_source (file_source vi dotEnv path) = SourceFile"
  "pv_source (FlagProvider m) = SourceFlag" "pv_source (DefaultProvider cv m) = SourceDefault"
  by (simp_all add: env_source_def env_provider_def file_source_def file_provider_def FlagProvider_def DefaultProvider_def)

text \<open>Without a prefix and a mapping the name of a variable is the key in capitals.\<close>

lemma env_source_get:
  assumes "key \<noteq> []"
  shows "pv_IsSet (env_source environ) key \<longleftrightarrow> Getenv environ (ToUpper key) \<noteq> []"
    and "Getenv environ (ToUpper key) \<noteq> [] \<Longrightarrow> pv_GetString (env_source environ) key = Getenv environ (ToUpper key)"
    and "Getenv environ (ToUpper key) \<noteq> [] \<Longrightarrow> pv_GetInt (env_source environ) key = fst (Atoi (Getenv environ (ToUpper key)))"
  using assms
  by (simp_all add: env_source_def env_provider_def Env_IsSet_def Env_GetString_def Env_GetInt_def ensureLoaded_def
      Env_Load_def NewEnvProvider_def getEnvKey_def ToUpper_def Let_def)

lemma pick_chain:
  "pick [d, e, fl, fg] allowed get key dflt =
     (if allowed AND pv_source fg \<noteq> 0 \<and> pv_IsSet fg key then get fg key
      else if allowed AND pv_source fl \<noteq> 0 \<and> pv_IsSet fl key then get fl key
      else if allowed AND pv_source e \<noteq> 0 \<and> pv_IsSet e key then get e key
      else if allowed AND pv_source d \<noteq> 0 \<and> pv_IsSet d key then get d key else dflt)"
  by (simp add: pick_def)

text \<open>The configuration of the gateway, by source.\<close>

lemma extracted_self:
  "set_flags [] (ExtractDefaults [ClientConfig_fields]) = ExtractDefaults [ClientConfig_fields]"
  "set_flags [] (ExtractDefaults [ServerConfig_fields]) = ExtractDefaults [ServerConfig_fields]"
  by (simp_all add: extracted_client extracted_server set_flags_def)

lemma client_chain:
  "populate_client (client_NewProviders cv environ vi dotEnv flags cfgFile) = populate_client
     [env_source environ, file_source vi dotEnv (if cfgFile \<noteq> [] then cfgFile else ''config/client.toml''), FlagProvider (set_flags [] flags)]"
  by (simp only: client_NewProviders_def NewProviders_eq extracted_self default_source_redundant)

lemma server_chain:
  "populate_server (server_NewProviders cv environ vi dotEnv flags cfgFile) = populate_server
     [env_source environ, file_source vi dotEnv (if cfgFile \<noteq> [] then cfgFile else ''config/server.toml''), FlagProvider (set_flags [] flags)]"
  by (simp only: server_NewProviders_def NewProviders_eq extracted_self default_source_redundant)

section \<open>Properties\<close>

text \<open>
  The value of a key without flags: what the file has, or else the variable of that name in capitals if it is
  not empty, as \<open>read\<close> reads it, or else the default.
\<close>

definition file_or_env :: "provider \<Rightarrow> string list \<Rightarrow> (provider \<Rightarrow> string \<Rightarrow> 'a) \<Rightarrow> (string \<Rightarrow> 'a) \<Rightarrow> string \<Rightarrow> 'a \<Rightarrow> 'a" where
  "file_or_env file environ get read key dflt =
     (if pv_IsSet file key then get file key
      else let v = Getenv environ (ToUpper key) in if v \<noteq> [] then read v else dflt)"

definition text_setting :: "provider \<Rightarrow> string list \<Rightarrow> string \<Rightarrow> string \<Rightarrow> string" where
  "text_setting file environ = file_or_env file environ pv_GetString id"

definition number_setting :: "provider \<Rightarrow> string list \<Rightarrow> string \<Rightarrow> int \<Rightarrow> int" where
  "number_setting file environ = file_or_env file environ pv_GetInt (fst \<circ> Atoi)"

lemma pick_file_or_env:
  assumes "key \<noteq> []" and "pv_source file = SourceFile" and "pv_source fg = SourceFlag"
  shows "pick [env_source environ, file, fg] with_default pv_GetString key t = text_setting file environ key t"
    and "pick [env_source environ, file, fg] with_default pv_GetInt key n = number_setting file environ key n"
    and "pick [env_source environ, file, fg] no_default pv_GetString key t = text_setting file environ key t"
    and "pick [env_source environ, file, fg] also_flag pv_GetString key t
       = (if pv_IsSet fg key then pv_GetString fg key else text_setting file environ key t)"
    and "pick [env_source environ, file, fg] also_flag pv_GetInt key n
       = (if pv_IsSet fg key then pv_GetInt fg key else number_setting file environ key n)"
  using assms
  by (simp_all add: pick_def text_setting_def number_setting_def file_or_env_def env_source_get Let_def)

lemma FlagProvider_get:
  "pv_IsSet (FlagProvider m) key \<longleftrightarrow> map_of m key \<noteq> None"
  "map_of m key = Some (SetString s) \<Longrightarrow> pv_GetString (FlagProvider m) key = s"
  "map_of m key = Some (SetInt n) \<Longrightarrow> pv_GetInt (FlagProvider m) key = n"
  by (simp_all add: FlagProvider_def)

lemma client_configuration_eq:
  assumes "file = file_source vi dotEnv (if cfgFile \<noteq> [] then cfgFile else ''config/client.toml'')"
    and "distinct (map fst flags)"
  shows "populate_client (client_NewProviders cv environ vi dotEnv flags cfgFile) = Inr
     \<lparr>cc_ServerUrl = (if map_of flags ''server'' \<noteq> None then pv_GetString (FlagProvider flags) ''server''
        else text_setting file environ ''server'' ''http://localhost''),
      cc_Port = (if map_of flags ''port'' \<noteq> None then pv_GetInt (FlagProvider flags) ''port''
        else number_setting file environ ''port'' 8883),
      cc_LogLevel = text_setting file environ ''log_level'' ''info'',
      cc_Sn = text_setting file environ ''sn'' [],
      cc_Token = text_setting file environ ''token'' [],
      cc_MaxRetry = number_setting file environ ''max_retry'' 10,
      cc_RetryInterval = number_setting file environ ''retry_interval'' 5000,
      cc_BufferSize = number_setting file environ ''buffer_size'' 1000,
      cc_UploadBatchSize = number_setting file environ ''upload_batch_size'' 100,
      cc_UploadInterval = number_setting file environ ''upload_interval'' 5000,
      cc_Paths = \<lparr>pa_LogPath = text_setting file environ ''log_path'' ''logs/'',
        pa_DataPath = text_setting file environ ''data_path'' ''./data/data.db'',
        pa_LogMaxSize = number_setting file environ ''log_max_size'' 10,
        pa_LogMaxBackups = number_setting file environ ''log_max_backups'' 3,
        pa_LogMaxAge = number_setting file environ ''log_max_age'' 28\<rparr>,
      cc_ControlListenAddr = text_setting file environ ''control.listen_addr'' ''127.0.0.1:9090'',
      cc_Devices = [], cc_Mqtt = None\<rparr>"
proof -
  have "FlagProvider (set_flags [] flags) = FlagProvider flags"
    by (simp add: FlagProvider_def set_flags_self [OF assms(2)])
  then show ?thesis
    unfolding client_chain assms(1) [symmetric]
    by (simp add: populate_client_eq pick_file_or_env FlagProvider_get
        sources_of(2) [of vi dotEnv "if cfgFile \<noteq> [] then cfgFile else ''config/client.toml''", folded assms(1)])
qed


text \<open>A viper over a list of entries, for the examples.\<close>

definition list_viper :: "setting gomap \<Rightarrow> setting gomap viper" where
  "list_viper content =
     \<lparr>vi_New = [], vi_SetConfigFile = \<lambda>v path. v, vi_SetConfigType = \<lambda>v typ. v,
      vi_ReadInConfig = \<lambda>v. (None, content), vi_env = None, vi_Set = \<lambda>v k x. AList.update k x v,
      vi_GetString = pv_GetString \<circ> FlagProvider, vi_GetInt = pv_GetInt \<circ> FlagProvider,
      vi_GetBool = pv_GetBool \<circ> FlagProvider, vi_GetStringSlice = pv_GetStringSlice \<circ> FlagProvider,
      vi_Get = pv_Get \<circ> FlagProvider, vi_IsSet = pv_IsSet \<circ> FlagProvider\<rparr>"

lemma list_viper_source:
  "file_source (list_viper content) False path = (FlagProvider content)\<lparr>pv_source := SourceFile\<rparr>"
  by (simp add: file_source_def file_provider_def list_viper_def LoadDotEnv_def File_Load_def SetConfigFile_def
      NewFileProvider_def FlagProvider_def Let_def)

lemma upper_max_retry: "ToUpper ''max_retry'' = ''MAX_RETRY''"
  by (simp add: ToUpper_def upper_def char_of_def bit_Suc_0_iff)


text \<open>
  The defaults of a configuration type are given twice, by the source of the defaults that \<^verbatim>\<open>ExtractDefaults\<close>
  makes and by the tags themselves when no source has the key; both ways give the same configuration, of the
  gateway and of the server, whatever the other sources are.
\<close>

theorem defaults_of_tags_and_source_agree:
  "populate_client (DefaultProvider cv (ExtractDefaults [ClientConfig_fields]) # ps) = populate_client ps
   \<and> populate_server (DefaultProvider cv (ExtractDefaults [ServerConfig_fields]) # ps) = populate_server ps"
  by (simp add: default_source_redundant)

lemma InitClientConfig_scalars:
  assumes "InitClientConfig (Inr c) u b = Inr cfg"
  shows "cfg = c\<lparr>cc_Devices := cc_Devices cfg, cc_Mqtt := cc_Mqtt cfg\<rparr>"
  using assms by (auto simp: InitClientConfig_def split: sum.splits option.splits if_splits)

text \<open>
  C32. A number of the environment that cannot be read is taken for zero without an error. When \<^verbatim>\<open>MAX_RETRY\<close> is
  not a number and the file does not set it, the gateway accepts its configuration, and then gives up every
  connection without having dialled once.
\<close>

theorem garbled_retry_count_never_dials:
  assumes "\<not> pv_IsSet (file_source vi dotEnv (if cfgFile \<noteq> [] then cfgFile else ''config/client.toml'')) ''max_retry''"
    and "Getenv environ ''MAX_RETRY'' = c # v" and "c \<notin> {CHR ''+'', CHR ''-''}" and "\<not> list_all is_digit (c # v)"
    and "distinct (map fst flags)"
    and "InitClientConfig (populate_client (client_NewProviders cv environ vi dotEnv flags cfgFile)) u True = Inr cfg"
  shows "dialWithRetry dial cancelled cfg = (GaveUp, [])"
proof -
  obtain c0 where c0: "populate_client (client_NewProviders cv environ vi dotEnv flags cfgFile) = Inr c0"
    and "cc_MaxRetry c0 = number_setting (file_source vi dotEnv (if cfgFile \<noteq> [] then cfgFile else ''config/client.toml'')) environ ''max_retry'' 10"
    unfolding client_chain unfolding populate_client_eq by (simp add: pick_file_or_env)
  moreover have "ToUpper ''max_retry'' = ''MAX_RETRY''" by (rule upper_max_retry)
  moreover have "fst (Atoi (c # v)) = 0"
    using assms(3,4) by (auto simp: Atoi_def ParseInt_def HasPrefix_def)
  ultimately have "cc_MaxRetry c0 = 0"
    using assms(1,2) by (simp add: number_setting_def file_or_env_def)
  moreover have "InitClientConfig (Inr c0) u True = Inr cfg" using assms(6) c0 by simp
  from arg_cong [OF InitClientConfig_scalars [OF this], of cc_MaxRetry] have "cc_MaxRetry cfg = cc_MaxRetry c0" by simp
  ultimately have "cc_MaxRetry cfg = 0" by simp
  then show ?thesis by (simp add: dialWithRetry_def)
qed

theorem garbled_retry_count_never_dials_witness:
  "\<exists>cfg. InitClientConfig (populate_client (client_NewProviders (\<lambda>_. 0) [''SN=s'', ''TOKEN=t'', ''MAX_RETRY=ten''] (list_viper []) False [] []))
        (Inr [], Inr None) True = Inr cfg
     \<and> dialWithRetry (\<lambda>_. Some (sample_conn [])) (\<lambda>_. False) cfg = (GaveUp, [])"
proof -
  let ?e = "[''SN=s'', ''TOKEN=t'', ''MAX_RETRY=ten'']"
  have names: "ToUpper ''sn'' = ''SN''" "ToUpper ''token'' = ''TOKEN''" "ToUpper ''port'' = ''PORT''" "ToUpper ''log_level'' = ''LOG_LEVEL''"
    "ToUpper ''retry_interval'' = ''RETRY_INTERVAL''" "ToUpper ''buffer_size'' = ''BUFFER_SIZE''"
    "ToUpper ''upload_batch_size'' = ''UPLOAD_BATCH_SIZE''" "ToUpper ''upload_interval'' = ''UPLOAD_INTERVAL''"
    "ToUpper ''data_path'' = ''DATA_PATH''"
    by (simp_all add: ToUpper_def upper_def char_of_def bit_Suc_0_iff)
  have fs: "file_source (list_viper []) False path = (FlagProvider [])\<lparr>pv_source := SourceFile\<rparr>" for path
    by (rule list_viper_source)
  have d: "distinct (map fst ([] :: setting gomap))" by simp
  obtain c where c: "populate_client (client_NewProviders (\<lambda>_. 0) ?e (list_viper []) False [] []) = Inr c"
    and fields: "cc_Sn c = ''s''" "cc_Token c = ''t''" "cc_Port c = 8883" "cc_LogLevel c = ''info''" "cc_MaxRetry c = 0"
      "cc_RetryInterval c = 5000" "cc_BufferSize c = 1000" "cc_UploadBatchSize c = 100" "cc_UploadInterval c = 5000"
      "pa_DataPath (cc_Paths c) = ''./data/data.db''"
    using client_configuration_eq [OF refl d, of "(\<lambda>_. 0)" ?e "list_viper []" False "[]"]
    by (simp add: fs text_setting_def number_setting_def file_or_env_def FlagProvider_def names upper_max_retry SplitN2_def Let_def
        Atoi_def ParseInt_def HasPrefix_def is_digit_def)
  have cfg: "InitClientConfig (populate_client (client_NewProviders (\<lambda>_. 0) ?e (list_viper []) False [] [])) (Inr [], Inr None) True
      = Inr (c\<lparr>cc_Devices := []\<rparr>)"
    unfolding c using fields by (simp add: InitClientConfig_def Client_Validate_def client_validLevels_def NewConfigValidationErrors_def)
  have "dialWithRetry (\<lambda>_. Some (sample_conn [])) (\<lambda>_. False) (c\<lparr>cc_Devices := []\<rparr>) = (GaveUp, [])"
    by (rule garbled_retry_count_never_dials [OF _ _ _ _ _ cfg, of "CHR ''t''" "''en''"])
       (simp_all add: fs FlagProvider_def SplitN2_def is_digit_def)
  with cfg show ?thesis by blast
qed

end
