(* ===== verification/Pipeline.thy ===== *)
theory Pipeline
  imports ClientProps Publish
begin

text \<open>
  The goroutines of \<^verbatim>\<open>MainFunc\<close> in \<^verbatim>\<open>internal/client/client.go\<close> between the producers of readings and the local
  store: the channel the Modbus and MQTT producers send on, the goroutine that passes each reading on to
  two channels, the one that publishes and the one that writes to the store. The three channels hold
  \<open>B\<close> readings, the \<^verbatim>\<open>BufferSize\<close> of the configuration, which validation makes positive. A label is one
  communication or return of one goroutine; the model says in which states it can happen and what it
  does. \<open>pub\<close> is the call of the MQTT client of \<^verbatim>\<open>clientPub\<close>, or none when this pointer is nil. The history fields
  record what has been sent, what each of the two goroutines has taken from its channel, and for each call of
  \<^verbatim>\<open>PublishReading\<close> that has returned its reading and its error.
\<close>

section \<open>States and steps\<close>

datatype fan_state = FanRange | FanToPub Reading | FanToLocal Reading | FanReturned

datatype pub_state = PubRange | PubCall Reading | PubReturned

record ('s, 'p) pipeline =
  pl_ch :: "Reading list"
  pl_closed :: bool \<comment> \<open>all producers have returned and \<^verbatim>\<open>ch\<close> is closed\<close>
  pl_fan :: fan_state
  pl_pubCh :: "Reading list"
  pl_localCh :: "Reading list"
  pl_pub :: pub_state
  pl_writer :: "'s \<times> CachedReading list"
  pl_writer_returned :: bool
  pl_done :: bool \<comment> \<open>the context is cancelled\<close>
  pl_sent :: "Reading list"
  pl_received :: "Reading list" \<comment> \<open>taken by the publisher\<close>
  pl_taken :: "Reading list" \<comment> \<open>taken by the writer\<close>
  pl_client :: 'p
  pl_published :: "(Reading \<times> publish_error option) list"

datatype 'p pipe_label =
    Produce Reading | ProducersReturn | FanReceive | FanPub | FanLocal | FanEnd
  | PubReceive | PubReturn | PubEnd | WriterStep writer_event | UploadMark "u64 list" UploadStatus | ClientChanges 'p
  | CancelContext

text \<open>The channels to the publisher and to the writer are closed when the goroutine between returns.\<close>

abbreviation outs_closed :: "('s, 'p) pipeline \<Rightarrow> bool" where
  "outs_closed s \<equiv> pl_fan s = FanReturned"

definition writer_ready :: "writer_event \<Rightarrow> ('s, 'p) pipeline \<Rightarrow> bool" where
  "writer_ready e s \<longleftrightarrow> \<not> pl_writer_returned s \<and>
     (case e of
        Incoming r \<Rightarrow> (case pl_localCh s of x # _ \<Rightarrow> x = r | [] \<Rightarrow> False)
      | ChannelClosed \<Rightarrow> outs_closed s \<and> pl_localCh s = []
      | WriterTick \<Rightarrow> True
      | WriterCtxDone \<Rightarrow> pl_done s)"

text \<open>\<^verbatim>\<open>consumeAndWrite\<close> is called with batches of ten.\<close>

definition writer_step :: "'s cache_ops \<Rightarrow> writer_event \<Rightarrow> ('s, 'p) pipeline \<Rightarrow> ('s, 'p) pipeline" where
  "writer_step ops e s =
     (let (returned, w) = consumeAndWrite ops 10 [(e, pl_done s)] (pl_writer s);
          s = s\<lparr>pl_writer := w, pl_writer_returned := returned\<rparr>
      in case e of
           Incoming r \<Rightarrow> s\<lparr>pl_localCh := tl (pl_localCh s), pl_taken := pl_taken s @ [r]\<rparr>
         | _ \<Rightarrow> s)"

text \<open>What the publisher does with a reading it has received; it goes on after an error.\<close>

definition publish_received :: "'p mqtt_publish option \<Rightarrow> Reading \<Rightarrow> ('s, 'p) pipeline \<Rightarrow> ('s, 'p) pipeline" where
  "publish_received pub r s =
     (case pub of
        None \<Rightarrow> s
      | Some publish \<Rightarrow>
          let (err, p) = PublishReading publish (pl_client s) r
          in s\<lparr>pl_client := p, pl_published := pl_published s @ [(r, err)]\<rparr>)"

text \<open>
  The steps of the rest of the program are \<open>UploadMark\<close>, where the upload loop marks rows, and \<open>ClientChanges\<close>, where the
  control server or the library itself changes the state of the MQTT client.
\<close>

fun pipe_do :: "'p mqtt_publish option \<Rightarrow> 's cache_ops \<Rightarrow> nat \<Rightarrow> 'p pipe_label \<Rightarrow> ('s, 'p) pipeline \<Rightarrow> ('s, 'p) pipeline option" where
  "pipe_do pub ops B (Produce r) s =
     (if \<not> pl_closed s \<and> length (pl_ch s) < B
      then Some (s\<lparr>pl_ch := pl_ch s @ [r], pl_sent := pl_sent s @ [r]\<rparr>) else None)"
| "pipe_do pub ops B ProducersReturn s = (if \<not> pl_closed s then Some (s\<lparr>pl_closed := True\<rparr>) else None)"
| "pipe_do pub ops B FanReceive s =
     (case (pl_fan s, pl_ch s) of
        (FanRange, r # rs) \<Rightarrow> Some (s\<lparr>pl_ch := rs, pl_fan := FanToPub r\<rparr>)
      | _ \<Rightarrow> None)"
| "pipe_do pub ops B FanPub s =
     (case pl_fan s of
        FanToPub r \<Rightarrow>
          if length (pl_pubCh s) < B then Some (s\<lparr>pl_pubCh := pl_pubCh s @ [r], pl_fan := FanToLocal r\<rparr>) else None
      | _ \<Rightarrow> None)"
| "pipe_do pub ops B FanLocal s =
     (case pl_fan s of
        FanToLocal r \<Rightarrow>
          if length (pl_localCh s) < B then Some (s\<lparr>pl_localCh := pl_localCh s @ [r], pl_fan := FanRange\<rparr>) else None
      | _ \<Rightarrow> None)"
| "pipe_do pub ops B FanEnd s =
     (if pl_fan s = FanRange \<and> pl_ch s = [] \<and> pl_closed s then Some (s\<lparr>pl_fan := FanReturned\<rparr>) else None)"
| "pipe_do pub ops B PubReceive s =
     (case (pl_pub s, pl_pubCh s) of
        (PubRange, r # rs) \<Rightarrow> Some (s\<lparr>pl_pubCh := rs, pl_pub := PubCall r, pl_received := pl_received s @ [r]\<rparr>)
      | _ \<Rightarrow> None)"
| "pipe_do pub ops B PubReturn s =
     (case pl_pub s of PubCall r \<Rightarrow> Some (publish_received pub r (s\<lparr>pl_pub := PubRange\<rparr>)) | _ \<Rightarrow> None)"
| "pipe_do pub ops B PubEnd s =
     (if pl_pub s = PubRange \<and> pl_pubCh s = [] \<and> outs_closed s then Some (s\<lparr>pl_pub := PubReturned\<rparr>) else None)"
| "pipe_do pub ops B (WriterStep e) s = (if writer_ready e s then Some (writer_step ops e s) else None)"
| "pipe_do pub ops B (UploadMark ids st) s =
     Some (s\<lparr>pl_writer := (snd (cs_UpdateReadingsStatus ops (pl_done s) (fst (pl_writer s)) ids st), snd (pl_writer s))\<rparr>)"
| "pipe_do pub ops B (ClientChanges p) s = Some (s\<lparr>pl_client := p\<rparr>)"
| "pipe_do pub ops B CancelContext s = Some (s\<lparr>pl_done := True\<rparr>)"

fun pipe_run :: "'p mqtt_publish option \<Rightarrow> 's cache_ops \<Rightarrow> nat \<Rightarrow> 'p pipe_label list \<Rightarrow> ('s, 'p) pipeline \<Rightarrow> ('s, 'p) pipeline option" where
  "pipe_run pub ops B [] s = Some s"
| "pipe_run pub ops B (l # ls) s = (case pipe_do pub ops B l s of None \<Rightarrow> None | Some s \<Rightarrow> pipe_run pub ops B ls s)"

definition pipe_start :: "'s \<Rightarrow> 'p \<Rightarrow> ('s, 'p) pipeline" where
  "pipe_start store client =
     \<lparr>pl_ch = [], pl_closed = False, pl_fan = FanRange, pl_pubCh = [], pl_localCh = [], pl_pub = PubRange,
      pl_writer = (store, []), pl_writer_returned = False, pl_done = False,
      pl_sent = [], pl_received = [], pl_taken = [], pl_client = client, pl_published = []\<rparr>"

inductive pipe_reach :: "'p mqtt_publish option \<Rightarrow> 's cache_ops \<Rightarrow> nat \<Rightarrow> 's \<Rightarrow> 'p \<Rightarrow> ('s, 'p) pipeline \<Rightarrow> bool" for pub ops B store client where
  reach_start: "pipe_reach pub ops B store client (pipe_start store client)"
| reach_step: "pipe_reach pub ops B store client s \<Longrightarrow> pipe_do pub ops B l s = Some s' \<Longrightarrow> pipe_reach pub ops B store client s'"

text \<open>All goroutines of the pipeline have returned.\<close>

definition all_returned :: "('s, 'p) pipeline \<Rightarrow> bool" where
  "all_returned s \<longleftrightarrow> pl_closed s \<and> pl_fan s = FanReturned \<and> pl_pub s = PubReturned \<and> pl_writer_returned s"

section \<open>Invariants\<close>

definition to_pub :: "('s, 'p) pipeline \<Rightarrow> Reading list" where
  "to_pub s = (case pl_fan s of FanToPub r \<Rightarrow> [r] | _ \<Rightarrow> [])"

definition to_local :: "('s, 'p) pipeline \<Rightarrow> Reading list" where
  "to_local s = (case pl_fan s of FanToLocal r \<Rightarrow> [r] | _ \<Rightarrow> [])"

definition pipe_inv :: "nat \<Rightarrow> ('s, 'p) pipeline \<Rightarrow> bool" where
  "pipe_inv B s \<longleftrightarrow>
     pl_sent s = pl_received s @ pl_pubCh s @ to_pub s @ pl_ch s
   \<and> pl_received s @ pl_pubCh s = pl_taken s @ pl_localCh s @ to_local s
   \<and> length (pl_ch s) \<le> B \<and> length (pl_pubCh s) \<le> B \<and> length (pl_localCh s) \<le> B
   \<and> (pl_fan s = FanReturned \<longrightarrow> pl_closed s \<and> pl_ch s = [])
   \<and> (pl_pub s = PubReturned \<longrightarrow> outs_closed s \<and> pl_pubCh s = [])
   \<and> (pl_writer_returned s \<longrightarrow> pl_done s \<or> outs_closed s \<and> pl_localCh s = [])"

lemma writer_step_simps [simp]:
  "pl_ch (writer_step ops e s) = pl_ch s" "pl_closed (writer_step ops e s) = pl_closed s"
  "pl_fan (writer_step ops e s) = pl_fan s" "pl_pubCh (writer_step ops e s) = pl_pubCh s"
  "pl_pub (writer_step ops e s) = pl_pub s" "pl_done (writer_step ops e s) = pl_done s"
  "pl_sent (writer_step ops e s) = pl_sent s" "pl_received (writer_step ops e s) = pl_received s"
  "pl_localCh (writer_step ops e s) = (case e of Incoming r \<Rightarrow> tl (pl_localCh s) | _ \<Rightarrow> pl_localCh s)"
  "pl_taken (writer_step ops e s) = (case e of Incoming r \<Rightarrow> pl_taken s @ [r] | _ \<Rightarrow> pl_taken s)"
  "pl_writer (writer_step ops e s) = snd (consumeAndWrite ops 10 [(e, pl_done s)] (pl_writer s))"
  "pl_client (writer_step ops e s) = pl_client s" "pl_published (writer_step ops e s) = pl_published s"
  "pl_writer_returned (writer_step ops e s) = (e = ChannelClosed \<or> e = WriterCtxDone)"
  by (simp_all add: writer_step_def Let_def split_beta split: writer_event.split)

lemma publish_received_simps [simp]:
  "pl_ch (publish_received pub r s) = pl_ch s" "pl_closed (publish_received pub r s) = pl_closed s"
  "pl_fan (publish_received pub r s) = pl_fan s" "pl_pubCh (publish_received pub r s) = pl_pubCh s"
  "pl_localCh (publish_received pub r s) = pl_localCh s" "pl_pub (publish_received pub r s) = pl_pub s"
  "pl_writer (publish_received pub r s) = pl_writer s" "pl_writer_returned (publish_received pub r s) = pl_writer_returned s"
  "pl_done (publish_received pub r s) = pl_done s" "pl_sent (publish_received pub r s) = pl_sent s"
  "pl_received (publish_received pub r s) = pl_received s" "pl_taken (publish_received pub r s) = pl_taken s"
  by (simp_all add: publish_received_def split_beta split: option.split)

lemma pipe_inv_start: "pipe_inv B (pipe_start store client)"
  by (simp add: pipe_inv_def pipe_start_def to_pub_def to_local_def)

lemma pipe_inv_step:
  assumes inv: "pipe_inv B s" and step: "pipe_do pub ops B l s = Some s'"
  shows "pipe_inv B s'"
proof (cases l)
  case (Produce r)
  then have "\<not> pl_closed s" "length (pl_ch s) < B" "s' = s\<lparr>pl_ch := pl_ch s @ [r], pl_sent := pl_sent s @ [r]\<rparr>"
    using step by (simp_all split: if_splits)
  then show ?thesis using inv by (cases "pl_fan s") (simp_all add: pipe_inv_def to_pub_def to_local_def)
next
  case ProducersReturn
  then have "s' = s\<lparr>pl_closed := True\<rparr>" using step by (simp split: if_splits)
  then show ?thesis using inv by (simp add: pipe_inv_def to_pub_def to_local_def)
next
  case FanReceive
  obtain r rs where "pl_fan s = FanRange" "pl_ch s = r # rs" "s' = s\<lparr>pl_ch := rs, pl_fan := FanToPub r\<rparr>"
    using step FanReceive by (simp split: fan_state.splits list.splits)
  then show ?thesis using inv by (simp add: pipe_inv_def to_pub_def to_local_def)
next
  case FanPub
  obtain r where "pl_fan s = FanToPub r" "length (pl_pubCh s) < B" "s' = s\<lparr>pl_pubCh := pl_pubCh s @ [r], pl_fan := FanToLocal r\<rparr>"
    using step FanPub by (simp split: fan_state.splits if_splits)
  moreover have "pl_received s @ pl_pubCh s = xs \<Longrightarrow> pl_received s @ pl_pubCh s @ ys = xs @ ys" for xs ys
    by (metis append.assoc)
  ultimately show ?thesis using inv by (simp add: pipe_inv_def to_pub_def to_local_def)
next
  case FanLocal
  obtain r where "pl_fan s = FanToLocal r" "length (pl_localCh s) < B" "s' = s\<lparr>pl_localCh := pl_localCh s @ [r], pl_fan := FanRange\<rparr>"
    using step FanLocal by (simp split: fan_state.splits if_splits)
  then show ?thesis using inv by (simp add: pipe_inv_def to_pub_def to_local_def)
next
  case FanEnd
  then have "pl_fan s = FanRange" "pl_ch s = []" "pl_closed s" "s' = s\<lparr>pl_fan := FanReturned\<rparr>"
    using step by (simp_all split: if_splits)
  then show ?thesis using inv by (simp add: pipe_inv_def to_pub_def to_local_def)
next
  case PubReceive
  obtain r rs where "pl_pub s = PubRange" "pl_pubCh s = r # rs"
      "s' = s\<lparr>pl_pubCh := rs, pl_pub := PubCall r, pl_received := pl_received s @ [r]\<rparr>"
    using step PubReceive by (simp split: pub_state.splits list.splits)
  then show ?thesis using inv by (simp add: pipe_inv_def to_pub_def to_local_def)
next
  case PubReturn
  then obtain r where "pl_pub s = PubCall r" "s' = publish_received pub r (s\<lparr>pl_pub := PubRange\<rparr>)"
    using step by (simp split: pub_state.splits)
  then show ?thesis using inv by (simp add: pipe_inv_def to_pub_def to_local_def)
next
  case PubEnd
  then have "pl_pubCh s = []" "outs_closed s" "s' = s\<lparr>pl_pub := PubReturned\<rparr>"
    using step by (simp_all split: if_splits)
  then show ?thesis using inv by (simp add: pipe_inv_def to_pub_def to_local_def)
next
  case (WriterStep e)
  have s': "writer_ready e s" "s' = writer_step ops e s" using step WriterStep by (simp_all split: if_splits)
  show ?thesis
  proof (cases e)
    case (Incoming r)
    then obtain rs where "pl_localCh s = r # rs" "\<not> pl_writer_returned s"
      using s'(1) by (auto simp: writer_ready_def split: list.splits)
    then show ?thesis using inv Incoming by (simp add: s'(2) pipe_inv_def to_pub_def to_local_def)
  qed (use inv s' in \<open>simp_all add: pipe_inv_def to_pub_def to_local_def writer_ready_def\<close>)
next
  case (UploadMark ids st)
  then show ?thesis using step inv by (auto simp: pipe_inv_def to_pub_def to_local_def)
next
  case (ClientChanges p)
  then show ?thesis using step inv by (auto simp: pipe_inv_def to_pub_def to_local_def)
next
  case CancelContext
  then show ?thesis using step inv by (auto simp: pipe_inv_def to_pub_def to_local_def)
qed

lemma pipe_inv_reach: "pipe_reach pub ops B store client s \<Longrightarrow> pipe_inv B s"
proof (induction rule: pipe_reach.induct)
  case reach_start
  show ?case by (rule pipe_inv_start)
next
  case (reach_step s l s')
  show ?case by (rule pipe_inv_step [OF reach_step.IH reach_step.hyps(2)])
qed

lemma pipe_run_append:
  "pipe_run pub ops B (ls @ ms) s = (case pipe_run pub ops B ls s of None \<Rightarrow> None | Some s \<Rightarrow> pipe_run pub ops B ms s)"
proof (induction ls arbitrary: s)
  case (Cons l ls)
  then show ?case by (cases "pipe_do pub ops B l s") simp_all
qed simp

lemma pipe_run_ConsE:
  assumes "pipe_run pub ops B (l # ls) s = Some s'"
  obtains s1 where "pipe_do pub ops B l s = Some s1" and "pipe_run pub ops B ls s1 = Some s'"
  using assms by (cases "pipe_do pub ops B l s") simp_all

lemma pipe_run_reach: "pipe_run pub ops B ls s = Some s' \<Longrightarrow> pipe_reach pub ops B store client s \<Longrightarrow> pipe_reach pub ops B store client s'"
proof (induction ls arbitrary: s)
  case (Cons l ls)
  from Cons.prems(1) obtain s1 where "pipe_do pub ops B l s = Some s1" "pipe_run pub ops B ls s1 = Some s'"
    by (rule pipe_run_ConsE)
  then show ?case using Cons.IH [OF _ reach_step [OF Cons.prems(2)]] by simp
qed simp


section \<open>What the store holds\<close>

definition bare :: "CachedReading \<Rightarrow> Reading" where
  "bare r = (the_reading r)\<lparr>r_ID := 0\<rparr>"

lemma bare_ID: "bare r = the_reading (r\<lparr>r_ID := 0\<rparr>)"
  by (simp add: bare_def the_reading_def Reading.defs)

lemma map_bare_cached: "map bare (map (\<lambda>r. cached r UploadNotSent) rs) = map (\<lambda>r. r\<lparr>r_ID := 0\<rparr>) rs"
  by (simp add: bare_def)

lemma same_data_bare: "same_data xs ys \<Longrightarrow> map bare xs = map bare ys"
proof -
  assume "same_data xs ys"
  then have "map the_reading (map (\<lambda>r. r\<lparr>r_ID := 0\<rparr>) xs) = map the_reading (map (\<lambda>r. r\<lparr>r_ID := 0\<rparr>) ys)"
    by (simp only: same_data_def)
  then show ?thesis by (simp add: comp_def bare_ID [abs_def])
qed

lemma map_bare_set_status [simp]: "map bare (set_status ids st rs) = map bare rs"
  by (simp add: set_status_def bare_def the_reading_def Reading.defs)

lemma pipe_do_taken:
  "pipe_do pub ops B l s = Some s' \<Longrightarrow> pl_taken s' = pl_taken s @ (case l of WriterStep (Incoming r) \<Rightarrow> [r] | _ \<Rightarrow> [])"
proof (cases l)
  case (WriterStep e)
  assume "pipe_do pub ops B l s = Some s'"
  then show ?thesis using WriterStep by (cases e) (auto split: if_splits)
qed (auto split: if_splits fan_state.splits pub_state.splits list.splits)

context upload_cache
begin

text \<open>The readings of the table and of the buffer of the writer, in order.\<close>

definition held :: "('s, 'p) pipeline \<Rightarrow> Reading list" where
  "held s = map bare (rows (fst (pl_writer s)) @ snd (pl_writer s))"

lemma held_step:
  assumes "pipe_do pub ops B l s = Some s'"
  shows "held s' = held s @ map (\<lambda>r. r\<lparr>r_ID := 0\<rparr>) (case l of WriterStep (Incoming r) \<Rightarrow> [r] | _ \<Rightarrow> [])"
proof (cases l)
  case (WriterStep e)
  obtain fin s1 b1 where w: "consumeAndWrite ops 10 [(e, pl_done s)] (pl_writer s) = (fin, s1, b1)" by (metis prod_cases3)
  moreover obtain s0 b0 where w0: "pl_writer s = (s0, b0)" by fastforce
  ultimately have "saved_as s0 b0 (incoming [(e, pl_done s)]) s1 b1" using consumeAndWrite_saved by simp
  then obtain new where new: "rows s1 = rows s0 @ new"
    "map bare (new @ b1) = map bare (b0 @ map (\<lambda>r. cached r UploadNotSent) (incoming [(e, pl_done s)]))"
    unfolding saved_as_def using same_data_bare by blast
  have s': "s' = writer_step ops e s" using assms WriterStep by (simp split: if_splits)
  have "held s' = map bare (rows s0) @ map bare (new @ b1)" by (simp add: held_def s' w new(1) del: consumeAndWrite.simps)
  also have "\<dots> = held s @ map (\<lambda>r. r\<lparr>r_ID := 0\<rparr>) (incoming [(e, pl_done s)])"
    unfolding new(2) by (simp add: held_def w0 bare_def)
  finally show ?thesis using WriterStep by (cases e) simp_all
next
  case (UploadMark ids st)
  have s': "pl_writer s' = (snd (cs_UpdateReadingsStatus ops (pl_done s) (fst (pl_writer s)) ids st), snd (pl_writer s))"
    using assms UploadMark by (simp only: pipe_do.simps option.inject) (metis pipeline.select_convs(7) pipeline.surjective pipeline.update_convs(7))
  show ?thesis using update_cases [of "pl_done s" "fst (pl_writer s)" ids st] UploadMark by (auto simp: held_def s')
qed (use assms in \<open>auto simp: held_def split: if_splits fan_state.splits pub_state.splits list.splits\<close>)

lemma held_reach:
  "pipe_reach pub ops B store client s \<Longrightarrow> held s = map bare (rows store) @ map (\<lambda>r. r\<lparr>r_ID := 0\<rparr>) (pl_taken s)"
proof (induction rule: pipe_reach.induct)
  case reach_start
  show ?case by (simp add: held_def pipe_start_def)
next
  case (reach_step s l s')
  show ?case
    using held_step [OF reach_step.hyps(2)] pipe_do_taken [OF reach_step.hyps(2)] reach_step.IH by simp
qed

end

section \<open>The last buffer\<close>

text \<open>
  When the writer has returned without a cancelled context, its buffer is empty unless the database has refused to
  insert it into the table as it is.
\<close>

definition last_flush :: "'db lite_ops \<Rightarrow> ('db \<Rightarrow> CachedReading list) \<Rightarrow> ('db, 'p) pipeline \<Rightarrow> bool" where
  "last_flush lt rows s \<longleftrightarrow> snd (pl_writer s) = []
     \<or> (\<exists>db. map bare (rows db) = map bare (rows (fst (pl_writer s))) \<and> \<not> fst (lt_Insert lt False db (snd (pl_writer s))))"

lemma last_flush_close:
  assumes "lite_laws lt rows" and "pl_writer s = flush (sqlite_store lt) False w"
  shows "last_flush lt rows s"
proof (cases "snd w = []")
  case False
  obtain ok db where ins: "lt_Insert lt False (fst w) (snd w) = (ok, db)" by fastforce
  then have "pl_writer s = (db, if ok then [] else snd w)"
    using assms(2) False by (simp add: flush_def split_beta sqlite_store_def lite_SaveReadings_def)
  moreover have "\<not> ok \<Longrightarrow> rows db = rows (fst w)" using lite_laws_Insert [OF assms(1) ins] by simp
  ultimately show ?thesis using ins by (cases ok) (auto simp: last_flush_def intro!: exI [of _ "fst w"])
qed (use assms(2) in \<open>simp add: flush_def last_flush_def split_beta\<close>)

lemma last_flush_cong: "pl_writer s' = pl_writer s \<Longrightarrow> last_flush lt rows s' = last_flush lt rows s"
  by (simp add: last_flush_def)

lemma last_flush_step:
  assumes laws: "lite_laws lt rows" and step: "pipe_do pub (sqlite_store lt) B l s = Some s'"
    and inv: "pl_writer_returned s \<longrightarrow> \<not> pl_done s \<longrightarrow> last_flush lt rows s"
  shows "pl_writer_returned s' \<longrightarrow> \<not> pl_done s' \<longrightarrow> last_flush lt rows s'"
proof (cases l)
  case (WriterStep e)
  then have s': "writer_ready e s" "s' = writer_step (sqlite_store lt) e s" using step by (simp_all split: if_splits)
  show ?thesis
  proof (cases "e = ChannelClosed \<and> \<not> pl_done s")
    case True
    then have "pl_writer s' = flush (sqlite_store lt) False (pl_writer s)" by (simp add: s'(2))
    then show ?thesis by (simp add: last_flush_close [OF laws])
  qed (use s' in \<open>auto simp: writer_ready_def\<close>)
next
  case (UploadMark ids st)
  let ?w = "pl_writer s"
  have s': "pl_writer s' = (snd (cs_UpdateReadingsStatus (sqlite_store lt) (pl_done s) (fst ?w) ids st), snd ?w)"
    using step UploadMark by auto
  have "map bare (rows (fst (pl_writer s'))) = map bare (rows (fst ?w))"
    using upload_cache.update_cases [OF sqlite_is_cache [OF laws], of "pl_done s" "fst ?w" ids st] by (auto simp: s')
  moreover have "snd (pl_writer s') = snd ?w" by (simp add: s')
  ultimately have "last_flush lt rows s' = last_flush lt rows s" by (simp only: last_flush_def)
  moreover have "pl_writer_returned s' = pl_writer_returned s" "pl_done s' = pl_done s" using step UploadMark by auto
  ultimately show ?thesis using inv by simp
qed (use step inv last_flush_cong [of s' s lt rows] in \<open>auto split: if_splits fan_state.splits pub_state.splits list.splits\<close>)

lemma last_flush_reach:
  assumes "lite_laws lt rows" and "pipe_reach pub (sqlite_store lt) B store client s"
  shows "pl_writer_returned s \<longrightarrow> \<not> pl_done s \<longrightarrow> last_flush lt rows s"
  using assms(2)
proof (induction rule: pipe_reach.induct)
  case (reach_step s l s')
  show ?case by (rule last_flush_step [OF assms(1) reach_step.hyps(2) reach_step.IH])
qed (simp add: pipe_start_def)

section \<open>What has been published\<close>

definition calling :: "('s, 'p) pipeline \<Rightarrow> Reading list" where
  "calling s = (case pl_pub s of PubCall r \<Rightarrow> [r] | _ \<Rightarrow> [])"

definition pub_inv :: "'p mqtt_publish option \<Rightarrow> ('s, 'p) pipeline \<Rightarrow> bool" where
  "pub_inv pub s \<longleftrightarrow>
     (case pub of
        None \<Rightarrow> pl_published s = []
      | Some publish \<Rightarrow> pl_received s = map fst (pl_published s) @ calling s
          \<and> (\<forall>(r, err) \<in> set (pl_published s). \<exists>p. err = fst (PublishReading publish p r)))"

lemma pub_inv_cong:
  "pl_pub s' = pl_pub s \<Longrightarrow> pl_received s' = pl_received s \<Longrightarrow> pl_published s' = pl_published s \<Longrightarrow> pub_inv pub s' = pub_inv pub s"
  by (cases pub) (simp_all add: pub_inv_def calling_def)

lemma pub_inv_step:
  assumes inv: "pub_inv pub s" and step: "pipe_do pub ops B l s = Some s'"
  shows "pub_inv pub s'"
proof (cases l)
  case PubReceive
  then obtain r rs where "pl_pub s = PubRange" "pl_pubCh s = r # rs"
      "s' = s\<lparr>pl_pubCh := rs, pl_pub := PubCall r, pl_received := pl_received s @ [r]\<rparr>"
    using step by (simp split: pub_state.splits list.splits)
  then show ?thesis using inv by (simp add: pub_inv_def calling_def split: option.splits)
next
  case PubReturn
  then obtain r where "pl_pub s = PubCall r" "s' = publish_received pub r (s\<lparr>pl_pub := PubRange\<rparr>)"
    using step by (simp split: pub_state.splits)
  then show ?thesis using inv
    by (auto simp: pub_inv_def calling_def publish_received_def split_beta split: option.splits)
next
  case PubEnd
  then have "pl_pub s = PubRange" "s' = s\<lparr>pl_pub := PubReturned\<rparr>" using step by (simp_all split: if_splits)
  then show ?thesis using inv by (simp add: pub_inv_def calling_def split: option.splits)
next
  case (WriterStep e)
  then have "s' = writer_step ops e s" using step by (simp split: if_splits)
  then show ?thesis using inv pub_inv_cong [of s' s pub] by simp
next
  case (UploadMark ids st)
  then show ?thesis using step inv pub_inv_cong [of s' s pub] by auto
qed (use step inv pub_inv_cong [of s' s pub] in \<open>auto split: if_splits fan_state.splits list.splits\<close>)

lemma pub_inv_reach: "pipe_reach pub ops B store client s \<Longrightarrow> pub_inv pub s"
proof (induction rule: pipe_reach.induct)
  case reach_start
  show ?case by (simp add: pub_inv_def pipe_start_def calling_def split: option.split)
next
  case (reach_step s l s')
  show ?case by (rule pub_inv_step [OF reach_step.IH reach_step.hyps(2)])
qed

text \<open>A broker that takes every message leaves one error: a reading that has no JSON.\<close>

definition accepts :: "'p mqtt_publish \<Rightarrow> bool" where
  "accepts publish \<longleftrightarrow> (\<forall>p topic qos retained payload. fst (publish p topic qos retained payload) = None)"

definition reading_error :: "Reading \<Rightarrow> publish_error option" where
  "reading_error r = (if Marshal_MqttReading (fromModelReading r) = None then Some MarshalReading else None)"

lemma PublishReading_accepted: "accepts publish \<Longrightarrow> fst (PublishReading publish p r) = reading_error r"
  by (simp add: PublishReading_def reading_error_def accepts_def split: option.split)

lemma published_accepted:
  assumes "pub_inv (Some publish) s" and "accepts publish"
  shows "pl_published s = map (\<lambda>r. (r, reading_error r)) (map fst (pl_published s))"
proof -
  have "\<forall>(r, err) \<in> set (pl_published s). err = reading_error r"
    using assms(1) PublishReading_accepted [OF assms(2)] by (auto simp: pub_inv_def)
  then show ?thesis unfolding map_map by (intro map_idI [symmetric]) (auto simp: comp_def)
qed

section \<open>A stalled publisher\<close>

lemma stalled_step:
  assumes "pipe_do pub ops B l s = Some s'" and "pl_pub s = PubCall r" and "l \<noteq> PubReturn"
  shows "pl_pub s' = PubCall r \<and> pl_received s' = pl_received s"
proof (cases l)
  case (UploadMark ids st)
  then show ?thesis using assms by auto
qed (use assms in \<open>auto split: if_splits fan_state.splits pub_state.splits list.splits\<close>)

lemma stalled_run:
  "pipe_run pub ops B ls s = Some s' \<Longrightarrow> pl_pub s = PubCall r \<Longrightarrow> PubReturn \<notin> set ls \<Longrightarrow> pl_received s' = pl_received s"
proof (induction ls arbitrary: s)
  case (Cons l ls)
  from Cons.prems(1) obtain s1 where s1: "pipe_do pub ops B l s = Some s1" "pipe_run pub ops B ls s1 = Some s'"
    by (rule pipe_run_ConsE)
  have "l \<noteq> PubReturn" using Cons.prems(3) by auto
  from stalled_step [OF s1(1) Cons.prems(2) this] Cons.IH [OF s1(2)] Cons.prems(3) show ?case by simp
qed simp

lemma taken_le_published: "pipe_inv B s \<Longrightarrow> length (pl_taken s) \<le> length (pl_received s) + B"
proof -
  assume inv: "pipe_inv B s"
  then have "length (pl_received s @ pl_pubCh s) = length (pl_taken s @ pl_localCh s @ to_local s)"
    unfolding pipe_inv_def by simp
  then show ?thesis using inv by (simp add: pipe_inv_def)
qed

section \<open>Draining\<close>

text \<open>The labels of the goroutines themselves, without the producers, the ticker, the uploader and the context.\<close>

definition internal :: "'p pipe_label \<Rightarrow> bool" where
  "internal l \<longleftrightarrow> l \<in> {FanReceive, FanPub, FanLocal, FanEnd, PubReceive, PubReturn, PubEnd, WriterStep ChannelClosed}
     \<or> (\<exists>r. l = WriterStep (Incoming r))"

text \<open>How many of these steps are left at most.\<close>

definition pipe_work :: "('s, 'p) pipeline \<Rightarrow> nat" where
  "pipe_work s =
     8 * length (pl_ch s)
     + (case pl_fan s of FanRange \<Rightarrow> 1 | FanToPub r \<Rightarrow> 8 | FanToLocal r \<Rightarrow> 4 | FanReturned \<Rightarrow> 0)
     + 3 * length (pl_pubCh s) + (case pl_pub s of PubRange \<Rightarrow> 1 | PubCall r \<Rightarrow> 2 | PubReturned \<Rightarrow> 0)
     + length (pl_localCh s) + (if pl_writer_returned s then 0 else 1)"

lemma internal_decreases:
  assumes "pipe_do pub ops B l s = Some s'" and "internal l"
  shows "pipe_work s' < pipe_work s"
proof (cases l)
  case (WriterStep e)
  then have "writer_ready e s" "s' = writer_step ops e s" "e = ChannelClosed \<or> (\<exists>r. e = Incoming r)"
    using assms by (simp_all add: internal_def split: if_splits)
  then show ?thesis by (cases "pl_localCh s") (auto simp: pipe_work_def writer_ready_def)
next
  case FanReceive
  then obtain r rs where "pl_fan s = FanRange" "pl_ch s = r # rs" "s' = s\<lparr>pl_ch := rs, pl_fan := FanToPub r\<rparr>"
    using assms by (simp split: fan_state.splits list.splits)
  then show ?thesis by (simp add: pipe_work_def)
next
  case FanPub
  then obtain r where "pl_fan s = FanToPub r" "s' = s\<lparr>pl_pubCh := pl_pubCh s @ [r], pl_fan := FanToLocal r\<rparr>"
    using assms by (simp split: fan_state.splits if_splits)
  then show ?thesis by (simp add: pipe_work_def)
next
  case FanLocal
  then obtain r where "pl_fan s = FanToLocal r" "s' = s\<lparr>pl_localCh := pl_localCh s @ [r], pl_fan := FanRange\<rparr>"
    using assms by (simp split: fan_state.splits if_splits)
  then show ?thesis by (simp add: pipe_work_def)
next
  case PubReceive
  then obtain r rs where "pl_pub s = PubRange" "pl_pubCh s = r # rs"
      "s' = s\<lparr>pl_pubCh := rs, pl_pub := PubCall r, pl_received := pl_received s @ [r]\<rparr>"
    using assms by (simp split: pub_state.splits list.splits)
  then show ?thesis by (simp add: pipe_work_def)
next
  case PubReturn
  then obtain r where "pl_pub s = PubCall r" "s' = publish_received pub r (s\<lparr>pl_pub := PubRange\<rparr>)"
    using assms by (simp split: pub_state.splits)
  then show ?thesis by (simp add: pipe_work_def)
next
  case FanEnd
  then have "pl_fan s = FanRange" "s' = s\<lparr>pl_fan := FanReturned\<rparr>" using assms by (simp_all split: if_splits)
  then show ?thesis by (simp add: pipe_work_def)
next
  case PubEnd
  then have "pl_pub s = PubRange" "s' = s\<lparr>pl_pub := PubReturned\<rparr>" using assms by (simp_all split: if_splits)
  then show ?thesis by (simp add: pipe_work_def)
qed (use assms in \<open>simp_all add: internal_def\<close>)

text \<open>A state that the goroutines cannot leave by themselves, once the producers have returned.\<close>

lemma stuck_drained:
  assumes inv: "pipe_inv B s" and "0 < B" and "pl_closed s" and "\<not> pl_done s"
    and stuck: "\<And>l. internal l \<Longrightarrow> pipe_do pub ops B l s = None"
  shows "all_returned s \<and> pl_taken s = pl_sent s \<and> pl_received s = pl_sent s"
proof -
  have i: "internal FanReceive" "internal FanPub" "internal FanLocal" "internal FanEnd" "internal PubReceive"
      "internal PubReturn" "internal PubEnd" "internal (WriterStep ChannelClosed)" "internal (WriterStep (Incoming r))" for r
    by (simp_all add: internal_def)
  note no = i [THEN stuck]
  have writer: "pl_writer_returned s \<Longrightarrow> outs_closed s \<and> pl_localCh s = []" using inv assms(4) by (simp add: pipe_inv_def)
  have local_empty: "pl_localCh s = []"
  proof (rule ccontr)
    assume "pl_localCh s \<noteq> []"
    then obtain r rs where "pl_localCh s = r # rs" by (cases "pl_localCh s") auto
    then show False using no(9) [of r] writer by (simp add: writer_ready_def split: if_splits)
  qed
  have idle: "\<exists>r. pl_pub s = PubCall r \<Longrightarrow> False" using no(6) by auto
  have pub_empty: "pl_pubCh s = []"
  proof (rule ccontr)
    assume ne: "pl_pubCh s \<noteq> []"
    then obtain r rs where "pl_pubCh s = r # rs" by (cases "pl_pubCh s") auto
    moreover have "pl_pub s \<noteq> PubReturned" using inv ne by (auto simp: pipe_inv_def)
    ultimately show False using no(5) idle by (cases "pl_pub s") auto
  qed
  have fan: "pl_fan s = FanReturned"
  proof (cases "pl_fan s")
    case FanRange
    then show ?thesis using no(1,4) assms(3) by (cases "pl_ch s") auto
  next
    case (FanToPub r)
    then show ?thesis using no(2) pub_empty assms(2) by simp
  next
    case (FanToLocal r)
    then show ?thesis using no(3) local_empty assms(2) by simp
  qed
  have "pl_pub s = PubReturned" using no(7) pub_empty fan idle by (cases "pl_pub s") auto
  moreover have "pl_writer_returned s" using no(8) fan local_empty by (simp add: writer_ready_def split: if_splits)
  ultimately show ?thesis using inv fan local_empty pub_empty assms(3)
    by (simp add: all_returned_def pipe_inv_def to_pub_def to_local_def)
qed

lemma internal_run:
  "pipe_run pub ops B ls s = Some s' \<Longrightarrow> list_all internal ls \<Longrightarrow>
     length ls + pipe_work s' \<le> pipe_work s \<and> pl_closed s' = pl_closed s \<and> pl_done s' = pl_done s \<and> pl_sent s' = pl_sent s"
proof (induction ls arbitrary: s)
  case (Cons l ls)
  from Cons.prems(1) obtain s1 where s1: "pipe_do pub ops B l s = Some s1" "pipe_run pub ops B ls s1 = Some s'"
    by (rule pipe_run_ConsE)
  have int: "internal l" and rest: "list_all internal ls" using Cons.prems(2) by simp_all
  have "pl_closed s1 = pl_closed s \<and> pl_done s1 = pl_done s \<and> pl_sent s1 = pl_sent s"
    using s1(1) int by (cases l) (auto simp: internal_def split: if_splits fan_state.splits pub_state.splits list.splits)
  then show ?case using Cons.IH [OF s1(2) rest] internal_decreases [OF s1(1) int] by simp
qed simp

lemma can_finish:
  "pipe_reach pub ops (Suc b) store client s \<Longrightarrow> pl_closed s \<Longrightarrow> \<not> pl_done s \<Longrightarrow>
     \<exists>ls s'. list_all internal ls \<and> pipe_run pub ops (Suc b) ls s = Some s' \<and> all_returned s'"
proof (induction "pipe_work s" arbitrary: s rule: less_induct)
  case less
  show ?case
  proof (cases "\<exists>l s1. internal l \<and> pipe_do pub ops (Suc b) l s = Some s1")
    case True
    then obtain l s1 where l: "internal l" "pipe_do pub ops (Suc b) l s = Some s1" by blast
    then have "pipe_run pub ops (Suc b) [l] s = Some s1" "list_all internal [l]" by simp_all
    from internal_run [OF this] have s1: "pl_closed s1" "\<not> pl_done s1" using less.prems(2,3) by simp_all
    have "pipe_reach pub ops (Suc b) store client s1" by (rule reach_step [OF less.prems(1) l(2)])
    from less.hyps [OF internal_decreases [OF l(2,1)] this s1] obtain ls s'
      where "list_all internal ls" "pipe_run pub ops (Suc b) ls s1 = Some s'" "all_returned s'" by blast
    with l show ?thesis by (intro exI [of _ "l # ls"] exI [of _ s']) simp
  next
    case False
    then have "all_returned s" using stuck_drained [OF pipe_inv_reach [OF less.prems(1)] _ less.prems(2,3), of pub ops]
      by (meson not_None_eq zero_less_Suc)
    then show ?thesis by (intro exI [of _ "[]"] exI [of _ s]) simp
  qed
qed

lemma returned_all:
  assumes "pipe_inv B s" and "all_returned s" and "\<not> pl_done s"
  shows "pl_taken s = pl_sent s \<and> pl_received s = pl_sent s"
  using assms by (auto simp: all_returned_def pipe_inv_def to_pub_def to_local_def)

end
