(* ===== verification/PipelineProps.thy ===== *)
theory PipelineProps
  imports Pipeline
begin

text \<open>
  What the pipeline of the gateway guarantees, and two things it does not: a publisher that waits stops the
  local store, and a shutdown with a full channel never ends.
\<close>

section \<open>A shutdown that does not end\<close>

text \<open>Before the shutdown: the channel to the writer holds \<open>n\<close> readings, the other goroutines wait for a reading.\<close>

definition filled :: "nat \<Rightarrow> Reading \<Rightarrow> ('s, 'p) pipeline \<Rightarrow> bool" where
  "filled n r s \<longleftrightarrow> pl_ch s = [] \<and> pl_pubCh s = [] \<and> pl_localCh s = replicate n r \<and> pl_fan s = FanRange \<and> pl_pub s = PubRange
     \<and> \<not> pl_closed s \<and> \<not> pl_writer_returned s"

lemma filled_more:
  assumes "filled n r s" and "n \<le> b"
  shows "\<exists>s'. pipe_run pub ops (Suc b) [Produce r, FanReceive, FanPub, FanLocal, PubReceive, PubReturn] s = Some s' \<and> filled (Suc n) r s'"
  using assms by (simp add: filled_def replicate_append_same)

lemma fill_local:
  "n \<le> Suc b \<Longrightarrow> \<exists>ls s. pipe_run pub ops (Suc b) ls (pipe_start store client) = Some s \<and> filled n r s"
proof (induction n)
  case 0
  show ?case by (rule exI [of _ "[]"]) (simp add: pipe_start_def filled_def)
next
  case (Suc n)
  then obtain ls s where ls: "pipe_run pub ops (Suc b) ls (pipe_start store client) = Some s" "filled n r s" by auto
  from filled_more [OF ls(2)] Suc.prems obtain s' where
    "pipe_run pub ops (Suc b) [Produce r, FanReceive, FanPub, FanLocal, PubReceive, PubReturn] s = Some s'" "filled (Suc n) r s'" by blast
  then have "pipe_run pub ops (Suc b) (ls @ [Produce r, FanReceive, FanPub, FanLocal, PubReceive, PubReturn]) (pipe_start store client) = Some s'"
    unfolding pipe_run_append ls(1) option.case by simp
  with \<open>filled (Suc n) r s'\<close> show ?case by blast
qed

definition hung :: "nat \<Rightarrow> ('s, 'p) pipeline \<Rightarrow> bool" where
  "hung B s \<longleftrightarrow> (\<exists>r. pl_fan s = FanToLocal r) \<and> length (pl_localCh s) = B \<and> pl_writer_returned s"

lemma hung_step: "hung B s \<Longrightarrow> pipe_do pub ops B l s = Some s' \<Longrightarrow> hung B s'"
proof (cases l)
  case (WriterStep e)
  assume "hung B s" and "pipe_do pub ops B l s = Some s'"
  then show ?thesis using WriterStep by (simp add: hung_def writer_ready_def split: if_splits)
next
  case (UploadMark ids st)
  assume "hung B s" and "pipe_do pub ops B l s = Some s'"
  then show ?thesis using UploadMark by (auto simp: hung_def)
qed (auto simp: hung_def split: if_splits pub_state.splits list.splits)

lemma hung_run: "pipe_run pub ops B ls s = Some s' \<Longrightarrow> hung B s \<Longrightarrow> hung B s'"
proof (induction ls arbitrary: s)
  case (Cons l ls)
  from Cons.prems(1) obtain s1 where s1: "pipe_do pub ops B l s = Some s1" "pipe_run pub ops B ls s1 = Some s'"
    by (rule pipe_run_ConsE)
  show ?case by (rule Cons.IH [OF s1(2) hung_step [OF Cons.prems(2) s1(1)]])
qed simp

section \<open>Properties\<close>

text \<open>
  C28. The readings go to the local store in the order they come in, once each. In every state of the
  pipeline, whatever its goroutines have done and however the uploader has marked rows meanwhile, the table
  and the buffer of the writer hold what the table held before and then the readings taken from the channel;
  these are a prefix of those that were sent, at most two channels and one reading behind, and so are those
  that the publisher has received. Of these \<^verbatim>\<open>PublishReading\<close> has been called and has returned once for each, in their
  order, except the one whose call is still going on.
\<close>

theorem readings_stored_in_order:
  assumes "lite_laws lt rows" and "pipe_reach pub (sqlite_store lt) B store client s"
  shows "map bare (rows (fst (pl_writer s)) @ snd (pl_writer s))
       = map bare (rows store) @ map (\<lambda>r. r\<lparr>r_ID := 0\<rparr>) (pl_taken s)
     \<and> (\<exists>rest. pl_sent s = pl_taken s @ rest \<and> length rest \<le> 2 * B + 1)
     \<and> (\<exists>rest. pl_sent s = pl_received s @ rest \<and> length rest \<le> 2 * B + 1)
     \<and> (pub \<noteq> None \<longrightarrow> pl_received s = map fst (pl_published s) @ (case pl_pub s of PubCall r \<Rightarrow> [r] | _ \<Rightarrow> []))"
proof -
  note cache = sqlite_is_cache [OF assms(1)]
  have "upload_cache.held rows s = map bare (rows store) @ map (\<lambda>r. r\<lparr>r_ID := 0\<rparr>) (pl_taken s)"
    by (rule upload_cache.held_reach [OF cache assms(2)])
  moreover note inv = pipe_inv_reach [OF assms(2), unfolded pipe_inv_def]
  have "length (to_pub s @ to_local s) \<le> 1" by (simp add: to_pub_def to_local_def split: fan_state.split)
  then have "length (to_pub s) + length (to_local s) \<le> 1" by simp
  moreover have "pl_sent s = pl_taken s @ (pl_localCh s @ to_local s @ to_pub s @ pl_ch s)"
    using inv by (metis append.assoc)
  moreover have "pl_sent s = pl_received s @ (pl_pubCh s @ to_pub s @ pl_ch s)" using inv by simp
  moreover have "pub \<noteq> None \<longrightarrow> pl_received s = map fst (pl_published s) @ calling s"
    using pub_inv_reach [OF assms(2)] by (auto simp: pub_inv_def)
  ultimately show ?thesis using inv unfolding calling_def [symmetric]
    by (intro conjI exI [of _ "pl_localCh s @ to_local s @ to_pub s @ pl_ch s"] exI [of _ "pl_pubCh s @ to_pub s @ pl_ch s"])
       (simp_all add: upload_cache.held_def [OF cache])
qed

text \<open>A client that takes every message and remembers its payload.\<close>

definition sample_pub :: "string list mqtt_publish option" where
  "sample_pub = Some (\<lambda>p topic qos retained payload. (None, p @ [payload]))"

definition one_reading :: "string list pipe_label list" where
  "one_reading = [Produce client_reading, FanReceive, FanPub, PubReceive, FanLocal, WriterStep (Incoming client_reading)]"

theorem readings_stored_in_order_witness:
  "\<exists>s. pipe_reach sample_pub (sqlite_store sample_lite) 1 empty_table [] s \<and> pl_taken s = [client_reading]
     \<and> map bare (table_rows (fst (pl_writer s)) @ snd (pl_writer s)) = [client_reading\<lparr>r_ID := 0\<rparr>]
     \<and> (\<exists>rest. pl_sent s = pl_received s @ rest \<and> length rest \<le> 3)"
proof -
  obtain s where s: "pipe_run sample_pub (sqlite_store sample_lite) 1 one_reading (pipe_start empty_table []) = Some s" "pl_taken s = [client_reading]"
    by (simp add: one_reading_def pipe_start_def writer_ready_def)
  have r: "pipe_reach sample_pub (sqlite_store sample_lite) 1 empty_table [] s" by (rule pipe_run_reach [OF s(1) reach_start])
  from readings_stored_in_order [OF sample_lite_laws r] s(2) r show ?thesis
    by (intro exI [of _ s]) simp
qed

text \<open>
  The local store depends on the publisher. While one call of the publisher does not return, at most as
  many readings reach the store as have been published, the one of the call included, and one channel more:
  then the goroutine between them waits, and the table grows no further however long readings are taken.
\<close>

theorem stalled_publisher_stops_storing:
  assumes "lite_laws lt rows" and "pipe_reach pub (sqlite_store lt) B store client s" and "pl_pub s = PubCall r"
    and "pipe_run pub (sqlite_store lt) B ls s = Some s'" and "PubReturn \<notin> set ls"
  shows "length (rows (fst (pl_writer s'))) + length (snd (pl_writer s'))
     \<le> length (rows store) + length (pl_received s) + B"
proof -
  note cache = sqlite_is_cache [OF assms(1)]
  have reach: "pipe_reach pub (sqlite_store lt) B store client s'" by (rule pipe_run_reach [OF assms(4,2)])
  have "length (upload_cache.held rows s') = length (rows store) + length (pl_taken s')"
    by (simp add: upload_cache.held_reach [OF cache reach])
  moreover have "length (pl_taken s') \<le> length (pl_received s) + B"
    using taken_le_published [OF pipe_inv_reach [OF reach]] stalled_run [OF assms(4,3,5)] by simp
  ultimately show ?thesis by (simp add: upload_cache.held_def [OF cache])
qed

theorem stalled_publisher_stops_storing_witness:
  "\<exists>s s'. pl_pub s = PubCall client_reading
     \<and> pipe_run sample_pub (sqlite_store sample_lite) 1 [FanLocal, WriterStep (Incoming client_reading)] s = Some s'
     \<and> length (table_rows (fst (pl_writer s'))) + length (snd (pl_writer s')) \<le> 2"
proof -
  let ?ops = "sqlite_store sample_lite"
  obtain s s' where s: "pipe_run sample_pub ?ops 1 [Produce client_reading, FanReceive, FanPub, PubReceive] (pipe_start empty_table []) = Some s"
      "pl_pub s = PubCall client_reading" "pl_received s = [client_reading]"
      "pipe_run sample_pub ?ops 1 [FanLocal, WriterStep (Incoming client_reading)] s = Some s'"
    by (simp add: pipe_start_def writer_ready_def)
  have "PubReturn \<notin> set [FanLocal, WriterStep (Incoming client_reading)]" by simp
  from stalled_publisher_stops_storing [OF sample_lite_laws pipe_run_reach [OF s(1) reach_start] s(2,4) this] s
  show ?thesis by (intro exI [of _ s] exI [of _ s']) simp
qed

text \<open>
  C29. A shutdown can hang. The writer returns as soon as the context is cancelled; if the channel to it is full
  then and one more reading is on its way, the goroutine that sends on this channel never returns, and neither
  does \<^verbatim>\<open>MainFunc\<close>, which waits for all of them, although the producers have returned. This is so for every size of
  the channels.
\<close>

theorem shutdown_can_hang:
  "\<exists>ls s. pipe_run pub ops (Suc b) ls (pipe_start store client) = Some s \<and> pl_done s \<and> pl_closed s
     \<and> \<not> (\<exists>ms s'. pipe_run pub ops (Suc b) ms s = Some s' \<and> all_returned s')"
proof -
  fix r :: Reading
  obtain ls full where ls: "pipe_run pub ops (Suc b) ls (pipe_start store client) = Some full" and full: "filled (Suc b) r full"
    using fill_local [of "Suc b" b pub ops store client r] by blast
  let ?stop = "[Produce r, FanReceive, FanPub, ProducersReturn, CancelContext, WriterStep WriterCtxDone]"
  obtain s where stop: "pipe_run pub ops (Suc b) ?stop full = Some s" "pl_done s" "pl_closed s" "hung (Suc b) s"
    using full by (simp add: filled_def writer_ready_def hung_def)
  have s: "pipe_run pub ops (Suc b) (ls @ ?stop) (pipe_start store client) = Some s"
    unfolding pipe_run_append ls option.case by (rule stop(1))
  have "\<not> all_returned s'" if "pipe_run pub ops (Suc b) ms s = Some s'" for ms s'
    using hung_run [OF that stop(4)] by (auto simp: hung_def all_returned_def)
  with s stop(2,3) show ?thesis by blast
qed

text \<open>
  C30. Without a cancelled context the pipeline drains. Once the producers have returned, its goroutines take
  finitely many steps, at most \<open>pipe_work\<close>, in whatever order; from wherever they are they can go on until all have
  returned, and when none of them can take another step all have. Then, in the order in which the readings were sent:
  if there is a publisher, \<^verbatim>\<open>PublishReading\<close> has been called and has returned once for each, and with a broker that takes every
  message it has failed for the readings without JSON only; and the table holds what it held before and then every
  reading, unless the database has refused to insert the last buffer into it, and then exactly this buffer is missing.
\<close>

theorem pipeline_drains:
  assumes "lite_laws lt rows" and "pipe_reach pub (sqlite_store lt) (Suc b) store client s" and "pl_closed s" and "\<not> pl_done s"
    and "pipe_run pub (sqlite_store lt) (Suc b) ls s = Some s'" and "list_all internal ls"
  shows "length ls \<le> pipe_work s
     \<and> (\<exists>ms s2. list_all internal ms \<and> pipe_run pub (sqlite_store lt) (Suc b) ms s' = Some s2 \<and> all_returned s2)
     \<and> ((\<forall>l. internal l \<longrightarrow> pipe_do pub (sqlite_store lt) (Suc b) l s' = None) \<longrightarrow> all_returned s')
     \<and> (all_returned s' \<longrightarrow>
          map fst (pl_published s') = (if pub = None then [] else pl_sent s)
        \<and> (\<forall>publish. pub = Some publish \<longrightarrow> accepts publish \<longrightarrow> pl_published s' = map (\<lambda>r. (r, reading_error r)) (pl_sent s))
        \<and> map bare (rows (fst (pl_writer s')) @ snd (pl_writer s')) = map bare (rows store) @ map (\<lambda>r. r\<lparr>r_ID := 0\<rparr>) (pl_sent s)
        \<and> (snd (pl_writer s') = []
           \<or> (\<exists>db. map bare (rows db) = map bare (rows (fst (pl_writer s'))) \<and> \<not> fst (lt_Insert lt False db (snd (pl_writer s'))))))"
proof -
  note run = internal_run [OF assms(5,6)] and reach = pipe_run_reach [OF assms(5,2)]
  have live: "pl_closed s'" "\<not> pl_done s'" and sent: "pl_sent s' = pl_sent s" using run assms(3,4) by simp_all
  note inv = pipe_inv_reach [OF reach] and pub = pub_inv_reach [OF reach]
  have stuck: "all_returned s'" if "\<forall>l. internal l \<longrightarrow> pipe_do pub (sqlite_store lt) (Suc b) l s' = None"
    using stuck_drained [OF inv _ live, of pub "sqlite_store lt"] that by simp
  have published: "map fst (pl_published s') = (if pub = None then [] else pl_sent s)" if "all_returned s'"
    using pub returned_all [OF inv that live(2)] that sent by (auto simp: pub_inv_def calling_def all_returned_def)
  have stored: "map bare (rows (fst (pl_writer s')) @ snd (pl_writer s')) = map bare (rows store) @ map (\<lambda>r. r\<lparr>r_ID := 0\<rparr>) (pl_sent s)"
    if "all_returned s'"
    using upload_cache.held_reach [OF sqlite_is_cache [OF assms(1)] reach] returned_all [OF inv that live(2)] sent
    by (simp add: upload_cache.held_def [OF sqlite_is_cache [OF assms(1)]])
  have last: "last_flush lt rows s'" if "all_returned s'"
    using last_flush_reach [OF assms(1) reach] that live(2) by (simp add: all_returned_def)
  show ?thesis
    using run can_finish [OF reach live] stuck published stored last [unfolded last_flush_def]
      published_accepted [of _ s'] pub by (intro conjI impI allI) simp_all
qed

theorem pipeline_drains_witness:
  "\<exists>s ls s'. pl_sent s = [client_reading] \<and> pipe_run sample_pub (sqlite_store sample_lite) 1 ls s = Some s' \<and> list_all internal ls
     \<and> all_returned s' \<and> pl_published s' = [(client_reading, None)]
     \<and> map bare (table_rows (fst (pl_writer s'))) = [client_reading\<lparr>r_ID := 0\<rparr>]"
proof -
  let ?ops = "sqlite_store sample_lite"
  let ?ls = "[FanReceive, FanPub, FanLocal, PubReceive, PubReturn, WriterStep (Incoming client_reading), FanEnd, PubEnd, WriterStep ChannelClosed]"
  obtain s s' where s: "pipe_run sample_pub ?ops (Suc 0) [Produce client_reading, ProducersReturn] (pipe_start empty_table []) = Some s"
      "pl_closed s" "\<not> pl_done s" "pl_sent s = [client_reading]"
      and s': "pipe_run sample_pub ?ops (Suc 0) ?ls s = Some s'" "all_returned s'" "snd (pl_writer s') = []"
    by (simp add: pipe_start_def writer_ready_def all_returned_def flush_def sqlite_store_def lite_SaveReadings_def sample_lite_def
        with_keys_Cons Let_def)
  have int: "list_all internal ?ls" by (simp add: internal_def)
  have acc: "sample_pub = Some (\<lambda>p topic qos retained payload. (None, p @ [payload]))" 
    "accepts (\<lambda>p topic qos retained payload. (None, p @ [payload]))" by (simp_all add: sample_pub_def accepts_def)
  have err: "reading_error client_reading = None"
    by (simp add: reading_error_def Marshal_MqttReading_def fromModelReading_def typed_value_def client_reading_def DataTypeBool_def json_any.simps)
  note all = pipeline_drains [OF sample_lite_laws pipe_run_reach [OF s(1) reach_start] s(2,3) s'(1) int,
      THEN conjunct2, THEN conjunct2, THEN conjunct2, THEN mp, OF s'(2)]
  have "pl_published s' = [(client_reading, None)]" using all acc err s(4) by simp
  moreover have "table_rows empty_table = []" by transfer simp
  then have "map bare (table_rows (fst (pl_writer s'))) = [client_reading\<lparr>r_ID := 0\<rparr>]" using all s(4) s'(3) by simp
  ultimately show ?thesis using s(4) s' int by (intro exI [of _ s] exI [of _ ?ls] exI [of _ s']) simp
qed

end
