(* ===== verification/Loadgen.thy ===== *)
theory Loadgen
  imports Tunnel
begin

text \<open>
  \<^verbatim>\<open>cmd/loadgen/main.go\<close>: the load generator, a client of the server of its own. Many clients run at once;
  the state of one is \<open>load_client\<close>, and what they share is the counter of timestamps \<^verbatim>\<open>tsSeq\<close>. The environment
  gives, by the tick at which it is asked, the clock in nanoseconds, how often other clients have added to the
  counter in between, and how many bytes a \<^verbatim>\<open>Read\<close> finds. Logging and the printed report are left out.
\<close>

section \<open>State\<close>

record load_flags =
  lf_duration :: int
  lf_batch :: nat
  lf_snPrefix :: string
  lf_token :: string
  lf_devPrefix :: string
  lf_idle :: bool

text \<open>The counters count frames and readings of one run; the latencies are in nanoseconds.\<close>

record clientResult =
  lr_sn :: string
  lr_sent :: int
  lr_acked :: int
  lr_failed :: int
  lr_latencies :: "int list"

record load_env =
  le_now :: "nat \<Rightarrow> int"
  le_others :: "nat \<Rightarrow> nat"
  le_chunks :: "nat \<Rightarrow> nat \<Rightarrow> nat"

record load_client =
  lc_conn :: conn
  lc_factory :: MsgFactory
  lc_result :: clientResult
  lc_tsSeq :: u64
  lc_ticks :: nat

definition ltick :: "load_client \<Rightarrow> load_client" where
  "ltick lc = lc\<lparr>lc_ticks := lc_ticks lc + 1\<rparr>"

definition l_now :: "load_env \<Rightarrow> load_client \<Rightarrow> int" where
  "l_now env lc = le_now env (lc_ticks lc)"

definition l_milli :: "load_env \<Rightarrow> load_client \<Rightarrow> int" where \<comment> \<open>\<^verbatim>\<open>time.Now().UnixMilli()\<close>\<close>
  "l_milli env lc = l_now env lc div 1000000"

definition fail1 :: "load_client \<Rightarrow> load_client" where \<comment> \<open>\<^verbatim>\<open>r.failed++\<close>\<close>
  "fail1 lc = lc\<lparr>lc_result := (lc_result lc)\<lparr>lr_failed := lr_failed (lc_result lc) + 1\<rparr>\<rparr>"

definition l_Second :: int where "l_Second = 1000000000"

section \<open>Reading an acknowledgement\<close>

text \<open>
  \<^verbatim>\<open>conn.Read\<close> on a buffer of \<open>n\<close> bytes, \<open>n\<close> positive: at least one byte and as many as are there, or the error
  that ends the stream.
\<close>

definition end_error :: "stream_end \<Rightarrow> io_error" where
  "end_error e = (case e of EndEOF \<Rightarrow> IoEOF | EndTimeout \<Rightarrow> IoTimeout | EndReset \<Rightarrow> IoReset)"

definition conn_Read :: "nat \<Rightarrow> conn \<Rightarrow> nat \<Rightarrow> io_error + bytes \<times> conn" where
  "conn_Read there c n =
     (if c_in c = [] then Inl (end_error (c_end c))
      else let k = min n (max 1 there) in Inr (take k (c_in c), c\<lparr>c_in := drop k (c_in c)\<rparr>))"

text \<open>\<^verbatim>\<open>readFull\<close>: \<open>buf\<close> holds what has been read so far.\<close>

function readFull_loop :: "(nat \<Rightarrow> nat) \<Rightarrow> nat \<Rightarrow> bytes \<Rightarrow> conn \<Rightarrow> (io_error + bytes) \<times> conn" where
  "readFull_loop chunks n buf c =
     (if length buf < n
      then case conn_Read (chunks (length buf)) c (n - length buf) of
             Inl err \<Rightarrow> (Inl err, c)
           | Inr r \<Rightarrow> readFull_loop chunks n (buf @ fst r) (snd r)
      else (Inr buf, c))"
  by pat_completeness auto
termination
  by (relation "measure (\<lambda>(chunks, n, buf, c). n - length buf)")
     (auto simp: conn_Read_def Let_def min_def neq_Nil_conv split: if_splits)

declare readFull_loop.simps [simp del]

definition readFull :: "(nat \<Rightarrow> nat) \<Rightarrow> conn \<Rightarrow> nat \<Rightarrow> (io_error + bytes) \<times> conn" where
  "readFull chunks c n = readFull_loop chunks n [] c"

record ackResult =
  ak_MsgID :: u16
  ak_Code :: u8

datatype load_error = AckIo io_error | BadMagic | UnexpectedFrameType u8 u8 | AckTooShort u16

text \<open>The buffer for what follows the header has \<^verbatim>\<open>payloadLen+2\<close> bytes, a sum of 16 bits.\<close>

definition ack_of :: "bytes \<Rightarrow> u8 \<Rightarrow> u16 \<Rightarrow> bytes \<Rightarrow> (load_error, ackResult) go" where
  "ack_of hdr expectType payloadLen rest =
     go_bind (index hdr 4) (\<lambda>msgType.
     if msgType \<noteq> expectType then Fail (UnexpectedFrameType msgType expectType)
     else if payloadLen < 3 then Fail (AckTooShort payloadLen)
     else go_bind (slice rest 0 2) (\<lambda>b. go_bind (get16 b) (\<lambda>i.
          go_bind (index rest 2) (\<lambda>k. Ret \<lparr>ak_MsgID = i, ak_Code = k\<rparr>))))"

definition magic_ok :: "bytes \<Rightarrow> (load_error, bool) go" where
  "magic_ok hdr =
     go_bind (index hdr 0) (\<lambda>a. if a \<noteq> ucast (drop_bit 8 MagicNumber) then Ret False
       else go_bind (index hdr 1) (\<lambda>b. Ret (b = ucast (MagicNumber AND 0xFF))))"

definition readAck :: "(nat \<Rightarrow> nat \<Rightarrow> nat) \<Rightarrow> conn \<Rightarrow> u8 \<Rightarrow> (load_error, ackResult) go \<times> conn" where
  "readAck chunks c expectType =
     (case readFull (chunks 0) c HeaderSize of
        (Inl err, c) \<Rightarrow> (Fail (AckIo err), c)
      | (Inr hdr, c) \<Rightarrow>
         (case magic_ok hdr of
            Panic \<Rightarrow> (Panic, c)
          | Fail e \<Rightarrow> (Fail e, c)
          | Ret False \<Rightarrow> (Fail BadMagic, c)
          | Ret True \<Rightarrow>
             (case go_bind (slice hdr 7 9) get16 of
                Panic \<Rightarrow> (Panic, c)
              | Fail e \<Rightarrow> (Fail e, c)
              | Ret payloadLen \<Rightarrow>
                 (case readFull (chunks 1) c (unat (payloadLen + 2)) of
                    (Inl err, c) \<Rightarrow> (Fail (AckIo err), c)
                  | (Inr rest, c) \<Rightarrow> (ack_of hdr expectType payloadLen rest, c)))))"

section \<open>Building readings\<close>

text \<open>\<^verbatim>\<open>tsSeq.Add(1)\<close>, after what the other clients have added.\<close>

definition tsSeq_Add :: "load_env \<Rightarrow> load_client \<Rightarrow> u64 \<times> load_client" where
  "tsSeq_Add env lc =
     (let ts = lc_tsSeq lc + of_nat (le_others env (lc_ticks lc)) + 1
      in (ts, (ltick lc)\<lparr>lc_tsSeq := ts\<rparr>))"

definition load_reading :: "int \<Rightarrow> string \<Rightarrow> u64 \<Rightarrow> Reading" where
  "load_reading base dev ts =
     \<lparr>r_ID = word_of_int base * 1000 + ts, r_Device = dev, r_DeviceName = dev, r_Point = ''pt-000001'',
      r_PointName = ''pt-000001'', r_DataType = DataTypeUint16, r_Value = ''42'', r_Quality = QualityGood,
      r_Unit = [], r_Timestamp = ts\<rparr>"

primrec add_readings :: "load_env \<Rightarrow> int \<Rightarrow> string \<Rightarrow> nat \<Rightarrow> load_client \<Rightarrow> Reading list \<times> load_client" where
  "add_readings env base dev 0 lc = ([], lc)"
| "add_readings env base dev (Suc n) lc =
     (let (ts, lc) = tsSeq_Add env lc;
          (rs, lc) = add_readings env base dev n lc
      in (load_reading base dev ts # rs, lc))"

definition buildReadings :: "load_env \<Rightarrow> load_flags \<Rightarrow> string \<Rightarrow> nat \<Rightarrow> load_client
    \<Rightarrow> (load_error, Reading list \<times> load_client) go" where
  "buildReadings env flags sn n lc =
     (let base = l_milli env lc; lc = ltick lc in
      if length sn < 3 then Panic
      else go_bind (slice sn (length sn - 3) (length sn)) (\<lambda>suffix.
           Ret (add_readings env base (lf_devPrefix flags @ ''-'' @ suffix) n lc)))"

section \<open>One client\<close>

datatype load_outcome = Goes | Returned | Crashes

text \<open>One turn of the upload loop, after the deadline was checked.\<close>

definition upload_answer :: "load_env \<Rightarrow> load_flags \<Rightarrow> int \<Rightarrow> (load_error, ackResult) go \<Rightarrow> load_client \<Rightarrow> load_outcome \<times> load_client" where
  "upload_answer env flags t0 ack lc =
     (case ack of
        Panic \<Rightarrow> (Crashes, lc)
      | Fail e \<Rightarrow> (Goes, fail1 lc)
      | Ret a \<Rightarrow>
          let r = lc_result lc;
              r = r\<lparr>lr_latencies := lr_latencies r @ [l_now env lc - t0]\<rparr>;
              lc = (ltick lc)\<lparr>lc_result := r\<rparr>
          in if ak_Code a \<noteq> code_Ok then (Goes, fail1 lc)
             else (Goes, lc\<lparr>lc_result := r\<lparr>lr_acked := lr_acked r + 1, lr_sent := lr_sent r + int (lf_batch flags)\<rparr>\<rparr>))"

definition upload_turn :: "load_env \<Rightarrow> load_flags \<Rightarrow> load_client \<Rightarrow> load_outcome \<times> load_client" where
  "upload_turn env flags lc =
     (case buildReadings env flags (lr_sn (lc_result lc)) (lf_batch flags) lc of
        Panic \<Rightarrow> (Crashes, lc)
      | Fail e \<Rightarrow> (Returned, lc)
      | Ret (readings, lc) \<Rightarrow>
         (case NewMsg (lc_factory lc) (l_milli env lc) MsgTypeUpload (PUpload \<lparr>up_Readings = readings\<rparr>) of
            Panic \<Rightarrow> (Crashes, lc)
          | Fail e \<Rightarrow> (Returned, ltick lc)
          | Ret (m, f) \<Rightarrow>
              let lc = (ltick lc)\<lparr>lc_factory := f\<rparr>;
                  t0 = l_now env lc;
                  lc = ltick lc
              in case conn_Write (lc_conn lc) (fst (Msg_Encode m)) of
                   (False, c) \<Rightarrow> (Returned, fail1 (lc\<lparr>lc_conn := c\<rparr>))
                 | (True, c) \<Rightarrow>
                    (case readAck (\<lambda>i. le_chunks env (2 * lc_ticks lc + i)) c MsgTypeUploadAck of
                       (ack, c) \<Rightarrow> upload_answer env flags t0 ack ((ltick lc)\<lparr>lc_conn := c\<rparr>))))"

text \<open>The loop ends when the clock has reached the deadline; \<open>None\<close> is a loop that does not end.\<close>

partial_function (option) upload_loop :: "load_env \<Rightarrow> load_flags \<Rightarrow> int \<Rightarrow> load_client \<Rightarrow> (load_outcome \<times> load_client) option" where
  "upload_loop env flags deadline lc =
     (let t = l_now env lc; lc = ltick lc in
      if t < deadline
      then case upload_turn env flags lc of
             (Goes, lc) \<Rightarrow> upload_loop env flags deadline lc
           | r \<Rightarrow> Some r
      else Some (Returned, lc))"

text \<open>One turn of the loop that only keeps the connection; its sleep is a tick.\<close>

definition idle_turn :: "load_env \<Rightarrow> int \<Rightarrow> load_client \<Rightarrow> load_outcome \<times> int \<times> load_client" where
  "idle_turn env lastHb lc =
     (let since = l_now env lc - lastHb; lc = ltick lc in
      if since \<ge> 30 * l_Second
      then case NewMsg (lc_factory lc) (l_milli env lc) MsgTypeHeartbeat PHeartbeat of
             Panic \<Rightarrow> (Crashes, lastHb, lc)
           | Fail e \<Rightarrow> (Returned, lastHb, ltick lc)
           | Ret (m, f) \<Rightarrow>
               let lc = (ltick lc)\<lparr>lc_factory := f\<rparr> in
               case conn_Write (lc_conn lc) (fst (Msg_Encode m)) of
                 (False, c) \<Rightarrow> (Returned, lastHb, fail1 (lc\<lparr>lc_conn := c\<rparr>))
               | (True, c) \<Rightarrow> (Goes, l_now env lc, ltick (lc\<lparr>lc_conn := c\<rparr>))
      else (Goes, lastHb, lc))"

partial_function (option) idle_loop :: "load_env \<Rightarrow> int \<Rightarrow> int \<Rightarrow> load_client \<Rightarrow> (load_outcome \<times> load_client) option" where
  "idle_loop env hbDeadline lastHb lc =
     (let t = l_now env lc; lc = ltick lc in
      if t < hbDeadline
      then case idle_turn env lastHb lc of
             (Goes, lastHb, lc) \<Rightarrow> idle_loop env hbDeadline lastHb lc
           | (r, _, lc) \<Rightarrow> Some (r, lc)
      else Some (Returned, lc))"

text \<open>The handshake; \<open>Goes\<close> when it was accepted.\<close>

definition load_handshake :: "load_env \<Rightarrow> load_flags \<Rightarrow> load_client \<Rightarrow> load_outcome \<times> load_client" where
  "load_handshake env flags lc =
     (case NewMsg (lc_factory lc) (l_milli env lc) MsgTypeHandshake
        (PHandshake \<lparr>hs_FirmwareVersion = 1, hs_Sn = lr_sn (lc_result lc), hs_Token = lf_token flags\<rparr>) of
        Panic \<Rightarrow> (Crashes, lc)
      | Fail e \<Rightarrow> (Returned, ltick lc)
      | Ret (hs, f) \<Rightarrow>
          let lc = (ltick lc)\<lparr>lc_factory := f\<rparr> in
          case conn_Write (lc_conn lc) (fst (Msg_Encode hs)) of
            (False, c) \<Rightarrow> (Returned, lc\<lparr>lc_conn := c\<rparr>)
          | (True, c) \<Rightarrow>
             (case readAck (\<lambda>i. le_chunks env (2 * lc_ticks lc + i)) c MsgTypeHandshakeAck of
                (Panic, c) \<Rightarrow> (Crashes, lc\<lparr>lc_conn := c\<rparr>)
              | (Fail e, c) \<Rightarrow> (Returned, fail1 ((ltick lc)\<lparr>lc_conn := c\<rparr>))
              | (Ret ack, c) \<Rightarrow>
                  if ak_Code ack \<noteq> code_Ok then (Returned, fail1 ((ltick lc)\<lparr>lc_conn := c\<rparr>))
                  else (Goes, (ltick lc)\<lparr>lc_conn := c\<rparr>)))"

definition after_handshake :: "load_env \<Rightarrow> load_flags \<Rightarrow> load_client \<Rightarrow> (load_outcome \<times> load_client) option" where
  "after_handshake env flags lc =
     (if lf_idle flags
      then let r = lc_result lc;
               lc = lc\<lparr>lc_result := r\<lparr>lr_acked := lr_acked r + 1\<rparr>\<rparr>;
               hbDeadline = l_now env lc + lf_duration flags;
               lc = ltick lc
           in idle_loop env hbDeadline (l_now env lc) (ltick lc)
      else upload_loop env flags (l_now env lc + lf_duration flags) (ltick lc))"

definition new_result :: "string \<Rightarrow> clientResult" where
  "new_result sn = \<lparr>lr_sn = sn, lr_sent = 0, lr_acked = 0, lr_failed = 0, lr_latencies = []\<rparr>"

text \<open>\<open>dialled\<close> is what \<^verbatim>\<open>net.DialTimeout\<close> gives; the deadline of the connection is part of how its stream ends.\<close>

definition runClient :: "load_env \<Rightarrow> load_flags \<Rightarrow> conn option \<Rightarrow> clientResult \<Rightarrow> u64 \<Rightarrow> (load_outcome \<times> clientResult \<times> conn option) option" where
  "runClient env flags dialled r tsSeq =
     (case dialled of
        None \<Rightarrow> Some (Returned, r, None)
      | Some c \<Rightarrow>
          map_option (\<lambda>(out, lc). (out, lc_result lc, Some (lc_conn lc)))
           (case load_handshake env flags
                  \<lparr>lc_conn = c, lc_factory = NewMsgFactory, lc_result = r, lc_tsSeq = tsSeq, lc_ticks = 0\<rparr> of
              (Goes, lc) \<Rightarrow> after_handshake env flags lc
            | res \<Rightarrow> Some res))"

section \<open>The clients and their sums\<close>

text \<open>\<^verbatim>\<open>%03d\<close> of a positive number.\<close>

definition pad3 :: "nat \<Rightarrow> string" where
  "pad3 n = replicate (3 - length (Itoa n)) (CHR ''0'') @ Itoa n"

definition client_sn :: "load_flags \<Rightarrow> nat \<Rightarrow> string" where
  "client_sn flags i = lf_snPrefix flags @ ''-'' @ pad3 (i + 1)"

definition load_totals :: "clientResult list \<Rightarrow> int \<times> int \<times> int \<times> int list" where
  "load_totals results =
     (sum_list (map lr_sent results), sum_list (map lr_acked results), sum_list (map lr_failed results),
      concat (map lr_latencies results))"

text \<open>\<^verbatim>\<open>allLat[int(float64(frameCount)*q)]\<close> of the sorted latencies.\<close>

definition percentile :: "float64 \<Rightarrow> int list \<Rightarrow> (load_error, int) go" where
  "percentile q allLat =
     (let i = f_trunc (f_mul (float64_of_int (int (length allLat))) q) in
      case i of None \<Rightarrow> Panic | Some i \<Rightarrow> if i < 0 then Panic else index (sort allLat) (nat i))"

end
