(* ===== verification/LoadgenProps.thy ===== *)
theory LoadgenProps
  imports Loadgen
begin

text \<open>
  What the load generator measures: it reads an acknowledgement as the gateway does, but without its checksum
  and with a sum that can wrap; its counts balance; and it returns when its time is over.
\<close>

section \<open>Reading\<close>

lemma conn_Read_progress:
  assumes "conn_Read there c n = Inr (b, c')" and "0 < n"
  obtains x where "c_in c = b @ x" "c' = c\<lparr>c_in := x\<rparr>" "0 < length b" "length b \<le> n"
proof -
  let ?k = "min n (max 1 there)"
  have k: "0 < ?k" "?k \<le> n" using assms(2) by simp_all
  from assms(1) have "c_in c \<noteq> []" "b = take ?k (c_in c)" "c' = c\<lparr>c_in := drop ?k (c_in c)\<rparr>"
    by (simp_all add: conn_Read_def Let_def split: if_splits)
  with that [of "drop ?k (c_in c)"] k show ?thesis by simp
qed

lemma readFull_loop_eq:
  "readFull_loop chunks n buf c =
     (if length buf < n then
        if n - length buf \<le> length (c_in c)
        then (Inr (buf @ take (n - length buf) (c_in c)), c\<lparr>c_in := drop (n - length buf) (c_in c)\<rparr>)
        else (Inl (end_error (c_end c)), c\<lparr>c_in := []\<rparr>)
      else (Inr buf, c))"
proof (induction chunks n buf c rule: readFull_loop.induct)
  case (1 chunks n buf c)
  show ?case
  proof (cases "length buf < n")
    case False
    then show ?thesis by (simp add: readFull_loop.simps)
  next
    case less: True
    show ?thesis
    proof (cases "conn_Read (chunks (length buf)) c (n - length buf)")
      case (Inl e)
      then have "c_in c = []" "e = end_error (c_end c)" by (auto simp: conn_Read_def Let_def split: if_splits)
      with Inl less show ?thesis by (simp add: readFull_loop.simps)
    next
      case (Inr r)
      obtain b c' where r: "r = (b, c')" by (cases r)
      have n: "0 < n - length buf" using less by simp
      obtain x where x: "c_in c = b @ x" "c' = c\<lparr>c_in := x\<rparr>" "0 < length b" "length b \<le> n - length buf"
        using conn_Read_progress [OF Inr [unfolded r] n] .
      have step: "readFull_loop chunks n buf c = readFull_loop chunks n (buf @ b) c'"
        using Inr r less by (simp add: readFull_loop.simps [of _ _ buf])
      have rest: "n - length (buf @ b) = n - length buf - length b" by simp
      note IH = 1 [OF less Inr, unfolded r fst_conv snd_conv rest]
      obtain d where d: "n = length buf + length b + d"
        using less x(4) by (metis add_diff_inverse_nat le_Suc_ex less_le_not_le group_cancel.add1)
      show ?thesis using x(3) unfolding step IH unfolding x(1,2) unfolding d by simp
    qed
  qed
qed

lemma readFull_eq:
  "readFull chunks c n =
     (if n \<le> length (c_in c) then (Inr (take n (c_in c)), c\<lparr>c_in := drop n (c_in c)\<rparr>)
      else (Inl (end_error (c_end c)), c\<lparr>c_in := []\<rparr>))"
  by (cases "n = 0") (simp_all add: readFull_def readFull_loop_eq)

section \<open>Acknowledgements\<close>

lemma magic_ok_eq: "length h = 13 \<Longrightarrow> magic_ok h = Ret (be_val (take 2 h) = MagicNumber)"
proof -
  assume h: "length h = 13"
  then obtain a b r where ab: "h = a # b # r" by (cases h; cases "tl h") auto
  have m: "be16 MagicNumber = [0x4E, 0x59]" by (simp add: be16_eq MagicNumber_def)
  have k: "(ucast (drop_bit 8 MagicNumber) :: u8) = 0x4E" "(ucast (MagicNumber AND 0xFF) :: u8) = 0x59"
    by (simp_all add: MagicNumber_def)
  have "be_val [a, b] = MagicNumber \<longleftrightarrow> [a, b] = be16 MagicNumber"
    using get16_Ret_iff [of "[a, b]" MagicNumber] by (simp add: get16_def)
  then have "be_val (take 2 h) = MagicNumber \<longleftrightarrow> a = 0x4E \<and> b = 0x59" unfolding m ab by simp
  moreover have "magic_ok h = Ret (a = 0x4E \<and> b = 0x59)" unfolding magic_ok_def k ab by (simp add: index_def)
  ultimately show ?thesis by simp
qed

lemma readAck_split:
  assumes inp: "c_in c = h @ pl @ ck @ rest" and h: "length h = 13"
    and pl: "length pl = header_plen h" and small: "header_plen h < 65534" and ck: "length ck = 2"
  shows "readAck chunks c t =
    (if be_val (take 2 h) \<noteq> MagicNumber then (Fail BadMagic, c\<lparr>c_in := pl @ ck @ rest\<rparr>)
     else (ack_of h t (be_val (take 2 (drop 7 h))) (pl @ ck), c\<lparr>c_in := rest\<rparr>))"
proof -
  let ?l = "be_val (take 2 (drop 7 h)) :: u16"
  have r1: "readFull (chunks 0) c HeaderSize = (Inr h, c\<lparr>c_in := pl @ ck @ rest\<rparr>)"
    using inp h by (simp add: readFull_eq HeaderSize_eq)
  have l: "go_bind (slice h 7 9) get16 = Ret ?l" using h by (simp add: slice_def get16_def)
  have "unat (?l + 2) = unat ?l + 2" using small by (subst unat_add_lem [THEN iffD1]) (simp_all add: header_plen_def)
  then have r2: "readFull (chunks 1) (c\<lparr>c_in := pl @ ck @ rest\<rparr>) (unat (?l + 2)) = (Inr (pl @ ck), c\<lparr>c_in := rest\<rparr>)"
    using pl ck by (simp add: readFull_eq header_plen_def)
  show ?thesis unfolding readAck_def r1 by (simp add: magic_ok_eq [OF h] l r2 [unfolded One_nat_def])
qed

lemma ack_of_eq:
  assumes "length h = 13" and "Ack_Decode pl = Ret a"
  shows "ack_of h (h ! 4) (of_nat (length pl)) (pl @ ck) =
    (if (of_nat (length pl) :: u16) < 3 then Fail (AckTooShort (of_nat (length pl)))
     else Ret \<lparr>ak_MsgID = ack_MsgID a, ak_Code = ack_Code a\<rparr>)"
proof -
  from assms(2) have n: "3 \<le> length pl" by (auto simp: Ack_Decode_def split: if_splits)
  then have "a = \<lparr>ack_MsgID = be_val (take 2 pl), ack_Code = pl ! 2\<rparr>"
    using assms(2) by (simp add: Ack_Decode_def slice_def get16_def index_def)
  with n assms(1) show ?thesis by (simp add: ack_of_def slice_def get16_def index_def nth_append)
qed

text \<open>The checksum can be anything.\<close>

lemma readAck_frame:
  assumes "m_Magic m = MagicNumber" and "Ack_Decode (m_Payload m) = Ret a" and "length (m_Payload m) < 65534"
    and "length ck = 2" and "c_in c = frame_header m @ m_Payload m @ ck @ rest"
  shows "readAck chunks c (m_Type m) = (Ret \<lparr>ak_MsgID = ack_MsgID a, ak_Code = ack_Code a\<rparr>, c\<lparr>c_in := rest\<rparr>)"
proof -
  let ?h = "frame_header m" and ?n = "length (m_Payload m)"
  have n: "3 \<le> ?n" using assms(2) by (auto simp: Ack_Decode_def split: if_splits)
  have plen: "header_plen ?h = ?n" using assms(3) by (simp add: header_plen_frame)
  have ty: "?h ! 4 = m_Type m" by (simp add: frame_header_def be16_eq)
  have magic: "be_val (take 2 ?h) = MagicNumber" using assms(1) by (simp add: frame_header_def)
  have len: "be_val (take 2 (drop 7 ?h)) = (of_nat ?n :: u16)" by (simp add: frame_header_def)
  have "unat (of_nat ?n :: u16) = ?n" using assms(3) by (simp add: unat_of_nat_u16)
  then have "\<not> (of_nat ?n :: u16) < 3" using n by (simp add: word_less_nat_alt)
  then show ?thesis
    using readAck_split [OF assms(5) length_frame_header plen [symmetric] _ assms(4)] ack_of_eq [OF length_frame_header assms(2), of m ck]
      assms(3) plen magic len ty
    by simp
qed

lemma ParseMsg_ack_payload: "ParseMsg m = Ret (PAck a) \<Longrightarrow> Ack_Decode (m_Payload m) = Ret a"
  by (auto simp: ParseMsg_def ParseMsg_in_def init_registry_def RegisterPacketType_def decodeHandshake_def decodeUpload_def
      decodeHeartbeat_def decodeNotify_def decodeAck_def go_bind_Ret_iff split: option.splits if_splits)

text \<open>
  C33. The load generator reads acknowledgements as the gateway does. When the frame decoder accepts a frame and
  its payload is an acknowledgement, \<^verbatim>\<open>readAck\<close> gives the same message id and code and leaves the same rest of
  the stream, in whatever pieces the bytes arrive. It does so with any two bytes in the place of the checksum,
  so it also counts frames that the gateway refuses.
\<close>

theorem readAck_agrees:
  assumes "DecodeFrame c = Ret (m, c')" and "ParseMsg m = Ret (PAck a)" and "m_PayloadLen m < 65534" and "length ck = 2"
  shows "readAck chunks c (m_Type m) = (Ret \<lparr>ak_MsgID = ack_MsgID a, ak_Code = ack_Code a\<rparr>, c')
     \<and> readAck chunks (c\<lparr>c_in := frame_header m @ m_Payload m @ ck @ c_in c'\<rparr>) (m_Type m) =
      (Ret \<lparr>ak_MsgID = ack_MsgID a, ak_Code = ack_Code a\<rparr>, c')"
proof -
  from assms(1) have wf: "frame_wf m" and inp: "c_in c = fst (Msg_Encode m) @ c_in c'" and c': "c' = c\<lparr>c_in := c_in c'\<rparr>"
    by (simp_all only: DecodeFrame_iff)
  have magic: "m_Magic m = MagicNumber" and "unat (m_PayloadLen m) = length (m_Payload m)"
    using wf by (simp_all add: frame_wf_def)
  with assms(3) have small: "length (m_Payload m) < 65534" by (simp add: word_less_nat_alt)
  note frame = readAck_frame [OF magic ParseMsg_ack_payload [OF assms(2)] small]
  have "c_in c = frame_header m @ m_Payload m @ be16 (CalChecksum (frame_header m @ m_Payload m)) @ c_in c'"
    using inp by (simp add: Msg_Encode_def Let_def)
  from frame [OF _ this, of chunks] c'
  have "readAck chunks c (m_Type m) = (Ret \<lparr>ak_MsgID = ack_MsgID a, ak_Code = ack_Code a\<rparr>, c')" by simp
  moreover have "c\<lparr>c_in := frame_header m @ m_Payload m @ ck @ c_in c'\<rparr>\<lparr>c_in := c_in c'\<rparr> = c'" using c' by simp
  ultimately show ?thesis
    using frame [OF assms(4), of "c\<lparr>c_in := frame_header m @ m_Payload m @ ck @ c_in c'\<rparr>" "c_in c'" chunks] by simp
qed

theorem readAck_agrees_witness:
  "\<exists>c m. DecodeFrame c = Ret (m, c\<lparr>c_in := []\<rparr>) \<and> readAck (\<lambda>_ _. 1) c MsgTypeUploadAck = (Ret \<lparr>ak_MsgID = 7, ak_Code = code_Ok\<rparr>, c\<lparr>c_in := []\<rparr>)"
proof -
  let ?p = "PAck \<lparr>ack_MsgID = 7, ack_Code = code_Ok\<rparr>"
  obtain m f where new: "NewMsg NewMsgFactory 0 MsgTypeUploadAck ?p = Ret (m, f)"
    by (simp add: ack_NewMsg)
  have small: "length (m_Payload m) = 3" and t: "MsgTypeUploadAck \<in> packet_types ?p"
    using NewMsg_RetD(1) [OF new] by (auto simp: Ack_Encode_def dest: sym)
  let ?c = "sample_conn (fst (Msg_Encode m) @ [])"
  have "length (m_Payload m) \<le> 65535" and "c_in ?c = fst (Msg_Encode m) @ []" using small by (simp_all add: sample_conn_def)
  note cross = frame_crosses [OF new t this]
  have "m_PayloadLen (snd (Msg_Encode m)) < 65534" using new by (auto simp: ack_NewMsg Msg_Encode_def Let_def)
  with readAck_agrees [OF cross(1,2) this, of "[0, 0]" "\<lambda>_ _. 1"] cross(1,3)
  show ?thesis by (intro exI [of _ ?c] exI [of _ "snd (Msg_Encode m)"]) simp
qed

section \<open>A length that wraps\<close>

lemma unat_add_2: "unat (l + 2 :: u16) = (if 65534 \<le> unat l then unat l - 65534 else unat l + 2)"
proof (cases "65534 \<le> unat l")
  case True
  moreover have "unat l < 65536" using unsigned_less [of l] by simp
  ultimately have "(unat l + 2) mod 65536 = unat l + 2 - 65536" by (subst le_mod_geq) simp_all
  with True show ?thesis by (simp add: unat_word_ariths)
next
  case False
  then show ?thesis by (simp add: unat_word_ariths)
qed

text \<open>
  The buffer for payload and checksum is one that can wrap. \<^verbatim>\<open>readAck\<close> panics exactly on a frame of the
  expected type whose length field is 65534 or 65535: the sum with two is taken in 16 bits, the buffer gets no
  byte or one, and the message id is read beyond its end.
\<close>

theorem readAck_panics_iff:
  "fst (readAck chunks c t) = Panic \<longleftrightarrow>
     (\<exists>h rest. c_in c = h @ rest \<and> length h = 13 \<and> be_val (take 2 h) = MagicNumber \<and> h ! 4 = t
       \<and> 65534 \<le> header_plen h \<and> header_plen h - 65534 \<le> length rest)"
proof (cases "length (c_in c) < 13")
  case True
  then show ?thesis by (auto simp: readAck_def readFull_eq HeaderSize_eq)
next
  case False
  let ?h = "take 13 (c_in c)" and ?r = "drop 13 (c_in c)"
  define l where "l = (be_val (take 2 (drop 7 ?h)) :: u16)"
  have h: "length ?h = 13" using False by simp
  have split: "(\<exists>h rest. c_in c = h @ rest \<and> length h = 13 \<and> P h rest) \<longleftrightarrow> P ?h ?r" for P
    using h by (metis append_eq_conv_conj append_take_drop_id)
  have r1: "readFull (chunks 0) c HeaderSize = (Inr ?h, c\<lparr>c_in := ?r\<rparr>)"
    using False by (simp add: readFull_eq HeaderSize_eq)
  have l: "go_bind (slice ?h 7 9) get16 = Ret l" using h by (simp add: slice_def get16_def l_def)
  have panic: "ack_of ?h t l rest = Panic \<longleftrightarrow> ?h ! 4 = t \<and> \<not> l < 3 \<and> length rest < 3" for rest
    using h by (auto simp: ack_of_def index_def slice_def get16_def)
  have small: "unat l < 65536" using unsigned_less [of l] by simp
  have big: "\<not> l < 3" if "65534 \<le> unat l" using that by (simp add: word_less_nat_alt)
  have "fst (readAck chunks c t) = Panic \<longleftrightarrow> be_val (take 2 ?h) = MagicNumber \<and> unat (l + 2) \<le> length ?r
      \<and> ack_of ?h t l (take (unat (l + 2)) ?r) = Panic"
    unfolding readAck_def r1 prod.case sum.case magic_ok_eq [OF h] go.case l readFull_eq [of "chunks 1"]
    by (simp split: bool.split)
  also have "\<dots> \<longleftrightarrow> be_val (take 2 ?h) = MagicNumber \<and> ?h ! 4 = t \<and> 65534 \<le> unat l \<and> unat l - 65534 \<le> length ?r"
    using big small by (cases "65534 \<le> unat l") (auto simp: panic unat_add_2 word_less_nat_alt min_def)
  finally show ?thesis unfolding header_plen_def split l_def .
qed

section \<open>Counting\<close>

text \<open>What one turn of the loop adds to the counts and to what has been written.\<close>

definition lwritten :: "load_client \<Rightarrow> int" where
  "lwritten lc = int (length (c_out (lc_conn lc)))"

definition counted :: "load_client \<Rightarrow> int" where
  "counted lc = lr_acked (lc_result lc) + lr_failed (lc_result lc)"

definition balanced :: "load_flags \<Rightarrow> clientResult \<Rightarrow> bool" where
  "balanced flags r \<longleftrightarrow> lr_sent r = int (lf_batch flags) * lr_acked r \<and> lr_acked r \<le> int (length (lr_latencies r))
     \<and> int (length (lr_latencies r)) \<le> lr_acked r + lr_failed r \<and> 0 \<le> lr_failed r"

lemma ltick_simps [simp]:
  "lc_result (ltick lc) = lc_result lc" "lc_conn (ltick lc) = lc_conn lc" "lc_tsSeq (ltick lc) = lc_tsSeq lc"
  "lc_factory (ltick lc) = lc_factory lc" "lc_ticks (ltick lc) = lc_ticks lc + 1"
  by (simp_all add: ltick_def)

lemma tick_counts [simp]: "counted (ltick lc) = counted lc" "lwritten (ltick lc) = lwritten lc"
  by (simp_all add: counted_def lwritten_def)

lemma fail1_simps [simp]:
  "lc_conn (fail1 lc) = lc_conn lc" "lc_ticks (fail1 lc) = lc_ticks lc" "lr_acked (lc_result (fail1 lc)) = lr_acked (lc_result lc)"
  "lr_failed (lc_result (fail1 lc)) = lr_failed (lc_result lc) + 1" "lr_sent (lc_result (fail1 lc)) = lr_sent (lc_result lc)"
  "lr_latencies (lc_result (fail1 lc)) = lr_latencies (lc_result lc)" "lr_sn (lc_result (fail1 lc)) = lr_sn (lc_result lc)"
  by (simp_all add: fail1_def)

lemma add_readings_keeps:
  "lc_result (snd (add_readings env base dev n lc)) = lc_result lc"
  "lc_conn (snd (add_readings env base dev n lc)) = lc_conn lc"
  "lc_ticks (snd (add_readings env base dev n lc)) = lc_ticks lc + n"
  by (induction n arbitrary: lc) (simp_all add: tsSeq_Add_def Let_def split_beta)

lemma buildReadings_keeps:
  assumes "buildReadings env flags sn n lc = Ret (rs, lc')"
  shows "lc_result lc' = lc_result lc" "lc_conn lc' = lc_conn lc" "lc_ticks lc' = lc_ticks lc + n + 1"
proof -
  obtain base dev where "add_readings env base dev n (ltick lc) = (rs, lc')"
    using assms by (auto simp: buildReadings_def Let_def go_bind_Ret_iff split: if_splits)
  then have "lc' = snd (add_readings env base dev n (ltick lc))" by (metis snd_conv)
  then show "lc_result lc' = lc_result lc" "lc_conn lc' = lc_conn lc" "lc_ticks lc' = lc_ticks lc + n + 1"
    by (simp_all add: add_readings_keeps)
qed

lemma readFull_keeps: "readFull chunks c n = (r, c') \<Longrightarrow> c_out c' = c_out c \<and> c_writes_left c' = c_writes_left c"
  by (auto simp: readFull_eq split: if_splits)

lemma readAck_keeps: "readAck chunks c t = (r, c') \<Longrightarrow> c_out c' = c_out c \<and> c_writes_left c' = c_writes_left c"
  by (auto simp: readAck_def dest!: readFull_keeps split: prod.splits sum.splits go.splits bool.splits)

lemma conn_Write_cases:
  assumes w: "conn_Write c b = (ok, c')"
  shows "if ok then c_out c' = c_out c @ [b] else c' = c"
proof (cases "c_writes_left c")
  case 0
  have "(ok, c') = (False, c)" unfolding w [symmetric] by (simp add: conn_Write_def 0)
  then show ?thesis by simp
next
  case (Suc n)
  have "(ok, c') = (True, c\<lparr>c_out := c_out c @ [b], c_writes_left := n\<rparr>)" unfolding w [symmetric] by (simp add: conn_Write_def Suc)
  then show ?thesis by simp
qed

lemma upload_answer_counts:
  assumes "upload_answer env flags t0 ack lc = (out, lc')" and "balanced flags (lc_result lc)" and "out \<noteq> Crashes"
  shows "balanced flags (lc_result lc') \<and> out = Goes \<and> lc_conn lc' = lc_conn lc \<and> counted lc' = counted lc + 1
    \<and> lc_ticks lc \<le> lc_ticks lc'"
proof (cases ack)
  case (Ret a)
  let ?r = "(lc_result lc)\<lparr>lr_latencies := lr_latencies (lc_result lc) @ [l_now env lc - t0]\<rparr>"
  show ?thesis
  proof (cases "ak_Code a = code_Ok")
    case True
    then have "out = Goes" "lc' = (ltick lc)\<lparr>lc_result := ?r\<lparr>lr_acked := lr_acked ?r + 1, lr_sent := lr_sent ?r + int (lf_batch flags)\<rparr>\<rparr>"
      using assms(1) Ret by (simp_all add: upload_answer_def Let_def)
    with assms(2) show ?thesis by (simp add: balanced_def counted_def distrib_left)
  next
    case False
    then have "out = Goes" "lc' = fail1 ((ltick lc)\<lparr>lc_result := ?r\<rparr>)"
      using assms(1) Ret by (simp_all add: upload_answer_def Let_def)
    with assms(2) show ?thesis by (simp add: balanced_def counted_def)
  qed
next
  case (Fail e)
  then have "out = Goes" "lc' = fail1 lc" using assms(1) by (simp_all add: upload_answer_def)
  with assms(2) show ?thesis by (simp add: balanced_def counted_def)
next
  case Panic
  then show ?thesis using assms by (simp add: upload_answer_def)
qed

lemma upload_turn_counts:
  assumes turn: "upload_turn env flags lc = (out, lc')" and bal: "balanced flags (lc_result lc)" and out: "out \<noteq> Crashes"
  shows "balanced flags (lc_result lc')
    \<and> (if out = Goes then lwritten lc' = lwritten lc + 1 \<and> counted lc' = counted lc + 1
       else lwritten lc' = lwritten lc \<and> counted lc' \<in> {counted lc, counted lc + 1})"
proof (cases "buildReadings env flags (lr_sn (lc_result lc)) (lf_batch flags) lc")
  case (Ret r)
  obtain rs l1 where r: "r = (rs, l1)" by (cases r)
  note keep = buildReadings_keeps [OF Ret [unfolded r]]
  show ?thesis
  proof (cases "NewMsg (lc_factory l1) (l_milli env l1) MsgTypeUpload (PUpload \<lparr>up_Readings = rs\<rparr>)")
    case (Ret mf)
    obtain m f where mf: "mf = (m, f)" by (cases mf)
    let ?l2 = "ltick ((ltick l1)\<lparr>lc_factory := f\<rparr>)"
    obtain ok c where w: "conn_Write (lc_conn ?l2) (fst (Msg_Encode m)) = (ok, c)" by fastforce
    show ?thesis
    proof (cases ok)
      case False
      then have c: "c = lc_conn lc" using conn_Write_cases [OF w] keep(2) by simp
      have "lc' = fail1 (?l2\<lparr>lc_conn := c\<rparr>)" "out = Returned"
        using turn w False Ret mf \<open>buildReadings _ _ _ _ _ = _\<close> r by (simp_all add: upload_turn_def Let_def)
      with c keep bal show ?thesis by (simp add: balanced_def lwritten_def counted_def)
    next
      case True
      obtain ack c2 where ack: "readAck (\<lambda>i. le_chunks env (2 * lc_ticks ?l2 + i)) c MsgTypeUploadAck = (ack, c2)" by fastforce
      let ?l3 = "(ltick ?l2)\<lparr>lc_conn := c2\<rparr>"
      have ans: "upload_answer env flags (l_now env ((ltick l1)\<lparr>lc_factory := f\<rparr>)) ack ?l3 = (out, lc')"
        using turn w True Ret mf ack \<open>buildReadings _ _ _ _ _ = _\<close> r by (simp add: upload_turn_def Let_def)
      have "balanced flags (lc_result ?l3)" using keep bal by simp
      from upload_answer_counts [OF ans this out]
      have *: "balanced flags (lc_result lc')" "out = Goes" "lc_conn lc' = c2" "counted lc' = counted ?l3 + 1" by simp_all
      have "length (c_out c2) = length (c_out (lc_conn lc)) + 1"
        using readAck_keeps [OF ack] conn_Write_cases [OF w] True keep(2) by simp
      then show ?thesis using * keep by (simp add: lwritten_def counted_def)
    qed
  qed (use turn out bal keep \<open>buildReadings _ _ _ _ _ = _\<close> r in \<open>auto simp: upload_turn_def lwritten_def counted_def\<close>)
qed (use turn out bal in \<open>auto simp: upload_turn_def lwritten_def counted_def\<close>)

text \<open>The loops: \<open>books\<close> relates a client that has returned to what it had counted and written before.\<close>

definition books :: "load_flags \<Rightarrow> load_client \<Rightarrow> load_client \<Rightarrow> bool" where
  "books flags lc lc' \<longleftrightarrow> balanced flags (lc_result lc')
     \<and> counted lc' - counted lc - (lwritten lc' - lwritten lc) \<in> {0, 1}"

lemma upload_loop_books:
  assumes "upload_loop env flags deadline lc = Some r"
  shows "balanced flags (lc_result lc) \<and> fst r \<noteq> Crashes \<longrightarrow> books flags lc (snd r) \<and> fst r = Returned"
proof (rule upload_loop.raw_induct [OF _ assms], intro impI, elim conjE)
  fix loop env flags deadline lc r
  let ?P = "\<lambda>(env :: load_env) flags (deadline :: int) lc r. balanced flags (lc_result lc) \<and> fst r \<noteq> Crashes \<longrightarrow> books flags lc (snd r) \<and> fst r = Returned"
  assume IH: "\<And>env flags deadline lc r. loop env flags deadline lc = Some r \<Longrightarrow> ?P env flags deadline lc r"
    and body: "(let t = l_now env lc; lc = ltick lc in
      if t < deadline
      then case upload_turn env flags lc of (Goes, lc) \<Rightarrow> loop env flags deadline lc | r \<Rightarrow> Some r
      else Some (Returned, lc)) = Some r"
    and bal: "balanced flags (lc_result lc)" and out: "fst r \<noteq> Crashes"
  show "books flags lc (snd r) \<and> fst r = Returned"
  proof (cases "l_now env lc < deadline")
    case False
    then show ?thesis using body bal by (auto simp: Let_def books_def counted_def lwritten_def)
  next
    case True
    obtain o1 l1 where turn: "upload_turn env flags (ltick lc) = (o1, l1)" by fastforce
    have counts: "o1 \<noteq> Crashes \<Longrightarrow> balanced flags (lc_result l1)
      \<and> (if o1 = Goes then lwritten l1 = lwritten lc + 1 \<and> counted l1 = counted lc + 1
         else lwritten l1 = lwritten lc \<and> counted l1 \<in> {counted lc, counted lc + 1})"
      using upload_turn_counts [OF turn] bal by (auto split: if_splits)
    show ?thesis
    proof (cases o1)
      case Goes
      then have "loop env flags deadline l1 = Some r" using body True turn by (simp add: Let_def)
      from IH [OF this] counts Goes out show ?thesis by (auto simp: books_def)
    next
      case Returned
      then have "r = (o1, l1)" using body True turn by (simp add: Let_def)
      with counts Returned show ?thesis by (auto simp: books_def)
    next
      case Crashes
      then show ?thesis using body out True turn by (auto simp: Let_def)
    qed
  qed
qed

lemma load_handshake_counts:
  assumes hs: "load_handshake env flags lc = (out, lc')" and bal: "balanced flags (lc_result lc)" and out: "out \<noteq> Crashes"
  shows "balanced flags (lc_result lc')
    \<and> (if out = Goes then lwritten lc' = lwritten lc + 1 \<and> counted lc' = counted lc
       else counted lc' - counted lc = lwritten lc' - lwritten lc)"
proof (cases "NewMsg (lc_factory lc) (l_milli env lc) MsgTypeHandshake
        (PHandshake \<lparr>hs_FirmwareVersion = 1, hs_Sn = lr_sn (lc_result lc), hs_Token = lf_token flags\<rparr>)")
  case (Ret mf)
  obtain m f where mf: "mf = (m, f)" by (cases mf)
  let ?l = "(ltick lc)\<lparr>lc_factory := f\<rparr>"
  obtain ok c where w: "conn_Write (lc_conn ?l) (fst (Msg_Encode m)) = (ok, c)" by fastforce
  note wrote = conn_Write_cases [OF w]
  show ?thesis
  proof (cases ok)
    case False
    then have "out = Returned" "lc' = ?l\<lparr>lc_conn := c\<rparr>" using hs w Ret mf by (simp_all add: load_handshake_def Let_def)
    with wrote False bal show ?thesis by (simp add: lwritten_def counted_def)
  next
    case True
    obtain ack c2 where ack: "readAck (\<lambda>i. le_chunks env (2 * lc_ticks ?l + i)) c MsgTypeHandshakeAck = (ack, c2)" by fastforce
    have n: "length (c_out c2) = length (c_out (lc_conn lc)) + 1" using readAck_keeps [OF ack] wrote True by simp
    let ?l2 = "(ltick ?l)\<lparr>lc_conn := c2\<rparr>"
    have "out = Goes \<and> lc' = ?l2 \<or> out = Returned \<and> lc' = fail1 ?l2"
      using hs w Ret mf True ack out by (cases ack) (auto simp: load_handshake_def Let_def split: if_splits)
    then show ?thesis using n bal by (auto simp: lwritten_def counted_def balanced_def)
  qed
next
  case (Fail e)
  then show ?thesis using hs bal by (auto simp: load_handshake_def)
next
  case Panic
  then show ?thesis using hs out by (simp add: load_handshake_def)
qed

text \<open>
  C34. The books of a load client balance. When a client that uploads has returned, the readings it counts as
  sent are its batch size times the frames it counts as acknowledged, it has a latency for each of these and
  at most one for each frame it counted at all, and every frame it wrote after the handshake was counted exactly
  once, as acknowledged or as failed, give or take the write that failed last or a handshake that failed.
\<close>

theorem load_books_balance:
  assumes "runClient env flags (Some c) (new_result sn) seq = Some (out, r, Some c')"
    and "\<not> lf_idle flags" and "out \<noteq> Crashes"
  shows "lr_sent r = int (lf_batch flags) * lr_acked r \<and> lr_acked r \<le> int (length (lr_latencies r))
    \<and> int (length (lr_latencies r)) \<le> lr_acked r + lr_failed r
    \<and> lr_acked r + lr_failed r - (int (length (c_out c')) - int (length (c_out c))) \<in> {-1, 0}"
proof -
  let ?l = "\<lparr>lc_conn = c, lc_factory = NewMsgFactory, lc_result = new_result sn, lc_tsSeq = seq, lc_ticks = 0\<rparr>"
  have bal: "balanced flags (lc_result ?l)" by (simp add: balanced_def new_result_def)
  have zero: "counted ?l = 0" "lwritten ?l = int (length (c_out c))" by (simp_all add: counted_def lwritten_def new_result_def)
  obtain o1 l1 where hs: "load_handshake env flags ?l = (o1, l1)" by fastforce
  note h = load_handshake_counts [OF hs bal]
  obtain l2 where l2: "r = lc_result l2" "c' = lc_conn l2"
      and res: "(if o1 = Goes then upload_loop env flags (l_now env l1 + lf_duration flags) (ltick l1) else Some (o1, l1)) = Some (out, l2)"
    using assms(1,2) hs by (cases o1) (auto simp: runClient_def after_handshake_def)
  have sum: "balanced flags (lc_result l2) \<and> counted l2 - (lwritten l2 - lwritten ?l) \<in> {-1, 0}"
  proof (cases "o1 = Goes")
    case True
    with res have loop: "upload_loop env flags (l_now env l1 + lf_duration flags) (ltick l1) = Some (out, l2)" by simp
    have "balanced flags (lc_result (ltick l1))" using h True by simp
    with upload_loop_books [OF loop] assms(3) h True zero show ?thesis
      by (auto simp: books_def counted_def lwritten_def)
  next
    case False
    with res assms(3) h zero show ?thesis by auto
  qed
  then show ?thesis using zero l2 by (simp add: balanced_def counted_def lwritten_def)
qed

definition sample_load_env :: load_env where
  "sample_load_env = \<lparr>le_now = (\<lambda>t. if t < 11 then 0 else 1), le_others = (\<lambda>_. 0), le_chunks = (\<lambda>_ _. 4)\<rparr>"

definition sample_load_flags :: load_flags where
  "sample_load_flags = \<lparr>lf_duration = 1, lf_batch = 2, lf_snPrefix = ''L'', lf_token = ''t'', lf_devPrefix = ''dev'', lf_idle = False\<rparr>"

text \<open>Two acknowledgements, of the handshake and of an upload.\<close>

definition sample_load_conn :: conn where
  "sample_load_conn = sample_conn
     ([0x4E, 0x59, 1, 0, 2, 0, 1, 0, 3, 0, 0, 0, 0] @ [0, 1, 1] @ [0, 0]
      @ [0x4E, 0x59, 1, 0, 4, 0, 1, 0, 3, 0, 0, 0, 0] @ [0, 2, 1] @ [0, 0])"

lemma sample_load_ack:
  assumes "h = [0x4E, 0x59, 1, 0, t, 0, 1, 0, 3, 0, 0, 0, 0]" and "c_in c = h @ [0, i, 1] @ [0, 0] @ rest"
  shows "readAck chunks c t = (Ret \<lparr>ak_MsgID = be_val [0, i], ak_Code = code_Ok\<rparr>, c\<lparr>c_in := rest\<rparr>)"
proof -
  have plen: "header_plen h = 3" and magic: "be_val (take 2 h) = MagicNumber" and len: "be_val (take 2 (drop 7 h)) = (3 :: u16)"
    using assms(1) by (simp_all add: header_plen_def be_val_def MagicNumber_def)
  have "ack_of h t 3 [0, i, 1, 0, 0] = Ret \<lparr>ak_MsgID = be_val [0, i], ak_Code = code_Ok\<rparr>"
    using assms(1) by (simp add: ack_of_def index_def slice_def get16_def code_Ok_def)
  with readAck_split [OF assms(2) _ _ _ _, of chunks t] plen magic len assms(1) show ?thesis by simp
qed

theorem load_books_balance_witness:
  "\<exists>c' r. runClient sample_load_env sample_load_flags (Some sample_load_conn) (new_result ''L-001'') 0 = Some (Returned, r, Some c')
     \<and> lr_acked r = 1 \<and> lr_sent r = 2 \<and> length (c_out c') = 2"
proof -
  let ?e = sample_load_env and ?g = sample_load_flags
  let ?l = "\<lparr>lc_conn = sample_load_conn, lc_factory = NewMsgFactory, lc_result = new_result ''L-001'', lc_tsSeq = 0, lc_ticks = 0\<rparr>"
  let ?up = "[0x4E, 0x59, 1, 0, 4, 0, 1, 0, 3, 0, 0, 0, 0] @ [0, 2, 1] @ [0, 0] @ [] :: bytes"
  have now: "l_now ?e lc = (if lc_ticks lc < 11 then 0 else 1)" for lc by (simp add: l_now_def sample_load_env_def)
  have flags: "lf_batch ?g = 2" "lf_duration ?g = 1" "\<not> lf_idle ?g" "lf_token ?g = ''t''" by (simp_all add: sample_load_flags_def)
  have new: "lr_sn (new_result sn) = sn" "lr_sent (new_result sn) = 0" "lr_acked (new_result sn) = 0" "lr_failed (new_result sn) = 0"
    "lr_latencies (new_result sn) = []" for sn by (simp_all add: new_result_def)
  obtain hs f where hs: "NewMsg NewMsgFactory (l_milli ?e ?l) MsgTypeHandshake
      (PHandshake \<lparr>hs_FirmwareVersion = 1, hs_Sn = ''L-001'', hs_Token = ''t''\<rparr>) = Ret (hs, f)"
    by (auto simp: NewMsg_def Let_def split_beta Handshake_Encode_def)
  let ?c1 = "sample_load_conn\<lparr>c_out := [fst (Msg_Encode hs)], c_writes_left := 8\<rparr>"
  have w1: "conn_Write sample_load_conn (fst (Msg_Encode hs)) = (True, ?c1)"
    by (simp add: conn_Write_def sample_load_conn_def sample_conn_def)
  have r1: "readAck ch ?c1 MsgTypeHandshakeAck = (Ret \<lparr>ak_MsgID = be_val [0, 1], ak_Code = code_Ok\<rparr>, ?c1\<lparr>c_in := ?up\<rparr>)" for ch
    by (rule sample_load_ack [OF refl]) (simp add: sample_load_conn_def sample_conn_def MsgTypeHandshakeAck_def)
  let ?l1 = "\<lparr>lc_conn = ?c1\<lparr>c_in := ?up\<rparr>, lc_factory = f, lc_result = new_result ''L-001'', lc_tsSeq = 0, lc_ticks = 2\<rparr>"
  have handshake: "load_handshake ?e ?g ?l = (Goes, ?l1)"
    using hs w1 by (simp add: load_handshake_def new flags ltick_def r1)
  let ?rs = "[load_reading 0 ''dev-001'' 1, load_reading 0 ''dev-001'' 2]"
  let ?l2 = "?l1\<lparr>lc_tsSeq := 2, lc_ticks := 7\<rparr>"
  have build: "buildReadings ?e ?g ''L-001'' 2 (?l1\<lparr>lc_ticks := 4\<rparr>) = Ret (?rs, ?l2)"
    by (simp add: buildReadings_def slice_def sample_load_flags_def sample_load_env_def l_milli_def l_now_def ltick_def tsSeq_Add_def
        Let_def numeral_2_eq_2)
  obtain m g where up: "NewMsg f (l_milli ?e ?l2) MsgTypeUpload (PUpload \<lparr>up_Readings = ?rs\<rparr>) = Ret (m, g)"
    by (auto simp: NewMsg_def Let_def split_beta Upload_Encode_def string_fields_def load_reading_def DataType_defs)
  let ?c2 = "?c1\<lparr>c_in := ?up, c_out := [fst (Msg_Encode hs), fst (Msg_Encode m)], c_writes_left := 7\<rparr>"
  have w2: "conn_Write (?c1\<lparr>c_in := ?up\<rparr>) (fst (Msg_Encode m)) = (True, ?c2)" by (simp add: conn_Write_def)
  have r2: "readAck ch ?c2 MsgTypeUploadAck = (Ret \<lparr>ak_MsgID = be_val [0, 2], ak_Code = code_Ok\<rparr>, ?c2\<lparr>c_in := []\<rparr>)" for ch
    by (rule sample_load_ack [OF refl]) (simp add: MsgTypeUploadAck_def)
  let ?r = "(new_result ''L-001'')\<lparr>lr_latencies := [0], lr_acked := 1, lr_sent := 2\<rparr>"
  let ?l3 = "\<lparr>lc_conn = ?c2\<lparr>c_in := []\<rparr>, lc_factory = g, lc_result = ?r, lc_tsSeq = 2, lc_ticks = 11\<rparr>"
  have turn: "upload_turn ?e ?g (?l1\<lparr>lc_ticks := 4\<rparr>) = (Goes, ?l3)"
    using build up w2 by (simp add: upload_turn_def upload_answer_def new flags ltick_def r2 [simplified] now Let_def)
  have "upload_loop ?e ?g 1 (?l1\<lparr>lc_ticks := 3\<rparr>) = Some (Returned, ltick ?l3)"
    using turn by (subst upload_loop.simps, subst upload_loop.simps) (simp add: ltick_def now)
  then have run: "runClient ?e ?g (Some sample_load_conn) (new_result ''L-001'') 0 = Some (Returned, ?r, Some (?c2\<lparr>c_in := []\<rparr>))"
    using handshake by (simp add: runClient_def after_handshake_def flags now ltick_def)
  from load_books_balance [OF this] show ?thesis
    using run by (intro exI [of _ "?c2\<lparr>c_in := []\<rparr>"] exI [of _ ?r]) (simp add: flags)
qed

section \<open>Returning\<close>

lemma upload_answer_ticks: "lc_ticks lc \<le> lc_ticks (snd (upload_answer env flags t0 ack lc))"
  by (cases ack) (simp_all add: upload_answer_def Let_def)

lemma upload_turn_ticks: "upload_turn env flags lc = (out, lc') \<Longrightarrow> lc_ticks lc \<le> lc_ticks lc'"
proof (cases "buildReadings env flags (lr_sn (lc_result lc)) (lf_batch flags) lc")
  case (Ret r)
  assume turn: "upload_turn env flags lc = (out, lc')"
  obtain rs l1 where r: "r = (rs, l1)" by (cases r)
  have keep: "lc_ticks lc \<le> lc_ticks l1" using buildReadings_keeps(3) [OF Ret [unfolded r]] by simp
  show ?thesis
  proof (cases "NewMsg (lc_factory l1) (l_milli env l1) MsgTypeUpload (PUpload \<lparr>up_Readings = rs\<rparr>)")
    case (Ret mf)
    obtain m f where mf: "mf = (m, f)" by (cases mf)
    let ?l2 = "ltick ((ltick l1)\<lparr>lc_factory := f\<rparr>)"
    obtain ok c where w: "conn_Write (lc_conn ?l2) (fst (Msg_Encode m)) = (ok, c)" by fastforce
    obtain ack c2 where ack: "readAck (\<lambda>i. le_chunks env (2 * lc_ticks ?l2 + i)) c MsgTypeUploadAck = (ack, c2)" by fastforce
    have "lc' = fail1 (?l2\<lparr>lc_conn := c\<rparr>)
        \<or> lc' = snd (upload_answer env flags (l_now env ((ltick l1)\<lparr>lc_factory := f\<rparr>)) ack ((ltick ?l2)\<lparr>lc_conn := c2\<rparr>))"
      using turn w Ret mf ack \<open>buildReadings _ _ _ _ _ = _\<close> r by (cases ok) (simp_all add: upload_turn_def Let_def)
    then show ?thesis
    proof
      assume "lc' = fail1 (?l2\<lparr>lc_conn := c\<rparr>)"
      with keep show ?thesis by simp
    next
      assume "lc' = snd (upload_answer env flags (l_now env ((ltick l1)\<lparr>lc_factory := f\<rparr>)) ack ((ltick ?l2)\<lparr>lc_conn := c2\<rparr>))"
      then show ?thesis
        using keep upload_answer_ticks [of "(ltick ?l2)\<lparr>lc_conn := c2\<rparr>" env flags "l_now env ((ltick l1)\<lparr>lc_factory := f\<rparr>)" ack] by simp
    qed
  qed (use turn keep \<open>buildReadings _ _ _ _ _ = _\<close> r in \<open>auto simp: upload_turn_def\<close>)
qed (auto simp: upload_turn_def)

lemma idle_turn_ticks: "lc_ticks lc < lc_ticks (snd (snd (idle_turn env lastHb lc)))"
proof (cases "l_now env lc - lastHb \<ge> 30 * l_Second")
  case True
  show ?thesis
  proof (cases "NewMsg (lc_factory lc) (l_milli env (ltick lc)) MsgTypeHeartbeat PHeartbeat")
    case (Ret mf)
    obtain m f where mf: "mf = (m, f)" by (cases mf)
    obtain ok c where w: "conn_Write (lc_conn lc) (fst (Msg_Encode m)) = (ok, c)" by fastforce
    then show ?thesis using True Ret mf by (cases ok) (simp_all add: idle_turn_def Let_def)
  qed (use True in \<open>simp_all add: idle_turn_def Let_def\<close>)
qed (simp add: idle_turn_def Let_def)

lemma upload_loop_returns:
  assumes "\<forall>t \<ge> N. deadline \<le> le_now env t"
  shows "\<exists>r. upload_loop env flags deadline lc = Some r"
proof (induction "N - lc_ticks lc" arbitrary: lc rule: less_induct)
  case less
  show ?case
  proof (cases "l_now env lc < deadline")
    case False
    then show ?thesis by (subst upload_loop.simps) (simp add: Let_def)
  next
    case True
    then have "lc_ticks lc < N" using assms [THEN spec, of "lc_ticks lc"] by (simp add: l_now_def)
    obtain o1 l1 where turn: "upload_turn env flags (ltick lc) = (o1, l1)" by fastforce
    have "N - lc_ticks l1 < N - lc_ticks lc" using upload_turn_ticks [OF turn] \<open>lc_ticks lc < N\<close> by simp
    from less [OF this] True turn show ?thesis
      by (subst upload_loop.simps) (simp add: Let_def split: load_outcome.split)
  qed
qed

lemma idle_loop_returns:
  assumes "\<forall>t \<ge> N. hbDeadline \<le> le_now env t"
  shows "\<exists>r. idle_loop env hbDeadline lastHb lc = Some r"
proof (induction "N - lc_ticks lc" arbitrary: lastHb lc rule: less_induct)
  case less
  show ?case
  proof (cases "l_now env lc < hbDeadline")
    case False
    then show ?thesis by (subst idle_loop.simps) (simp add: Let_def)
  next
    case True
    then have "lc_ticks lc < N" using assms [THEN spec, of "lc_ticks lc"] by (simp add: l_now_def)
    obtain o1 hb l1 where turn: "idle_turn env lastHb (ltick lc) = (o1, hb, l1)" by (metis prod_cases3)
    have "N - lc_ticks l1 < N - lc_ticks lc" using idle_turn_ticks [of "ltick lc" env lastHb] turn \<open>lc_ticks lc < N\<close> by simp
    from less [OF this, of hb] True turn show ?thesis
      by (subst idle_loop.simps) (simp add: Let_def split: load_outcome.split)
  qed
qed

text \<open>
  A load client returns when its time is over. If the clock passes every time at last, as clocks do, a client
  returns whatever the server answers or does not answer, in both modes; its two loops stop at their deadline.
\<close>

lemma runClient_returns:
  assumes "\<forall>limit. \<exists>N. \<forall>t \<ge> N. limit \<le> le_now env t"
  shows "\<exists>r. runClient env flags dialled res seq = Some r"
proof (cases dialled)
  case None
  then show ?thesis by (simp add: runClient_def)
next
  case (Some c)
  let ?l = "\<lparr>lc_conn = c, lc_factory = NewMsgFactory, lc_result = res, lc_tsSeq = seq, lc_ticks = 0\<rparr>"
  obtain o1 l1 where hs: "load_handshake env flags ?l = (o1, l1)" by fastforce
  have "\<exists>r. upload_loop env flags deadline lc = Some r" "\<exists>r. idle_loop env deadline hb lc = Some r" for deadline hb lc
    using assms [THEN spec, of deadline] upload_loop_returns idle_loop_returns by blast+
  then have "\<exists>r. after_handshake env flags l1 = Some r" by (simp add: after_handshake_def Let_def)
  with hs Some show ?thesis by (cases o1) (auto simp: runClient_def)
qed

end
