(* ===== verification/Logging.thy ===== *)
theory Logging
  imports Populate
begin

text \<open>
  \<^verbatim>\<open>internal/log/log.go\<close>: the level of the configuration, the limits of the log file, and the handler that gives
  each record to the console and to the file. Handlers are the interface of \<^verbatim>\<open>log/slog\<close>, so they are of any type
  here, with their methods in \<open>slog_handler\<close>. From \<^verbatim>\<open>path/filepath\<close> of the standard library: \<^verbatim>\<open>Clean\<close>, \<^verbatim>\<open>Join\<close>,
  \<^verbatim>\<open>Dir\<close> and \<^verbatim>\<open>Ext\<close> on Unix.
\<close>

section \<open>Paths\<close>

definition slash :: char where "slash = CHR ''/''"

text \<open>\<open>done'\<close> is the cleaned path so far, its last element first.\<close>

fun clean_parts :: "bool \<Rightarrow> string list \<Rightarrow> string list \<Rightarrow> string list" where
  "clean_parts rooted done' [] = rev done'"
| "clean_parts rooted done' (p # ps) =
     (if p = [] \<or> p = ''.'' then clean_parts rooted done' ps
      else if p = ''..'' then
        (case done' of
           d # ds \<Rightarrow> if d \<noteq> ''..'' then clean_parts rooted ds ps else clean_parts rooted (p # done') ps
         | [] \<Rightarrow> if rooted then clean_parts rooted [] ps else clean_parts rooted [p] ps)
      else clean_parts rooted (p # done') ps)"

definition path_Clean :: "string \<Rightarrow> string" where
  "path_Clean path =
     (let rooted = (path \<noteq> [] \<and> hd path = slash);
          out = (if rooted then [slash] else []) @ strings_Join (clean_parts rooted [] (Split path slash)) [slash]
      in if out = [] then ''.'' else out)"

definition path_Join :: "string list \<Rightarrow> string" where
  "path_Join elems =
     (let elems = dropWhile (\<lambda>e. e = []) elems in
      if elems = [] then [] else path_Clean (strings_Join elems [slash]))"

text \<open>The end of a path after its last slash.\<close>

definition after_slash :: "string \<Rightarrow> string" where
  "after_slash path = last (Split path slash)"

definition path_Ext :: "string \<Rightarrow> string" where
  "path_Ext path =
     (let name = after_slash path in
      if CHR ''.'' \<in> set name then CHR ''.'' # last (Split name (CHR ''.'')) else [])"

definition path_Dir :: "string \<Rightarrow> string" where
  "path_Dir path = path_Clean (take (length path - length (after_slash path)) path)"

section \<open>Levels\<close>

type_synonym slog_level = int

definition LevelDebug :: slog_level where "LevelDebug = -4"
definition LevelInfo :: slog_level where "LevelInfo = 0"
definition LevelWarn :: slog_level where "LevelWarn = 4"
definition LevelError :: slog_level where "LevelError = 8"

text \<open>The level and the error, if there is one.\<close>

definition ParseLevel :: "string \<Rightarrow> slog_level \<times> go_error option" where
  "ParseLevel s =
     (if s = ''debug'' then (LevelDebug, None)
      else if s = ''info'' then (LevelInfo, None)
      else if s = ''warn'' then (LevelWarn, None)
      else if s = ''error'' then (LevelError, None)
      else (LevelInfo, Some (Plain (''invalid log level: '' @ quote_text s))))"

section \<open>Handlers\<close>

record ('r, 'a, 'h) slog_handler =
  sh_Enabled :: "'h \<Rightarrow> slog_level \<Rightarrow> bool"
  sh_Handle :: "'h \<Rightarrow> 'r \<Rightarrow> string option \<times> 'h"
  sh_WithAttrs :: "'h \<Rightarrow> 'a list \<Rightarrow> 'h"
  sh_WithGroup :: "'h \<Rightarrow> string \<Rightarrow> 'h"

text \<open>The state of a \<^verbatim>\<open>multiHandler\<close> is that of its console and its file.\<close>

definition multi_Enabled :: "('r, 'a, 'h) slog_handler \<Rightarrow> ('r, 'a, 'k) slog_handler \<Rightarrow> 'h \<times> 'k \<Rightarrow> slog_level \<Rightarrow> bool" where
  "multi_Enabled con fil h level \<longleftrightarrow> sh_Enabled con (fst h) level \<or> sh_Enabled fil (snd h) level"

definition multi_Handle :: "('r, 'a, 'h) slog_handler \<Rightarrow> ('r, 'a, 'k) slog_handler \<Rightarrow> 'h \<times> 'k \<Rightarrow> 'r
    \<Rightarrow> string option \<times> 'h \<times> 'k" where
  "multi_Handle con fil h r =
     (let (console, log_file) = h in
      case sh_Handle con console r of
        (Some err, console) \<Rightarrow> (Some err, console, log_file)
      | (None, console) \<Rightarrow> (let (err, log_file) = sh_Handle fil log_file r in (err, console, log_file)))"

definition multi_WithAttrs :: "('r, 'a, 'h) slog_handler \<Rightarrow> ('r, 'a, 'k) slog_handler \<Rightarrow> 'h \<times> 'k \<Rightarrow> 'a list \<Rightarrow> 'h \<times> 'k" where
  "multi_WithAttrs con fil h attrs = (sh_WithAttrs con (fst h) attrs, sh_WithAttrs fil (snd h) attrs)"

definition multi_WithGroup :: "('r, 'a, 'h) slog_handler \<Rightarrow> ('r, 'a, 'k) slog_handler \<Rightarrow> 'h \<times> 'k \<Rightarrow> string \<Rightarrow> 'h \<times> 'k" where
  "multi_WithGroup con fil h name = (sh_WithGroup con (fst h) name, sh_WithGroup fil (snd h) name)"

section \<open>Setup\<close>

record log_Config =
  lg_Level :: string
  lg_Path :: string
  lg_MaxSize :: int
  lg_MaxBackups :: int
  lg_MaxAge :: int
  lg_AppName :: string

text \<open>The fields of the \<^verbatim>\<open>lumberjack.Logger\<close>, and the level both handlers get.\<close>

record log_setup =
  ls_Filename :: string
  ls_MaxSize :: int
  ls_MaxBackups :: int
  ls_MaxAge :: int
  ls_Level :: slog_level

text \<open>\<open>MkdirAll\<close> gives the error of \<^verbatim>\<open>os.MkdirAll\<close>, if there is one.\<close>

definition log_Setup :: "(string \<Rightarrow> string option) \<Rightarrow> log_Config \<Rightarrow> go_error + log_setup" where
  "log_Setup MkdirAll cfg =
     (case ParseLevel (lg_Level cfg) of
        (_, Some err) \<Rightarrow> Inl err
      | (level, None) \<Rightarrow>
          let maxSize = (if lg_MaxSize cfg \<le> 0 then 10 else lg_MaxSize cfg);
              maxBackups = (if lg_MaxBackups cfg \<le> 0 then 3 else lg_MaxBackups cfg);
              maxAge = (if lg_MaxAge cfg \<le> 0 then 28 else lg_MaxAge cfg)
          in case MkdirAll (lg_Path cfg) of
               Some err \<Rightarrow> Inl (Wrapped (''create log directory '' @ lg_Path cfg) (Plain err))
             | None \<Rightarrow> Inr \<lparr>ls_Filename = path_Join [lg_Path cfg, lg_AppName cfg @ ''.log''],
                 ls_MaxSize = maxSize, ls_MaxBackups = maxBackups, ls_MaxAge = maxAge, ls_Level = level\<rparr>)"

lemma ParseLevel_ok: "snd (ParseLevel s) = None \<longleftrightarrow> s \<in> {''debug'', ''info'', ''warn'', ''error''}"
  by (simp add: ParseLevel_def)

lemma log_Setup_ok:
  "(\<exists>l. log_Setup MkdirAll cfg = Inr l) \<longleftrightarrow> lg_Level cfg \<in> {''debug'', ''info'', ''warn'', ''error''} \<and> MkdirAll (lg_Path cfg) = None"
  unfolding ParseLevel_ok [symmetric] by (auto simp: log_Setup_def Let_def split_beta split: option.splits)

text \<open>
  A record goes to the file exactly when the console took it: an error of the console keeps it out of the file,
  whose handler is then not called. Whatever a handler of the pair is asked, each of the two sees its part only.
\<close>

lemma multi_Handle_file:
  "snd (snd (multi_Handle con fil (c, f) r)) = (if fst (sh_Handle con c r) = None then snd (sh_Handle fil f r) else f)"
  by (cases "fst (sh_Handle con c r)") (auto simp: multi_Handle_def split_beta split: option.splits prod.splits)

end
