(* ===== verification/Programs.thy ===== *)
theory Programs
  imports Logging ConfigProps Publish
begin

text \<open>
  The two commands of each program: \<^verbatim>\<open>cmd/server/main.go\<close>, \<^verbatim>\<open>cmd/client/main.go\<close>, the start of the gateway in
  \<^verbatim>\<open>MainFunc\<close>, the start of the two brokers' clients and servers, and \<^verbatim>\<open>InitConfig\<close>, which writes an initial file.
  A command is the list of what it does to the world outside, with how it ends. Deferred calls are explicit: they
  run when a function returns, and do not when the process exits.
\<close>

section \<open>How a command ends\<close>

datatype run_end = Returns | OsExit | Serving \<comment> \<open>a loop that does not end\<close>

text \<open>What has been done, what is deferred (the last first), the end.\<close>

definition finish :: "'a list \<Rightarrow> 'a list \<Rightarrow> run_end \<Rightarrow> 'a list \<times> run_end" where
  "finish done' deferred e = (case e of Returns \<Rightarrow> (done' @ deferred, e) | _ \<Rightarrow> (done', e))"

section \<open>The server\<close>

datatype server_action =
    OpenStore string | CloseStore | AddListener string string | ServeBroker | CloseBroker
  | PingRedis string string int | CloseRedis | UseMemoryRegistry | UseRedisRegistry
  | SkipOutput string output_error | StartRouter "sinker list" | ShutdownRouter | Listen string | SetLogger log_setup

text \<open>What the world answers; \<open>None\<close> is no error.\<close>

record server_world =
  sw_MkdirAll :: "string \<Rightarrow> string option"
  sw_OpenStore :: "string \<Rightarrow> string option"
  sw_AddListener :: "string \<Rightarrow> string option"
  sw_Ping :: "string \<Rightarrow> bool"
  sw_Listen :: "string \<Rightarrow> string option"

text \<open>\<^verbatim>\<open>Start\<close> of the MQTT broker: the second listener only with an address. The server runs in a goroutine.\<close>

definition broker_Start :: "(string \<Rightarrow> string option) \<Rightarrow> MqttConfig \<Rightarrow> string option \<times> server_action list" where
  "broker_Start add cfg =
     (case add (mq_TCPAddr cfg) of
        Some err \<Rightarrow> (Some (''add mqtt tcp listener: '' @ err), [AddListener ''mqtt-tcp'' (mq_TCPAddr cfg)])
      | None \<Rightarrow>
          if mq_WSAddr cfg \<noteq> [] then
            (case add (mq_WSAddr cfg) of
               Some err \<Rightarrow> (Some (''add mqtt ws listener: '' @ err),
                 [AddListener ''mqtt-tcp'' (mq_TCPAddr cfg), AddListener ''mqtt-ws'' (mq_WSAddr cfg)])
             | None \<Rightarrow> (None, [AddListener ''mqtt-tcp'' (mq_TCPAddr cfg), AddListener ''mqtt-ws'' (mq_WSAddr cfg), ServeBroker]))
          else (None, [AddListener ''mqtt-tcp'' (mq_TCPAddr cfg), ServeBroker]))"

text \<open>The loop over the outputs: the sinks, and what was skipped.\<close>

fun create_sinks :: "OutputConfig list \<Rightarrow> sinker list \<times> server_action list" where
  "create_sinks [] = ([], [])"
| "create_sinks (outCfg # cs) =
     (if \<not> oc_Enabled outCfg then create_sinks cs
      else case NewSinker outCfg of
        Inl err \<Rightarrow> apsnd (Cons (SkipOutput (oc_Name outCfg) err)) (create_sinks cs)
      | Inr sink \<Rightarrow> apfst (Cons sink) (create_sinks cs))"

definition server_flagValues :: "int \<Rightarrow> setting gomap" where
  "server_flagValues flagPort = (if flagPort \<noteq> 0 then AList.update ''port'' (SetInt flagPort) [] else [])"

definition server_dsn :: "PgConfig \<Rightarrow> string" where
  "server_dsn pg = ''postgres://'' @ pg_User pg @ '':'' @ pg_Password pg @ ''@'' @ pg_Host pg @ '':'' @ FormatInt (pg_Port pg)
     @ ''/'' @ pg_DBName pg @ ''?sslmode='' @ pg_SSLMode pg"

definition server_log_Config :: "ServerConfig \<Rightarrow> log_Config" where
  "server_log_Config cfg =
     \<lparr>lg_Level = sc_LogLevel cfg, lg_Path = sc_LogPath cfg, lg_MaxSize = sc_LogMaxSize cfg,
      lg_MaxBackups = sc_LogMaxBackups cfg, lg_MaxAge = sc_LogMaxAge cfg, lg_AppName = ''lepgs''\<rparr>"

text \<open>\<^verbatim>\<open>ReceiveLoop\<close> seen from outside: it returns the error of \<^verbatim>\<open>net.Listen\<close>, or never.\<close>

definition ReceiveLoop_end :: "server_world \<Rightarrow> ServerConfig \<Rightarrow> string option option" where
  "ReceiveLoop_end world cfg = (case sw_Listen world ('':'' @ FormatInt (sc_Port cfg)) of Some err \<Rightarrow> Some (Some err) | None \<Rightarrow> None)"

definition server_start :: "server_world \<Rightarrow> ServerConfig \<Rightarrow> server_action list \<times> run_end" where
  "server_start world cfg =
     (case log_Setup (sw_MkdirAll world) (server_log_Config cfg) of
        Inl err \<Rightarrow> finish [] [] OsExit
      | Inr logger \<Rightarrow>
     let dsn = server_dsn (sc_Pg cfg); acts = [SetLogger logger, OpenStore dsn] in
     if sw_OpenStore world dsn \<noteq> None then finish acts [] OsExit else
     let deferred = [CloseStore];
         (err, started) = broker_Start (sw_AddListener world) (sc_Mqtt cfg);
         acts = acts @ started
     in if err \<noteq> None then finish acts deferred OsExit else
     let deferred = CloseBroker # deferred;
         rd = sc_Redis cfg;
         acts = acts @ [PingRedis (rc_Addr rd) (rc_Password rd) (rc_DB rd)];
         (acts, deferred) = (if sw_Ping world (rc_Addr rd) then (acts @ [UseRedisRegistry], CloseRedis # deferred)
                             else (acts @ [CloseRedis, UseMemoryRegistry], deferred));
         (sinks, skipped) = create_sinks (sc_Outputs cfg);
         acts = acts @ skipped;
         (acts, deferred) = (if sinks \<noteq> [] then (acts @ [StartRouter sinks], ShutdownRouter # deferred) else (acts, deferred));
         acts = acts @ [Listen ('':'' @ FormatInt (sc_Port cfg))]
     in case ReceiveLoop_end world cfg of
          None \<Rightarrow> finish acts deferred Serving
        | Some (Some err) \<Rightarrow> finish acts deferred OsExit
        | Some None \<Rightarrow> finish acts deferred Returns)"

text \<open>The command \<^verbatim>\<open>run\<close>; \<open>unmarshal\<close> is what viper finds for the clients and the outputs.\<close>

definition server_run :: "(float64 \<Rightarrow> u64) \<Rightarrow> string list \<Rightarrow> 'v viper \<Rightarrow> bool \<Rightarrow> (string + ClientDef list) \<times> (string + OutputConfig list)
    \<Rightarrow> server_world \<Rightarrow> int \<Rightarrow> string \<Rightarrow> server_action list \<times> run_end" where
  "server_run cv environ vi dotEnv unmarshal world flagPort cfgFile =
     (case InitServerConfig (populate_server (server_NewProviders cv environ vi dotEnv (server_flagValues flagPort) cfgFile))
             unmarshal True of
        Inl err \<Rightarrow> ([], OsExit)
      | Inr cfg \<Rightarrow> server_start world cfg)"

section \<open>The gateway\<close>

datatype client_action =
    OpenTable string | CloseTable | StartMqtt string | StartPolling "string list" | ConnectPublisher string
  | DisconnectPublisher | StartPipeline nat | ListenControl string | StartSessions | WaitForAll

record client_world =
  cw_MkdirAll :: "string \<Rightarrow> string option"
  cw_OpenTable :: "string \<Rightarrow> string option"
  cw_Connect :: "string \<Rightarrow> string option option" \<comment> \<open>\<open>None\<close>: no answer within ten seconds\<close>
  cw_Listen :: "string \<Rightarrow> string option"

definition NewClientPublisher :: "(string \<Rightarrow> string option option) \<Rightarrow> string \<Rightarrow> string + unit" where
  "NewClientPublisher Connect brokerAddr =
     (case Connect brokerAddr of
        None \<Rightarrow> Inl (''connect to mqtt broker at '' @ brokerAddr @ '': timeout after 10s'')
      | Some (Some err) \<Rightarrow> Inl (''connect to mqtt broker at '' @ brokerAddr @ '': '' @ err)
      | Some None \<Rightarrow> Inr ())"

text \<open>
  \<^verbatim>\<open>MainFunc\<close> starts one part after the other. Its result is the error, if there is one, and \<open>None\<close> after the wait
  for all goroutines, if this wait ends (\<open>waits\<close>).
\<close>

definition client_flagValues :: "string \<Rightarrow> int \<Rightarrow> setting gomap" where
  "client_flagValues flagServerUrl flagPort =
     (let m = (if flagServerUrl \<noteq> [] then AList.update ''server'' (SetString flagServerUrl) [] else [])
      in if flagPort \<noteq> 0 then AList.update ''port'' (SetInt flagPort) m else m)"

definition MainFunc_start :: "client_world \<Rightarrow> bool \<Rightarrow> ClientConfig \<Rightarrow> (client_action list \<times> run_end) \<times> string option" where
  "MainFunc_start world waits cfg =
     (let path = pa_DataPath (cc_Paths cfg); acts = [OpenTable path] in
      case cw_OpenTable world path of
        Some err \<Rightarrow> (finish acts [] Returns, Some (''create SQLite store: '' @ err))
      | None \<Rightarrow>
      let deferred = [CloseTable];
          acts = acts @ (case cc_Mqtt cfg of None \<Rightarrow> [] | Some m \<Rightarrow> [StartMqtt (mb_BrokerAddr m)]);
          acts = acts @ (if cc_Devices cfg \<noteq> [] then [StartPolling (map dv_Name (cc_Devices cfg))] else []);
          (err, acts, deferred) =
            (case cc_Mqtt cfg of
               None \<Rightarrow> (None, acts, deferred)
             | Some m \<Rightarrow>
                 let acts = acts @ [ConnectPublisher (mb_BrokerAddr m)] in
                 case NewClientPublisher (cw_Connect world) (mb_BrokerAddr m) of
                   Inl err \<Rightarrow> (Some (''create mqtt publisher: '' @ err), acts, deferred)
                 | Inr _ \<Rightarrow> (None, acts, DisconnectPublisher # deferred))
      in if err \<noteq> None then (finish acts deferred Returns, err) else
      let acts = acts @ [StartPipeline (nat (cc_BufferSize cfg)), ListenControl (cc_ControlListenAddr cfg)] in
      case cw_Listen world (cc_ControlListenAddr cfg) of
        Some err \<Rightarrow> (finish acts deferred Returns, Some (''start control server: control server listen: '' @ err))
      | None \<Rightarrow> (finish (acts @ [StartSessions, WaitForAll]) deferred (if waits then Returns else Serving), None))"

definition client_log_Config :: "ClientConfig \<Rightarrow> log_Config" where
  "client_log_Config cfg =
     \<lparr>lg_Level = cc_LogLevel cfg, lg_Path = pa_LogPath (cc_Paths cfg), lg_MaxSize = pa_LogMaxSize (cc_Paths cfg),
      lg_MaxBackups = pa_LogMaxBackups (cc_Paths cfg), lg_MaxAge = pa_LogMaxAge (cc_Paths cfg), lg_AppName = ''lepgc''\<rparr>"

definition client_run :: "(float64 \<Rightarrow> u64) \<Rightarrow> string list \<Rightarrow> 'v viper \<Rightarrow> bool
    \<Rightarrow> (go_error + DeviceConfig list) \<times> (go_error + Client_MqttConfig option) \<Rightarrow> client_world \<Rightarrow> bool
    \<Rightarrow> string \<Rightarrow> int \<Rightarrow> string \<Rightarrow> client_action list \<times> run_end" where
  "client_run cv environ vi dotEnv unmarshal world waits flagServerUrl flagPort cfgFile =
     (case InitClientConfig (populate_client (client_NewProviders cv environ vi dotEnv (client_flagValues flagServerUrl flagPort) cfgFile))
             unmarshal True of
        Inl err \<Rightarrow> ([], OsExit)
      | Inr cfg \<Rightarrow>
     case log_Setup (cw_MkdirAll world) (client_log_Config cfg) of
        Inl err \<Rightarrow> ([], OsExit)
      | Inr logger \<Rightarrow>
     case MainFunc_start world waits cfg of
        ((acts, e), Some err) \<Rightarrow> (acts, OsExit)
      | ((acts, e), None) \<Rightarrow> (acts, e))"

section \<open>Writing an initial file\<close>

text \<open>The operating system and the instance of viper that writes; the file system is of any type.\<close>

record ('fs, 'v) init_ops =
  io_Stat :: "'fs \<Rightarrow> string \<Rightarrow> bool"
  io_MkdirAll :: "'fs \<Rightarrow> string \<Rightarrow> string option \<times> 'fs"
  io_New :: 'v
  io_SetConfigFile :: "'v \<Rightarrow> string \<Rightarrow> 'v"
  io_SetConfigType :: "'v \<Rightarrow> string \<Rightarrow> 'v"
  io_SetDefault :: "'v \<Rightarrow> string \<Rightarrow> setting \<Rightarrow> 'v"
  io_SafeWriteConfigAs :: "'fs \<Rightarrow> 'v \<Rightarrow> string \<Rightarrow> string option \<times> 'fs"

definition InitConfig :: "('fs, 'v) init_ops \<Rightarrow> 'fs \<Rightarrow> string \<Rightarrow> setting gomap \<Rightarrow> go_error option \<times> 'fs" where
  "InitConfig os fs filename defaults =
     (let v = io_SetConfigFile os (io_New os) filename;
          ext = path_Ext filename;
          v = (if ext \<noteq> [] then io_SetConfigType os v (tl ext) else v);
          v = foldl (\<lambda>v (k, x). io_SetDefault os v k x) v defaults;
          dir = path_Dir filename;
          (err, fs) = (if dir \<noteq> [] \<and> dir \<noteq> ''.'' then io_MkdirAll os fs dir else (None, fs))
      in case err of
           Some err \<Rightarrow> (Some (Wrapped ''failed to create config directory'' (Plain err)), fs)
         | None \<Rightarrow> apfst (map_option Plain) (io_SafeWriteConfigAs os fs v filename))"

definition InitConfigWithDefaults :: "('fs, 'v) init_ops \<Rightarrow> 'fs \<Rightarrow> string \<Rightarrow> setting gomap \<Rightarrow> go_error option \<times> 'fs" where
  "InitConfigWithDefaults os fs filename defaults = InitConfig os fs filename defaults"

datatype init_result = AlreadyExists string | InitFailed go_error | Initialized string

text \<open>The type assertion \<^verbatim>\<open>defaults["config_path"].(string)\<close> panics when the value is no string.\<close>

definition init_command :: "('fs, 'v) init_ops \<Rightarrow> setting gomap \<Rightarrow> 'fs \<Rightarrow> string \<Rightarrow> (unit, init_result \<times> 'fs) go" where
  "init_command os defaults fs cfgFile =
     (case map_of defaults ''config_path'' of
        Some (SetString path) \<Rightarrow>
          let filename = (if cfgFile \<noteq> [] then cfgFile else path) in
          if io_Stat os fs filename then Ret (AlreadyExists filename, fs)
          else (case InitConfigWithDefaults os fs filename defaults of
                  (Some err, fs) \<Rightarrow> Ret (InitFailed err, fs)
                | (None, fs) \<Rightarrow> Ret (Initialized filename, fs))
      | _ \<Rightarrow> Panic)"

definition server_init :: "('fs, 'v) init_ops \<Rightarrow> 'fs \<Rightarrow> string \<Rightarrow> (unit, init_result \<times> 'fs) go" where
  "server_init os = init_command os server_GetDefaultValues"

definition client_init :: "('fs, 'v) init_ops \<Rightarrow> 'fs \<Rightarrow> string \<Rightarrow> (unit, init_result \<times> 'fs) go" where
  "client_init os = init_command os client_GetDefaultValues"

end
