(* ===== verification/ProgramProps.thy ===== *)
theory ProgramProps
  imports Programs
begin

text \<open>
  What starting the programs guarantees: an accepted configuration starts whenever the world lets it, with every
  output that is enabled; the server closes nothing when it ends; and what a file written by \<^verbatim>\<open>init\<close> means for \<^verbatim>\<open>run\<close>.
\<close>

section \<open>The server\<close>

lemma finish_simps [simp]: "finish acts deferred OsExit = (acts, OsExit)" "finish acts deferred Serving = (acts, Serving)"
  "finish acts deferred Returns = (acts @ deferred, Returns)"
  by (simp_all add: finish_def)

lemma broker_Start_actions:
  "set (snd (broker_Start add cfg)) \<subseteq> {AddListener ''mqtt-tcp'' (mq_TCPAddr cfg), AddListener ''mqtt-ws'' (mq_WSAddr cfg), ServeBroker}"
  by (auto simp: broker_Start_def split: option.splits if_splits)

lemma create_sinks_actions: "set (snd (create_sinks cs)) \<subseteq> range (\<lambda>(n, e). SkipOutput n e)"
  by (induction cs) (auto split: sum.split)

text \<open>What a start does once the log, the store and the broker are there.\<close>

definition serve_actions :: "server_world \<Rightarrow> ServerConfig \<Rightarrow> log_setup \<Rightarrow> server_action list" where
  "serve_actions world cfg logger =
     [SetLogger logger, OpenStore (server_dsn (sc_Pg cfg))] @ snd (broker_Start (sw_AddListener world) (sc_Mqtt cfg))
     @ [PingRedis (rc_Addr (sc_Redis cfg)) (rc_Password (sc_Redis cfg)) (rc_DB (sc_Redis cfg))]
     @ (if sw_Ping world (rc_Addr (sc_Redis cfg)) then [UseRedisRegistry] else [CloseRedis, UseMemoryRegistry])
     @ snd (create_sinks (sc_Outputs cfg))
     @ (if fst (create_sinks (sc_Outputs cfg)) \<noteq> [] then [StartRouter (fst (create_sinks (sc_Outputs cfg)))] else [])
     @ [Listen ('':'' @ FormatInt (sc_Port cfg))]"

lemma server_start_eq:
  "server_start world cfg =
     (case log_Setup (sw_MkdirAll world) (server_log_Config cfg) of
        Inl err \<Rightarrow> ([], OsExit)
      | Inr logger \<Rightarrow>
          if sw_OpenStore world (server_dsn (sc_Pg cfg)) \<noteq> None then ([SetLogger logger, OpenStore (server_dsn (sc_Pg cfg))], OsExit)
          else if fst (broker_Start (sw_AddListener world) (sc_Mqtt cfg)) \<noteq> None
          then ([SetLogger logger, OpenStore (server_dsn (sc_Pg cfg))] @ snd (broker_Start (sw_AddListener world) (sc_Mqtt cfg)), OsExit)
          else (serve_actions world cfg logger,
                if sw_Listen world ('':'' @ FormatInt (sc_Port cfg)) = None then Serving else OsExit))"
  by (simp add: server_start_def serve_actions_def ReceiveLoop_end_def Let_def split_beta split: sum.split option.split)

text \<open>
  The server closes nothing. However it ends, by an error of its start or of the listener, the command never
  returns: it exits, or serves for ever. So the deferred calls that close the store and the broker and wait for the
  messages still on their way to the outputs never run; the client of Redis is closed only when Redis is not there.
\<close>

theorem server_deferred_never_run:
  "snd (server_run cv environ vi dotEnv unmarshal world flagPort cfgFile) \<noteq> Returns
     \<and> {CloseStore, CloseBroker, ShutdownRouter} \<inter> set (fst (server_run cv environ vi dotEnv unmarshal world flagPort cfgFile)) = {}
     \<and> (CloseRedis \<in> set (fst (server_run cv environ vi dotEnv unmarshal world flagPort cfgFile)))
       = (UseMemoryRegistry \<in> set (fst (server_run cv environ vi dotEnv unmarshal world flagPort cfgFile)))"
proof -
  have "snd (server_start world cfg) \<noteq> Returns \<and> {CloseStore, CloseBroker, ShutdownRouter} \<inter> set (fst (server_start world cfg)) = {}
      \<and> (CloseRedis \<in> set (fst (server_start world cfg)) \<longleftrightarrow> UseMemoryRegistry \<in> set (fst (server_start world cfg)))" for cfg
    using broker_Start_actions [of "sw_AddListener world" "sc_Mqtt cfg"] create_sinks_actions [of "sc_Outputs cfg"]
    by (auto simp: server_start_eq serve_actions_def split: sum.splits)
  then show ?thesis by (auto simp: server_run_def split: sum.split)
qed

section \<open>An accepted configuration\<close>

lemma NewSinker_validated: "Output_Validate x = Inr y \<Longrightarrow> \<exists>s. NewSinker x = Inr s"
  by (auto simp: NewSinker_def NewThingsBoardMqttSinker_def NewThingsBoardHttpSinker_def Let_def Output_Validate_def split: if_splits)

lemma create_sinks_validated:
  assumes "validate_outputs cs = None"
  shows "snd (create_sinks cs) = [] \<and> list_all2 (\<lambda>x s. NewSinker x = Inr s) (filter oc_Enabled cs) (fst (create_sinks cs))"
  using assms
proof (induction cs)
  case (Cons x cs)
  then obtain y where y: "Output_Validate x = Inr y" and cs: "validate_outputs cs = None" by (auto split: sum.splits)
  from NewSinker_validated [OF y] obtain s where "NewSinker x = Inr s" by blast
  with Cons.IH [OF cs] show ?case by simp
qed simp

text \<open>
  C35. A configuration that is accepted starts. When the configuration of the server is accepted, the log directory can
  be made, the store and the broker's listeners open and the port is free, the server serves; no output is skipped,
  and the router gets a sink for every enabled output, in their order, and is started unless there are none. Redis may be there or not.
\<close>

theorem accepted_configuration_starts:
  assumes "InitServerConfig (populate_server (server_NewProviders cv environ vi dotEnv (server_flagValues flagPort) cfgFile)) unmarshal True = Inr cfg"
    and "sw_MkdirAll world (sc_LogPath cfg) = None" and "sw_OpenStore world (server_dsn (sc_Pg cfg)) = None"
    and "sw_AddListener world (mq_TCPAddr (sc_Mqtt cfg)) = None" and "sw_AddListener world (mq_WSAddr (sc_Mqtt cfg)) = None"
    and "sw_Listen world ('':'' @ FormatInt (sc_Port cfg)) = None"
  shows "\<exists>acts sinks. server_run cv environ vi dotEnv unmarshal world flagPort cfgFile = (acts, Serving)
    \<and> (\<forall>n e. SkipOutput n e \<notin> set acts)
    \<and> list_all2 (\<lambda>x s. NewSinker x = Inr s) (filter oc_Enabled (sc_Outputs cfg)) sinks
    \<and> (\<forall>ss. StartRouter ss \<in> set acts \<longleftrightarrow> ss = sinks \<and> sinks \<noteq> [])"
proof -
  have outs: "validate_outputs (sc_Outputs cfg) = None" and valid: "Server_Validate cfg = None"
    using assms(1) by (auto simp: InitServerConfig_def split: sum.splits option.splits if_splits)
  from valid have "sc_LogLevel cfg \<in> set validLevels" by (simp add: Server_Validate_None_iff)
  then obtain logger where log: "log_Setup (sw_MkdirAll world) (server_log_Config cfg) = Inr logger"
    using log_Setup_ok [of "sw_MkdirAll world" "server_log_Config cfg"] assms(2) by (auto simp: server_log_Config_def validLevels_def)
  note sinks = create_sinks_validated [OF outs]
  have broker: "fst (broker_Start (sw_AddListener world) (sc_Mqtt cfg)) = None" using assms(4,5) by (simp add: broker_Start_def)
  have run: "server_run cv environ vi dotEnv unmarshal world flagPort cfgFile = (serve_actions world cfg logger, Serving)"
    using assms(1,3,6) log broker by (simp add: server_run_def server_start_eq)
  moreover have "SkipOutput n e \<notin> set (serve_actions world cfg logger)" for n e
    using sinks broker_Start_actions [of "sw_AddListener world" "sc_Mqtt cfg"] by (auto simp: serve_actions_def)
  moreover have "StartRouter ss \<in> set (serve_actions world cfg logger) \<longleftrightarrow> ss = fst (create_sinks (sc_Outputs cfg)) \<and> fst (create_sinks (sc_Outputs cfg)) \<noteq> []" for ss
    using sinks broker_Start_actions [of "sw_AddListener world" "sc_Mqtt cfg"] by (auto simp: serve_actions_def)
  ultimately show ?thesis using sinks by blast
qed

definition sample_server_world :: server_world where
  "sample_server_world = \<lparr>sw_MkdirAll = (\<lambda>_. None), sw_OpenStore = (\<lambda>_. None), sw_AddListener = (\<lambda>_. None),
     sw_Ping = (\<lambda>_. False), sw_Listen = (\<lambda>_. None)\<rparr>"

definition sample_output :: OutputConfig where
  "sample_output = \<lparr>oc_Type = SinkThingsBoardMQTT, oc_Name = ''tb'', oc_Enabled = True, oc_Host = ''h'', oc_Port = 1883, oc_QoS = 1,
     oc_Token = ''t'', oc_ProductKey = [], oc_DeviceName = [], oc_DeviceSecret = [], oc_Username = [], oc_Password = [],
     oc_Scheme = [], oc_URL = [], oc_Headers = [], oc_Timeout = 10\<rparr>"

lemma sample_server_config:
  "\<exists>c. populate_server (server_NewProviders (\<lambda>_. 0) [] (list_viper []) False (server_flagValues 0) []) = Inr c
     \<and> sc_Port c = 8883 \<and> sc_LogLevel c = ''info'' \<and> pg_Host (sc_Pg c) = ''127.0.0.1'' \<and> pg_DBName (sc_Pg c) = ''lepgs''"
proof -
  have none: "pick [env_source [], file_source (list_viper []) False path, FlagProvider (set_flags [] (server_flagValues 0))] allowed get key d = d"
    if "key \<noteq> []" for path allowed key and get :: "provider \<Rightarrow> string \<Rightarrow> 'a" and d
    using that by (simp add: pick_def env_source_get list_viper_source FlagProvider_get server_flagValues_def set_flags_def)
  show ?thesis unfolding server_chain unfolding populate_server_eq by (simp add: none)
qed

theorem accepted_configuration_starts_witness:
  "\<exists>acts s. server_run (\<lambda>_. 0) [] (list_viper []) False (Inr [], Inr [sample_output]) sample_server_world 0 [] = (acts, Serving)
     \<and> NewSinker sample_output = Inr s \<and> StartRouter [s] \<in> set acts"
proof -
  obtain c where c: "populate_server (server_NewProviders (\<lambda>_. 0) [] (list_viper []) False (server_flagValues 0) []) = Inr c"
    and fields: "sc_Port c = 8883" "sc_LogLevel c = ''info''" "pg_Host (sc_Pg c) = ''127.0.0.1''" "pg_DBName (sc_Pg c) = ''lepgs''"
    using sample_server_config by blast
  let ?cfg = "c\<lparr>sc_Clients := [], sc_Outputs := [sample_output]\<rparr>"
  have "InitServerConfig (populate_server (server_NewProviders (\<lambda>_. 0) [] (list_viper []) False (server_flagValues 0) []))
      (Inr [], Inr [sample_output]) True = Inr ?cfg"
    unfolding c InitServerConfig_accepts_iff using fields by (simp add: sample_output_def)
  from accepted_configuration_starts [OF this, of sample_server_world]
  obtain acts sinks where run: "server_run (\<lambda>_. 0) [] (list_viper []) False (Inr [], Inr [sample_output]) sample_server_world 0 [] = (acts, Serving)"
    and sinks: "list_all2 (\<lambda>x s. NewSinker x = Inr s) [sample_output] sinks"
    and router: "\<forall>ss. StartRouter ss \<in> set acts \<longleftrightarrow> ss = sinks \<and> sinks \<noteq> []"
    by (auto simp: sample_server_world_def sample_output_def)
  from sinks obtain s where "sinks = [s]" "NewSinker sample_output = Inr s" by (cases sinks) auto
  with run router show ?thesis by blast
qed

section \<open>A file that \<^verbatim>\<open>init\<close> wrote\<close>

text \<open>
  What is relied on: an instance of viper holds entries, its file is written with them and nothing else changes;
  a viper that reads a path answers with the entries there.
\<close>

definition init_laws :: "('fs, 'v) init_ops \<Rightarrow> ('v \<Rightarrow> setting gomap) \<Rightarrow> ('fs \<Rightarrow> string \<Rightarrow> setting gomap option) \<Rightarrow> bool" where
  "init_laws os entries content \<longleftrightarrow>
     entries (io_New os) = [] \<and> (\<forall>v f. entries (io_SetConfigFile os v f) = entries v) \<and> (\<forall>v t. entries (io_SetConfigType os v t) = entries v)
   \<and> (\<forall>v k x. entries (io_SetDefault os v k x) = AList.update k x (entries v))
   \<and> (\<forall>fs d. content (snd (io_MkdirAll os fs d)) = content fs)
   \<and> (\<forall>fs v f. fst (io_SafeWriteConfigAs os fs v f) = None \<longrightarrow>
        content (snd (io_SafeWriteConfigAs os fs v f)) = (content fs)(f \<mapsto> entries v))"

definition reads_content :: "'v viper \<Rightarrow> (string \<Rightarrow> setting gomap option) \<Rightarrow> bool" where
  "reads_content vi content \<longleftrightarrow>
     (\<forall>path k. let file = file_source vi False path; m = (case content path of None \<Rightarrow> [] | Some m \<Rightarrow> m) in
        (pv_IsSet file k \<longleftrightarrow> map_of m k \<noteq> None)
      \<and> (\<forall>s. map_of m k = Some (SetString s) \<longrightarrow> pv_GetString file k = s)
      \<and> (\<forall>n. map_of m k = Some (SetInt n) \<longrightarrow> pv_GetInt file k = n))"

lemma set_defaults_entries:
  assumes "init_laws os entries content"
  shows "entries (foldl (\<lambda>v (k, x). io_SetDefault os v k x) v defaults) = set_flags (entries v) defaults"
  using assms by (induction defaults arbitrary: v) (auto simp: set_flags_def init_laws_def)

lemma InitConfig_writes:
  assumes laws: "init_laws os entries content" and init: "InitConfig os fs filename defaults = (None, fs')"
  shows "content fs' = (content fs)(filename \<mapsto> set_flags [] defaults)"
proof -
  define v where "v = foldl (\<lambda>v (k, x). io_SetDefault os v k x)
    (if path_Ext filename \<noteq> [] then io_SetConfigType os (io_SetConfigFile os (io_New os) filename) (tl (path_Ext filename))
     else io_SetConfigFile os (io_New os) filename) defaults"
  have v: "entries v = set_flags [] defaults"
    unfolding v_def set_defaults_entries [OF laws] using laws by (simp add: init_laws_def)
  obtain fs1 where "content fs1 = content fs" and "io_SafeWriteConfigAs os fs1 v filename = (None, fs')"
  proof (cases "path_Dir filename \<noteq> [] \<and> path_Dir filename \<noteq> ''.''")
    case True
    obtain e fs1 where mk: "io_MkdirAll os fs (path_Dir filename) = (e, fs1)" by fastforce
    have "content fs1 = content fs" using laws mk unfolding init_laws_def by (metis snd_conv)
    moreover have "io_SafeWriteConfigAs os fs1 v filename = (None, fs')"
      using init True mk by (auto simp: InitConfig_def Let_def v_def [symmetric] apfst_def map_prod_def split: option.splits prod.splits)
    ultimately show ?thesis by (rule that)
  next
    case False
    then show ?thesis using init that [of fs]
      by (auto simp: InitConfig_def Let_def v_def [symmetric] apfst_def map_prod_def split: option.splits prod.splits)
  qed
  then show ?thesis using laws v unfolding init_laws_def by (metis fst_conv snd_conv)
qed

lemma client_config_path: "map_of client_GetDefaultValues ''config_path'' = Some (SetString ''/etc/lepgc/config.toml'')"
  by (simp add: client_GetDefaultValues_def update_conv')

lemma written_defaults:
  "set_flags [] client_GetDefaultValues = client_GetDefaultValues"
  by (simp add: client_GetDefaultValues_def extracted_client set_flags_def)

lemma client_init_writes:
  assumes laws: "init_laws os entries content" and init: "client_init os fs cfgFile = Ret (Initialized filename, fs')"
  shows "filename = (if cfgFile \<noteq> [] then cfgFile else ''/etc/lepgc/config.toml'')"
    and "content fs' = (content fs)(filename \<mapsto> client_GetDefaultValues)"
proof -
  let ?f = "if cfgFile \<noteq> [] then cfgFile else ''/etc/lepgc/config.toml''"
  have "filename = ?f \<and> InitConfig os fs ?f client_GetDefaultValues = (None, fs')"
    using init unfolding client_init_def init_command_def client_config_path InitConfigWithDefaults_def
    by (simp add: Let_def split: if_splits prod.splits option.splits)
  then show "filename = ?f" and "content fs' = (content fs)(filename \<mapsto> client_GetDefaultValues)"
    using InitConfig_writes [OF laws, of fs ?f client_GetDefaultValues fs'] by (simp_all only: written_defaults)
qed

text \<open>
  What \<^verbatim>\<open>init\<close> means for \<^verbatim>\<open>run\<close>. With a file that \<^verbatim>\<open>lepgc init\<close> wrote, and no \<^verbatim>\<open>.env\<close>, the gateway gets every value that has
  a default from the file, so that no environment variable but \<^verbatim>\<open>SN\<close> and \<^verbatim>\<open>TOKEN\<close> has an effect. Without \<^verbatim>\<open>-c\<close> the file is
  written where \<^verbatim>\<open>run\<close> does not look: what \<^verbatim>\<open>run\<close> reads is as it was before.
\<close>

theorem init_then_run:
  assumes "init_laws os entries content" and "client_init os fs cfgFile = Ret (Initialized filename, fs')"
    and "reads_content vi (content fs')" and "distinct (map fst flags)"
  shows "populate_client (client_NewProviders cv environ vi False flags filename) = Inr
     \<lparr>cc_ServerUrl = (if map_of flags ''server'' \<noteq> None then pv_GetString (FlagProvider flags) ''server'' else ''http://localhost''),
      cc_Port = (if map_of flags ''port'' \<noteq> None then pv_GetInt (FlagProvider flags) ''port'' else 8883),
      cc_LogLevel = ''info'', cc_Sn = Getenv environ (ToUpper ''sn''), cc_Token = Getenv environ (ToUpper ''token''),
      cc_MaxRetry = 10, cc_RetryInterval = 5000, cc_BufferSize = 1000, cc_UploadBatchSize = 100, cc_UploadInterval = 5000,
      cc_Paths = \<lparr>pa_LogPath = ''logs/'', pa_DataPath = ''./data/data.db'', pa_LogMaxSize = 10, pa_LogMaxBackups = 3, pa_LogMaxAge = 28\<rparr>,
      cc_ControlListenAddr = ''127.0.0.1:9090'', cc_Devices = [], cc_Mqtt = None\<rparr>
   \<and> (if cfgFile = [] then content fs' ''config/client.toml'' = content fs ''config/client.toml'' else filename = cfgFile)"
proof -
  note written = client_init_writes [OF assms(1,2)]
  let ?file = "file_source vi False filename"
  have ne: "filename \<noteq> []" using written(1) by (simp split: if_splits)
  then have source: "?file = file_source vi False (if filename \<noteq> [] then filename else ''config/client.toml'')" by simp
  have get: "pv_IsSet ?file k \<longleftrightarrow> map_of client_GetDefaultValues k \<noteq> None"
      "map_of client_GetDefaultValues k = Some (SetString s) \<Longrightarrow> pv_GetString ?file k = s"
      "map_of client_GetDefaultValues k = Some (SetInt n) \<Longrightarrow> pv_GetInt ?file k = n" for k s n
    using assms(3) [unfolded reads_content_def Let_def, THEN spec, THEN spec, of filename k] written(2) by simp_all
  have env: "text_setting ?file environ k [] = Getenv environ (ToUpper k)" if "map_of client_GetDefaultValues k = None" for k
    using that get(1) [of k] by (simp add: text_setting_def file_or_env_def Let_def)
  have words: "text_setting ?file environ k t = t" if "map_of client_GetDefaultValues k = Some (SetString t)" for k t
    using that get(1,2) [of k] by (simp add: text_setting_def file_or_env_def)
  have number: "number_setting ?file environ k n = n" if "map_of client_GetDefaultValues k = Some (SetInt n)" for k n
    using that get(1) [of k] get(3) [of k] by (simp add: number_setting_def file_or_env_def)
  have "(if cfgFile = [] then content fs' ''config/client.toml'' = content fs ''config/client.toml'' else filename = cfgFile)"
    using written by simp
  with client_configuration_eq [OF source assms(4), of cv environ] show ?thesis
    by (simp add: env words number client_GetDefaultValues_def update_conv' extracted_client)
qed

text \<open>A file system of entries, with a viper that reads it.\<close>

definition gomap_init_ops :: "(string \<Rightarrow> setting gomap option, setting gomap) init_ops" where
  "gomap_init_ops = \<lparr>io_Stat = (\<lambda>fs f. fs f \<noteq> None), io_MkdirAll = (\<lambda>fs d. (None, fs)), io_New = [], io_SetConfigFile = (\<lambda>v f. v),
     io_SetConfigType = (\<lambda>v t. v), io_SetDefault = (\<lambda>v k x. AList.update k x v),
     io_SafeWriteConfigAs = (\<lambda>fs v f. (None, fs(f \<mapsto> v)))\<rparr>"

lemma gomap_init_simps [simp]:
  "io_Stat gomap_init_ops fs f = (fs f \<noteq> None)" "io_MkdirAll gomap_init_ops fs d = (None, fs)" "io_New gomap_init_ops = []"
  "io_SetConfigFile gomap_init_ops v f = v" "io_SetConfigType gomap_init_ops v t = v"
  "io_SetDefault gomap_init_ops v k x = AList.update k x v" "io_SafeWriteConfigAs gomap_init_ops fs v f = (None, fs(f \<mapsto> v))"
  by (simp_all add: gomap_init_ops_def)

definition path_viper :: "(string \<Rightarrow> setting gomap option) \<Rightarrow> (string \<times> setting gomap) viper" where
  "path_viper fs =
     \<lparr>vi_New = ([], []), vi_SetConfigFile = (\<lambda>v path. (path, snd v)), vi_SetConfigType = (\<lambda>v typ. v),
      vi_ReadInConfig = (\<lambda>v. (None, fst v, case fs (fst v) of None \<Rightarrow> [] | Some m \<Rightarrow> m)), vi_env = None,
      vi_Set = (\<lambda>v k x. (fst v, AList.update k x (snd v))),
      vi_GetString = pv_GetString \<circ> FlagProvider \<circ> snd, vi_GetInt = pv_GetInt \<circ> FlagProvider \<circ> snd,
      vi_GetBool = pv_GetBool \<circ> FlagProvider \<circ> snd, vi_GetStringSlice = pv_GetStringSlice \<circ> FlagProvider \<circ> snd,
      vi_Get = pv_Get \<circ> FlagProvider \<circ> snd, vi_IsSet = pv_IsSet \<circ> FlagProvider \<circ> snd\<rparr>"

theorem init_then_run_witness:
  "\<exists>fs' cfg. client_init gomap_init_ops Map.empty ''gw.toml'' = Ret (Initialized ''gw.toml'', fs')
     \<and> populate_client (client_NewProviders (\<lambda>_. 0) [''PORT=9'', ''SN=gw1''] (path_viper fs') False [] ''gw.toml'') = Inr cfg
     \<and> cc_Port cfg = 8883 \<and> cc_Sn cfg = ''gw1''"
proof -
  have laws: "init_laws gomap_init_ops id (\<lambda>fs. fs)" by (simp add: init_laws_def)
  obtain fs' where init: "client_init gomap_init_ops Map.empty ''gw.toml'' = Ret (Initialized ''gw.toml'', fs')"
    by (simp add: client_init_def init_command_def client_config_path InitConfigWithDefaults_def InitConfig_def Let_def cong: if_cong)
  have reads: "reads_content (path_viper fs) fs" for fs
    by (simp add: reads_content_def path_viper_def file_source_def file_provider_def LoadDotEnv_def File_Load_def SetConfigFile_def
        NewFileProvider_def FlagProvider_def Let_def)
  have "ToUpper ''sn'' = ''SN''" by (simp add: ToUpper_def upper_def char_of_def bit_Suc_0_iff)
  then have "Getenv [''PORT=9'', ''SN=gw1''] (ToUpper ''sn'') = ''gw1''" by (simp add: SplitN2_def)
  with init_then_run [OF laws init reads, of "[]" "\<lambda>_. 0" "[''PORT=9'', ''SN=gw1'']"] init show ?thesis
    by (intro exI [of _ fs']) simp
qed

end
