(* ===== verification/FloatDigits.thy ===== *)
theory FloatDigits
  imports Values Complex_Main
begin

text \<open>
  Seventeen digits are enough for every \<^verbatim>\<open>float64\<close>: a decimal number with a relative error of less than \<open>2 ^ -54\<close>
  rounds to it, so that the search for the shortest digits always ends with digits that read back as the number.
\<close>

section \<open>Powers with integer exponents\<close>

lemma powi_split: "(b :: real) \<noteq> 0 \<Longrightarrow> b powi k = b ^ nat k / b ^ nat (- k)"
  by (cases "0 \<le> k") (simp_all add: power_int_def field_simps)

lemma powi_less_iff: "1 < b \<Longrightarrow> (b :: real) powi j < b powi k \<longleftrightarrow> j < k"
  by (meson linorder_not_le linorder_neqE_linordered_idom power_int_strict_increasing power_int_increasing order_less_imp_le)

section \<open>Rounding\<close>

definition near :: "nat \<Rightarrow> nat \<Rightarrow> nat" where
  "near n d = (let q = n div d; r = n mod d in if 2 * r > d \<or> (2 * r = d \<and> odd q) then q + 1 else q)"

lemma near_error: "0 < d \<Longrightarrow> \<bar>real n / real d - real (near n d)\<bar> \<le> 1 / 2"
proof -
  assume d: "0 < d"
  let ?q = "n div d" and ?r = "n mod d"
  have n: "real n = real ?q * real d + real ?r" by (metis div_mult_mod_eq of_nat_add of_nat_mult)
  then have x: "real n / real d = real ?q + real ?r / real d" using d by (simp add: field_simps)
  have "?r < d" using d by simp
  then have r: "0 \<le> real ?r / real d" "real ?r / real d < 1" using d by (simp_all add: field_simps)
  show ?thesis
  proof (cases "2 * ?r > d \<or> (2 * ?r = d \<and> odd ?q)")
    case True
    then have "real d \<le> 2 * real ?r" by (metis less_imp_le of_nat_le_iff of_nat_mult of_nat_numeral order_refl)
    then have "1 / 2 \<le> real ?r / real d" using d by (simp add: field_simps)
    with True r x show ?thesis by (simp add: near_def Let_def)
  next
    case False
    then have "2 * real ?r \<le> real d" by (metis not_le of_nat_le_iff of_nat_mult of_nat_numeral)
    then have "real ?r / real d \<le> 1 / 2" using d by (simp add: field_simps)
    moreover from False have "near n d = ?q" by (simp only: near_def Let_def if_False)
    ultimately show ?thesis using r x by simp
  qed
qed

lemma near_unique: "0 < d \<Longrightarrow> \<bar>real n / real d - real m\<bar> < 1 / 2 \<Longrightarrow> near n d = m"
  using near_error [of d n] by linarith

lemma near_le: "near n d \<le> n div d + 1"
  by (simp add: near_def Let_def)

lemma near_cong: "0 < d \<Longrightarrow> 0 < d' \<Longrightarrow> n * d' = n' * d \<Longrightarrow> near n d = near n' d'"
proof -
  assume d: "0 < d" "0 < d'" and eq: "n * d' = n' * d"
  have q: "n div d = n' div d'"
    using d eq by (metis div_mult_mult2 less_numeral_extra(3) mult.commute)
  have "(n mod d) * d' = (n' mod d') * d"
    using d eq by (metis mult.commute mult_mod_right)
  then have "2 * (n mod d) * d' = 2 * (n' mod d') * d" by (simp add: mult.assoc)
  then have "2 * (n mod d) > d \<longleftrightarrow> 2 * (n' mod d') > d'" "2 * (n mod d) = d \<longleftrightarrow> 2 * (n' mod d') = d'"
    using d by (metis mult.commute nat_mult_less_cancel1, metis mult.commute mult_cancel1 less_numeral_extra(3))
  with q show ?thesis by (simp add: near_def Let_def)
qed

lemma ilog2_bounds:
  assumes "0 < num" and "0 < den"
  shows "2 powi ilog2 num den \<le> real num / real den" and "real num / real den < 2 powi (ilog2 num den + 1)"
proof -
  let ?x = "real num / real den" and ?l = "int (lg num) - int (lg den)"
  have pow: "2 powi ?l = (2 :: real) ^ lg num / 2 ^ lg den" by (simp add: power_int_diff)
  have "(2 :: real) ^ lg num \<le> real num" "real num < 2 * 2 ^ lg num" "(2 :: real) ^ lg den \<le> real den" "real den < 2 * 2 ^ lg den"
    using lg_bounds [OF assms(1)] lg_bounds [OF assms(2)]
    by (metis of_nat_le_iff of_nat_power of_nat_numeral, metis of_nat_less_iff of_nat_power of_nat_numeral power_Suc,
        metis of_nat_le_iff of_nat_power of_nat_numeral, metis of_nat_less_iff of_nat_power of_nat_numeral power_Suc)
  note b = this
  have up: "?x < 2 powi (?l + 1)"
  proof -
    have "?x < (2 * 2 ^ lg num) / 2 ^ lg den" using b by (intro frac_less) simp_all
    then show ?thesis by (simp add: power_int_add pow mult.commute)
  qed
  have low: "2 powi (?l - 1) \<le> ?x"
  proof -
    have "2 ^ lg num / (2 * 2 ^ lg den) \<le> ?x" using b assms by (intro frac_le) simp_all
    then show ?thesis by (simp add: power_int_diff pow)
  qed
  have test: "num * 2 ^ nat (- ?l) < den * 2 ^ nat ?l \<longleftrightarrow> ?x < 2 powi ?l"
  proof -
    have "num * 2 ^ nat (- ?l) < den * 2 ^ nat ?l \<longleftrightarrow> real num * 2 ^ nat (- ?l) < real den * 2 ^ nat ?l"
      unfolding of_nat_less_iff [where 'a = real, symmetric] by simp
    then show ?thesis using assms by (simp add: powi_split [of 2 ?l] field_simps)
  qed
  show "2 powi ilog2 num den \<le> ?x" and "?x < 2 powi (ilog2 num den + 1)"
    using up low test by (auto simp: ilog2_def Let_def)
qed

lemma ilog2_unique:
  "0 < num \<Longrightarrow> 0 < den \<Longrightarrow> 2 powi l \<le> real num / real den \<Longrightarrow> real num / real den < 2 powi (l + 1) \<Longrightarrow> ilog2 num den = l"
proof -
  assume a: "0 < num" "0 < den" "2 powi l \<le> real num / real den" "real num / real den < 2 powi (l + 1)"
  from a(4) ilog2_bounds(1) [OF a(1,2)] have "(2 :: real) powi ilog2 num den < 2 powi (l + 1)" by linarith
  moreover from a(3) ilog2_bounds(2) [OF a(1,2)] have "(2 :: real) powi l < 2 powi (ilog2 num den + 1)" by linarith
  ultimately show ?thesis by (simp add: powi_less_iff)
qed

lemma rnd_near:
  "rnd p emin num den =
     (let e = max emin (ilog2 num den - int (p - 1)); m = near (num * 2 ^ nat (- e)) (den * 2 ^ nat e)
      in if m = 2 ^ p then (2 ^ (p - 1), e + 1) else (m, e))"
  by (simp add: rnd_def near_def Let_def)

text \<open>Rounding depends on the quotient only.\<close>

lemma rnd_cong:
  assumes "0 < num" "0 < den" "0 < num'" "0 < den'" and eq: "num * den' = num' * den"
  shows "rnd p emin num den = rnd p emin num' den'"
proof -
  have "real num * real den' = real num' * real den" using eq by (metis of_nat_mult)
  then have "real num / real den = real num' / real den'" using assms by (simp add: field_simps)
  then have l: "ilog2 num den = ilog2 num' den'"
    using ilog2_bounds [OF assms(3,4)] by (intro ilog2_unique [OF assms(1,2)]) simp_all
  have "near (num * 2 ^ nat (- e)) (den * 2 ^ nat e) = near (num' * 2 ^ nat (- e)) (den' * 2 ^ nat e)" for e
  proof (rule near_cong)
    have "num * 2 ^ nat (- e) * (den' * 2 ^ nat e) = (num * den') * (2 ^ nat (- e) * 2 ^ nat e)" by simp
    also have "\<dots> = num' * 2 ^ nat (- e) * (den * 2 ^ nat e)" unfolding eq by simp
    finally show "num * 2 ^ nat (- e) * (den' * 2 ^ nat e) = num' * 2 ^ nat (- e) * (den * 2 ^ nat e)" .
  qed (use assms in simp_all)
  then show ?thesis unfolding rnd_near l by simp
qed

lemma round64_cong:
  "0 < den \<Longrightarrow> 0 < den' \<Longrightarrow> num * den' = num' * den \<Longrightarrow> round64 s num den = round64 s num' den'"
proof (cases "num = 0 \<or> num' = 0")
  case False
  assume a: "0 < den" "0 < den'" "num * den' = num' * den"
  from False rnd_cong [OF _ a(1) _ a(2) a(3)] show ?thesis by (simp add: round64_def)
qed (auto simp: round64_def)

section \<open>A number close to a \<^verbatim>\<open>float64\<close> rounds to it\<close>

lemma near_scaled:
  assumes "0 < den" and "\<bar>real num / real den * 2 powi (- e) - real m\<bar> < 1 / 2"
  shows "near (num * 2 ^ nat (- e)) (den * 2 ^ nat e) = m"
proof (rule near_unique)
  have "real (num * 2 ^ nat (- e)) / real (den * 2 ^ nat e) = real num / real den * 2 powi (- e)"
    by (simp add: powi_split [of 2 "- e"])
  with assms(2) show "\<bar>real (num * 2 ^ nat (- e)) / real (den * 2 ^ nat e) - real m\<bar> < 1 / 2" by simp
qed (use assms(1) in simp)

lemma rnd_close:
  assumes wf: "wf64 (Fin s m e)" and m: "0 < m" and pos: "0 < num" "0 < den"
    and close: "\<bar>real num / real den - real m * 2 powi e\<bar> < real m * 2 powi (e - 54)"
  shows "rnd 53 (-1074) num den = (m, e)"
proof -
  let ?x = "real num / real den" and ?L = "ilog2 num den"
  define y where "y = ?x * 2 powi (- e)"
  have x: "?x = y * 2 powi e" by (simp add: y_def power_int_minus field_simps)
  have p: "(0 :: real) < 2 powi e" by simp
  have m53: "m < 2 ^ 53" and e: "-1074 \<le> e" and norm: "2 ^ 52 \<le> m \<or> e = -1074" using wf by (auto simp: wf64_def)
  have "m \<le> 9007199254740991" using m53 by simp
  then have rm: "real m \<le> 9007199254740991" by linarith
  have "\<bar>(y - real m) * 2 powi e\<bar> < real m / 2 ^ 54 * 2 powi e"
    using close unfolding x by (simp add: left_diff_distrib power_int_diff)
  then have y: "\<bar>y - real m\<bar> < real m / 2 ^ 54" using p by (simp add: abs_mult)
  have "real m / 2 ^ 54 < 1 / 2" using rm by simp
  with y have y2: "\<bar>y - real m\<bar> < 1 / 2" by linarith
  have below: "?L < j" if "y * 2 powi e < 2 powi j" for j
    using ilog2_bounds(1) [OF pos] that unfolding x by (metis order_le_less_trans powi_less_iff one_less_numeral_iff semiring_norm(76))
  have above: "j \<le> ?L" if "2 powi j \<le> y * 2 powi e" for j
    using ilog2_bounds(2) [OF pos] that unfolding x
    by (metis linorder_not_le order_le_less_trans powi_less_iff one_less_numeral_iff semiring_norm(76) zless_add1_eq less_le)
  have up: "?L \<le> 52 + e"
  proof -
    have "y < 9007199254740992" using y2 rm by linarith
    then have "y * 2 powi e < 9007199254740992 * 2 powi e" using p by simp
    then have "y * 2 powi e < 2 powi (53 + e)" by (simp add: power_int_add)
    from below [OF this] show ?thesis by simp
  qed
  show ?thesis
  proof (cases "m = 2 ^ 52 \<and> e \<noteq> -1074 \<and> y < real m")
    case False
    have "4503599627370496 \<le> y" if "e \<noteq> -1074"
    proof (cases "y < real m")
      case True
      with False norm that have "4503599627370497 \<le> m" by auto
      then have "4503599627370497 \<le> real m" by linarith
      then show ?thesis using y2 by linarith
    next
      case False
      have "4503599627370496 \<le> m" using norm that by auto
      then have "4503599627370496 \<le> real m" by linarith
      with False show ?thesis by simp
    qed
    then have "52 + e \<le> ?L" if "e \<noteq> -1074" using that p by (intro above) (simp add: power_int_add)
    then have e': "max (-1074) (?L - 52) = e" using up e by (cases "e = -1074") auto
    have "near (num * 2 ^ nat (- e)) (den * 2 ^ nat e) = m"
      using y2 by (intro near_scaled [OF pos(2)]) (simp add: y_def)
    then show ?thesis using m53 e' by (simp add: rnd_near Let_def)
  next
    case True
    then have m': "real m = 4503599627370496" by simp
    have "2251799813685248 \<le> y" using y2 m' by linarith
    then have "51 + e \<le> ?L" using p by (intro above) (simp add: power_int_add)
    moreover have "?L < 52 + e" using True m' p by (intro below) (simp add: power_int_add)
    ultimately have e': "max (-1074) (?L - 52) = e - 1" using True e by auto
    have "near (num * 2 ^ nat (- (e - 1))) (den * 2 ^ nat (e - 1)) = 2 ^ 53"
    proof (rule near_scaled [OF pos(2)])
      have "?x * 2 powi (- (e - 1)) = 2 * y" unfolding x by (simp add: power_int_diff power_int_minus)
      moreover have "\<bar>y - real m\<bar> < 1 / 4" using y m' by simp
      then have "\<bar>2 * y - 9007199254740992\<bar> < 1 / 2" using m' by linarith
      ultimately show "\<bar>?x * 2 powi (- (e - 1)) - real (2 ^ 53)\<bar> < 1 / 2" by simp
    qed
    then show ?thesis using True e' by (simp add: rnd_near Let_def)
  qed
qed

section \<open>Seventeen digits\<close>

lemma frac_value: "real (fst (GoFloat.frac m e)) / real (snd (GoFloat.frac m e)) = real m * 2 powi e" "0 < snd (GoFloat.frac m e)"
  by (simp_all add: GoFloat.frac_def powi_split [of 2 e])

lemma of_decimal_value: "real (c * 10 ^ nat k) / real (10 ^ nat (- k)) = real c * 10 powi k"
  by (simp add: powi_split [of 10 k])

lemma of_decimal_close:
  assumes "wf64 (Fin s m e)" and "0 < m" and close: "\<bar>real c * 10 powi k - real m * 2 powi e\<bar> < real m * 2 powi (e - 54)"
  shows "of_decimal s c k = Fin s m e"
proof -
  have "c \<noteq> 0"
  proof
    assume "c = 0"
    with close have "real m * 2 powi e < real m * 2 powi (e - 54)" by (simp add: abs_mult)
    with assms(2) show False by (simp add: powi_less_iff)
  qed
  then have "rnd 53 (-1074) (c * 10 ^ nat k) (10 ^ nat (- k)) = (m, e)"
    using close unfolding of_decimal_value [symmetric] by (intro rnd_close [OF assms(1,2)]) simp_all
  then show ?thesis using assms(1) \<open>c \<noteq> 0\<close> by (simp add: of_decimal_def round64_def wf64_def)
qed

lemma of_decimal_cong: "real c * 10 powi k = real c' * 10 powi k' \<Longrightarrow> of_decimal s c k = of_decimal s c' k'"
proof -
  assume "real c * 10 powi k = real c' * 10 powi k'"
  then have "real (c * 10 ^ nat k) / real (10 ^ nat (- k)) = real (c' * 10 ^ nat k') / real (10 ^ nat (- k'))"
    unfolding of_decimal_value .
  then have "real (c * 10 ^ nat k) * real (10 ^ nat (- k')) = real (c' * 10 ^ nat k') * real (10 ^ nat (- k))"
    by (simp add: divide_simps)
  then have "c * 10 ^ nat k * 10 ^ nat (- k') = c' * 10 ^ nat k' * 10 ^ nat (- k)"
    by (metis of_nat_eq_iff of_nat_mult)
  then show ?thesis unfolding of_decimal_def by (intro round64_cong) simp_all
qed

lemma Itoa_bounds: "n < 10 ^ length (Itoa n)" "0 < n \<Longrightarrow> 10 ^ (length (Itoa n) - 1) \<le> n"
proof (induction n rule: Itoa.induct)
  case (1 n)
  have len: "length (Itoa n) = (if n < 10 then 1 else Suc (length (Itoa (n div 10))))" by (subst Itoa.simps) simp
  show "n < 10 ^ length (Itoa n)" using 1(1) by (auto simp: len)
  show "10 ^ (length (Itoa n) - 1) \<le> n" if "0 < n"
  proof (cases "n < 10")
    case False
    have "length (Itoa (n div 10)) \<noteq> 0" by simp
    then have "10 ^ (length (Itoa n) - 1) = 10 * 10 ^ (length (Itoa (n div 10)) - 1)"
      using False by (cases "length (Itoa (n div 10))") (simp_all add: len)
    also have "\<dots> \<le> 10 * (n div 10)" using 1(2) [OF False] False by (intro mult_le_mono2) simp
    finally show ?thesis by simp
  qed (use that in \<open>simp add: len\<close>)
qed

lemma leading_zeros_bounds:
  "0 < num \<Longrightarrow> den \<le> num * 10 ^ leading_zeros num den \<and> (0 < leading_zeros num den \<longrightarrow> num * 10 ^ (leading_zeros num den - 1) < den)"
proof (induction num den rule: leading_zeros.induct)
  case (1 num den)
  show ?case
  proof (cases "den \<le> num")
    case True
    then have "leading_zeros num den = 0" by (subst leading_zeros.simps) simp
    with True show ?thesis by simp
  next
    case False
    with 1(2) have eq: "leading_zeros num den = Suc (leading_zeros (10 * num) den)" by (subst leading_zeros.simps) simp
    have IH: "den \<le> 10 * num * 10 ^ leading_zeros (10 * num) den \<and>
       (0 < leading_zeros (10 * num) den \<longrightarrow> 10 * num * 10 ^ (leading_zeros (10 * num) den - 1) < den)"
      using 1(1) False 1(2) by simp
    then show ?thesis using False unfolding eq by (cases "leading_zeros (10 * num) den") (simp_all add: mult.commute mult.left_commute)
  qed
qed

lemma decimal_point_bounds:
  assumes "0 < num" and "0 < den"
  shows "10 powi (decimal_point num den - 1) \<le> real num / real den" and "real num / real den < 10 powi decimal_point num den"
proof -
  let ?dp = "decimal_point num den"
  have "10 powi (?dp - 1) \<le> real num / real den \<and> real num / real den < 10 powi ?dp"
  proof (cases "den \<le> num")
    case True
    let ?n = "num div den" and ?l = "length (Itoa (num div den))"
    have n: "0 < ?n" using True assms by (simp add: div_greater_zero_iff)
    have l: "0 < ?l" by simp
    have dp: "?dp = int ?l" using True by (simp add: decimal_point_def)
    have "real (?n * den) \<le> real num" by (simp only: of_nat_le_iff div_times_less_eq_dividend)
    then have "real ?n \<le> real num / real den" using assms(2) by (simp add: field_simps)
    moreover have "real num / real den < real (?n + 1)"
    proof -
      have "num < (?n + 1) * den" using assms(2) by (metis add.commute dividend_less_div_times mult.commute Suc_eq_plus1 mult_Suc)
      then have "real num < real (?n + 1) * real den" by (metis of_nat_less_iff of_nat_mult)
      then show ?thesis using assms(2) by (simp add: field_simps)
    qed
    moreover have "10 powi (?dp - 1) = real (10 ^ (?l - 1))" using l unfolding dp by (cases ?l) simp_all
    moreover have "10 powi ?dp = real (10 ^ ?l)" unfolding dp by simp
    moreover have "real (10 ^ (?l - 1)) \<le> real ?n" using Itoa_bounds(2) [OF n] by (simp only: of_nat_le_iff)
    moreover have "real (?n + 1) \<le> real (10 ^ ?l)" using Itoa_bounds(1) [of ?n] by (simp only: of_nat_le_iff)
    ultimately show ?thesis by linarith
  next
    case False
    let ?z = "leading_zeros num den"
    have dp: "?dp = 1 - int ?z" using False by (simp add: decimal_point_def)
    have z: "0 < ?z" using False assms by (subst leading_zeros.simps) simp
    have low: "den \<le> num * 10 ^ ?z" and up: "num * 10 ^ (?z - 1) < den" using leading_zeros_bounds [OF assms(1), of den] z by simp_all
    have "real den \<le> real num * 10 ^ ?z" using low by (simp flip: of_nat_le_iff [where 'a = real])
    then have "10 powi (?dp - 1) \<le> real num / real den" using assms unfolding dp by (simp add: power_int_minus field_simps)
    moreover have "real num * 10 ^ (?z - 1) < real den" using up by (simp flip: of_nat_less_iff [where 'a = real])
    moreover have "10 powi ?dp = (1 :: real) / 10 ^ (?z - 1)" using z unfolding dp by (cases ?z) (simp_all add: power_int_minus field_simps)
    ultimately show ?thesis using assms by (simp add: pos_divide_less_eq pos_less_divide_eq mult.commute)
  qed
  then show "10 powi (?dp - 1) \<le> real num / real den" "real num / real den < 10 powi ?dp" by simp_all
qed

lemma digits_for_near:
  "digits_for f s num den dp n =
     (let k = dp - int n; a = num * 10 ^ nat (- k); b = den * 10 ^ nat k; q = a div b; c = near a b; other = (if c = q then q + 1 else q)
      in if of_decimal s c k = f then Some c else if a mod b \<noteq> 0 \<and> of_decimal s other k = f then Some other else None)"
  by (simp add: digits_for_def near_def Let_def)

lemma scaled_quotient: "real (num * 10 ^ nat (- k)) / real (den * 10 ^ nat k) = real num / real den * 10 powi (- k)"
  by (simp add: powi_split [of 10 "- k"])

lemma digits_for_sound:
  assumes "digits_for f s num den dp n = Some c" and "0 < num" and "0 < den" and "real num / real den < 10 powi dp"
  shows "of_decimal s c (dp - int n) = f" and "c \<le> 10 ^ n"
proof -
  let ?k = "dp - int n"
  let ?a = "num * 10 ^ nat (- ?k)" and ?b = "den * 10 ^ nat ?k"
  have c: "of_decimal s c ?k = f \<and> c \<le> ?a div ?b + 1"
    using assms(1) near_le [of ?a ?b] by (auto simp: digits_for_near Let_def split: if_splits)
  then show "of_decimal s c ?k = f" by simp
  have "real ?a / real ?b = real num / real den * 10 powi (- ?k)" by (rule scaled_quotient)
  also have "\<dots> < 10 powi dp * 10 powi (- ?k)" using assms(4) by (rule mult_strict_right_mono) simp
  also have "\<dots> = 10 ^ n" by (simp flip: power_int_add)
  finally have "real ?a < 10 ^ n * real ?b" using assms(3) by (simp add: field_simps)
  then have "?a < 10 ^ n * ?b" by (simp flip: of_nat_less_iff [where 'a = real])
  then have "?a div ?b < 10 ^ n" by (simp add: less_mult_imp_div_less)
  with c show "c \<le> 10 ^ n" by linarith
qed

lemma half_unit_close:
  fixes v x t w :: real
  assumes "\<bar>v - x\<bar> \<le> t / 2" and "t * 10 ^ 16 \<le> v" and "w = v / 2 ^ 54" and "0 < v"
  shows "\<bar>x - v\<bar> < w"
proof -
  have "t * 10000000000000000 \<le> v" "w * 18014398509481984 = v" using assms by simp_all
  with assms(1,4) show ?thesis by linarith
qed

lemma seventeen_digits:
  assumes wf: "wf64 (Fin s m e)" and m: "0 < m" and f: "GoFloat.frac m e = (num, den)"
  shows "digits_for (Fin s m e) s num den (decimal_point num den) 17 \<noteq> None"
proof -
  define k where "k = decimal_point num den - 17"
  let ?v = "real m * 2 powi e"
  let ?a = "num * 10 ^ nat (- k)" and ?b = "den * 10 ^ nat k"
  have v: "real num / real den = ?v" and den: "0 < den" using frac_value [of m e] f by simp_all
  have num: "0 < num" using m f by (auto simp: GoFloat.frac_def)
  have low: "10 powi (k + 16) \<le> ?v" using decimal_point_bounds(1) [OF num den] v by (simp add: k_def algebra_simps)
  have ab: "real ?a / real ?b = ?v * 10 powi (- k)" unfolding v [symmetric] by (rule scaled_quotient)
  have p: "(0 :: real) < 10 powi k" by simp
  have "\<bar>real ?a / real ?b - real (near ?a ?b)\<bar> \<le> 1 / 2" using den by (intro near_error) simp
  then have "\<bar>?v - real (near ?a ?b) * 10 powi k\<bar> \<le> 10 powi k / 2"
  proof -
    have "\<bar>?v - real (near ?a ?b) * 10 powi k\<bar> = \<bar>?v * 10 powi (- k) - real (near ?a ?b)\<bar> * 10 powi k"
    proof -
      have "?v - real (near ?a ?b) * 10 powi k = (?v * 10 powi (- k) - real (near ?a ?b)) * 10 powi k"
        by (simp add: left_diff_distrib mult.assoc flip: power_int_add)
      then show ?thesis using p by (simp only: abs_mult abs_of_pos)
    qed
    also have "\<dots> \<le> 1 / 2 * 10 powi k"
      using \<open>\<bar>real ?a / real ?b - real (near ?a ?b)\<bar> \<le> 1 / 2\<close> p unfolding ab by (intro mult_right_mono) simp_all
    finally show ?thesis by simp
  qed
  moreover have "10 powi k * 10 ^ 16 \<le> ?v" using low by (simp add: power_int_add)
  moreover have "real m * 2 powi (e - 54) = ?v / 2 ^ 54" by (simp add: power_int_diff)
  moreover have "0 < ?v" using m by simp
  ultimately have "\<bar>real (near ?a ?b) * 10 powi k - ?v\<bar> < real m * 2 powi (e - 54)"
    by (rule half_unit_close)
  from of_decimal_close [OF wf m this] show ?thesis by (simp add: digits_for_near Let_def k_def)
qed

lemma shortest_sound:
  assumes "\<exists>j < fuel. digits_for f s num den dp (n + j) \<noteq> None" and "shortest fuel f s num den dp n = (n', c)"
  shows "digits_for f s num den dp n' = Some c \<and> n \<le> n' \<and> n' < n + fuel"
  using assms
proof (induction fuel f s num den dp n rule: shortest.induct)
  case (2 fuel f s num den dp n)
  show ?case
  proof (cases "digits_for f s num den dp n")
    case None
    from 2(2) obtain j where j: "j < Suc fuel" "digits_for f s num den dp (n + j) \<noteq> None" by blast
    with None obtain i where "j = Suc i" by (cases j) auto
    with j have "\<exists>j < fuel. digits_for f s num den dp (Suc n + j) \<noteq> None" by auto
    from 2(1) [OF None this] 2(3) None show ?thesis by simp
  qed (use 2(3) in auto)
qed simp

lemma shortest_ok:
  assumes "wf64 (Fin s m e)" and "0 < m" and f: "GoFloat.frac m e = (num, den)"
    and "shortest 17 (Fin s m e) s num den (decimal_point num den) 1 = (n, c)"
  shows "of_decimal s c (decimal_point num den - int n) = Fin s m e" and "1 \<le> n" and "n \<le> 17" and "0 < c" and "c \<le> 10 ^ n"
proof -
  have den: "0 < den" using frac_value [of m e] f by simp
  have num: "0 < num" using assms(2) f by (auto simp: GoFloat.frac_def)
  have "\<exists>j < 17. digits_for (Fin s m e) s num den (decimal_point num den) (1 + j) \<noteq> None"
    using seventeen_digits [OF assms(1-3)] by (intro exI [of _ 16]) simp
  from shortest_sound [OF this assms(4)]
  have d: "digits_for (Fin s m e) s num den (decimal_point num den) n = Some c" and n: "1 \<le> n" "n < 18" by simp_all
  note d = digits_for_sound [OF d num den decimal_point_bounds(2) [OF num den]]
  show "of_decimal s c (decimal_point num den - int n) = Fin s m e" "c \<le> 10 ^ n" "1 \<le> n" "n \<le> 17" using d n by simp_all
  have "of_decimal s 0 (decimal_point num den - int n) \<noteq> Fin s m e" using assms(2) by (simp add: of_decimal_def round64_def)
  then show "0 < c" using d(1) by (cases c) auto
qed

section \<open>Canonical results\<close>

lemma near_ge: "n div d \<le> near n d"
  by (simp add: near_def Let_def)

text \<open>What rounding gives is in canonical form.\<close>

lemma wf64_round64: "0 < den \<Longrightarrow> wf64 (round64 s num den)"
proof (cases "num = 0")
  case False
  assume den: "0 < den"
  from False have num: "0 < num" by simp
  let ?x = "real num / real den" and ?L = "ilog2 num den"
  define e where "e = max (-1074) (?L - 52)"
  let ?n = "num * 2 ^ nat (- e)" and ?d = "den * 2 ^ nat e"
  have d: "0 < ?d" using den by simp
  have q: "real ?n / real ?d = ?x * 2 powi (- e)" by (simp add: powi_split [of 2 "- e"])
  have "?x * 2 powi (- e) < 2 powi (?L + 1) * 2 powi (- e)"
    using ilog2_bounds(2) [OF num den] by (rule mult_strict_right_mono) simp
  also have "\<dots> = 2 powi (?L + 1 - e)" by (simp flip: power_int_add)
  also have "\<dots> \<le> 2 powi 53" unfolding e_def by (intro power_int_increasing) simp_all
  finally have "real ?n < 2 ^ 53 * real ?d" unfolding q [symmetric] using d by (simp add: pos_divide_less_eq)
  then have "real ?n < real (2 ^ 53 * ?d)" by simp
  then have "?n < 2 ^ 53 * ?d" by (simp only: of_nat_less_iff)
  then have "?n div ?d < 2 ^ 53" by (rule less_mult_imp_div_less)
  then have up: "near ?n ?d \<le> 2 ^ 53" using near_le [of ?n ?d] by linarith
  have low: "2 ^ 52 \<le> near ?n ?d" if "e \<noteq> -1074"
  proof -
    have "?L - e = 52" using that by (simp add: e_def max_def split: if_splits)
    then have "2 ^ 52 = (2 :: real) powi ?L * 2 powi (- e)" by (simp flip: power_int_add)
    also have "\<dots> \<le> ?x * 2 powi (- e)" using ilog2_bounds(1) [OF num den] by (rule mult_right_mono) simp
    finally have "2 ^ 52 * real ?d \<le> real ?n" unfolding q [symmetric] using d by (simp add: pos_le_divide_eq)
    then have "real (2 ^ 52 * ?d) \<le> real ?n" by simp
    then have "2 ^ 52 * ?d \<le> ?n" by (simp only: of_nat_le_iff)
    then have "2 ^ 52 \<le> ?n div ?d" using d by (simp only: less_eq_div_iff_mult_less_eq)
    then show ?thesis using near_ge [of ?n ?d] by (rule order_trans)
  qed
  have e: "-1074 \<le> e" by (simp add: e_def)
  have rnd: "rnd 53 (-1074) num den = (if near ?n ?d = 2 ^ 53 then (2 ^ 52, e + 1) else (near ?n ?d, e))"
    by (simp add: rnd_near Let_def e_def)
  show ?thesis
  proof (cases "near ?n ?d = 2 ^ 53")
    case True
    with False rnd e show ?thesis by (simp add: round64_def wf64_def)
  next
    case False
    with up have "near ?n ?d < 2 ^ 53" by simp
    with False num rnd e low show ?thesis by (auto simp: round64_def wf64_def)
  qed
qed (simp add: round64_def wf64_def)

lemma wf64_round_scaled: "wf64 (round_scaled s m e)"
  unfolding round_scaled_def by (rule wf64_round64) (simp add: GoFloat.frac_def)

lemma wf64_f_mul: "wf64 (f_mul a b)"
  by (auto simp: f_mul_def wf64_round_scaled simp del: round_scaled_def split: float64.splits) (simp_all add: wf64_def)

lemma wf64_f_add: "wf64 a \<Longrightarrow> wf64 b \<Longrightarrow> wf64 (f_add a b)"
  by (cases a; cases b) (auto simp: f_add_def Let_def wf64_round_scaled, simp_all add: wf64_def)

end
