(* ===== verification/FloatText.thy ===== *)
theory FloatText
  imports FloatDigits
begin

text \<open>
  The text of a number reads back as the number: what \<^verbatim>\<open>strconv.FormatFloat\<close> and \<^verbatim>\<open>encoding/json\<close> print of the
  shortest digits is read by \<^verbatim>\<open>strconv.ParseFloat\<close> as these digits.
\<close>

section \<open>Digits\<close>

lemma dec_val_append: "dec_val (s @ t) = dec_val s * 10 ^ length t + dec_val t"
proof (induction t rule: rev_induct)
  case (snoc c t)
  then show ?case by (simp add: dec_val_snoc algebra_simps flip: append_assoc)
qed (simp add: dec_val_def)

lemma digit_zero [simp]: "is_digit (CHR ''0'')" "digit_val (CHR ''0'') = 0"
  by (simp_all add: is_digit_def digit_val_def)

lemma dec_val_zeros [simp]: "dec_val (replicate n CHR ''0'') = 0"
  by (induction n) (simp_all add: dec_val_def)

lemma strip_zeros_append: "\<exists>z. ds = strip_zeros ds @ replicate z CHR ''0''"
proof -
  let ?p = "\<lambda>c. c = CHR ''0''"
  have "ds = rev (takeWhile ?p (rev ds) @ dropWhile ?p (rev ds))" by simp
  then have "ds = strip_zeros ds @ rev (takeWhile ?p (rev ds))" by (simp only: strip_zeros_def rev_append)
  moreover have "takeWhile ?p xs = replicate (length (takeWhile ?p xs)) CHR ''0''" for xs by (induction xs) simp_all
  ultimately show ?thesis by (metis rev_replicate)
qed

lemma Itoa_hd: "0 < n \<Longrightarrow> hd (Itoa n) \<noteq> CHR ''0''"
proof (induction n rule: Itoa.induct)
  case (1 n)
  show ?case
  proof (cases "n < 10")
    case True
    have "digit_char n \<noteq> CHR ''0''" using 1(2) True by (metis digit_val_char digit_zero(2) less_numeral_extra(3))
    then show ?thesis using True by (subst Itoa.simps) simp
  next
    case False
    then show ?thesis using 1 by (subst Itoa.simps) simp
  qed
qed

lemma decimal_point_range:
  assumes "wf64 (Fin s m e)" and "0 < m" and f: "GoFloat.frac m e = (num, den)"
  shows "- 400 < decimal_point num den" and "decimal_point num den < 400"
proof -
  let ?v = "real m * 2 powi e" and ?dp = "decimal_point num den"
  have v: "real num / real den = ?v" and den: "0 < den" using frac_value [of m e] f by simp_all
  have num: "0 < num" using assms(2) f by (auto simp: GoFloat.frac_def)
  note b = decimal_point_bounds [OF num den, unfolded v]
  have e: "-1074 \<le> e" "e \<le> 971" and m: "m < 2 ^ 53" using assms(1) by (auto simp: wf64_def)
  have "(2 :: real) powi (-1074) \<le> 2 powi e" using e(1) by (intro power_int_increasing) simp_all
  also have "2 powi e \<le> ?v" using assms(2) by simp
  also have "?v < 10 powi ?dp" by (rule b)
  finally have "(2 :: real) powi (-1074) < 10 powi ?dp" .
  moreover have "(10 :: real) powi (-400) \<le> 2 powi (-1074)"
  proof -
    have "(2 :: real) ^ 1074 \<le> 2 ^ (3 * 400)" by (rule power_increasing) simp_all
    also have "\<dots> = (2 ^ 3) ^ 400" by (rule power_mult)
    also have "\<dots> \<le> 10 ^ 400" by (rule power_mono) simp_all
    finally have "inverse ((10 :: real) ^ 400) \<le> inverse (2 ^ 1074)" by (rule le_imp_inverse_le) simp
    then show ?thesis by (simp only: power_int_minus power_int_numeral)
  qed
  ultimately have "(10 :: real) powi (-400) < 10 powi ?dp" by (rule order_le_less_trans [rotated])
  then show "- 400 < ?dp" by (simp only: powi_less_iff [of 10] one_less_numeral_iff semiring_norm)
  have "10 powi (?dp - 1) \<le> ?v" by (rule b)
  also have "?v < 2 ^ 53 * 2 powi e"
  proof (rule mult_strict_right_mono)
    show "real m < 2 ^ 53" using m by simp
  qed simp
  also have "\<dots> \<le> 2 ^ 53 * 2 powi 971" using e(2) by (intro mult_left_mono power_int_increasing) (simp_all only: zero_le_power zero_le_numeral one_le_numeral)
  also have "\<dots> < (10 :: real) powi 399"
  proof -
    have "(2 :: real) ^ (53 + 971) < 2 ^ (3 * 399)" by (rule power_strict_increasing) simp_all
    also have "\<dots> = (2 ^ 3) ^ 399" by (rule power_mult)
    also have "\<dots> \<le> 10 ^ 399" by (rule power_mono) simp_all
    finally show ?thesis by (simp only: power_add power_int_numeral)
  qed
  finally have "(10 :: real) powi (?dp - 1) < 10 powi 399" .
  then have "?dp - 1 < 399" by (simp only: powi_less_iff [of 10] one_less_numeral_iff semiring_norm)
  then show "?dp < 400" by simp
qed

lemma shortest_digits_ok:
  assumes "wf64 (Fin s m e)" and "0 < m" and "shortest_digits s m e = (ds, dp)"
  shows "list_all is_digit ds" and "ds \<noteq> []" and "hd ds \<noteq> CHR ''0''" and "of_decimal s (dec_val ds) (dp - int (length ds)) = Fin s m e"
    and "\<bar>dp\<bar> < 1000"
proof -
  obtain num den where f: "GoFloat.frac m e = (num, den)" by fastforce
  obtain n c where sh: "shortest 17 (Fin s m e) s num den (decimal_point num den) 1 = (n, c)" by fastforce
  note ok = shortest_ok [OF assms(1,2) f sh]
  have ds: "ds = strip_zeros (Itoa c)" and dp: "dp = decimal_point num den + int (length (Itoa c)) - int n"
    using assms(3) f sh by (simp_all add: shortest_digits_def Let_def)
  obtain z where z: "Itoa c = ds @ replicate z CHR ''0''" using strip_zeros_append [of "Itoa c"] ds by metis
  have "list_all is_digit (ds @ replicate z CHR ''0'')" using Itoa_digits [of c] z by metis
  then show "list_all is_digit ds" by simp
  have c: "c = dec_val ds * 10 ^ z" using dec_val_Itoa [of c] unfolding z by (simp add: dec_val_append)
  then show ne: "ds \<noteq> []" using ok(4) by (auto simp: dec_val_def)
  show "hd ds \<noteq> CHR ''0''" using Itoa_hd [OF ok(4)] ne by (simp add: z)
  have len: "length (Itoa c) = length ds + z" using arg_cong [OF z, of length] by simp
  have "of_decimal s (dec_val ds) (dp - int (length ds)) = of_decimal s c (decimal_point num den - int n)"
  proof (rule of_decimal_cong)
    have "dp - int (length ds) = int z + (decimal_point num den - int n)" using len dp by simp
    then show "real (dec_val ds) * 10 powi (dp - int (length ds)) = real c * 10 powi (decimal_point num den - int n)"
      unfolding c by (simp add: power_int_add)
  qed
  with ok(1) show "of_decimal s (dec_val ds) (dp - int (length ds)) = Fin s m e" by simp
  have "10 ^ (length (Itoa c) - 1) \<le> (10 :: nat) ^ n" using Itoa_bounds(2) [OF ok(4)] ok(5) by (rule order_trans)
  then have "length (Itoa c) - 1 \<le> n" by simp
  with ok(2,3) dp decimal_point_range [OF assms(1,2) f] show "\<bar>dp\<bar> < 1000" by linarith
qed

section \<open>Reading a plain number\<close>

lemma is_digit_props: "is_digit c \<Longrightarrow> c \<noteq> CHR ''_'' \<and> c \<noteq> CHR ''.'' \<and> c \<noteq> CHR ''+'' \<and> c \<noteq> CHR ''-'' \<and> lower c = c \<and> c \<notin> set ''einxf''"
  by (auto simp: is_digit_def lower_def)

lemma hex_val_digit: "is_digit c \<Longrightarrow> hex_val c = digit_val c"
  by (simp add: hex_val_def)

lemma dec_val_Cons: "dec_val (c # cs) = digit_val c * 10 ^ length cs + dec_val cs"
  using dec_val_append [of "[c]" cs] by (simp add: dec_val_def)

lemma read_mantissa_digits:
  "list_all is_digit ds \<Longrightarrow> read_mantissa False (ds @ cs) (m, fd, dot, dg, us) =
     read_mantissa False cs (m * 10 ^ length ds + dec_val ds, if dot then fd + length ds else fd, dot, dg \<or> ds \<noteq> [], us)"
proof (induction ds arbitrary: m fd dg)
  case (Cons c ds)
  then have c: "is_digit c" by simp
  have "read_mantissa False ((c # ds) @ cs) (m, fd, dot, dg, us) =
      read_mantissa False (ds @ cs) (10 * m + digit_val c, if dot then fd + 1 else fd, dot, True, us)"
    using c is_digit_props [OF c] by (simp add: hex_val_digit)
  also have "\<dots> = read_mantissa False cs ((10 * m + digit_val c) * 10 ^ length ds + dec_val ds,
      if dot then (if dot then fd + 1 else fd) + length ds else (if dot then fd + 1 else fd), dot, True \<or> ds \<noteq> [], us)"
    using Cons by (intro Cons.IH) simp
  also have "(10 * m + digit_val c) * 10 ^ length ds + dec_val ds = m * 10 ^ length (c # ds) + dec_val (c # ds)"
    by (simp add: dec_val_Cons algebra_simps)
  finally show ?case by simp
qed (simp add: dec_val_def)

lemma read_exponent_digits:
  "list_all is_digit ds \<Longrightarrow> e * 10 ^ length ds + dec_val ds < 10000 \<Longrightarrow>
     read_exponent ds (e, us) = ([], e * 10 ^ length ds + dec_val ds, us)"
proof (induction ds arbitrary: e)
  case (Cons c ds)
  then have c: "is_digit c" by simp
  have "e \<le> e * 10 ^ length (c # ds)" by simp
  with Cons(3) have "e < 10000" by linarith
  moreover have eq: "(10 * e + digit_val c) * 10 ^ length ds + dec_val ds = e * 10 ^ length (c # ds) + dec_val (c # ds)"
    by (simp add: dec_val_Cons algebra_simps)
  moreover have "read_exponent ds (10 * e + digit_val c, us) = ([], (10 * e + digit_val c) * 10 ^ length ds + dec_val ds, us)"
    using Cons.IH [of "10 * e + digit_val c"] Cons.prems eq by simp
  ultimately show ?case using c is_digit_props [OF c] by simp
qed (simp add: dec_val_def)

text \<open>The digits before and after the point, the exponent with its text.\<close>

definition plain_text :: "bool \<Rightarrow> string \<Rightarrow> string \<Rightarrow> string \<Rightarrow> string" where
  "plain_text s A B X = (if s then ''-'' else []) @ A @ (if B = [] then [] else ''.'' @ B) @ X"

definition exponent_text :: "string \<Rightarrow> int \<Rightarrow> bool" where
  "exponent_text X ex \<longleftrightarrow> X = [] \<and> ex = 0
     \<or> (\<exists>E. E \<noteq> [] \<and> list_all is_digit E \<and> dec_val E < 10000
          \<and> (X = ''e+'' @ E \<and> ex = int (dec_val E) \<or> X = ''e-'' @ E \<and> ex = - int (dec_val E)))"

definition plain_number :: "string \<Rightarrow> string \<Rightarrow> string \<Rightarrow> int \<Rightarrow> bool" where
  "plain_number A B X ex \<longleftrightarrow> A \<noteq> [] \<and> list_all is_digit A \<and> list_all is_digit B \<and> exponent_text X ex
     \<and> (A = ''0'' \<or> hd A \<noteq> CHR ''0'')"

lemma exponent_text_hd: "exponent_text X ex \<Longrightarrow> X = [] \<or> hd X = CHR ''e''"
  by (auto simp: exponent_text_def)

lemma read_mantissa_exponent: "exponent_text X ex \<Longrightarrow> read_mantissa False X st = (X, st)"
  by (cases st) (auto simp: exponent_text_def is_digit_def)

lemma read_mantissa_plain:
  assumes "plain_number A B X ex"
  shows "read_mantissa False (A @ (if B = [] then [] else ''.'' @ B) @ X) (0, 0, False, False, False)
    = (X, dec_val (A @ B), length B, B \<noteq> [], True, False)"
proof -
  have "read_mantissa False (A @ (if B = [] then [] else ''.'' @ B) @ X) (0, 0, False, False, False)
      = read_mantissa False ((if B = [] then [] else ''.'' @ B) @ X) (dec_val A, 0, False, True, False)"
    using assms by (subst read_mantissa_digits) (simp_all add: plain_number_def)
  also have "\<dots> = (X, dec_val (A @ B), length B, B \<noteq> [], True, False)"
  proof (cases "B = []")
    case True
    then show ?thesis using assms by (simp add: plain_number_def read_mantissa_exponent [of X ex])
  next
    case False
    have "read_mantissa False (B @ X) (dec_val A, 0, True, True, False) = read_mantissa False X (dec_val A * 10 ^ length B + dec_val B, length B, True, True, False)"
      using assms by (subst read_mantissa_digits) (simp_all add: plain_number_def)
    with False assms show ?thesis by (simp add: plain_number_def read_mantissa_exponent [of X ex] dec_val_append)
  qed
  finally show ?thesis .
qed

lemma plain_no_hex:
  assumes "plain_number A B X ex"
  defines "t \<equiv> A @ (if B = [] then [] else ''.'' @ B) @ X"
  shows "\<not> (length t > 2 \<and> t ! 0 = CHR ''0'' \<and> lower (t ! 1) = CHR ''x'')"
proof -
  obtain a A' where A: "A = a # A'" using assms(1) by (cases A) (auto simp: plain_number_def)
  have "lower (t ! 1) \<noteq> CHR ''x''" if "length t > 2"
  proof (cases A')
    case (Cons b A'')
    with assms(1) A is_digit_props [of b] show ?thesis by (auto simp: t_def plain_number_def)
  next
    case Nil
    then have t1: "t ! 1 = ((if B = [] then [] else ''.'' @ B) @ X) ! 0" by (simp add: t_def A)
    show ?thesis
    proof (cases "B = []")
      case True
      then have "X \<noteq> []" using that Nil by (auto simp: t_def A)
      with True t1 exponent_text_hd [of X ex] assms(1) show ?thesis by (auto simp: plain_number_def hd_conv_nth lower_def)
    next
      case False
      with t1 have "t ! 1 = CHR ''.''" by simp
      then show ?thesis by (simp only: lower_def) simp
    qed
  qed
  then show ?thesis by blast
qed

lemma read_sign_plain:
  assumes "plain_number A B X ex"
  shows "read_sign (plain_text s A B X) = (s, A @ (if B = [] then [] else ''.'' @ B) @ X)"
proof -
  obtain a A' where A: "A = a # A'" "is_digit a" using assms by (cases A) (auto simp: plain_number_def)
  with is_digit_props [of a] show ?thesis by (simp add: plain_text_def read_sign_def)
qed

lemma read_float_plain:
  assumes "plain_number A B X ex"
  shows "read_float (plain_text s A B X) = Some (of_decimal s (dec_val (A @ B)) (ex - int (length B)))"
proof -
  have h: "(length (A @ (if B = [] then [] else ''.'' @ B) @ X) > 2 \<and> (A @ (if B = [] then [] else ''.'' @ B) @ X) ! 0 = CHR ''0''
      \<and> lower ((A @ (if B = [] then [] else ''.'' @ B) @ X) ! 1) = CHR ''x'') = False"
    using plain_no_hex [OF assms] by (rule Eq_FalseI [THEN meta_eq_to_obj_eq])
  have X: "exponent_text X ex" using assms by (simp add: plain_number_def)
  note unfolded = read_float_def read_sign_plain [OF assms] Let_def prod.case h if_False read_mantissa_plain [OF assms]
  show ?thesis
  proof (cases "X = []")
    case True
    with X have "ex = 0" by (simp add: exponent_text_def)
    with True show ?thesis unfolding unfolded by simp
  next
    case False
    with X obtain E where E: "E \<noteq> []" "list_all is_digit E" "dec_val E < 10000"
        "X = ''e+'' @ E \<and> ex = int (dec_val E) \<or> X = ''e-'' @ E \<and> ex = - int (dec_val E)"
      by (auto simp: exponent_text_def)
    then obtain d E' where d: "E = d # E'" "is_digit d" by (cases E) auto
    have r: "read_exponent (d # E') (0, False) = ([], dec_val E, False)" using read_exponent_digits [of E 0 False] E d by simp
    have e: "lower CHR ''e'' = CHR ''e''" by (simp add: lower_def)
    from E(4) show ?thesis
    proof (elim disjE conjE)
      assume X: "X = ''e+'' @ E" and ex: "ex = int (dec_val E)"
      have "read_sign (''+'' @ E) = (False, d # E')" using d by (simp add: read_sign_def)
      with d(2) e show ?thesis unfolding unfolded unfolding X ex by (simp add: r del: read_exponent.simps)
    next
      assume X: "X = ''e-'' @ E" and ex: "ex = - int (dec_val E)"
      have "read_sign (''-'' @ E) = (True, d # E')" using d by (simp add: read_sign_def)
      with d(2) e show ?thesis unfolding unfolded unfolding X ex by (simp add: r del: read_exponent.simps)
    qed
  qed
qed

lemma not_special_plain: "plain_number A B X ex \<Longrightarrow> is_special (plain_text s A B X) = None"
proof -
  assume a: "plain_number A B X ex"
  then obtain c A' where A: "A = c # A'" "is_digit c" by (cases A) (auto simp: plain_number_def)
  have "lower c = c" "c \<noteq> CHR ''i''" "c \<noteq> CHR ''n''" using is_digit_props [OF A(2)] by auto
  moreover have "lower CHR ''-'' \<noteq> CHR ''n''" by (simp add: lower_def)
  ultimately show ?thesis
    unfolding is_special_def read_sign_plain [OF a] using A by (auto simp: Let_def plain_text_def)
qed

lemma ParseFloat_plain:
  assumes "plain_number A B X ex" and "of_decimal s (dec_val (A @ B)) (ex - int (length B)) = Fin s m e"
  shows "ParseFloat (plain_text s A B X) = Some (Fin s m e)"
  by (simp add: ParseFloat_def not_special_plain [OF assms(1)] read_float_plain [OF assms(1)] assms(2))

section \<open>The two formats\<close>

lemma plain_zeros [simp]: "list_all is_digit (replicate n CHR ''0'')"
  by (induction n) simp_all

text \<open>A text of the digits \<open>ds\<close> with the decimal point at \<open>dp\<close>\<close>

definition digits_text :: "bool \<Rightarrow> string \<Rightarrow> string \<Rightarrow> int \<Rightarrow> bool" where
  "digits_text s t ds dp \<longleftrightarrow> (\<exists>A B X ex. t = plain_text s A B X \<and> plain_number A B X ex
     \<and> of_decimal s (dec_val (A @ B)) (ex - int (length B)) = of_decimal s (dec_val ds) (dp - int (length ds)))"

lemma digits_textI:
  "t = plain_text s A B X \<Longrightarrow> A \<noteq> [] \<Longrightarrow> list_all is_digit A \<Longrightarrow> list_all is_digit B \<Longrightarrow> exponent_text X ex \<Longrightarrow> A = ''0'' \<or> hd A \<noteq> CHR ''0''
   \<Longrightarrow> real (dec_val (A @ B)) * 10 powi (ex - int (length B)) = real (dec_val ds) * 10 powi (dp - int (length ds))
   \<Longrightarrow> digits_text s t ds dp"
  using of_decimal_cong unfolding digits_text_def plain_number_def by blast

lemma ParseFloat_digits:
  "digits_text s t ds dp \<Longrightarrow> of_decimal s (dec_val ds) (dp - int (length ds)) = Fin s m e \<Longrightarrow> ParseFloat t = Some (Fin s m e)"
  unfolding digits_text_def using ParseFloat_plain by metis

lemma no_exponent: "exponent_text [] 0"
  by (simp add: exponent_text_def)

lemma fmtF_digits:
  assumes "list_all is_digit ds" and "ds \<noteq> []" and "hd ds \<noteq> CHR ''0''"
  shows "digits_text s ((if s then ''-'' else []) @ fmtF ds dp) ds dp"
proof -
  consider "0 < dp" "int (length ds) \<le> dp" | "0 < dp" "dp < int (length ds)" | "dp \<le> 0" by linarith
  then show ?thesis
  proof cases
    case 1
    let ?A = "ds @ replicate (nat dp - length ds) CHR ''0''"
    have F: "fmtF ds dp = ?A" using 1 by (simp add: fmtF_def Let_def)
    have eq: "dp - int (length ds) = int (nat dp - length ds)" using 1 by simp
    have "real (dec_val (?A @ [])) * 10 powi (0 - int (length [])) = real (dec_val ds) * 10 powi (dp - int (length ds))"
      unfolding eq by (simp add: dec_val_append)
    from digits_textI [OF _ _ _ _ no_exponent _ this] show ?thesis using assms by (simp add: F plain_text_def)
  next
    case 2
    define A B where "A = take (nat dp) ds" and "B = drop (nat dp) ds"
    then have ds: "ds = A @ B" and A: "length A = nat dp" using 2 by simp_all
    have dp: "dp = int (length A)" using 2 A by simp
    have B: "0 < length B" using 2 unfolding ds dp by simp
    then have ne: "A \<noteq> []" "B \<noteq> []" using 2 unfolding dp by auto
    have F: "fmtF ds dp = A @ ''.'' @ B" using ne B unfolding fmtF_def Let_def ds dp by simp
    have "0 - int (length B) = dp - int (length ds)" unfolding ds dp by simp
    then have eq: "real (dec_val (A @ B)) * 10 powi (0 - int (length B)) = real (dec_val ds) * 10 powi (dp - int (length ds))"
      by (simp only: ds)
    have "list_all is_digit A" "list_all is_digit B" "hd A \<noteq> CHR ''0''" using assms(1,3) ne unfolding ds by simp_all
    with ne show ?thesis unfolding F by (intro digits_textI [OF _ _ _ _ no_exponent _ eq]) (simp_all add: plain_text_def)
  next
    case 3
    let ?B = "replicate (nat (- dp)) CHR ''0'' @ ds"
    have F: "fmtF ds dp = ''0'' @ ''.'' @ ?B" using 3 by (cases ds) (use assms(2) in \<open>simp_all add: fmtF_def Let_def\<close>)
    have "dec_val (''0'' @ ?B) = dec_val ds" by (simp only: dec_val_append dec_val_zeros) (simp add: dec_val_def)
    moreover have "0 - int (length ?B) = dp - int (length ds)" using 3 by simp
    ultimately have "real (dec_val (''0'' @ ?B)) * 10 powi (0 - int (length ?B)) = real (dec_val ds) * 10 powi (dp - int (length ds))"
      by (simp only:)
    from digits_textI [OF _ _ _ _ no_exponent _ this] show ?thesis using assms by (simp add: F plain_text_def)
  qed
qed

lemma exponent_digits:
  assumes "list_all is_digit ds" and "ds \<noteq> []" and "hd ds \<noteq> CHR ''0''" and X: "exponent_text X (dp - 1)"
  shows "digits_text s ((if s then ''-'' else []) @ take 1 ds @ (if length ds > 1 then ''.'' @ drop 1 ds else []) @ X) ds dp"
proof -
  obtain d ds' where ds: "ds = d # ds'" using assms(2) by (cases ds) auto
  have "dp - 1 - int (length ds') = dp - int (length ds)" by (simp add: ds)
  then have eq: "real (dec_val ([d] @ ds')) * 10 powi (dp - 1 - int (length ds')) = real (dec_val ds) * 10 powi (dp - int (length ds))"
    by (simp only:) (simp add: ds)
  show ?thesis by (rule digits_textI [OF _ _ _ _ X _ eq]) (use assms(1,3) in \<open>auto simp: plain_text_def ds\<close>)
qed

lemma fmt_exponent_text: "\<bar>ex\<bar> < 10000 \<Longrightarrow> exponent_text (''e'' @ fmt_exponent ex) ex"
proof -
  assume "\<bar>ex\<bar> < 10000"
  moreover define E where "E = (if \<bar>ex\<bar> < 10 then ''0'' else []) @ Itoa (nat \<bar>ex\<bar>)"
  moreover have "list_all is_digit E" "E \<noteq> []" by (simp_all add: E_def)
  moreover have "dec_val E = nat \<bar>ex\<bar>" by (simp add: E_def dec_val_append) (simp add: dec_val_def)
  moreover have "fmt_exponent ex = (if ex < 0 then ''-'' else ''+'') @ E" by (simp add: fmt_exponent_def E_def)
  ultimately show ?thesis unfolding exponent_text_def by (intro disjI2 exI [of _ E]) auto
qed

lemma zero_plain: "m = 0 \<Longrightarrow> wf64 (Fin s m e) \<Longrightarrow> ParseFloat ((if s then ''-'' else []) @ ''0'') = Some (Fin s m e)"
proof -
  assume "m = 0" "wf64 (Fin s m e)"
  then have "e = -1074" by (simp add: wf64_def)
  moreover have "plain_number ''0'' [] [] 0" by (simp add: plain_number_def exponent_text_def)
  moreover have "of_decimal s 0 k = Fin s 0 (-1074)" for k by (simp add: of_decimal_def round64_def)
  ultimately show ?thesis using ParseFloat_plain [of "''0''" "[]" "[]" 0 s 0 "-1074"] \<open>m = 0\<close>
    by (simp add: plain_text_def dec_val_def)
qed

text \<open>Every number is read back from its text: the finite ones exactly, zeros with their sign.\<close>

lemma ParseFloat_FormatFloat: "wf64 f \<Longrightarrow> ParseFloat (FormatFloat f) = Some f"
proof (cases f)
  case NaN
  then show ?thesis by (simp add: FormatFloat_def ParseFloat_def is_special_def read_sign_def lower_def char_of_def bit_Suc_0_iff)
next
  case (Inf s)
  then show ?thesis by (cases s) (simp_all add: FormatFloat_def ParseFloat_def is_special_def read_sign_def lower_def char_of_def bit_Suc_0_iff)
next
  case (Fin s m e)
  assume wf: "wf64 f"
  show ?thesis
  proof (cases "m = 0")
    case True
    then show ?thesis using zero_plain [of m s e] wf unfolding Fin by (simp add: FormatFloat_def)
  next
    case False
    then have m: "0 < m" by simp
    obtain ds dp where sd: "shortest_digits s m e = (ds, dp)" by fastforce
    note ok = shortest_digits_ok [OF wf [unfolded Fin] m sd]
    have X: "exponent_text (''e'' @ fmt_exponent (dp - 1)) (dp - 1)" using ok(5) by (intro fmt_exponent_text) linarith
    have "digits_text s (FormatFloat f) ds dp"
      using fmtF_digits [OF ok(1-3), of s dp] exponent_digits [OF ok(1-3) X, of s] False sd
      unfolding Fin by (simp add: FormatFloat_def fmtE_def Let_def)
    from ParseFloat_digits [OF this ok(4)] show ?thesis by (simp only: Fin)
  qed
qed

lemma ifE: "Q (if c then a else b) \<Longrightarrow> (Q a \<Longrightarrow> R) \<Longrightarrow> (Q b \<Longrightarrow> R) \<Longrightarrow> R"
  by (cases c) simp_all

lemma ilog2_int: "0 < n \<Longrightarrow> ilog2 n 1 = int (lg n)"
  using ilog2_scaled [of n 0 0] by simp

text \<open>An integer of 64 bits is a finite number, and a whole one.\<close>

lemma float64_of_int_finite:
  assumes "\<bar>i\<bar> \<le> 2 ^ 64"
  obtains m e where "float64_of_int i = Fin (i < 0) m e" and "e \<le> 13" and "0 \<le> e \<or> \<bar>i\<bar> < 2 ^ 53"
proof (cases "i = 0")
  case False
  let ?n = "nat \<bar>i\<bar>"
  have "?n \<le> nat (2 ^ 64)" using assms by (rule nat_mono)
  also have "nat (2 ^ 64) = 2 ^ 64" by (simp only: nat_power_eq zero_le_numeral nat_numeral)
  also have "(2 :: nat) ^ 64 < 2 ^ 65" by (rule power_strict_increasing) simp_all
  finally have n2: "?n < 2 ^ 65" .
  have n1: "0 < ?n" using False by simp
  note n = n1 n2
  have l: "lg ?n < 65" by (rule lg_less [OF n])
  obtain m e where me: "rnd 53 (-1074) ?n 1 = (m, e)" by fastforce
  have top: "max (-1074) (ilog2 ?n 1 - int (53 - 1)) = int (lg ?n) - 52" unfolding ilog2_int [OF n1] by simp
  have e: "e = int (lg ?n) - 52 \<or> e = int (lg ?n) - 51"
    using me unfolding rnd_near Let_def top by (elim ifE [where Q = "\<lambda>p. p = (m, e)"]) simp_all
  have "52 \<le> lg ?n" if "\<not> \<bar>i\<bar> < 2 ^ 53"
  proof (rule ccontr)
    assume "\<not> 52 \<le> lg ?n"
    then have "2 ^ Suc (lg ?n) \<le> (2 :: nat) ^ 53" by (intro power_increasing) simp_all
    with lg_bounds [OF n1, THEN conjunct2] have "?n < 2 ^ 53" by (rule order_less_le_trans)
    then have "int ?n < int (2 ^ 53)" by (simp only: of_nat_less_iff)
    with that show False by simp
  qed
  with e l me n(1) show ?thesis
    by (intro that [of m e]) (auto simp: float64_of_int_def round64_def)
qed (use that [of 0 "-1074"] in \<open>simp add: float64_of_int_def round64_def\<close>)


text \<open>Integers of 64 bits are read as the numbers nearest to them.\<close>

lemma FormatInt_plain: "FormatInt i = plain_text (i < 0) (Itoa (nat \<bar>i\<bar>)) [] []" "plain_number (Itoa (nat \<bar>i\<bar>)) [] [] 0"
proof -
  show "FormatInt i = plain_text (i < 0) (Itoa (nat \<bar>i\<bar>)) [] []" by (simp add: FormatInt_def plain_text_def)
  have "Itoa 0 = ''0''" by (subst Itoa.simps) (simp add: digit_char_def char_of_def bit_Suc_0_iff)
  then show "plain_number (Itoa (nat \<bar>i\<bar>)) [] [] 0"
    using Itoa_hd [of "nat \<bar>i\<bar>"] by (cases "i = 0") (simp_all add: plain_number_def no_exponent)
qed

lemma ParseFloat_FormatInt: "\<bar>i\<bar> \<le> 2 ^ 64 \<Longrightarrow> ParseFloat (FormatInt i) = Some (float64_of_int i)"
proof -
  assume i: "\<bar>i\<bar> \<le> 2 ^ 64"
  obtain m e where f: "float64_of_int i = Fin (i < 0) m e" using float64_of_int_finite [OF i] by blast
  have "of_decimal (i < 0) (dec_val (Itoa (nat \<bar>i\<bar>) @ [])) (0 - int (length [])) = float64_of_int i"
    by (simp add: of_decimal_def float64_of_int_def)
  from ParseFloat_plain [OF FormatInt_plain(2) this [unfolded f]] show ?thesis unfolding f FormatInt_plain(1) .
qed

end
