(* ===== verification/JsonText.thy ===== *)
theory JsonText
  imports FloatText GoJson
begin

text \<open>
  What \<^verbatim>\<open>json.Marshal\<close> writes is what \<^verbatim>\<open>json.Unmarshal\<close> reads: texts, numbers, objects and lists. An invalid byte of
  a text comes back as U+FFFD, an integer as the \<^verbatim>\<open>float64\<close> nearest to it.
\<close>

section \<open>Texts\<close>

text \<open>A text with every byte that is not part of a valid sequence replaced.\<close>

fun to_utf8 :: "nat \<Rightarrow> string \<Rightarrow> string" where
  "to_utf8 0 s = []"
| "to_utf8 (Suc fuel) s =
     (case s of
        [] \<Rightarrow> []
      | c # r \<Rightarrow> (let n = utf8_head s in if n = 0 then replacement @ to_utf8 fuel r else take n s @ to_utf8 fuel (drop n s)))"

definition valid_utf8 :: "string \<Rightarrow> bool" where
  "valid_utf8 s \<longleftrightarrow> to_utf8 (length s) s = s"

lemma utf8_head_le: "utf8_head s \<le> length s" "utf8_head s \<le> 4"
  by (auto simp: utf8_head_def split: list.split)

lemma utf8_head_take: "0 < utf8_head s \<Longrightarrow> utf8_head (take (utf8_head s) s @ rest) = utf8_head s"
proof -
  assume n: "0 < utf8_head s"
  then obtain a r where s: "s = a # r" by (cases s) (auto simp: utf8_head_def)
  consider "byte a < 128" | "194 \<le> byte a" "byte a < 224" | "224 \<le> byte a" "byte a < 240" | "240 \<le> byte a" "byte a < 245"
    using n unfolding s by (fastforce simp: utf8_head_def split: if_splits)
  then show ?thesis
  proof cases
    case 1
    then show ?thesis by (simp add: s utf8_head_def)
  next
    case 2
    with n obtain b t where r: "r = b # t" "is_cont b" by (cases r) (auto simp: s utf8_head_def split: if_splits)
    with 2 show ?thesis by (simp add: s utf8_head_def)
  next
    case 3
    with n obtain b r2 where r: "r = b # r2" by (cases r) (auto simp: s utf8_head_def)
    with 3 n obtain c t where r2: "r2 = c # t" by (cases r2) (auto simp: s utf8_head_def)
    from 3 n have "utf8_head s = 3" by (auto simp: s r r2 utf8_head_def split: if_splits)
    moreover from this 3 have "is_cont b \<and> is_cont c \<and> (byte a = 224 \<longrightarrow> 160 \<le> byte b) \<and> (byte a = 237 \<longrightarrow> byte b < 160)"
      by (simp add: s r r2 utf8_head_def split: if_splits)
    ultimately show ?thesis using 3 by (simp add: s r r2 utf8_head_def)
  next
    case 4
    with n obtain b r2 where r: "r = b # r2" by (cases r) (auto simp: s utf8_head_def)
    with 4 n obtain c r3 where r2: "r2 = c # r3" by (cases r2) (auto simp: s utf8_head_def)
    with 4 n obtain d t where r3: "r3 = d # t" by (cases r3) (auto simp: s r utf8_head_def)
    from 4 n have "utf8_head s = 4" by (auto simp: s r r2 r3 utf8_head_def split: if_splits)
    moreover from this 4 have "is_cont b \<and> is_cont c \<and> is_cont d \<and> (byte a = 240 \<longrightarrow> 144 \<le> byte b) \<and> (byte a = 244 \<longrightarrow> byte b < 144)"
      by (simp add: s r r2 r3 utf8_head_def split: if_splits)
    ultimately show ?thesis using 4 by (simp add: s r r2 r3 utf8_head_def)
  qed
qed

lemma utf8_head_one: "utf8_head (c # r) = 1 \<longleftrightarrow> byte c < 128"
  by (auto simp: utf8_head_def split: list.splits)

lemma hex_roundtrip: "n < 16 \<Longrightarrow> (is_digit (hex_digit n) \<or> is_hex_letter (hex_digit n)) \<and> hex_val (hex_digit n) = n"
proof -
  assume n: "n < 16"
  show ?thesis
  proof (cases "n < 10")
    case True
    then show ?thesis by (simp add: hex_digit_def hex_val_def)
  next
    case False
    then have b: "(of_char (hex_digit n) :: nat) = 87 + n" using n by (simp add: hex_digit_def)
    have "lower (hex_digit n) = hex_digit n" using b n False by (simp add: lower_def)
    then show ?thesis using b n False by (simp add: is_hex_letter_def hex_val_def is_digit_def)
  qed
qed

lemma read_rune_low: "n < 256 \<Longrightarrow> read_rune (''00'' @ [hex_digit (n div 16), hex_digit (n mod 16)] @ t) = Some (n, t)"
proof -
  assume n: "n < 256"
  have z: "is_digit (CHR ''0'')" "hex_val (CHR ''0'') = 0" by (simp_all add: hex_val_def)
  have "read_hex4 (''00'' @ [hex_digit (n div 16), hex_digit (n mod 16)] @ t) = Some (n, t)"
    using hex_roundtrip [of "n div 16"] hex_roundtrip [of "n mod 16"] n z by (simp add: read_hex4_def)
  with n show ?thesis by (simp add: read_rune_def)
qed

lemma string_of_rune_byte: "byte c < 128 \<Longrightarrow> string_of_rune (byte c) = [c]"
  by (simp add: string_of_rune_def byte_def)

text \<open>One step of the writer, and what the reader makes of it.\<close>

definition text_step :: "string \<Rightarrow> string" where
  "text_step s =
     (let n = utf8_head s
      in if n = 0 then [CHR 0x5C] @ ''ufffd''
         else if n = 1 then json_escape (hd s)
         else if take n s = string_of_rune 8232 then [CHR 0x5C] @ ''u2028''
         else if take n s = string_of_rune 8233 then [CHR 0x5C] @ ''u2029''
         else take n s)"

definition rune_len :: "string \<Rightarrow> nat" where
  "rune_len s = max 1 (utf8_head s)"

definition read_as :: "string \<Rightarrow> string" where
  "read_as s = (if utf8_head s = 0 then replacement else take (utf8_head s) s)"

lemma json_text_step: "s \<noteq> [] \<Longrightarrow> json_text (Suc fuel) s = text_step s @ json_text fuel (drop (rune_len s) s)"
  by (cases s) (simp_all add: text_step_def rune_len_def Let_def)

lemma to_utf8_step: "s \<noteq> [] \<Longrightarrow> to_utf8 (Suc fuel) s = read_as s @ to_utf8 fuel (drop (rune_len s) s)"
  by (cases s) (simp_all add: read_as_def rune_len_def Let_def)

lemma read_rune_const:
  "read_rune (''fffd'' @ t) = Some (65533, t)" "read_rune (''2028'' @ t) = Some (8232, t)" "read_rune (''2029'' @ t) = Some (8233, t)"
  by (simp_all add: read_rune_def read_hex4_def is_digit_def is_hex_letter_def lower_def hex_val_def digit_val_def)

lemma read_escape:
  assumes "byte c < 128"
  shows "read_text (Suc fuel) (json_escape c @ t) acc = read_text fuel t (acc @ [c])"
proof -
  have ctl: "c = char_of (byte c)" by (simp add: byte_def)
  consider "c = CHR 0x22 \<or> c = CHR 0x5C" | "byte c = 8" | "byte c = 12" | "byte c = 10" | "byte c = 13" | "byte c = 9"
    | (hex) "c \<noteq> CHR 0x22" "c \<noteq> CHR 0x5C" "byte c \<notin> {8, 12, 10, 13, 9}" "byte c < 32 \<or> c = CHR ''<'' \<or> c = CHR ''>'' \<or> c = CHR ''&''"
    | (plain) "c \<noteq> CHR 0x22" "c \<noteq> CHR 0x5C" "\<not> (byte c < 32 \<or> c = CHR ''<'' \<or> c = CHR ''>'' \<or> c = CHR ''&'')"
    by blast
  then show ?thesis
  proof cases
    case hex
    have "json_escape c = [CHR 0x5C] @ ''u00'' @ [hex_digit (byte c div 16), hex_digit (byte c mod 16)]"
      using hex by (auto simp: json_escape_def)
    moreover have "read_rune (''00'' @ [hex_digit (byte c div 16), hex_digit (byte c mod 16)] @ t) = Some (byte c, t)"
      using assms by (intro read_rune_low) simp
    ultimately show ?thesis using string_of_rune_byte [OF assms] by simp
  next
    case plain
    then have "json_escape c = [c]" by (auto simp: json_escape_def)
    with plain show ?thesis using assms utf8_head_one [of c t] by (simp add: Let_def)
  qed (use ctl in \<open>auto simp: json_escape_def byte_def\<close>)
qed

lemma read_text_step:
  assumes "s \<noteq> []"
  shows "read_text (Suc fuel) (text_step s @ t) acc = read_text fuel t (acc @ read_as s)"
proof -
  obtain c r where s: "s = c # r" using assms by (cases s) auto
  let ?n = "utf8_head s"
  consider "?n = 0" | "?n = 1" | "1 < ?n" by linarith
  then show ?thesis
  proof cases
    case 1
    then show ?thesis by (simp add: text_step_def read_as_def read_rune_const [simplified] replacement_def)
  next
    case 2
    then have "byte c < 128" using utf8_head_one [of c r] s by simp
    from read_escape [OF this] 2 show ?thesis by (simp add: text_step_def read_as_def s)
  next
    case 3
    then have c: "\<not> byte c < 128" using utf8_head_one [of c r] s by simp
    then have ne: "c \<noteq> CHR 0x22" "c \<noteq> CHR 0x5C" by (auto simp: byte_def)
    have rr: "string_of_rune 8232 = take ?n s \<longrightarrow> read_text (Suc fuel) ([CHR 0x5C] @ ''u2028'' @ t) acc = read_text fuel t (acc @ take ?n s)"
      "string_of_rune 8233 = take ?n s \<longrightarrow> read_text (Suc fuel) ([CHR 0x5C] @ ''u2029'' @ t) acc = read_text fuel t (acc @ take ?n s)"
      by (simp_all add: read_rune_const [simplified])
    have "read_text (Suc fuel) (take ?n s @ t) acc = read_text fuel t (acc @ take ?n s)"
    proof -
      have h: "utf8_head (take ?n s @ t) = ?n" using 3 by (intro utf8_head_take) simp
      have len: "length (take ?n s) = ?n" using utf8_head_le(1) [of s] by simp
      obtain u where u: "take ?n s @ t = c # u" using 3 s by (cases ?n) simp_all
      have "read_text (Suc fuel) (c # u) acc = read_text fuel (drop ?n (c # u)) (acc @ take ?n (c # u))"
        using c ne 3 h unfolding u by (simp add: Let_def)
      then show ?thesis unfolding u [symmetric] using len by simp
    qed
    with rr 3 show ?thesis by (auto simp: text_step_def read_as_def Let_def)
  qed
qed

lemma text_step_not_Nil: "s \<noteq> [] \<Longrightarrow> text_step s \<noteq> []"
  using read_text_step [of s 0 "[]" "[]"] by (cases s) (auto simp: text_step_def Let_def json_escape_def)

lemma json_text_read:
  "length s \<le> n \<Longrightarrow> length (json_text n s) < fuel \<Longrightarrow> read_text fuel (json_text n s @ CHR 0x22 # t) acc = Some (acc @ to_utf8 n s, t)"
proof (induction n arbitrary: s fuel acc)
  case (Suc n)
  show ?case
  proof (cases "s = []")
    case False
    obtain f where f: "fuel = Suc f" using Suc.prems(2) by (cases fuel) auto
    have "length (drop (rune_len s) s) \<le> n" using Suc.prems(1) False by (cases s) (auto simp: rune_len_def)
    moreover have "length (json_text n (drop (rune_len s) s)) < f"
      using Suc.prems(2) text_step_not_Nil [OF False] unfolding json_text_step [OF False] f by (cases "text_step s") auto
    ultimately have "read_text f (json_text n (drop (rune_len s) s) @ CHR 0x22 # t) (acc @ read_as s)
        = Some ((acc @ read_as s) @ to_utf8 n (drop (rune_len s) s), t)"
      by (rule Suc.IH)
    then show ?thesis unfolding json_text_step [OF False] to_utf8_step [OF False] f append_assoc read_text_step [OF False] .
  next
    case True
    with Suc.prems obtain f where "fuel = Suc f" by (cases fuel) auto
    with True show ?thesis by simp
  qed
next
  case 0
  then obtain f where "fuel = Suc f" by (cases fuel) auto
  with 0 show ?case by simp
qed

section \<open>Numbers\<close>

text \<open>What can follow a value: nothing, or the end of a member, an object or a list.\<close>

definition delim :: "string \<Rightarrow> bool" where
  "delim rest \<longleftrightarrow> rest = [] \<or> hd rest \<in> set '',]}''"

lemma delim_props: "delim (c # r) \<Longrightarrow> \<not> is_digit c \<and> c \<noteq> CHR ''.'' \<and> lower c \<noteq> CHR ''e'' \<and> \<not> is_ws c"
  by (auto simp: delim_def is_digit_def lower_def is_ws_def byte_def)

lemma split_digits_append: "list_all is_digit A \<Longrightarrow> rest = [] \<or> \<not> is_digit (hd rest) \<Longrightarrow> split_digits (A @ rest) = (A, rest)"
  by (cases rest) (simp_all add: split_digits_def takeWhile_append dropWhile_append list_all_iff)

lemma read_number_plain:
  assumes p: "plain_number A B X ex" and d: "delim rest"
  shows "read_number (plain_text s A B X @ rest) = Some (plain_text s A B X, rest)"
proof -
  let ?t = "(if B = [] then [] else ''.'' @ B) @ X @ rest"
  have A: "A \<noteq> []" "list_all is_digit A" "A = ''0'' \<or> hd A \<noteq> CHR ''0''" and B: "list_all is_digit B" and X: "exponent_text X ex"
    using p by (auto simp: plain_number_def)
  have nd: "X @ rest = [] \<or> (\<not> is_digit (hd (X @ rest)) \<and> hd (X @ rest) \<noteq> CHR ''.'')"
    using exponent_text_hd [OF X] d delim_props by (cases X; cases rest) (auto simp: is_digit_def)
  have "?t = [] \<or> \<not> is_digit (hd ?t)" using nd by (cases "B = []") (auto simp: is_digit_def)
  note sA = split_digits_append [OF A(2) this]
  have sB: "split_digits (B @ X @ rest) = (B, X @ rest)" using nd by (intro split_digits_append [OF B]) auto
  have start: "(case plain_text s A B X @ rest of c # r \<Rightarrow> if c = CHR ''-'' then (''-'', r) else ([], plain_text s A B X @ rest)
      | [] \<Rightarrow> ([], plain_text s A B X @ rest)) = (if s then ''-'' else [], A @ ?t)"
    using A(1,2) by (cases A) (auto simp: plain_text_def is_digit_def)
  have lead: "(if hd A = CHR ''0'' then (''0'', tl A @ ?t) else (A, ?t)) = (A, ?t)" using A(3) by auto
  have frac: "(case ?t of c # r \<Rightarrow> if c = CHR ''.'' then (case split_digits r of (fs, t) \<Rightarrow> if fs = [] then None else Some (''.'' @ fs, t))
        else Some ([], ?t) | [] \<Rightarrow> Some ([], ?t)) = Some (if B = [] then [] else ''.'' @ B, X @ rest)"
    using nd sB by (cases "B = []"; cases "X @ rest") auto
  have expo: "(case X @ rest of c # r \<Rightarrow>
         if lower c = CHR ''e'' then
           (let (es, t) = (case r of d # u \<Rightarrow> if d = CHR ''-'' \<or> d = CHR ''+'' then ([d], u) else ([], r) | [] \<Rightarrow> ([], r));
                (xs, v) = split_digits t
            in if xs = [] then None else Some ((if s then ''-'' else []) @ A @ (if B = [] then [] else ''.'' @ B) @ [c] @ es @ xs, v))
         else Some ((if s then ''-'' else []) @ A @ (if B = [] then [] else ''.'' @ B), X @ rest)
       | [] \<Rightarrow> Some ((if s then ''-'' else []) @ A @ (if B = [] then [] else ''.'' @ B), X @ rest))
     = Some (plain_text s A B X, rest)"
  proof (cases "X = []")
    case True
    then show ?thesis using d delim_props by (cases rest) (auto simp: plain_text_def)
  next
    case False
    with X obtain g E where E: "X = CHR ''e'' # g # E" "g = CHR ''-'' \<or> g = CHR ''+''" "E \<noteq> []" "list_all is_digit E"
      by (auto simp: exponent_text_def)
    have "split_digits (E @ rest) = (E, rest)" using d delim_props by (intro split_digits_append [OF E(4)]) (cases rest; simp)
    moreover have "lower CHR ''e'' = CHR ''e''" by (simp add: lower_def)
    ultimately show ?thesis using E(2,3) by (auto simp: E(1) plain_text_def Let_def)
  qed
  show ?thesis
    unfolding read_number_def start Let_def prod.case sA lead frac option.case if_not_P [OF A(1)]
    by (rule expo [unfolded Let_def])
qed

definition number_text :: "string \<Rightarrow> float64 \<Rightarrow> bool" where
  "number_text t f \<longleftrightarrow> (\<exists>s A B X ex. t = plain_text s A B X \<and> plain_number A B X ex) \<and> ParseFloat t = Some f"

lemma digits_number: "digits_text s t ds dp \<Longrightarrow> of_decimal s (dec_val ds) (dp - int (length ds)) = Fin s m e \<Longrightarrow> number_text t (Fin s m e)"
  using ParseFloat_digits unfolding number_text_def digits_text_def by blast

lemma json_int_number: "\<bar>i\<bar> \<le> 2 ^ 64 \<Longrightarrow> number_text (FormatInt i) (float64_of_int i)"
  using FormatInt_plain [of i] ParseFloat_FormatInt [of i] unfolding number_text_def by metis

lemma json_float_number:
  assumes "json_float f = Some t" and "wf64 f"
  shows "number_text t f"
proof -
  obtain s m e where f: "f = Fin s m e" using assms(1) by (cases f) (simp_all add: json_float_def)
  show ?thesis
  proof (cases "m = 0")
    case True
    then have "t = plain_text s ''0'' [] []" using assms(1) by (simp add: f json_float_def plain_text_def)
    moreover have "plain_number ''0'' [] [] 0" by (simp add: plain_number_def no_exponent)
    moreover have "ParseFloat t = Some f"
      using zero_plain [of m s e] True assms unfolding f by (simp add: json_float_def)
    ultimately show ?thesis unfolding number_text_def by blast
  next
    case False
    then have m: "0 < m" by simp
    obtain ds dp where sd: "shortest_digits s m e = (ds, dp)" by fastforce
    note ok = shortest_digits_ok [OF assms(2) [unfolded f] m sd]
    have "digits_text s t ds dp"
    proof -
      consider "dp < -5" | "21 < dp" | "-5 \<le> dp" "dp \<le> 21" by linarith
      then show ?thesis
      proof cases
        case 1
        let ?n = "nat (1 - dp)"
        have "exponent_text (''e-'' @ Itoa ?n) (dp - 1)"
          unfolding exponent_text_def using 1 ok(5) by (intro disjI2 exI [of _ "Itoa ?n"]) auto
        from exponent_digits [OF ok(1-3) this, of s] 1 m assms(1) sd show ?thesis
          by (simp add: f json_float_def Let_def)
      next
        case 2
        have "exponent_text (''e'' @ fmt_exponent (dp - 1)) (dp - 1)" using ok(5) by (intro fmt_exponent_text) linarith
        from exponent_digits [OF ok(1-3) this, of s] 2 m assms(1) sd show ?thesis
          by (simp add: f json_float_def Let_def fmtE_def)
      next
        case 3
        from fmtF_digits [OF ok(1-3), of s dp] 3 m assms(1) sd show ?thesis
          by (simp add: f json_float_def Let_def)
      qed
    qed
    from digits_number [OF this ok(4)] show ?thesis unfolding f .
  qed
qed

section \<open>Values\<close>

text \<open>The text of a value, with \<open>n\<close> levels of objects and lists, is read as the value.\<close>

definition reads_as :: "nat \<Rightarrow> string \<Rightarrow> any \<Rightarrow> bool" where
  "reads_as n t v \<longleftrightarrow> t \<noteq> [] \<and> \<not> is_ws (hd t) \<and> hd t \<noteq> CHR '']''
     \<and> (\<forall>fuel depth rest. 2 * length t \<le> fuel \<longrightarrow> n \<le> depth \<longrightarrow> delim rest \<longrightarrow> read_value fuel depth (t @ rest) = Some (v, rest))"

lemma reads_asD: "reads_as n t v \<Longrightarrow> 2 * length t \<le> fuel \<Longrightarrow> n \<le> depth \<Longrightarrow> delim rest \<Longrightarrow> read_value fuel depth (t @ rest) = Some (v, rest)"
  by (simp add: reads_as_def)

lemma reads_as_mono: "reads_as n t v \<Longrightarrow> n \<le> n' \<Longrightarrow> reads_as n' t v"
  by (simp add: reads_as_def)

lemma reads_asI:
  "t = c # u \<Longrightarrow> \<not> is_ws c \<Longrightarrow> c \<noteq> CHR '']''
   \<Longrightarrow> (\<And>fuel depth rest. 2 * length u < Suc fuel \<Longrightarrow> n \<le> depth \<Longrightarrow> delim rest \<Longrightarrow> read_value (Suc fuel) depth (c # u @ rest) = Some (v, rest))
   \<Longrightarrow> reads_as n t v"
proof -
  assume t: "t = c # u" "\<not> is_ws c" "c \<noteq> CHR '']''"
    and r: "\<And>fuel depth rest. 2 * length u < Suc fuel \<Longrightarrow> n \<le> depth \<Longrightarrow> delim rest \<Longrightarrow> read_value (Suc fuel) depth (c # u @ rest) = Some (v, rest)"
  have "read_value fuel depth (t @ rest) = Some (v, rest)" if "2 * length t \<le> fuel" "n \<le> depth" "delim rest" for fuel depth rest
    using that r [of "fuel - 1" depth rest] by (cases fuel) (simp_all add: t)
  with t show ?thesis by (simp add: reads_as_def)
qed

lemma Unmarshal_reads: "reads_as n t v \<Longrightarrow> n \<le> 10000 \<Longrightarrow> Unmarshal t = Some v"
  using reads_asD [of n t v "2 * length t + 1" 10000 "[]"] by (simp add: Unmarshal_def delim_def skip_ws_def)

lemma skip_ws_Cons: "\<not> is_ws c \<Longrightarrow> skip_ws (c # r) = c # r"
  by (simp add: skip_ws_def)

lemma not_ws [simp]: "\<not> is_ws CHR 0x22" "\<not> is_ws CHR '':''" "\<not> is_ws CHR '',''" "\<not> is_ws CHR ''}''" "\<not> is_ws CHR '']''"
  "\<not> is_ws CHR ''{''" "\<not> is_ws CHR ''[''" "\<not> is_ws CHR ''t''" "\<not> is_ws CHR ''f''" "\<not> is_ws CHR ''n''"
  by (simp_all add: is_ws_def byte_def)

lemma reads_nil: "reads_as 0 ''null'' AnyNil"
  by (rule reads_asI) (auto simp: read_value.simps skip_ws_Cons)

lemma reads_bool: "reads_as 0 (FormatBool b) (AnyBool b)"
  by (cases b) (simp add: FormatBool_def, rule reads_asI, auto simp: read_value.simps skip_ws_Cons)+

abbreviation utf8 :: "string \<Rightarrow> string" where "utf8 s \<equiv> to_utf8 (length s) s"

lemma read_json_string: "read_text (length (json_text (length s) s @ CHR 0x22 # t)) (json_text (length s) s @ CHR 0x22 # t) [] = Some (utf8 s, t)"
  using json_text_read [of s "length s" "length (json_text (length s) s @ CHR 0x22 # t)" t "[]"] by simp

lemma reads_string: "reads_as 0 (json_string s) (AnyString (utf8 s))"
proof (rule reads_asI)
  show "json_string s = CHR 0x22 # json_text (length s) s @ [CHR 0x22]" by (simp add: json_string_def)
next
  fix fuel depth rest
  show "read_value (Suc fuel) depth (CHR 0x22 # (json_text (length s) s @ [CHR 0x22]) @ rest) = Some (AnyString (utf8 s), rest)"
    using read_json_string [of s rest] by (simp add: read_value.simps skip_ws_Cons del: length_append)
qed simp_all

lemma reads_number: "number_text t f \<Longrightarrow> reads_as 0 t (AnyFloat f)"
proof -
  assume "number_text t f"
  then obtain s A B X ex where t: "t = plain_text s A B X" and p: "plain_number A B X ex" and f: "ParseFloat t = Some f"
    by (auto simp: number_text_def)
  from p obtain a A' where A: "A = a # A'" "is_digit a" by (cases A) (auto simp: plain_number_def)
  obtain c u where cu: "t = c # u" "c = CHR ''-'' \<or> is_digit c" using A by (cases s) (auto simp: t plain_text_def)
  then have c: "\<not> is_ws c" "c \<notin> set ''][{tfn''" "c \<noteq> CHR 0x22" by (auto simp: is_ws_def byte_def is_digit_def)
  show ?thesis
  proof (rule reads_asI [OF cu(1) c(1)])
    fix fuel depth rest
    assume "delim rest"
    from read_number_plain [OF p this, of s] have "read_number (c # u @ rest) = Some (t, rest)" using cu t by simp
    then show "read_value (Suc fuel) depth (c # u @ rest) = Some (AnyFloat f, rest)"
      using c f by (simp add: read_value.simps skip_ws_Cons)
  qed (use c in simp)
qed

lemma reads_int: "\<bar>i\<bar> \<le> 18446744073709551616 \<Longrightarrow> reads_as 0 (FormatInt i) (AnyFloat (float64_of_int i))"
  by (intro reads_number json_int_number) simp

section \<open>Objects and lists\<close>

definition joined :: "string list \<Rightarrow> string" where
  "joined xs = concat (case xs of [] \<Rightarrow> [] | x # xs \<Rightarrow> x # map (\<lambda>y. '','' @ y) xs)"

lemma joined_simps: "joined [] = []" "joined [x] = x" "joined (x # y # ys) = x @ '','' @ joined (y # ys)"
  by (simp_all add: joined_def)

lemma json_members_joined: "json_members kvs = ''{'' @ joined (map (\<lambda>(k, v). json_string k @ '':'' @ v) kvs) @ ''}''"
  by (simp add: json_members_def joined_def)

lemma json_elements_joined: "json_elements ts = ''['' @ joined ts @ '']''"
  by (simp add: json_elements_def joined_def)

definition object_of :: "any gomap \<Rightarrow> (string \<times> any) list \<Rightarrow> any gomap" where
  "object_of m kvs = foldl (\<lambda>m (k, v). AList.update (utf8 k) v m) m kvs"

lemma read_members_ok:
  assumes "kts \<noteq> []" and "list_all (\<lambda>(k, t, v). reads_as n t v) kts" and "n \<le> depth"
    and "2 * length (joined (map (\<lambda>(k, t, v). json_string k @ '':'' @ t) kts)) < fuel"
  shows "read_members fuel depth (joined (map (\<lambda>(k, t, v). json_string k @ '':'' @ t) kts) @ ''}'' @ rest) acc
    = Some (AnyObject (object_of acc (map (\<lambda>(k, t, v). (k, v)) kts)), rest)"
  using assms
proof (induction kts arbitrary: fuel acc)
  case (Cons kt kts)
  obtain k t v where kt: "kt = (k, t, v)" by (cases kt)
  with Cons.prems(2) have tv: "reads_as n t v" by simp
  let ?J = "joined (map (\<lambda>(k, t, v). json_string k @ '':'' @ t) kts)"
  obtain f where f: "fuel = Suc f" using Cons.prems(4) by (cases fuel) auto
  have step: "read_members (Suc f) depth (json_string k @ '':'' @ t @ w) acc =
      (case w of d # x \<Rightarrow> if d = CHR '','' then read_members f depth x (AList.update (utf8 k) v acc)
          else if d = CHR ''}'' then Some (AnyObject (AList.update (utf8 k) v acc), x) else None | [] \<Rightarrow> None)"
    if "delim w" "2 * length t \<le> f" for w
  proof -
    have "skip_ws w = w" using that(1) delim_props by (cases w) (auto simp: skip_ws_def)
    then show ?thesis
      using read_json_string [of k "CHR '':'' # t @ w"] reads_asD [OF tv that(2) Cons.prems(3) that(1)]
      by (simp add: read_members.simps json_string_def skip_ws_Cons del: length_append)
  qed
  show ?case
  proof (cases "kts = []")
    case True
    have "2 * length t \<le> f" using Cons.prems(4) by (simp add: True kt f joined_simps)
    then show ?thesis using step [of "''}'' @ rest"] by (simp add: True kt f joined_simps delim_def object_of_def)
  next
    case False
    then obtain kt2 kts2 where k2: "kts = kt2 # kts2" by (cases kts) auto
    have j: "joined (map (\<lambda>(k, t, v). json_string k @ '':'' @ t) (kt # kts)) = json_string k @ '':'' @ t @ '','' @ ?J"
      by (simp add: kt k2 joined_simps)
    have len: "2 * length t \<le> f" "2 * length ?J < f" using Cons.prems(4) unfolding j f by simp_all
    have IH: "read_members f depth (?J @ ''}'' @ rest) (AList.update (utf8 k) v acc)
        = Some (AnyObject (object_of (AList.update (utf8 k) v acc) (map (\<lambda>(k, t, v). (k, v)) kts)), rest)"
      using Cons.prems(2) by (intro Cons.IH [OF False _ Cons.prems(3) len(2)]) simp
    show ?thesis unfolding j f using step [of "'','' @ ?J @ ''}'' @ rest"] len IH by (simp add: kt delim_def object_of_def)
  qed
qed simp

lemma reads_members:
  assumes "list_all (\<lambda>(k, t, v). reads_as n t v) kts"
  shows "reads_as (Suc n) (json_members (map (\<lambda>(k, t, v). (k, t)) kts)) (AnyObject (object_of [] (map (\<lambda>(k, t, v). (k, v)) kts)))"
proof -
  let ?J = "joined (map (\<lambda>(k, t, v). json_string k @ '':'' @ t) kts)"
  have m: "json_members (map (\<lambda>(k, t, v). (k, t)) kts) = CHR ''{'' # ?J @ ''}''"
    by (simp add: json_members_joined comp_def split_def)
  show ?thesis
  proof (rule reads_asI [OF m])
    fix fuel depth rest
    assume a: "2 * length (?J @ ''}'') < Suc fuel" "Suc n \<le> depth" "delim rest"
    show "read_value (Suc fuel) depth (CHR ''{'' # (?J @ ''}'') @ rest) = Some (AnyObject (object_of [] (map (\<lambda>(k, t, v). (k, v)) kts)), rest)"
    proof (cases "kts = []")
      case True
      then show ?thesis using a(2) by (simp add: read_value.simps skip_ws_Cons joined_simps object_of_def)
    next
      case False
      then obtain j where j: "?J = CHR 0x22 # j"
        by (cases kts; cases "tl kts") (auto simp: joined_simps json_string_def)
      have "read_members fuel (depth - 1) (?J @ ''}'' @ rest) [] = Some (AnyObject (object_of [] (map (\<lambda>(k, t, v). (k, v)) kts)), rest)"
        using a by (intro read_members_ok [OF False assms]) auto
      then show ?thesis using a(2) unfolding j by (simp add: read_value.simps skip_ws_Cons)
    qed
  qed simp_all
qed

lemma read_elements_ok:
  assumes "tvs \<noteq> []" and "list_all (\<lambda>(t, v). reads_as n t v) tvs" and "n \<le> depth" and "2 * length (joined (map fst tvs)) < fuel"
  shows "read_elements fuel depth (joined (map fst tvs) @ '']'' @ rest) acc = Some (AnyArray (acc @ map snd tvs), rest)"
  using assms
proof (induction tvs arbitrary: fuel acc)
  case (Cons tv tvs)
  obtain t v where tv: "tv = (t, v)" by (cases tv)
  with Cons.prems(2) have r: "reads_as n t v" by simp
  obtain f where f: "fuel = Suc f" using Cons.prems(4) by (cases fuel) auto
  have step: "read_elements (Suc f) depth (t @ w) acc =
      (case w of c # x \<Rightarrow> if c = CHR '','' then read_elements f depth x (acc @ [v])
          else if c = CHR '']'' then Some (AnyArray (acc @ [v]), x) else None | [] \<Rightarrow> None)"
    if "delim w" "2 * length t \<le> f" for w
  proof -
    have "skip_ws w = w" using that(1) delim_props by (cases w) (auto simp: skip_ws_def)
    then show ?thesis using reads_asD [OF r that(2) Cons.prems(3) that(1)] by (simp add: read_elements.simps)
  qed
  show ?case
  proof (cases "tvs = []")
    case True
    have "2 * length t \<le> f" using Cons.prems(4) by (simp add: True tv f joined_simps)
    then show ?thesis using step [of "'']'' @ rest"] by (simp add: True tv f joined_simps delim_def)
  next
    case False
    then obtain tv2 tvs2 where t2: "tvs = tv2 # tvs2" by (cases tvs) auto
    have j: "joined (map fst (tv # tvs)) = t @ '','' @ joined (map fst tvs)" by (simp add: tv t2 joined_simps)
    have len: "2 * length t \<le> f" "2 * length (joined (map fst tvs)) < f" using Cons.prems(4) unfolding j f by simp_all
    have IH: "read_elements f depth (joined (map fst tvs) @ '']'' @ rest) (acc @ [v]) = Some (AnyArray ((acc @ [v]) @ map snd tvs), rest)"
      using Cons.prems(2) by (intro Cons.IH [OF False _ Cons.prems(3) len(2)]) simp
    show ?thesis unfolding j f using step [of "'','' @ joined (map fst tvs) @ '']'' @ rest"] len IH by (simp add: tv delim_def)
  qed
qed simp

lemma reads_elements:
  assumes "list_all (\<lambda>(t, v). reads_as n t v) tvs"
  shows "reads_as (Suc n) (json_elements (map fst tvs)) (AnyArray (map snd tvs))"
proof -
  let ?J = "joined (map fst tvs)"
  have m: "json_elements (map fst tvs) = CHR ''['' # ?J @ '']''" by (simp add: json_elements_joined)
  show ?thesis
  proof (rule reads_asI [OF m])
    fix fuel depth rest
    assume a: "2 * length (?J @ '']'') < Suc fuel" "Suc n \<le> depth" "delim rest"
    show "read_value (Suc fuel) depth (CHR ''['' # (?J @ '']'') @ rest) = Some (AnyArray (map snd tvs), rest)"
    proof (cases "tvs = []")
      case True
      then show ?thesis using a(2) by (simp add: read_value.simps skip_ws_Cons joined_simps)
    next
      case False
      then obtain t v tvs' where tvs: "tvs = (t, v) # tvs'" by (cases tvs) auto
      with assms have "reads_as n t v" by simp
      then obtain c j where j: "?J = c # j" "\<not> is_ws c" "c \<noteq> CHR '']''"
        unfolding tvs by (cases t; cases tvs') (auto simp: joined_simps reads_as_def)
      have "read_elements fuel (depth - 1) (?J @ '']'' @ rest) [] = Some (AnyArray ([] @ map snd tvs), rest)"
        using a by (intro read_elements_ok [OF False assms]) auto
      then show ?thesis using a(2) j(2,3) unfolding j(1) by (simp add: read_value.simps skip_ws_Cons)
    qed
  qed simp_all
qed

section \<open>Every value\<close>

text \<open>The numbers of a value are in canonical form, its integers of 64 bits.\<close>

fun any_ok :: "any \<Rightarrow> bool" where
  "any_ok (AnyInt i) \<longleftrightarrow> \<bar>i\<bar> \<le> 2 ^ 64"
| "any_ok (AnyFloat f) \<longleftrightarrow> wf64 f"
| "any_ok (AnyArray vs) \<longleftrightarrow> list_all any_ok vs"
| "any_ok (AnyObject kvs) \<longleftrightarrow> list_all (\<lambda>kv. any_ok (snd kv)) kvs"
| "any_ok _ \<longleftrightarrow> True"

text \<open>What comes back: the keys in their order, integers as numbers.\<close>

function decoded :: "any \<Rightarrow> any" where
  "decoded AnyNil = AnyNil"
| "decoded (AnyBool b) = AnyBool b"
| "decoded (AnyInt i) = AnyFloat (float64_of_int i)"
| "decoded (AnyFloat f) = AnyFloat f"
| "decoded (AnyString s) = AnyString (utf8 s)"
| "decoded (AnyArray vs) = AnyArray (map decoded vs)"
| "decoded (AnyObject kvs) = AnyObject (object_of [] (map (\<lambda>(k, v). (k, decoded v)) (sort_key fst kvs)))"
  by pat_completeness auto
termination
  by (relation "measure size") (auto simp: less_Suc_eq_le intro: size_list_estimation')

function any_depth :: "any \<Rightarrow> nat" where
  "any_depth AnyNil = 0"
| "any_depth (AnyBool b) = 0"
| "any_depth (AnyInt i) = 0"
| "any_depth (AnyFloat f) = 0"
| "any_depth (AnyString s) = 0"
| "any_depth (AnyArray vs) = Suc (Max (insert 0 (set (map any_depth vs))))"
| "any_depth (AnyObject kvs) = Suc (Max (insert 0 (set (map (\<lambda>kv. any_depth (snd kv)) kvs))))"
  by pat_completeness auto
termination
  by (relation "measure size") (auto simp: less_Suc_eq_le intro: size_list_estimation')

lemma all_some_Some: "all_some xs = Some ys \<longleftrightarrow> xs = map Some ys"
proof (induction xs arbitrary: ys rule: all_some.induct)
  case (3 x xs)
  then show ?case by (cases ys) auto
qed auto

lemma json_any_reads: "json_any v = Some t \<Longrightarrow> any_ok v \<Longrightarrow> reads_as (any_depth v) t (decoded v)"
proof (induction v arbitrary: t rule: json_any.induct)
  case (6 vs)
  then obtain ts where ts: "map json_any vs = map Some ts" and t: "t = json_elements ts"
    by (auto simp: json_any.simps all_some_Some)
  then have len: "length ts = length vs" by (metis length_map)
  let ?n = "Max (insert 0 (set (map any_depth vs)))"
  have "reads_as ?n t' (decoded v)" if "(t', v) \<in> set (zip ts vs)" for t' v
  proof -
    from that ts have "json_any v = Some t'" by (auto simp: in_set_zip) (metis nth_map)
    moreover have "v \<in> set vs" using that by (rule set_zip_rightD)
    moreover from this 6(3) have "any_ok v" by (simp add: list_all_iff)
    ultimately have "reads_as (any_depth v) t' (decoded v)" using 6(1) by blast
    then show ?thesis by (rule reads_as_mono) (use \<open>v \<in> set vs\<close> in simp)
  qed
  then have "list_all (\<lambda>(t', v). reads_as ?n t' v) (zip ts (map decoded vs))"
    by (auto simp: list_all_iff zip_map2)
  from reads_elements [OF this] len show ?case by (simp add: t)
next
  case (7 kvs)
  let ?s = "sort_key fst kvs"
  from 7(2) obtain ms where ms: "map (\<lambda>(k, v). map_option (Pair k) (json_any v)) ?s = map Some ms" and t: "t = json_members ms"
    by (auto simp: json_any.simps all_some_Some)
  then have len: "length ms = length ?s" by (metis length_map)
  let ?n = "Max (insert 0 (set (map (\<lambda>kv. any_depth (snd kv)) kvs)))"
  define kts where "kts = map2 (\<lambda>(k, v) (k', t). (k, t, decoded v)) ?s ms"
  have el: "\<exists>t. ms ! i = (fst (?s ! i), t) \<and> json_any (snd (?s ! i)) = Some t" if "i < length ?s" for i
  proof -
    have "map_option (Pair (fst (?s ! i))) (json_any (snd (?s ! i))) = Some (ms ! i)"
      using arg_cong [OF ms, of "\<lambda>xs. xs ! i"] that len by (simp add: split_def)
    then show ?thesis by auto
  qed
  have kts_len: "length kts = length ?s" using len by (simp add: kts_def)
  have kts_nth: "kts ! i = (fst (?s ! i), snd (ms ! i), decoded (snd (?s ! i)))" if "i < length ?s" for i
    using that len by (simp add: kts_def split_def)
  have el_reads: "reads_as ?n (snd (ms ! i)) (decoded (snd (?s ! i)))" if i: "i < length ?s" for i
  proof -
    obtain k v where kv: "?s ! i = (k, v)" by (cases "?s ! i")
    then have "(k, v) \<in> set ?s" using i by (metis nth_mem)
    then have mem: "(k, v) \<in> set kvs" by simp
    then have "any_ok v" using 7(3) by (auto simp: list_all_iff)
    moreover obtain t' where t': "ms ! i = (k, t')" "json_any v = Some t'" using el [OF i] kv by auto
    ultimately have "reads_as (any_depth v) t' (decoded v)" using 7(1) [of "(k, v)" k v] mem by simp
    moreover have "any_depth v \<le> ?n" using mem by (intro Max_ge) (auto intro: image_eqI [of _ _ "(k, v)"])
    ultimately show ?thesis using kv t'(1) by (simp add: reads_as_mono)
  qed
  have "list_all (\<lambda>(k, t', v). reads_as ?n t' v) kts"
    unfolding list_all_length using kts_nth el_reads kts_len by simp
  moreover have "map (\<lambda>(k, t', v). (k, t')) kts = ms"
  proof (rule nth_equalityI)
    fix i assume "i < length (map (\<lambda>(k, t', v). (k, t')) kts)"
    then have i: "i < length ?s" using kts_len by simp
    then have "fst (?s ! i) = fst (ms ! i)" using el [OF i] by auto
    then show "map (\<lambda>(k, t', v). (k, t')) kts ! i = ms ! i" using i kts_nth [OF i] kts_len by simp
  qed (use kts_len len in simp)
  moreover have "map (\<lambda>(k, t', v). (k, v)) kts = map (\<lambda>(k, v). (k, decoded v)) ?s"
    using kts_nth kts_len by (intro nth_equalityI) (simp_all add: split_def)
  ultimately show ?case using reads_members [of ?n kts] by (simp add: t)
qed (use reads_nil in \<open>auto simp: json_any.simps intro: reads_bool reads_string reads_int reads_number json_float_number\<close>)

text \<open>What is written is read again, up to ten thousand levels.\<close>

lemma Unmarshal_json: "json_any v = Some t \<Longrightarrow> any_ok v \<Longrightarrow> any_depth v \<le> 10000 \<Longrightarrow> Unmarshal t = Some (decoded v)"
  by (rule Unmarshal_reads [OF json_any_reads])

end
