(* ===== verification/Delivery.thy ===== *)
theory Delivery
  imports JsonText PublishProps
begin

text \<open>
  Values on their way through the program: a polled number becomes the text of a reading, is stored and uploaded as
  this text, read again, and written in JSON for the subscribers of the gateway and of the server and for
  ThingsBoard. What arrives is proved against what was polled.
\<close>

section \<open>Keys\<close>

lemma ascii_utf8: "list_all (\<lambda>c. byte c < 128) s \<Longrightarrow> length s \<le> n \<Longrightarrow> to_utf8 n s = s"
proof (induction n arbitrary: s)
  case (Suc n)
  then show ?case using utf8_head_one [THEN iffD2] by (cases s) (simp_all add: Let_def)
qed simp

section \<open>Texts of values\<close>

text \<open>
  The text of a value is the value. What \<^verbatim>\<open>SerializeValue\<close> writes for a boolean, or for a number of any numeric
  type, \<^verbatim>\<open>ParseValue\<close> reads as the same boolean or the same \<^verbatim>\<open>float64\<close>, bit by bit: zeros keep their sign, and
  infinities and NaN come back.
\<close>

theorem value_text_roundtrip:
  assumes "dt = DataTypeBool \<and> v = AnyBool b \<or> numeric_type dt \<and> v = AnyFloat f \<and> wf64 f"
  shows "ParseValue dt (SerializeValue dt v) = Some (if dt = DataTypeBool then (f_zero, b) else (f, False))"
  using assms
proof (elim disjE conjE)
  assume "dt = DataTypeBool" "v = AnyBool b"
  then show ?thesis by (simp add: ParseValue_def SerializeValue_def f_zero_def)
next
  assume dt: "numeric_type dt" and v: "v = AnyFloat f" "wf64 f"
  from dt have "dt \<noteq> DataTypeBool" by (auto simp: numeric_type_def DataType_defs)
  with dt v ParseFloat_FormatFloat show ?thesis by (simp add: ParseValue_def SerializeValue_def)
qed

theorem value_text_roundtrip_witness:
  "ParseValue DataTypeFloat32 (SerializeValue DataTypeFloat32 (AnyFloat (Fin True 7000000000000000 (-60))))
    = Some (Fin True 7000000000000000 (-60), False)"
  using value_text_roundtrip [of DataTypeFloat32 "AnyFloat (Fin True 7000000000000000 (-60))" False "Fin True 7000000000000000 (-60)"]
  by (simp add: numeric_type_def wf64_def DataType_defs)

section \<open>A reading in JSON\<close>

lemma update_fresh: "k \<notin> fst ` set m \<Longrightarrow> AList.update k v m = m @ [(k, v)]"
  by (induction m) auto

lemma object_of_distinct:
  assumes "distinct (map fst kvs)" and "\<forall>k \<in> set (map fst kvs). list_all (\<lambda>c. byte c < 128) k"
  shows "object_of [] kvs = kvs"
proof -
  have "object_of m kvs = m @ kvs" if "set (map fst m) \<inter> set (map fst kvs) = {}" for m
    using assms that
  proof (induction kvs arbitrary: m)
    case (Cons kv kvs)
    obtain k v where kv: "kv = (k, v)" by (cases kv)
    have "k \<notin> fst ` set m" "utf8 k = k" using Cons.prems kv ascii_utf8 [of k] by auto
    then have "object_of m (kv # kvs) = object_of (m @ [(k, v)]) kvs" by (simp add: object_of_def kv update_fresh)
    also have "\<dots> = (m @ [(k, v)]) @ kvs" using Cons.prems kv by (intro Cons.IH) auto
    finally show ?case by (simp add: kv)
  qed (simp add: object_of_def)
  from this [of "[]"] show ?thesis by simp
qed

lemma sint_64: "\<bar>sint (t :: u64)\<bar> \<le> 18446744073709551616"
  using sint_ge [of t] sint_lt [of t] by simp

definition published_object :: "Reading \<Rightarrow> any \<Rightarrow> any gomap" where
  "published_object r v =
     [(''device_name'', AnyString (utf8 (r_DeviceName r))), (''point_name'', AnyString (utf8 (r_PointName r))),
      (''data_type'', AnyString (utf8 (r_DataType r))), (''value'', v)]
     @ (if r_Unit r = [] then [] else [(''unit'', AnyString (utf8 (r_Unit r)))])
     @ [(''timestamp'', AnyFloat (float64_of_int (sint (r_Timestamp r))))]"

lemma Marshal_reads:
  assumes "Marshal_MqttReading \<lparr>mr_DeviceName = r_DeviceName r, mr_PointName = r_PointName r, mr_DataType = r_DataType r,
       mr_Value = v, mr_Unit = r_Unit r, mr_Timestamp = sint (r_Timestamp r)\<rparr> = Some payload"
    and "any_ok v"
  shows "reads_as (Suc (any_depth v)) payload (AnyObject (published_object r (decoded v)))"
proof -
  from assms(1) obtain t where t: "json_any v = Some t" by (auto simp: Marshal_MqttReading_def)
  have v: "reads_as (any_depth v) t (decoded v)" by (rule json_any_reads [OF t assms(2)])
  have s: "reads_as (any_depth v) (json_string x) (AnyString (utf8 x))" for x by (rule reads_as_mono [OF reads_string]) simp
  have i: "reads_as (any_depth v) (FormatInt (sint (r_Timestamp r))) (AnyFloat (float64_of_int (sint (r_Timestamp r))))"
    by (rule reads_as_mono [OF reads_int [OF sint_64]]) simp
  let ?kts = "[(''device_name'', json_string (r_DeviceName r), AnyString (utf8 (r_DeviceName r))),
      (''point_name'', json_string (r_PointName r), AnyString (utf8 (r_PointName r))),
      (''data_type'', json_string (r_DataType r), AnyString (utf8 (r_DataType r))), (''value'', t, decoded v)]
     @ (if r_Unit r = [] then [] else [(''unit'', json_string (r_Unit r), AnyString (utf8 (r_Unit r)))])
     @ [(''timestamp'', FormatInt (sint (r_Timestamp r)), AnyFloat (float64_of_int (sint (r_Timestamp r))))]"
  have kts: "list_all (\<lambda>(k, t', v'). reads_as (any_depth v) t' v') ?kts" using v s i by simp
  have written: "payload = json_members (map (\<lambda>(k, t, v). (k, t)) ?kts)"
    using assms(1) t by (auto simp: Marshal_MqttReading_def)
  have "object_of [] (map (\<lambda>(k, t, v). (k, v)) ?kts) = map (\<lambda>(k, t, v). (k, v)) ?kts"
    by (rule object_of_distinct) (simp_all add: byte_def)
  also have "\<dots> = published_object r (decoded v)" by (simp add: published_object_def)
  finally show ?thesis using reads_members [OF kts] written by simp
qed

section \<open>What subscribers read\<close>

lemma wf64_ParseFloat: "ParseFloat s = Some f \<Longrightarrow> wf64 f"
proof -
  assume a: "ParseFloat s = Some f"
  have "wf64 g" if "is_special s = Some g" for g
    using that by (auto simp: is_special_def Let_def wf64_def split: prod.splits if_splits)
  moreover have "wf64 g" if "read_float s = Some g" for g
  proof -
    have "wf64 (of_decimal n m k)" for n m k by (simp add: of_decimal_def wf64_round64)
    then show ?thesis using that wf64_round_scaled
      by (auto simp: read_float_def Let_def split: prod.splits if_splits option.splits)
  qed
  ultimately show ?thesis using a by (auto simp: ParseFloat_def split: option.splits float64.splits)
qed

lemma wf64_zero: "wf64 f_zero" by (simp add: f_zero_def wf64_def)

lemma typed_value_ok: "any_ok (typed_value r)" "any_depth (typed_value r) = 0"
  by (auto simp: typed_value_def wf64_ParseFloat wf64_zero split: option.split)

lemma published_reads:
  "Marshal_MqttReading (fromModelReading r) = Some payload \<Longrightarrow> reads_as 1 payload (AnyObject (published_object r (decoded (typed_value r))))"
  using Marshal_reads [of r "typed_value r" payload] typed_value_ok [of r] by (simp add: fromModelReading_def)

text \<open>
  C36. Subscribers read back what was published. When no reading of a batch is an infinity or NaN, the payload of the
  server decodes to one object for each reading, in order, and the payload of the gateway for each reading to that
  same object: its names, its type, its unit unless it is empty, its value and its time.
\<close>

theorem subscribers_read_back:
  assumes "\<forall>r \<in> set rs. \<not> not_a_number r"
  shows "(\<exists>payload. serializeReadings rs = Some payload
      \<and> Unmarshal payload = Some (AnyArray (map (\<lambda>r. AnyObject (published_object r (decoded (typed_value r)))) rs)))
    \<and> (\<forall>r \<in> set rs. \<exists>payload. Unmarshal payload = Some (AnyObject (published_object r (decoded (typed_value r))))
      \<and> (\<forall>publish p. PublishReading publish p r
          = apfst (map_option Publishing) (publish p (''device/'' @ r_DeviceName r @ ''/reading'') 1 False payload)))"
proof -
  let ?o = "\<lambda>r. AnyObject (published_object r (decoded (typed_value r)))"
  have "\<exists>t. Marshal_MqttReading (fromModelReading r) = Some t" if "r \<in> set rs" for r
    using assms that Marshal_reading_None [of r] by auto
  then obtain t where t: "\<And>r. r \<in> set rs \<Longrightarrow> Marshal_MqttReading (fromModelReading r) = Some (t r)" by metis
  have m: "map (\<lambda>r. Marshal_MqttReading (fromModelReading r)) rs = map Some (map t rs)" using t by simp
  have "all_some (map Some (map t rs)) = Some (map t rs)" by (simp only: all_some_Some)
  then have "serializeReadings rs = Some (json_elements (map t rs))" unfolding serializeReadings_eq m by simp
  moreover have "list_all (\<lambda>(t, v). reads_as 1 t v) (map (\<lambda>r. (t r, ?o r)) rs)"
    using published_reads [OF t] by (simp add: list_all_iff)
  from reads_elements [OF this] have "reads_as 2 (json_elements (map t rs)) (AnyArray (map ?o rs))"
    by (simp add: comp_def numeral_2_eq_2)
  from Unmarshal_reads [OF this] have "Unmarshal (json_elements (map t rs)) = Some (AnyArray (map ?o rs))" by simp
  moreover have "Unmarshal (t r) = Some (?o r)" if "r \<in> set rs" for r
    by (rule Unmarshal_reads [OF published_reads [OF t [OF that]]]) simp
  ultimately show ?thesis using t by (auto simp: PublishReading_def)
qed

definition polled_sample :: "float64 \<Rightarrow> Reading" where
  "polled_sample f = point_reading ClientConfig.sample_device [] (sample_point\<lparr>pt_DataType := DataTypeFloat32\<rparr>) (AnyFloat f) 7"

lemma polled_typed_value:
  "wf64 f \<Longrightarrow> numeric_type (pt_DataType point) \<Longrightarrow> typed_value (point_reading cfg h point (AnyFloat f) now) = AnyFloat f"
  using ParseFloat_FormatFloat [of f]
  by (auto simp: typed_value_def point_reading_def SerializeValue_def numeric_type_def DataType_defs)

theorem subscribers_read_back_witness:
  "\<exists>payload. serializeReadings [polled_sample (Fin False 7000000000000000 (-48))] = Some payload
     \<and> Unmarshal payload = Some (AnyArray [AnyObject (published_object (polled_sample (Fin False 7000000000000000 (-48))) (AnyFloat (Fin False 7000000000000000 (-48))))])"
proof -
  let ?f = "Fin False 7000000000000000 (-48)" let ?r = "polled_sample ?f"
  have v: "typed_value ?r = AnyFloat ?f"
    unfolding polled_sample_def by (rule polled_typed_value) (simp_all add: wf64_def numeric_type_def)
  have "json_any (typed_value ?r) \<noteq> None" by (simp only: v json_any.simps) (simp add: json_float_None finite_float_def)
  then have "\<forall>r \<in> set [?r]. \<not> not_a_number r" using json_typed_value [of ?r] by simp
  from subscribers_read_back [OF this, THEN conjunct1] v show ?thesis by simp
qed

section \<open>What ThingsBoard reads\<close>

definition tb_entry :: "int \<times> string \<times> any \<Rightarrow> any" where
  "tb_entry e =
     (case e of (ts, key, val) \<Rightarrow>
        AnyObject ((if ts = 0 then [] else [(''ts'', AnyFloat (float64_of_int ts))])
          @ [(''values'', AnyObject [(utf8 key, decoded val)])]))"

definition scalar_type :: "string \<Rightarrow> bool" where
  "scalar_type dt \<longleftrightarrow> numeric_type dt \<or> dt = DataTypeBool"

lemma sint_ok: "any_ok (AnyInt (sint (w :: u64)))"
  using sint_64 [of w] by simp

lemma parsed_scalar:
  "scalar_type (r_DataType r) \<Longrightarrow> parseReadingValue cv r = Some v \<Longrightarrow> any_ok v \<and> any_depth v = 0"
  using sint_ok wf64_ParseFloat [of "r_Value r"]
  by (auto simp: parseReadingValue_def scalar_type_def numeric_type_def ParseValue_def DataType_defs simp del: any_ok.simps(1)
      split: if_splits)

lemma Marshal_entry_reads:
  assumes "Marshal_entry (ts, key, val) = Some t" and "any_ok val" "any_depth val = 0" and "\<bar>ts\<bar> \<le> 2 ^ 64"
  shows "reads_as 2 t (tb_entry (ts, key, val))"
proof -
  from assms(1) obtain v where v: "json_any val = Some v"
    and t: "t = json_members ((if ts = 0 then [] else [(''ts'', FormatInt ts)]) @ [(''values'', json_members [(key, v)])])"
    by (auto simp: Marshal_entry_def)
  have 0: "reads_as 0 v (decoded val)" using json_any_reads [OF v assms(2)] assms(3) by simp
  have 1: "reads_as (Suc 0) (json_members [(key, v)]) (AnyObject [(utf8 key, decoded val)])"
    using reads_members [of 0 "[(key, v, decoded val)]"] 0 by (simp add: object_of_def)
  have i: "reads_as (Suc 0) (FormatInt ts) (AnyFloat (float64_of_int ts))"
    by (rule reads_as_mono [OF reads_int]) (use assms(4) in simp_all)
  let ?kts = "(if ts = 0 then [] else [(''ts'', FormatInt ts, AnyFloat (float64_of_int ts))])
      @ [(''values'', json_members [(key, v)], AnyObject [(utf8 key, decoded val)])]"
  have k: "list_all (\<lambda>(k, t, v). reads_as (Suc 0) t v) ?kts" using 1 i by simp
  have o: "object_of [] (map (\<lambda>(k, t, v). (k, v)) ?kts) = map (\<lambda>(k, t, v). (k, v)) ?kts"
    by (rule object_of_distinct) (simp_all add: byte_def)
  have "map (\<lambda>(k, t, v). (k, t)) ?kts = (if ts = 0 then [] else [(''ts'', FormatInt ts)]) @ [(''values'', json_members [(key, v)])]"
    by simp
  with reads_members [OF k] o t show ?thesis by (cases "ts = 0") (simp_all add: tb_entry_def numeral_2_eq_2)
qed

lemma format_entries_ok:
  "format_entries cv rs = Inr es \<Longrightarrow> \<forall>r \<in> set rs. scalar_type (r_DataType r)
   \<Longrightarrow> list_all (\<lambda>(ts, key, val). any_ok val \<and> any_depth val = 0 \<and> \<bar>ts\<bar> \<le> 2 ^ 64) es"
proof (induction rs arbitrary: es)
  case (Cons r rs)
  from Cons.prems(1) obtain v es' where v: "parseReadingValue cv r = Some v" and e: "format_entries cv rs = Inr es'"
    and es: "es = (sint (r_Timestamp r), if r_PointName r = [] then r_Point r else r_PointName r, v) # es'"
    by (auto simp: Let_def split: option.splits) (auto simp: map_sum_def split: sum.splits)
  from parsed_scalar [OF _ v] Cons.prems(2) Cons.IH [OF e] sint_64 show ?case by (simp add: es)
qed simp

text \<open>
  C37. ThingsBoard reads the entries of the batch. When the readings of a device are numbers or booleans and the
  formatter writes a payload, decoding this payload gives one object with the device as its key and, in order, an
  entry for each reading: its time, unless it is zero, and the value under the name of the point.
\<close>

theorem thingsboard_reads_back:
  assumes "Format cv device rs = Inr payload" and "\<forall>r \<in> set rs. scalar_type (r_DataType r)"
  shows "\<exists>es. format_entries cv rs = Inr es \<and> length es = length rs
    \<and> Unmarshal payload = Some (AnyObject [(utf8 device, AnyArray (map tb_entry es))])"
proof -
  from assms(1) obtain es ts where es: "format_entries cv rs = Inr es" and ts: "map Marshal_entry es = map Some ts"
    and payload: "payload = json_members [(device, json_elements ts)]"
    by (auto simp: Format_def all_some_Some split: if_splits sum.splits option.splits)
  have len: "length ts = length es" using ts by (metis length_map)
  have "reads_as 2 t (tb_entry e)" if "(t, e) \<in> set (zip ts es)" for t e
  proof -
    obtain ts' key val where e: "e = (ts', key, val)" by (cases e)
    have "Marshal_entry e = Some t" using that ts by (auto simp: in_set_zip) (metis nth_map)
    moreover have "e \<in> set es" using that by (rule set_zip_rightD)
    ultimately show ?thesis using format_entries_ok [OF es assms(2)] Marshal_entry_reads [of ts' key val t]
      by (auto simp: e list_all_iff)
  qed
  then have "list_all (\<lambda>(t, v). reads_as 2 t v) (zip ts (map tb_entry es))"
    by (auto simp: list_all_iff zip_map2)
  from reads_elements [OF this] have "reads_as 3 (json_elements ts) (AnyArray (map tb_entry es))"
    using len by (simp add: eval_nat_numeral)
  with reads_members [of 3 "[(device, json_elements ts, AnyArray (map tb_entry es))]"]
  have "reads_as 4 payload (AnyObject [(utf8 device, AnyArray (map tb_entry es))])"
    by (simp add: payload object_of_def eval_nat_numeral)
  from Unmarshal_reads [OF this] have "Unmarshal payload = Some (AnyObject [(utf8 device, AnyArray (map tb_entry es))])" by simp
  moreover have "length es = length rs" using es
    by (induction rs arbitrary: es) (auto simp: map_sum_def split: option.splits sum.splits)
  ultimately show ?thesis using es by simp
qed

theorem thingsboard_reads_back_witness:
  "\<exists>payload. Format (\<lambda>_. 0) ''d'' [\<lparr>r_ID = 0, r_Device = [], r_DeviceName = ''m'', r_Point = ''h'', r_PointName = [], r_DataType = DataTypeBool,
       r_Value = ''true'', r_Quality = QualityGood, r_Unit = [], r_Timestamp = 7\<rparr>] = Inr payload
     \<and> Unmarshal payload = Some (AnyObject [(''d'', AnyArray [tb_entry (7, ''h'', AnyBool True)])])"
proof -
  let ?r = "\<lparr>r_ID = 0, r_Device = [], r_DeviceName = ''m'', r_Point = ''h'', r_PointName = [], r_DataType = DataTypeBool,
       r_Value = ''true'', r_Quality = QualityGood, r_Unit = [], r_Timestamp = 7\<rparr> :: Reading"
  have e: "format_entries (\<lambda>_. 0) [?r] = Inr [(7, ''h'', AnyBool True)]" by (simp add: parseReadingValue_def Let_def)
  obtain payload where p: "Format (\<lambda>_. 0) ''d'' [?r] = Inr payload"
    using e by (simp add: Format_def Marshal_entry_def json_any.simps)
  have "to_utf8 1 ''d'' = ''d''" by (rule ascii_utf8) (simp_all add: byte_def)
  with thingsboard_reads_back [OF p] e p show ?thesis by (simp add: scalar_type_def)
qed

section \<open>A polled number\<close>

text \<open>
  C38. Where a polled number arrives unchanged. A number that was read from a device for a point of any numeric type is
  what the subscribers of both publishers get, whatever the type; ThingsBoard gets it for the two float types only:
  for an integer type the formatter cuts it to an integer, although a point of an integer type with a fractional scale
  has values between the integers.
\<close>

theorem polled_value_delivered:
  assumes "wf64 f" and "numeric_type (pt_DataType point)"
  shows "typed_value (point_reading cfg h point (AnyFloat f) now) = AnyFloat f
    \<and> parseReadingValue cv (point_reading cfg h point (AnyFloat f) now)
      = Some (if pt_DataType point = DataTypeFloat32 \<or> pt_DataType point = DataTypeFloat64 then AnyFloat f
              else AnyInt (sint (to_sint cv f)))"
proof -
  define r where "r = point_reading cfg h point (AnyFloat f) now"
  define dt where "dt = pt_DataType point"
  have dt: "dt = DataTypeFloat32 \<or> dt = DataTypeFloat64
      \<or> dt = DataTypeInt16 \<or> dt = DataTypeInt32 \<or> dt = DataTypeUint16 \<or> dt = DataTypeUint32"
    using assms(2) by (auto simp: numeric_type_def dt_def)
  then have "SerializeValue dt (AnyFloat f) = FormatFloat f" "dt \<noteq> DataTypeBool"
    using assms(2) by (simp add: SerializeValue_def dt_def, fold dt_def) (auto simp: DataType_defs)
  then have r: "r_Value r = FormatFloat f" "r_DataType r = dt" by (simp_all add: r_def dt_def point_reading_def)
  have "parseReadingValue cv r
      = Some (if dt = DataTypeFloat32 \<or> dt = DataTypeFloat64 then AnyFloat f else AnyInt (sint (to_sint cv f)))"
    using dt by (elim disjE) (simp_all add: parseReadingValue_def ParseValue_def r ParseFloat_FormatFloat [OF assms(1)] DataType_defs)
  then show ?thesis using polled_typed_value [OF assms] by (simp add: r_def dt_def)
qed

text \<open>23.4 from a point of type int16 with the scale 0.1: subscribers get 23.4, ThingsBoard gets 23.\<close>

theorem polled_value_delivered_witness:
  "typed_value (point_reading ClientConfig.sample_device [] (sample_point\<lparr>pt_DataType := DataTypeInt16\<rparr>) (AnyFloat (Fin False 6586524273069260 (-48))) 7)
     = AnyFloat (Fin False 6586524273069260 (-48))
   \<and> parseReadingValue (\<lambda>_. 0) (point_reading ClientConfig.sample_device [] (sample_point\<lparr>pt_DataType := DataTypeInt16\<rparr>) (AnyFloat (Fin False 6586524273069260 (-48))) 7)
     = Some (AnyInt 23)"
proof -
  let ?p = "sample_point\<lparr>pt_DataType := DataTypeInt16\<rparr>" let ?f = "Fin False 6586524273069260 (-48)"
  have "wf64 ?f" by (simp add: wf64_def)
  moreover have t: "pt_DataType ?p = DataTypeInt16" by simp
  moreover have "to_sint (\<lambda>_. 0) ?f = (23 :: u64)" by (simp add: to_sint_def f_trunc_def GoFloat.frac_def signed_def)
  moreover have "numeric_type DataTypeInt16" "DataTypeInt16 \<noteq> DataTypeFloat32" "DataTypeInt16 \<noteq> DataTypeFloat64"
    by (simp_all add: numeric_type_def DataType_defs)
  ultimately show ?thesis
    using polled_value_delivered [of ?f ?p ClientConfig.sample_device "[]" 7 "\<lambda>_. 0"] by (simp only: t) simp
qed

end
