(* ===== verification/MqttSim.thy ===== *)
theory MqttSim
  imports Delivery Loadgen
begin

text \<open>
  \<^verbatim>\<open>cmd/mqtt-sim/main.go\<close>: six simulated devices that publish readings to an MQTT broker. What a device calls is
  the record \<open>sim_env\<close>: the MQTT client, the clock, \<^verbatim>\<open>math.Sin\<close>, the random numbers, and what a conversion to
  \<^verbatim>\<open>int\<close> gives for a number that is out of range. \<open>'w\<close> is their state. Every operation on \<^verbatim>\<open>float64\<close> rounds, as it does
  where the compiler does not fuse a product and a sum.
\<close>

section \<open>Numbers\<close>

definition lit :: "nat \<Rightarrow> nat \<Rightarrow> float64" where \<comment> \<open>the constant with the digits \<open>c\<close>, \<open>k\<close> of them after the point\<close>
  "lit c k = of_decimal False c (- int k)"

definition f_Round :: "float64 \<Rightarrow> float64" where \<comment> \<open>\<^verbatim>\<open>math.Round\<close>: halves go away from zero\<close>
  "f_Round f =
     (case f of
        Fin s m e \<Rightarrow> if 0 \<le> e then f else round_scaled s ((2 * m + 2 ^ nat (- e)) div (2 * 2 ^ nat (- e))) 0
      | _ \<Rightarrow> f)"

definition f_Max :: "float64 \<Rightarrow> float64 \<Rightarrow> float64" where \<comment> \<open>\<^verbatim>\<open>math.Max\<close>\<close>
  "f_Max x y =
     (if x = Inf False \<or> y = Inf False then Inf False
      else if x = NaN \<or> y = NaN then NaN
      else if is_zero x \<and> is_zero y then (case x of Fin True _ _ \<Rightarrow> y | _ \<Rightarrow> x)
      else if f_less y x then x else y)"

definition roundTo :: "float64 \<Rightarrow> nat \<Rightarrow> float64" where
  "roundTo x n = (let p = lit (10 ^ n) 0 in f_div (f_Round (f_mul x p)) p)"

definition Seconds :: "int \<Rightarrow> float64" where \<comment> \<open>of a duration in nanoseconds\<close>
  "Seconds d =
     f_add (float64_of_int (sgn d * (\<bar>d\<bar> div 1000000000)))
       (f_div (float64_of_int (sgn d * (\<bar>d\<bar> mod 1000000000))) (lit 1000000000 0))"

section \<open>Devices\<close>

record sim_options =
  so_Broker :: string
  so_ClientID :: string
  so_AutoReconnect :: bool
  so_WillTopic :: string
  so_WillPayload :: string
  so_WillQos :: u8
  so_WillRetained :: bool

record 'w sim_env =
  se_Sin :: "float64 \<Rightarrow> float64"
  se_Float64 :: "'w \<Rightarrow> float64 \<times> 'w"
  se_NormFloat64 :: "'w \<Rightarrow> float64 \<times> 'w"
  se_int :: "float64 \<Rightarrow> u64"
  se_UnixMilli :: "'w \<Rightarrow> int \<times> 'w"
  se_NewClient :: "sim_options \<Rightarrow> 'w \<Rightarrow> 'w"
  se_Connect :: "'w \<Rightarrow> bool \<times> 'w"
  se_Publish :: "string \<Rightarrow> u8 \<Rightarrow> bool \<Rightarrow> string \<Rightarrow> 'w \<Rightarrow> bool \<times> 'w"
  se_Disconnect :: "'w \<Rightarrow> 'w"

record sim_point =
  sp_Name :: string
  sp_DataType :: string

text \<open>The variables that the closures of \<^verbatim>\<open>newFlow\<close> and \<^verbatim>\<open>newComplexJSON\<close> keep between two calls.\<close>

record sim_vars =
  sv_total :: float64
  sv_uptime :: float64
  sv_energy :: float64

record 'w sim_device =
  sd_SN :: string
  sd_Name :: string
  sd_Interval :: int
  sd_Points :: "sim_point list"
  sd_Read :: "'w sim_env \<Rightarrow> string \<Rightarrow> int \<Rightarrow> sim_vars \<times> 'w \<Rightarrow> any \<times> sim_vars \<times> 'w"

definition sim_int :: "'w sim_env \<Rightarrow> float64 \<Rightarrow> any" where \<comment> \<open>\<^verbatim>\<open>int(f)\<close>\<close>
  "sim_int env f = AnyInt (sint (to_sint (se_int env) f))"

definition Read_TempHum :: "'w sim_env \<Rightarrow> string \<Rightarrow> int \<Rightarrow> sim_vars \<times> 'w \<Rightarrow> any \<times> sim_vars \<times> 'w" where
  "Read_TempHum env p tk st =
     (let (vars, w) = st; t = float64_of_int tk in
      if p = ''temperature'' then
        let (n, w) = se_NormFloat64 env w
        in (AnyFloat (roundTo (f_add (f_add (lit 25 0) (f_mul (lit 8 0) (se_Sin env (f_mul t (lit 5 2))))) (f_mul n (lit 3 1))) 2), vars, w)
      else if p = ''humidity'' then
        let (n, w) = se_NormFloat64 env w
        in (AnyFloat (roundTo (f_add (f_add (lit 55 0) (f_mul (lit 15 0) (se_Sin env (f_add (f_mul t (lit 3 2)) (lit 1 0))))) n) 2), vars, w)
      else (AnyNil, vars, w))"

definition newTempHum :: "int \<Rightarrow> 'w sim_device" where
  "newTempHum interval =
     \<lparr>sd_SN = ''SENSOR-TH-001'', sd_Name = runes [0x6e29, 0x6e7f, 0x5ea6, 0x4f20, 0x611f, 0x5668], sd_Interval = interval,
      sd_Points = [\<lparr>sp_Name = ''temperature'', sp_DataType = ''float32''\<rparr>, \<lparr>sp_Name = ''humidity'', sp_DataType = ''float32''\<rparr>],
      sd_Read = Read_TempHum\<rparr>"

definition Read_Power :: "'w sim_env \<Rightarrow> string \<Rightarrow> int \<Rightarrow> sim_vars \<times> 'w \<Rightarrow> any \<times> sim_vars \<times> 'w" where
  "Read_Power env p tk st =
     (let (vars, w) = st; t = float64_of_int tk; (n, w) = se_NormFloat64 env w;
          load = f_Max f_zero (f_add (f_add (f_mul (se_Sin env (f_mul t (lit 8 2))) (lit 5 1)) (lit 5 1)) (f_mul n (lit 5 2))) in
      if p = ''voltage'' then
        let (n, w) = se_NormFloat64 env w in (AnyFloat (roundTo (f_add (lit 220 0) (f_mul n (lit 2 0))) 1), vars, w)
      else if p = ''current'' then (AnyFloat (roundTo (f_mul load (lit 50 0)) 2), vars, w)
      else if p = ''power'' then (AnyFloat (roundTo (f_mul load (lit 11 0)) 2), vars, w)
      else if p = ''frequency'' then
        let (n, w) = se_NormFloat64 env w in (AnyFloat (roundTo (f_add (lit 50 0) (f_mul n (lit 5 2))) 2), vars, w)
      else (AnyNil, vars, w))"

definition newPower :: "int \<Rightarrow> 'w sim_device" where
  "newPower interval =
     \<lparr>sd_SN = ''METER-PWR-001'', sd_Name = runes [0x7535, 0x8868], sd_Interval = interval,
      sd_Points = [\<lparr>sp_Name = ''voltage'', sp_DataType = ''float32''\<rparr>, \<lparr>sp_Name = ''current'', sp_DataType = ''float32''\<rparr>,
        \<lparr>sp_Name = ''power'', sp_DataType = ''float32''\<rparr>, \<lparr>sp_Name = ''frequency'', sp_DataType = ''float32''\<rparr>],
      sd_Read = Read_Power\<rparr>"

definition Read_Pressure :: "'w sim_env \<Rightarrow> string \<Rightarrow> int \<Rightarrow> sim_vars \<times> 'w \<Rightarrow> any \<times> sim_vars \<times> 'w" where
  "Read_Pressure env p tk st =
     (let (vars, w) = st; t = float64_of_int tk;
          base = f_add (lit 12 1) (f_mul (lit 3 1) (se_Sin env (f_mul t (lit 2 2))));
          (r, w) = se_Float64 env w;
          step = (if f_less r (lit 2 2) then lit 8 1 else f_zero);
          (n, w) = se_NormFloat64 env w
      in (AnyFloat (roundTo (f_add (f_add base step) (f_mul n (lit 2 2))) 3), vars, w))"

definition newPressure :: "int \<Rightarrow> 'w sim_device" where
  "newPressure interval =
     \<lparr>sd_SN = ''SENSOR-PRS-001'', sd_Name = runes [0x538b, 0x529b, 0x53d8, 0x9001, 0x5668], sd_Interval = interval,
      sd_Points = [\<lparr>sp_Name = ''pressure'', sp_DataType = ''float32''\<rparr>], sd_Read = Read_Pressure\<rparr>"

definition Read_Gas :: "'w sim_env \<Rightarrow> string \<Rightarrow> int \<Rightarrow> sim_vars \<times> 'w \<Rightarrow> any \<times> sim_vars \<times> 'w" where
  "Read_Gas env p tk st =
     (let (vars, w) = st; t = float64_of_int tk in
      if p = ''co2'' then
        let (n, w) = se_NormFloat64 env w
        in (sim_int env (f_add (f_add (lit 800 0) (f_mul (lit 1500 0) (f_Max f_zero (se_Sin env (f_mul t (lit 1 2)))))) (f_mul n (lit 50 0))), vars, w)
      else if p = ''smoke_alarm'' then let (r, w) = se_Float64 env w in (AnyBool (f_less r (lit 5 3)), vars, w)
      else (AnyNil, vars, w))"

definition newGas :: "int \<Rightarrow> 'w sim_device" where
  "newGas interval =
     \<lparr>sd_SN = ''SENSOR-GAS-001'', sd_Name = runes [0x6c14, 0x4f53, 0x68c0, 0x6d4b, 0x5668], sd_Interval = interval,
      sd_Points = [\<lparr>sp_Name = ''co2'', sp_DataType = ''uint16''\<rparr>, \<lparr>sp_Name = ''smoke_alarm'', sp_DataType = ''bool''\<rparr>],
      sd_Read = Read_Gas\<rparr>"

definition Read_Flow :: "float64 \<Rightarrow> 'w sim_env \<Rightarrow> string \<Rightarrow> int \<Rightarrow> sim_vars \<times> 'w \<Rightarrow> any \<times> sim_vars \<times> 'w" where
  "Read_Flow intervalSec env p tk st =
     (let (vars, w) = st; t = float64_of_int tk; (n, w) = se_NormFloat64 env w;
          rate = f_Max f_zero (f_add (f_add (lit 50 0) (f_mul (lit 30 0) (se_Sin env (f_mul t (lit 6 2))))) (f_mul n (lit 3 0)));
          vars = vars\<lparr>sv_total := f_add (sv_total vars) (f_mul (f_div rate (lit 3600 0)) intervalSec)\<rparr> in
      if p = ''flow_rate'' then (AnyFloat (roundTo rate 2), vars, w)
      else if p = ''total'' then (sim_int env (sv_total vars), vars, w)
      else (AnyNil, vars, w))"

definition newFlow :: "int \<Rightarrow> 'w sim_device" where
  "newFlow interval =
     \<lparr>sd_SN = ''SENSOR-FLW-001'', sd_Name = runes [0x6d41, 0x91cf, 0x8ba1], sd_Interval = interval,
      sd_Points = [\<lparr>sp_Name = ''flow_rate'', sp_DataType = ''float32''\<rparr>, \<lparr>sp_Name = ''total'', sp_DataType = ''uint32''\<rparr>],
      sd_Read = Read_Flow (Seconds interval)\<rparr>"

section \<open>The report of the simulated gateway\<close>

record sim_motor =
  sm_ID :: string
  sm_Status :: string
  sm_RPM :: float64
  sm_Temperature :: float64

record sim_alarm =
  al_Code :: string
  al_Msg :: string
  al_Level :: string

record sim_metrics =
  me_UptimeSeconds :: int
  me_EnergyKWh :: float64
  me_Efficiency :: float64

text \<open>\<^verbatim>\<open>json.Marshal\<close> of these structs: the fields in their order. A number that is none is an error.\<close>

definition Marshal_motor :: "sim_motor \<Rightarrow> string option" where
  "Marshal_motor m =
     (case (json_float (sm_RPM m), json_float (sm_Temperature m)) of
        (Some rpm, Some temp) \<Rightarrow> Some (json_members
          [(''id'', json_string (sm_ID m)), (''status'', json_string (sm_Status m)), (''rpm'', rpm), (''temperature'', temp)])
      | _ \<Rightarrow> None)"

definition Marshal_alarm :: "sim_alarm \<Rightarrow> string" where
  "Marshal_alarm a =
     json_members [(''code'', json_string (al_Code a)), (''msg'', json_string (al_Msg a)), (''level'', json_string (al_Level a))]"

definition Marshal_metrics :: "sim_metrics \<Rightarrow> string option" where
  "Marshal_metrics m =
     (case (json_float (me_EnergyKWh m), json_float (me_Efficiency m)) of
        (Some e, Some f) \<Rightarrow> Some (json_members
          [(''uptime_seconds'', FormatInt (me_UptimeSeconds m)), (''energy_kwh'', e), (''efficiency'', f)])
      | _ \<Rightarrow> None)"

text \<open>The keys of a map are written in order; a slice that was never appended to is \<^verbatim>\<open>null\<close>.\<close>

definition Marshal_report :: "string \<Rightarrow> sim_motor list \<Rightarrow> sim_alarm list \<Rightarrow> sim_metrics \<Rightarrow> string option" where
  "Marshal_report overall motors alarms metrics =
     (case (all_some (map Marshal_motor motors), Marshal_metrics metrics) of
        (Some ms, Some mt) \<Rightarrow> Some (json_members
          [(''alarms'', if alarms = [] then ''null'' else json_elements (map Marshal_alarm alarms)),
           (''device_id'', json_string ''GW-JSON-001''), (''metrics'', mt), (''overall_status'', json_string overall),
           (''sub_devices'', json_elements ms)])
      | _ \<Rightarrow> None)"

fun report_motors :: "'w sim_env \<Rightarrow> float64 \<Rightarrow> nat \<Rightarrow> (float64 \<times> float64) list \<Rightarrow> 'w \<Rightarrow> sim_motor list \<times> 'w" where
  "report_motors env t i [] w = ([], w)"
| "report_motors env t i ((base_rpm, base_temp) # bases) w =
     (let fi = float64_of_int (int i);
          (n, w) = se_NormFloat64 env w;
          rpm = f_Max f_zero (f_add (f_mul base_rpm (f_add (lit 5 1) (f_mul (lit 5 1)
                  (se_Sin env (f_add (f_mul t (lit 4 2)) (f_mul fi (lit 15 1))))))) (f_mul n (lit 20 0)));
          (n, w) = se_NormFloat64 env w;
          temp = f_add (f_add base_temp (f_mul (f_div rpm base_rpm) (lit 15 0))) (f_mul n (lit 15 1));
          m = \<lparr>sm_ID = ''motor-'' @ Itoa (i + 1), sm_Status = (if f_less rpm (lit 100 0) then ''idle'' else ''running''),
               sm_RPM = roundTo rpm 1, sm_Temperature = roundTo temp 1\<rparr>
      in apfst (Cons m) (report_motors env t (Suc i) bases w))"

definition Read_ComplexJSON :: "float64 \<Rightarrow> 'w sim_env \<Rightarrow> string \<Rightarrow> int \<Rightarrow> sim_vars \<times> 'w \<Rightarrow> any \<times> sim_vars \<times> 'w" where
  "Read_ComplexJSON intervalSec env p tk st =
     (let (vars, w) = st; t = float64_of_int tk;
          (motors, w) = report_motors env t 0 [(lit 1500 0, lit 60 0), (lit 1200 0, lit 55 0)] w;
          (r, w) = se_Float64 env w;
          overall = (if f_less r (lit 3 2) then ''fault'' else if f_less r (lit 10 2) then ''warning'' else ''running'');
          alarms = (if overall = ''warning'' then [\<lparr>al_Code = ''W001'', al_Msg = ''motor vibration above threshold'', al_Level = ''warning''\<rparr>] else [])
            @ (if overall = ''fault'' then [\<lparr>al_Code = ''E001'', al_Msg = ''motor over-temperature detected'', al_Level = ''critical''\<rparr>] else []);
          (n, w) = se_NormFloat64 env w;
          vars = vars\<lparr>sv_uptime := f_add (sv_uptime vars) intervalSec,
                      sv_energy := f_add (sv_energy vars) (f_add (lit 1 1) (f_mul n (lit 2 2)))\<rparr>;
          (n, w) = se_NormFloat64 env w;
          metrics = \<lparr>me_UptimeSeconds = sint (to_sint (se_int env) (sv_uptime vars)), me_EnergyKWh = roundTo (sv_energy vars) 2,
            me_Efficiency = roundTo (f_add (f_add (lit 85 2) (f_mul (lit 10 2) (se_Sin env (f_mul t (lit 2 2))))) (f_mul n (lit 1 2))) 4\<rparr>
      in (AnyString (case Marshal_report overall motors alarms metrics of Some data \<Rightarrow> data | None \<Rightarrow> []), vars, w))"

definition newComplexJSON :: "int \<Rightarrow> 'w sim_device" where
  "newComplexJSON interval =
     \<lparr>sd_SN = ''GW-JSON-001'', sd_Name = runes [0x8fb9, 0x7f18, 0x7f51, 0x5173, 0x28, 0x590d, 0x6742] @ ''JSON)'', sd_Interval = interval,
      sd_Points = [\<lparr>sp_Name = ''status_report'', sp_DataType = ''json''\<rparr>], sd_Read = Read_ComplexJSON (Seconds interval)\<rparr>"

definition initial_vars :: sim_vars where
  "initial_vars = \<lparr>sv_total = lit 124560 1, sv_uptime = lit 864000 1, sv_energy = lit 1256 1\<rparr>"

definition allDevices :: "(string \<times> (int \<Rightarrow> 'w sim_device) \<times> int) list" where
  "allDevices = [(''temp_hum'', newTempHum, 2), (''power'', newPower, 1), (''pressure'', newPressure, 3), (''gas'', newGas, 5),
     (''flow'', newFlow, 2), (''complex_json'', newComplexJSON, 5)]"

section \<open>Publishing\<close>

text \<open>A client as it runs: the world, the variables of the device, and what it has asked of the broker.\<close>

datatype sim_action = NewClient sim_options | Connect bool | PublishMsg string u8 bool string bool | Disconnect

record 'w sim_run =
  sr_world :: 'w
  sr_vars :: sim_vars
  sr_log :: "sim_action list"

definition sim_publish :: "'w sim_env \<Rightarrow> string \<Rightarrow> u8 \<Rightarrow> bool \<Rightarrow> string \<Rightarrow> 'w sim_run \<Rightarrow> bool \<times> 'w sim_run" where
  "sim_publish env topic qos retained data s =
     (let (ok, w) = se_Publish env topic qos retained data (sr_world s)
      in (ok, s\<lparr>sr_world := w, sr_log := sr_log s @ [PublishMsg topic qos retained data ok]\<rparr>))"

definition sim_now :: "'w sim_env \<Rightarrow> 'w sim_run \<Rightarrow> int \<times> 'w sim_run" where
  "sim_now env s = (let (now, w) = se_UnixMilli env (sr_world s) in (now, s\<lparr>sr_world := w\<rparr>))"

definition Marshal_readingPayload :: "any \<Rightarrow> int \<Rightarrow> string option" where
  "Marshal_readingPayload v ts = map_option (\<lambda>t. json_members [(''value'', t), (''ts'', FormatInt ts)]) (json_any v)"

definition Marshal_statusPayload :: "string \<Rightarrow> int \<Rightarrow> string" where
  "Marshal_statusPayload status ts = json_members [(''status'', json_string status), (''timestamp'', FormatInt ts)]"

definition topicReading :: "string \<Rightarrow> string \<Rightarrow> string" where
  "topicReading sn p = ''device/'' @ sn @ ''/reading/'' @ p"

definition topicStatus :: "string \<Rightarrow> string" where
  "topicStatus sn = ''device/'' @ sn @ ''/status''"

fun publish_points :: "'w sim_env \<Rightarrow> 'w sim_device \<Rightarrow> int \<Rightarrow> sim_point list \<Rightarrow> 'w sim_run \<Rightarrow> bool \<times> 'w sim_run" where
  "publish_points env d tk [] s = (True, s)"
| "publish_points env d tk (p # ps) s =
     (let (v, vars, w) = sd_Read d env (sp_Name p) tk (sr_vars s, sr_world s);
          (now, s) = sim_now env (s\<lparr>sr_vars := vars, sr_world := w\<rparr>)
      in case Marshal_readingPayload v now of
           None \<Rightarrow> (False, s)
         | Some data \<Rightarrow>
             (let (ok, s) = sim_publish env (topicReading (sd_SN d) (sp_Name p)) 0 False data s
              in if \<not> ok then (False, s) else publish_points env d tk ps s))"

definition publishReadings :: "'w sim_env \<Rightarrow> 'w sim_device \<Rightarrow> int \<Rightarrow> 'w sim_run \<Rightarrow> bool \<times> 'w sim_run" where
  "publishReadings env d tk s = publish_points env d tk (sd_Points d) s"

definition publishStatus :: "'w sim_env \<Rightarrow> string \<Rightarrow> string \<Rightarrow> 'w sim_run \<Rightarrow> 'w sim_run" where
  "publishStatus env sn status s =
     (let (now, s) = sim_now env s
      in snd (sim_publish env (topicStatus sn) 1 True (Marshal_statusPayload status now) s))"

section \<open>The life of a device\<close>

text \<open>
  \<^verbatim>\<open>runDevice\<close> between the points where it waits: for the next attempt to connect, in the loop after so many ticks,
  for the next session; or it has returned. It is woken by the context, by the loss of the connection, or by its timer.
\<close>

datatype sim_phase = Retrying int | Looping int | Pausing | Stopped

datatype sim_event = Cancelled | ConnectionLost | Elapsed

text \<open>One turn of the loop of \<^verbatim>\<open>connectWithRetry\<close>, and what \<^verbatim>\<open>runDevice\<close> does when it returns true.\<close>

definition sim_connect :: "'w sim_env \<Rightarrow> 'w sim_device \<Rightarrow> int \<Rightarrow> 'w sim_run \<Rightarrow> sim_phase \<times> 'w sim_run" where
  "sim_connect env d delay s =
     (let (ok, w) = se_Connect env (sr_world s);
          s = s\<lparr>sr_world := w, sr_log := sr_log s @ [Connect ok]\<rparr>
      in if ok then (Looping 0, publishStatus env (sd_SN d) ''online'' s) else (Retrying delay, s))"

definition start_session :: "'w sim_env \<Rightarrow> string \<Rightarrow> 'w sim_device \<Rightarrow> 'w sim_run \<Rightarrow> sim_phase \<times> 'w sim_run" where
  "start_session env brokerURL d s =
     (let (now, s) = sim_now env s;
          opts = \<lparr>so_Broker = brokerURL, so_ClientID = sd_SN d, so_AutoReconnect = False, so_WillTopic = topicStatus (sd_SN d),
                  so_WillPayload = Marshal_statusPayload ''offline'' now, so_WillQos = 1, so_WillRetained = True\<rparr>;
          s = s\<lparr>sr_world := se_NewClient env opts (sr_world s), sr_log := sr_log s @ [NewClient opts]\<rparr>
      in sim_connect env d l_Second s)"

definition sim_disconnect :: "'w sim_env \<Rightarrow> 'w sim_run \<Rightarrow> 'w sim_run" where
  "sim_disconnect env s = s\<lparr>sr_world := se_Disconnect env (sr_world s), sr_log := sr_log s @ [Disconnect]\<rparr>"

fun device_step :: "'w sim_env \<Rightarrow> string \<Rightarrow> 'w sim_device \<Rightarrow> sim_phase \<times> 'w sim_run \<Rightarrow> sim_event \<Rightarrow> sim_phase \<times> 'w sim_run" where
  "device_step env url d (Retrying delay, s) Cancelled = (Stopped, s)"
| "device_step env url d (Retrying delay, s) Elapsed = sim_connect env d (min (delay * 2) (30 * l_Second)) s"
| "device_step env url d (Looping tk, s) Cancelled =
     (Stopped, sim_disconnect env (publishStatus env (sd_SN d) ''offline'' s))"
| "device_step env url d (Looping tk, s) ConnectionLost =
     (Pausing, sim_disconnect env (publishStatus env (sd_SN d) ''offline'' s))"
| "device_step env url d (Looping tk, s) Elapsed =
     (let (ok, s) = publishReadings env d (tk + 1) s
      in if ok then (Looping (tk + 1), s) else (Pausing, sim_disconnect env s))"
| "device_step env url d (Pausing, s) Cancelled = (Stopped, s)"
| "device_step env url d (Pausing, s) Elapsed = start_session env url d s"
| "device_step env url d (ph, s) ev = (ph, s)"

definition runDevice :: "'w sim_env \<Rightarrow> string \<Rightarrow> 'w sim_device \<Rightarrow> 'w \<Rightarrow> sim_event list \<Rightarrow> sim_phase \<times> 'w sim_run" where
  "runDevice env url d w evs =
     foldl (device_step env url d) (start_session env url d \<lparr>sr_world = w, sr_vars = initial_vars, sr_log = []\<rparr>) evs"

section \<open>The command line\<close>

text \<open>\<open>order\<close> is the order in which the keys of \<^verbatim>\<open>allDevices\<close> come.\<close>

definition sim_parseArgs :: "(float64 \<Rightarrow> u64) \<Rightarrow> string list \<Rightarrow> string \<Rightarrow> float64 \<Rightarrow> string \<Rightarrow> string \<times> int \<times> string list" where
  "sim_parseArgs cv order broker intervalSec devices =
     (let host = takeWhile (\<lambda>c. c \<noteq> CHR '':'') broker;
          portStr = (if CHR '':'' \<in> set broker then tl (dropWhile (\<lambda>c. c \<noteq> CHR '':'') broker) else ''1884'')
      in (''tcp://'' @ host @ '':'' @ portStr,
          if f_less f_zero intervalSec then sint (to_sint cv (f_mul intervalSec (lit 1000000000 0))) else 0,
          if devices = ''all'' then order else map TrimSpace (Split devices CHR '','')))"

datatype 'w sim_main = UnknownDevices "string list" | RunDevices string "'w sim_device list"

definition sim_main :: "(float64 \<Rightarrow> u64) \<Rightarrow> string list \<Rightarrow> string \<Rightarrow> float64 \<Rightarrow> string \<Rightarrow> 'w sim_main" where
  "sim_main cv order broker intervalSec devices =
     (let (brokerURL, intervalOverride, selected) = sim_parseArgs cv order broker intervalSec devices;
          unknown = filter (\<lambda>k. map_of allDevices k = (None :: ((int \<Rightarrow> 'w sim_device) \<times> int) option)) selected in
      if unknown \<noteq> [] then UnknownDevices unknown
      else RunDevices brokerURL
        (map (\<lambda>key. case the (map_of allDevices key) of (factory, defaultSec) \<Rightarrow>
               factory (if 0 < intervalOverride then intervalOverride else defaultSec * l_Second)) selected))"

end
