(* ===== verification/MqttSimProps.thy ===== *)
theory MqttSimProps
  imports MqttSim
begin

text \<open>
  The simulated devices. What a device publishes is accepted by the gateway for the type of its point, with its value and
  its time; and the status of a device, which the broker retains, follows its session except after a failed publication.
\<close>

section \<open>Numbers\<close>

lemma wf64_f_div: "wf64 (f_div a b)"
  by (cases a; cases b) (auto simp: f_div_def wf64_round64, auto simp: wf64_def)

lemma wf64_roundTo [simp]: "wf64 (roundTo x n)"
  by (simp add: roundTo_def Let_def wf64_f_div)

lemma is_integral_of_int: "is_integral (float64_of_int i)"
proof (cases "i = 0")
  case False
  define n where "n = nat \<bar>i\<bar>"
  have n: "n \<noteq> 0" using False by (simp add: n_def)
  define e where "e = max (-1074) (ilog2 n 1 - 52)"
  obtain m x where r: "rnd 53 (-1074) n 1 = (m, x)" by (cases "rnd 53 (-1074) n 1")
  have "m mod 2 ^ nat (- x) = 0" if "x < 0"
  proof -
    have ee: "max (-1074) (ilog2 n 1 - int (53 - 1)) = e" by (simp add: e_def)
    have "x = e \<or> x = e + 1" using r unfolding rnd_def Let_def ee by (auto split: if_splits)
    with that have e: "e < 0" by auto
    then have z: "nat e = 0" by simp
    let ?n = "n * 2 ^ nat (- e)"
    from r have mx: "(m, x) = (if ?n = 2 ^ 53 then (2 ^ 52, e + 1) else (?n, e))"
      unfolding rnd_def Let_def ee by (auto simp: z split: if_splits)
    show ?thesis
    proof (cases "?n = 2 ^ 53")
      case True
      with mx have "m = 2 ^ 52" "x = e + 1" by simp_all
      moreover from this that e have "nat (- e) = Suc (nat (- x))" by simp
      with True have "n * 2 ^ nat (- x) = 2 ^ 52" by simp
      ultimately show ?thesis by (metis mod_mult_self2_is_0)
    qed (use mx in simp)
  qed
  then show ?thesis using n r
    by (cases "x < 0") (simp_all add: float64_of_int_def round64_def is_integral_def GoFloat.frac_def Let_def flip: n_def)
qed (simp add: f_zero_eq f_zero_def is_integral_def GoFloat.frac_def)

lemma f_less_of_int:
  assumes "0 < i" "i < j" "j < 2 ^ 53"
  shows "f_less (float64_of_int i) (float64_of_int j)"
proof -
  define a where "a = lg (nat i)"
  define b where "b = lg (nat j)"
  have i: "0 < nat i" "nat i < 2 ^ 53" and j: "0 < nat j" "nat j < 2 ^ 53" using assms by simp_all
  have a: "a \<le> 52" and b: "b \<le> 52" using lg_less [OF i] lg_less [OF j] by (simp_all add: a_def b_def)
  have "a \<le> b"
  proof -
    have "2 ^ a \<le> nat i" "nat j < 2 ^ Suc b" using lg_bounds [OF i(1)] lg_bounds [OF j(1)] by (simp_all add: a_def b_def)
    then have "(2::nat) ^ a < 2 ^ Suc b" using assms by linarith
    then show ?thesis by (simp only: power_strict_increasing_iff)
  qed
  then have x: "min (int a - 52) (int b - 52) = int a - 52" "nat (int b - int a) = b - a" by simp_all
  have e: "(2::nat) ^ (52 - a) = 2 ^ (52 - b) * 2 ^ (b - a)" using \<open>a \<le> b\<close> a b by (simp flip: power_add)
  have "nat i * 2 ^ (52 - a) < nat j * (2 ^ (52 - b) * 2 ^ (b - a))" using assms by (simp flip: e)
  moreover have "float64_of_int i = Fin False (nat i * 2 ^ (52 - a)) (int a - 52)" "float64_of_int j = Fin False (nat j * 2 ^ (52 - b)) (int b - 52)"
    using round64_int [OF i, of False] round64_int [OF j, of False] assms by (simp_all add: float64_of_int_def a_def b_def)
  ultimately show ?thesis by (simp add: f_less_def x signed_def del: of_nat_mult of_nat_power)
qed

section \<open>The values of the devices\<close>

definition fits :: "string \<Rightarrow> any \<Rightarrow> bool" where
  "fits dt v =
     (case v of
        AnyFloat f \<Rightarrow> wf64 f \<and> dt = DataTypeFloat32
      | AnyInt i \<Rightarrow> \<bar>i\<bar> \<le> 2 ^ 64 \<and> (dt = DataTypeUint16 \<or> dt = DataTypeUint32)
      | AnyBool b \<Rightarrow> dt = DataTypeBool
      | AnyString s \<Rightarrow> dt = DataTypeJSON
      | _ \<Rightarrow> False)"

lemma fits_float [simp]: "wf64 f \<Longrightarrow> fits ''float32'' (AnyFloat f)"
  and fits_int [simp]: "fits ''uint16'' (sim_int env f)" "fits ''uint32'' (sim_int env f)"
  and fits_bool [simp]: "fits ''bool'' (AnyBool b)"
  and fits_string [simp]: "fits ''json'' (AnyString s)"
  using sint_64 [of "to_sint (se_int env) f"] by (simp_all add: fits_def sim_int_def DataType_defs)

lemma sim_value_fits:
  assumes "(key, factory, sec) \<in> set allDevices" and "p \<in> set (sd_Points (factory interval))"
  shows "fits (sp_DataType p) (fst (sd_Read (factory interval) env (sp_Name p) tk st))"
proof -
  obtain vars w where st: "st = (vars, w)" by (cases st)
  from assms(1) consider "factory = newTempHum" | "factory = newPower" | "factory = newPressure" | "factory = newGas"
    | "factory = newFlow" | "factory = newComplexJSON"
    by (auto simp: allDevices_def)
  then show ?thesis
  proof cases
    case 1
    with assms(2) show ?thesis by (auto simp: newTempHum_def Read_TempHum_def st Let_def split: prod.split)
  next
    case 2
    with assms(2) show ?thesis by (auto simp: newPower_def Read_Power_def st Let_def split: prod.split)
  next
    case 3
    with assms(2) show ?thesis by (auto simp: newPressure_def Read_Pressure_def st Let_def split: prod.split)
  next
    case 4
    with assms(2) show ?thesis by (auto simp: newGas_def Read_Gas_def st Let_def split: prod.split)
  next
    case 5
    with assms(2) show ?thesis by (auto simp: newFlow_def Read_Flow_def st Let_def split: prod.split)
  next
    case 6
    with assms(2) show ?thesis by (auto simp: newComplexJSON_def Read_ComplexJSON_def st Let_def split: prod.split)
  qed
qed

section \<open>A message at the gateway\<close>

definition value_source :: sourceFormat where \<comment> \<open>of \<^verbatim>\<open>json:value\<close>\<close>
  "value_source = \<lparr>sf_format = ''json'', sf_path = ''value''\<rparr>"

lemma parseSource_value: "parseSource ''json:value'' = Inr value_source"
  by (simp add: parseSource_def HasPrefix_def value_source_def)

lemma payload_reads:
  assumes "Marshal_readingPayload v ts = Some data" and "fits dt v" and "\<bar>ts\<bar> \<le> 2 ^ 64"
  shows "Unmarshal data = Some (AnyObject [(''value'', decoded v), (''ts'', AnyFloat (float64_of_int ts))])"
proof -
  from assms(1) obtain t where t: "json_any v = Some t" and data: "data = json_members [(''value'', t), (''ts'', FormatInt ts)]"
    by (auto simp: Marshal_readingPayload_def)
  have "any_ok v" "any_depth v = 0" using assms(2) by (cases v; simp add: fits_def)+
  with json_any_reads [OF t] have v: "reads_as 0 t (decoded v)" by simp
  let ?kts = "[(''value'', t, decoded v), (''ts'', FormatInt ts, AnyFloat (float64_of_int ts))]"
  have k: "list_all (\<lambda>(k, t, v). reads_as 0 t v) ?kts" using v reads_int assms(3) by simp
  have o: "object_of [] (map (\<lambda>(k, t, v). (k, v)) ?kts) = map (\<lambda>(k, t, v). (k, v)) ?kts"
    by (rule object_of_distinct) (simp_all add: byte_def)
  have "reads_as 1 data (AnyObject (map (\<lambda>(k, t, v). (k, v)) ?kts))"
    using reads_members [OF k] unfolding o by (simp add: data)
  from Unmarshal_reads [OF this] show ?thesis by simp
qed

lemma fits_checkDataType: "fits dt v \<Longrightarrow> checkDataType (decoded v) dt"
  using is_integral_of_int by (cases v) (auto simp: fits_def checkDataType_def DataType_defs)

lemma detectTimestamp_milli:
  assumes "10 ^ 12 < ts" "ts < 2 ^ 53"
  shows "detectTimestamp time_Parse cv (AnyFloat (float64_of_int ts)) = Inr (word_of_int ts)"
proof -
  have "f_less (float64_of_int (10 ^ 12)) (float64_of_int ts)" using assms by (intro f_less_of_int) simp_all
  moreover have "to_sint cv (float64_of_int ts) = (word_of_int ts :: u64)" using assms by (intro to_sint_of_int) simp_all
  ultimately show ?thesis unfolding detectTimestamp_def by simp
qed

lemma payload_handled:
  assumes "Marshal_readingPayload v ts = Some data" and "fits (tp_DataType tc) v" and "10 ^ 12 < ts" "ts < 2 ^ 53"
  shows "handleMqttReading time_Parse cv now data hashes tc dev value_source =
     Inr \<lparr>r_ID = 0, r_Device = map_get [] hashes dev, r_DeviceName = dev, r_Point = HashPoint dev (tp_PointName tc),
       r_PointName = tp_PointName tc, r_DataType = tp_DataType tc, r_Value = SerializeValue (tp_DataType tc) (decoded v),
       r_Quality = QualityGood, r_Unit = tp_Unit tc, r_Timestamp = word_of_int ts\<rparr>"
proof -
  have u: "Unmarshal data = Some (AnyObject [(''value'', decoded v), (''ts'', AnyFloat (float64_of_int ts))])"
    using assms(3,4) by (intro payload_reads [OF assms(1,2)]) simp
  have "extractValue value_source data = Inr (decoded v)"
    by (simp add: extractValue_def extractJSONValue_def value_source_def u)
  moreover have "extractTimestamp time_Parse cv value_source data = Inr (word_of_int ts)"
    using detectTimestamp_milli [OF assms(3,4)] by (simp add: extractTimestamp_def extractJSONTimestamp_def value_source_def u)
  moreover have "(word_of_int ts :: u64) \<noteq> 0"
  proof
    assume "(word_of_int ts :: u64) = 0"
    then have "uint (word_of_int ts :: u64) = 0" by simp
    moreover have "uint (word_of_int ts :: u64) = ts" using assms(3,4) by (intro uint_of_int) simp_all
    ultimately show False using assms(3) by simp
  qed
  ultimately show ?thesis using fits_checkDataType [OF assms(2)] by (simp add: handleMqttReading_def)
qed

section \<open>What a device publishes\<close>

abbreviation reading_msg :: "'w sim_device \<Rightarrow> sim_point \<times> string \<times> bool \<Rightarrow> sim_action" where
  "reading_msg d m \<equiv> (case m of (p, data, sent) \<Rightarrow> PublishMsg (topicReading (sd_SN d) (sp_Name p)) 0 False data sent)"

lemma publish_points_log:
  assumes "publish_points env d tk ps s = (ok, s')"
  shows "\<exists>msgs. sr_log s' = sr_log s @ map (reading_msg d) msgs
    \<and> map fst msgs = take (length msgs) ps \<and> (ok \<longrightarrow> map fst msgs = ps)
    \<and> (\<forall>(p, data, sent) \<in> set msgs. \<exists>st w.
         Marshal_readingPayload (fst (sd_Read d env (sp_Name p) tk st)) (fst (se_UnixMilli env w)) = Some data)"
  using assms
proof (induction ps arbitrary: s)
  case (Cons p ps)
  obtain v vars w where v: "sd_Read d env (sp_Name p) tk (sr_vars s, sr_world s) = (v, vars, w)" by (metis surj_pair)
  obtain now w' where now: "se_UnixMilli env w = (now, w')" by (metis surj_pair)
  let ?s = "s\<lparr>sr_vars := vars, sr_world := w'\<rparr>"
  show ?case
  proof (cases "Marshal_readingPayload v now")
    case None
    with Cons.prems v now have "\<not> ok" "s' = ?s" by (simp_all add: sim_now_def)
    then show ?thesis by (intro exI [of _ "[]"]) simp
  next
    case (Some data)
    have m: "Marshal_readingPayload (fst (sd_Read d env (sp_Name p) tk (sr_vars s, sr_world s))) (fst (se_UnixMilli env w)) = Some data"
      using v now Some by simp
    obtain sent w'' where p: "se_Publish env (topicReading (sd_SN d) (sp_Name p)) 0 False data w' = (sent, w'')" by (metis surj_pair)
    let ?s' = "?s\<lparr>sr_world := w'', sr_log := sr_log s @ [reading_msg d (p, data, sent)]\<rparr>"
    have r: "(if \<not> sent then (False, ?s') else publish_points env d tk ps ?s') = (ok, s')"
      using Cons.prems v now Some p by (cases sent) (simp_all add: sim_now_def sim_publish_def)
    show ?thesis
    proof (cases sent)
      case False
      with r show ?thesis using m by (intro exI [of _ "[(p, data, sent)]"]) auto
    next
      case True
      with r have "publish_points env d tk ps ?s' = (ok, s')" by simp
      from Cons.IH [OF this] obtain msgs where
        "sr_log s' = sr_log s @ map (reading_msg d) ((p, data, sent) # msgs)"
        "map fst msgs = take (length msgs) ps" "ok \<longrightarrow> map fst msgs = ps"
        "\<forall>(p, data, sent) \<in> set msgs. \<exists>st w.
           Marshal_readingPayload (fst (sd_Read d env (sp_Name p) tk st)) (fst (se_UnixMilli env w)) = Some data"
        by auto
      with m show ?thesis by (intro exI [of _ "(p, data, sent) # msgs"]) auto
    qed
  qed
qed simp

text \<open>What a message about a point is to a topic that is configured for the type of the point: a reading with the value that
the device gave for it and with the time of the clock.\<close>

definition taken_by_gateway :: "'w sim_env \<Rightarrow> 'w sim_device \<Rightarrow> int \<Rightarrow> sim_point \<Rightarrow> string \<Rightarrow> bool" where
  "taken_by_gateway env d tk p data \<longleftrightarrow>
     (\<exists>st w. \<forall>time_Parse cv now hashes tc dev sf.
        tp_DataType tc = sp_DataType p \<and> tp_Source tc = ''json:value'' \<and> parseSource (tp_Source tc) = Inr sf \<longrightarrow>
        handleMqttReading time_Parse cv now data hashes tc dev sf = Inr \<lparr>r_ID = 0, r_Device = map_get [] hashes dev,
          r_DeviceName = dev, r_Point = HashPoint dev (tp_PointName tc), r_PointName = tp_PointName tc, r_DataType = sp_DataType p,
          r_Value = SerializeValue (sp_DataType p) (decoded (fst (sd_Read d env (sp_Name p) tk st))),
          r_Quality = QualityGood, r_Unit = tp_Unit tc, r_Timestamp = word_of_int (fst (se_UnixMilli env w))\<rparr>)"

text \<open>
  C39. The gateway takes what a simulated device publishes. In a tick a device of any kind publishes its points in order, all of
  them unless an attempt fails, each on its own topic; and the gateway, with a topic configured for the type of the
  point and the source \<^verbatim>\<open>json:value\<close>, makes of the message a reading with the value that the device gave and with its time,
  whatever the random numbers are. (The clock is between 2001 and the year 287396.)
\<close>

theorem sim_readings_reach_gateway:
  assumes "(key, factory, sec) \<in> set allDevices" and "publishReadings env (factory interval) tk s = (ok, s')"
    and "\<forall>w. 10 ^ 12 < fst (se_UnixMilli env w) \<and> fst (se_UnixMilli env w) < 2 ^ 53"
  shows "\<exists>msgs. sr_log s' = sr_log s @ map (reading_msg (factory interval)) msgs
    \<and> map fst msgs = take (length msgs) (sd_Points (factory interval))
    \<and> (ok \<longrightarrow> map fst msgs = sd_Points (factory interval))
    \<and> (\<forall>(p, data, sent) \<in> set msgs. taken_by_gateway env (factory interval) tk p data)"
proof -
  let ?d = "factory interval"
  from publish_points_log [OF assms(2) [unfolded publishReadings_def]] obtain msgs where
    l: "sr_log s' = sr_log s @ map (reading_msg ?d) msgs" "map fst msgs = take (length msgs) (sd_Points ?d)"
      "ok \<longrightarrow> map fst msgs = sd_Points ?d"
    and m: "\<And>p data sent. (p, data, sent) \<in> set msgs \<Longrightarrow> \<exists>st w.
       Marshal_readingPayload (fst (sd_Read ?d env (sp_Name p) tk st)) (fst (se_UnixMilli env w)) = Some data"
    by fast
  have "taken_by_gateway env ?d tk p data"
    if pm: "(p, data, sent) \<in> set msgs" for p data sent
  proof -
    from m [OF pm] obtain st w where
      data: "Marshal_readingPayload (fst (sd_Read ?d env (sp_Name p) tk st)) (fst (se_UnixMilli env w)) = Some data" by blast
    have "p \<in> fst ` set msgs" using pm by force
    then have "p \<in> set (sd_Points ?d)" using l(2) by (metis list.set_map set_take_subset subsetD)
    from sim_value_fits [OF assms(1) this]
    have f: "fits (sp_DataType p) (fst (sd_Read ?d env (sp_Name p) tk st))" .
    show ?thesis unfolding taken_by_gateway_def
    proof (intro exI [of _ st] exI [of _ w] allI impI, elim conjE)
      fix time_Parse cv now hashes and tc :: TopicConfig and dev sf
      assume tc: "tp_DataType tc = sp_DataType p" "tp_Source tc = ''json:value''" "parseSource (tp_Source tc) = Inr sf"
      then have "sf = value_source" using parseSource_value by simp
      with payload_handled [OF data, of tc time_Parse cv now hashes dev] f tc(1) assms(3)
      show "handleMqttReading time_Parse cv now data hashes tc dev sf = Inr \<lparr>r_ID = 0, r_Device = map_get [] hashes dev,
           r_DeviceName = dev, r_Point = HashPoint dev (tp_PointName tc), r_PointName = tp_PointName tc, r_DataType = sp_DataType p,
           r_Value = SerializeValue (sp_DataType p) (decoded (fst (sd_Read ?d env (sp_Name p) tk st))),
           r_Quality = QualityGood, r_Unit = tp_Unit tc, r_Timestamp = word_of_int (fst (se_UnixMilli env w))\<rparr>"
        by simp
    qed
  qed
  with l show ?thesis by (intro exI [of _ msgs]) fast
qed

definition sim_world :: "bool \<Rightarrow> unit sim_env" where \<comment> \<open>a broker that takes readings, or only retained messages\<close>
  "sim_world takes =
     \<lparr>se_Sin = (\<lambda>x. f_zero), se_Float64 = (\<lambda>w. (f_one, w)), se_NormFloat64 = (\<lambda>w. (f_zero, w)), se_int = (\<lambda>_. 0),
      se_UnixMilli = (\<lambda>w. (1719302400000, w)), se_NewClient = (\<lambda>_ w. w), se_Connect = (\<lambda>w. (True, w)),
      se_Publish = (\<lambda>_ _ retained _ w. (retained \<or> takes, w)), se_Disconnect = (\<lambda>w. w)\<rparr>"

definition sim_start :: "unit sim_run" where
  "sim_start = \<lparr>sr_world = (), sr_vars = initial_vars, sr_log = []\<rparr>"

lemma gas_tick: "fst (publishReadings (sim_world True) (newGas 5) 1 sim_start)"
proof -
  have "json_any (fst (sd_Read (newGas 5) (sim_world True) p 1 (initial_vars, ()))) \<noteq> None" if "p \<in> {''co2'', ''smoke_alarm''}" for p
    using that by (auto simp: newGas_def Read_Gas_def sim_world_def sim_int_def json_any.simps)
  then show ?thesis
    by (auto simp: publishReadings_def newGas_def sim_start_def Read_Gas_def sim_world_def sim_now_def sim_publish_def
        Marshal_readingPayload_def sim_int_def json_any.simps)
qed

theorem sim_readings_reach_gateway_witness:
  "\<exists>c b. taken_by_gateway (sim_world True) (newGas 5) 1 \<lparr>sp_Name = ''co2'', sp_DataType = ''uint16''\<rparr> c
     \<and> taken_by_gateway (sim_world True) (newGas 5) 1 \<lparr>sp_Name = ''smoke_alarm'', sp_DataType = ''bool''\<rparr> b"
proof -
  let ?env = "sim_world True"
  obtain ok s' where run: "publishReadings ?env (newGas 5) 1 sim_start = (ok, s')" by (metis surj_pair)
  with gas_tick have ok: "ok" by simp
  have now: "fst (se_UnixMilli ?env w) = 1719302400000" for w by (simp add: sim_world_def)
  have k: "(''gas'', newGas, 5) \<in> set allDevices" by (simp add: allDevices_def)
  have "\<forall>w. 10 ^ 12 < fst (se_UnixMilli ?env w) \<and> fst (se_UnixMilli ?env w) < 2 ^ 53" by (simp add: now)
  from sim_readings_reach_gateway [OF k run this] ok obtain msgs where
    m: "map fst msgs = sd_Points (newGas 5 :: unit sim_device)"
    and h: "\<forall>(p, data, sent :: bool) \<in> set msgs. taken_by_gateway ?env (newGas 5) 1 p data"
    by blast
  from m obtain c x b y where msgs: "msgs = [(\<lparr>sp_Name = ''co2'', sp_DataType = ''uint16''\<rparr>, c, x), (\<lparr>sp_Name = ''smoke_alarm'', sp_DataType = ''bool''\<rparr>, b, y)]"
    by (auto simp: newGas_def)
  show ?thesis using h unfolding msgs by auto
qed

section \<open>The status of a device\<close>

fun retained :: "sim_action list \<Rightarrow> string list" where
  "retained [] = []"
| "retained (PublishMsg topic qos True data ok # as) = data # retained as"
| "retained (a # as) = retained as"

lemma retained_append [simp]: "retained (xs @ ys) = retained xs @ retained ys"
  by (induction xs rule: retained.induct) auto

lemma retained_readings [simp]: "retained (map (reading_msg d) msgs) = []"
  by (induction msgs) auto

lemma publishStatus_log:
  "\<exists>now ok. sr_log (publishStatus env sn status s)
     = sr_log s @ [PublishMsg (topicStatus sn) 1 True (Marshal_statusPayload status now) ok]"
  by (auto simp: publishStatus_def sim_now_def sim_publish_def split: prod.split)

lemma publishReadings_retained:
  "publishReadings env d tk s = (ok, s') \<Longrightarrow> retained (sr_log s') = retained (sr_log s)"
  using publish_points_log [of env d tk "sd_Points d" s ok s'] by (auto simp: publishReadings_def)

definition shown :: "string \<Rightarrow> 'w sim_run \<Rightarrow> bool" where
  "shown status s \<longleftrightarrow> retained (sr_log s) \<noteq> [] \<and> (\<exists>now. last (retained (sr_log s)) = Marshal_statusPayload status now)"

definition session_inv :: "sim_phase \<times> 'w sim_run \<Rightarrow> bool" where
  "session_inv c =
     (case c of
        (Looping tk, s) \<Rightarrow> 0 \<le> tk \<and> shown ''online'' s
      | (Retrying delay, s) \<Rightarrow> l_Second \<le> delay \<and> delay \<le> 30 * l_Second
      | _ \<Rightarrow> True)"

lemma sim_connect_inv: "l_Second \<le> delay \<Longrightarrow> delay \<le> 30 * l_Second \<Longrightarrow> session_inv (sim_connect env d delay s)"
proof -
  assume r: "l_Second \<le> delay" "delay \<le> 30 * l_Second"
  have "shown ''online'' (publishStatus env (sd_SN d) ''online'' s)" for s
    using publishStatus_log [of env "sd_SN d" "''online''" s] by (auto simp: shown_def)
  with r show ?thesis by (auto simp: sim_connect_def session_inv_def Let_def split: prod.split)
qed

lemma start_session_inv: "session_inv (start_session env url d s)"
  using sim_connect_inv [of l_Second] by (auto simp: start_session_def l_Second_def Let_def split: prod.split)

lemma device_step_inv: "session_inv c \<Longrightarrow> session_inv (device_step env url d c ev)"
proof (induction env url d c ev rule: device_step.induct)
  case (2 env url d delay s)
  then show ?case using sim_connect_inv [of "min (delay * 2) (30 * l_Second)" env d s] by (simp add: session_inv_def l_Second_def)
next
  case (5 env url d tk s)
  obtain ok s' where r: "publishReadings env d (tk + 1) s = (ok, s')" by (metis surj_pair)
  with 5 publishReadings_retained [OF r] show ?case by (auto simp: session_inv_def shown_def)
next
  case (7 env url d s)
  then show ?case using start_session_inv by simp
qed (simp_all add: session_inv_def)

lemma runDevice_inv: "session_inv (runDevice env url d w evs)"
proof -
  have "session_inv (foldl (device_step env url d) c evs)" if "session_inv c" for c
    using that by (induction evs arbitrary: c) (simp_all add: device_step_inv)
  from this [OF start_session_inv] show ?thesis unfolding runDevice_def .
qed

text \<open>
  C40. The status that the broker retains. While a device is in its loop the last retained message is its status online, and
  when it leaves the loop by the context or by the loss of the connection it publishes offline and disconnects. But when it
  leaves the loop because a reading could not be published it disconnects without a status, and a device that is then
  stopped stays online at the broker: the will is not sent after a regular disconnect. Between attempts to
  connect it waits at least one second and at most thirty.
\<close>

theorem sim_status_follows_session:
  assumes "runDevice env url d w evs = (ph, s)"
  shows "case ph of
      Retrying delay \<Rightarrow> l_Second \<le> delay \<and> delay \<le> 30 * l_Second
    | Looping tk \<Rightarrow> 0 \<le> tk \<and> shown ''online'' s
        \<and> (\<forall>ev next. (ev, next) \<in> {(Cancelled, Stopped), (ConnectionLost, Pausing)} \<longrightarrow>
            (\<exists>s' now ok. runDevice env url d w (evs @ [ev]) = (next, s')
              \<and> sr_log s' = sr_log s @ [PublishMsg (topicStatus (sd_SN d)) 1 True (Marshal_statusPayload ''offline'' now) ok, Disconnect]))
        \<and> (\<forall>s'. publishReadings env d (tk + 1) s = (False, s') \<longrightarrow>
            (\<exists>s''. runDevice env url d w (evs @ [Elapsed, Cancelled]) = (Stopped, s'')
              \<and> sr_log s'' = sr_log s' @ [Disconnect] \<and> shown ''online'' s''))
    | _ \<Rightarrow> True"
proof (cases ph)
  case (Retrying delay)
  then show ?thesis using runDevice_inv [of env url d w evs] assms by (simp add: session_inv_def)
next
  case (Looping tk)
  have inv: "0 \<le> tk" "shown ''online'' s" using runDevice_inv [of env url d w evs] assms Looping by (simp_all add: session_inv_def)
  have run: "runDevice env url d w (evs @ evs') = foldl (device_step env url d) (Looping tk, s) evs'" for evs'
    using assms Looping by (simp add: runDevice_def)
  have "\<exists>s' now ok. runDevice env url d w (evs @ [ev]) = (next, s')
        \<and> sr_log s' = sr_log s @ [PublishMsg (topicStatus (sd_SN d)) 1 True (Marshal_statusPayload ''offline'' now) ok, Disconnect]"
    if "(ev, next) \<in> {(Cancelled, Stopped), (ConnectionLost, Pausing)}" for ev "next"
    using that publishStatus_log [of env "sd_SN d" "''offline''" s] by (auto simp: run sim_disconnect_def)
  moreover have "\<exists>s''. runDevice env url d w (evs @ [Elapsed, Cancelled]) = (Stopped, s'')
        \<and> sr_log s'' = sr_log s' @ [Disconnect] \<and> shown ''online'' s''"
    if "publishReadings env d (tk + 1) s = (False, s')" for s'
    using that inv publishReadings_retained [OF that] by (simp add: run sim_disconnect_def shown_def)
  ultimately show ?thesis using inv Looping by simp
qed simp_all

lemma refused_reading:
  assumes "\<And>topic data w. \<not> fst (se_Publish env topic 0 False data w)" and "sd_Points d \<noteq> []"
  shows "\<not> fst (publishReadings env d tk s)"
proof -
  obtain p ps where ps: "sd_Points d = p # ps" using assms(2) by (cases "sd_Points d") simp_all
  have "\<not> fst (sim_publish env topic 0 False data s)" for topic data s
    using assms(1) [of topic data "sr_world s"]
    by (cases "se_Publish env topic 0 False data (sr_world s)") (simp add: sim_publish_def)
  then show ?thesis by (auto simp: publishReadings_def ps Let_def split: prod.split option.split) (metis fst_conv)+
qed

theorem sim_status_follows_session_witness:
  "\<exists>s. runDevice (sim_world False) ''tcp://h:1884'' (newGas 5) () [Elapsed, Cancelled] = (Stopped, s) \<and> shown ''online'' s"
proof -
  let ?env = "sim_world False"
  obtain s where run: "runDevice ?env ''tcp://h:1884'' (newGas 5) () [] = (Looping 0, s)"
    by (simp add: runDevice_def start_session_def sim_connect_def sim_now_def sim_world_def)
  have "\<not> fst (publishReadings ?env (newGas 5) (0 + 1) s)"
    by (rule refused_reading) (simp_all add: sim_world_def newGas_def)
  then obtain s' where "publishReadings ?env (newGas 5) (0 + 1) s = (False, s')" by (metis prod.collapse)
  with sim_status_follows_session [OF run] show ?thesis by auto
qed

end
