(* ===== verification/ModbusSamples.thy ===== *)
theory ModbusSamples
  imports MqttSim ModbusProps
begin

text \<open>
  The rest of \<^verbatim>\<open>cmd/modbus-sim/main.go\<close>: the four devices, the table of \<^verbatim>\<open>main\<close> and the loop that accepts connections;
  and what the gateway polls from these devices, through the client \<open>sim_ops\<close> of ModbusDevice.
\<close>

section \<open>The devices\<close>

definition float32ToWords :: "float64 \<Rightarrow> u16 \<times> u16" where
  "float32ToWords f = (let bits = Float32bits f in (ucast (drop_bit 16 bits), ucast bits))"

text \<open>\<^verbatim>\<open>s.hr[k] = v\<close>\<close>

definition set_hr :: "u16 \<Rightarrow> u16 \<Rightarrow> deviceStore \<Rightarrow> deviceStore" where
  "set_hr k v s = s\<lparr>ds_hr := (ds_hr s)(k \<mapsto> v)\<rparr>"

text \<open>The loops \<^verbatim>\<open>for i := range uint16(10)\<close> over the input registers and the coils.\<close>

fun set_ir :: "nat \<Rightarrow> u16 \<Rightarrow> deviceStore \<Rightarrow> deviceStore" where
  "set_ir 0 i s = s"
| "set_ir (Suc n) i s = set_ir n (i + 1) (s\<lparr>ds_ir := (ds_ir s)(i \<mapsto> 100 + i * 10)\<rparr>)"

fun set_coils :: "nat \<Rightarrow> u16 \<Rightarrow> deviceStore \<Rightarrow> deviceStore" where
  "set_coils 0 i s = s"
| "set_coils (Suc n) i s = set_coils n (i + 1) (s\<lparr>ds_coils := (ds_coils s)(i \<mapsto> i mod 2 = 0)\<rparr>)"

definition createTempSensor :: deviceStore where
  "createTempSensor =
     set_ir 10 0 (set_hr 1 650 (set_hr 0 250 (newDeviceStore (runes [0x6e29, 0x6e7f, 0x5ea6, 0x4f20, 0x611f, 0x5668]) 1)))"

definition createPowerMeter :: deviceStore where
  "createPowerMeter =
     (let s = set_hr 100 2200 (newDeviceStore (runes [0x667a, 0x80fd, 0x7535, 0x8868]) 1);
          (hi, lo) = float32ToWords (float32_of (lit 100 1));
          s = set_hr 103 lo (set_hr 102 hi s);
          (hi, lo) = float32ToWords (float32_of (lit 22 1))
      in set_hr 105 lo (set_hr 104 hi s))"

definition createPLCController :: deviceStore where
  "createPLCController =
     (let s = set_coils 10 0 (newDeviceStore (''PLC'' @ runes [0x63a7, 0x5236, 0x5668]) 1)
      in s\<lparr>ds_di := (ds_di s)(0 \<mapsto> True, 1 \<mapsto> True, 3 \<mapsto> True, 6 \<mapsto> True, 7 \<mapsto> True)\<rparr>)"

definition createMultiRegister :: deviceStore where
  "createMultiRegister =
     set_hr 399 999 (set_hr 300 5000 (set_hr 299 0 (set_hr 200 1000 (set_hr 199 0
       (newDeviceStore (runes [0x591a, 0x5bc4, 0x5b58, 0x5668, 0x8bbe, 0x5907]) 2)))))"

text \<open>The devices of \<^verbatim>\<open>main\<close>, with the addresses they serve on.\<close>

definition sim_devices :: "(deviceStore \<times> string) list" where
  "sim_devices = map (\<lambda>(store, port). (store, ''127.0.0.1:'' @ FormatInt port))
     [(createTempSensor, 5020), (createPowerMeter, 5021), (createPLCController, 5022), (createMultiRegister, 5023)]"

text \<open>
  \<^verbatim>\<open>serve\<close>: the answers of \<^verbatim>\<open>Accept\<close>, an error with whether the context has ended. The connections that are
  given to \<^verbatim>\<open>handleConn\<close>, each in its goroutine, and what is returned, if it returns.
\<close>

datatype accepted = Conn conn | AcceptError bool string

fun accept_loop :: "accepted list \<Rightarrow> conn list \<times> string option option" where
  "accept_loop [] = ([], None)"
| "accept_loop (Conn c # as) = apfst (Cons c) (accept_loop as)"
| "accept_loop (AcceptError cancelled err # as) = ([], Some (if cancelled then None else Some err))"

definition sim_serve :: "string option \<Rightarrow> accepted list \<Rightarrow> conn list \<times> string option option" where
  "sim_serve listen as = (case listen of Some err \<Rightarrow> ([], Some (Some err)) | None \<Rightarrow> accept_loop as)"

section \<open>What the gateway polls\<close>

definition register :: "int \<Rightarrow> u16 \<Rightarrow> u16 \<Rightarrow> string \<Rightarrow> float64 \<Rightarrow> float64 \<Rightarrow> ModbusPointConfig" where
  "register fc addr qty dt scale offset =
     \<lparr>pt_Name = ''p'', pt_FunctionCode = fc, pt_Address = addr, pt_Quantity = qty, pt_DataType = dt, pt_ByteOrder = [],
      pt_Scale = scale, pt_Offset = offset, pt_Unit = [], pt_Access = AccessReadOnly, pt_CacheEnabled = False\<rparr>"

definition polled :: "deviceStore \<Rightarrow> ModbusPointConfig \<Rightarrow> any option" where
  "polled s p =
     (case read_point sim_ops s p of
        Some (Inr bs, s') \<Rightarrow> (case parsePointValue p bs of Ret v \<Rightarrow> Some v | _ \<Rightarrow> None)
      | _ \<Rightarrow> None)"

lemma sim_read_input:
  assumes "ds_ir s a = Some v"
  shows "sim_read fcReadInputRegisters s a 1 = (Inr (be16 v), s)"
proof -
  have "readRegs (ds_ir s) (fcReadInputRegisters # be16 a @ be16 1) = fcReadInputRegisters # 2 # be16 v"
    using assms by (simp add: readRegs_def Let_def)
  then show ?thesis by (simp add: sim_read_def processPDU_def Let_def fc_defs)
qed

lemma sim_read_discrete:
  "sim_read fcReadDiscreteInputs s a 1 = (case ds_di s a of Some b \<Rightarrow> Inr [if b then 1 else 0] | None \<Rightarrow> Inl ''exception'', s)"
proof -
  have "readBits (ds_di s) (fcReadDiscreteInputs # be16 a @ be16 1)
      = (case ds_di s a of Some b \<Rightarrow> fcReadDiscreteInputs # 1 # [if b then 1 else 0] | None \<Rightarrow> exceptResp fcReadDiscreteInputs 2)"
    by (simp add: readBits_def Let_def split: option.split)
  then show ?thesis by (simp add: sim_read_def processPDU_def Let_def fc_defs exceptResp_def split: option.split)
qed

lemma polled_word:
  "ds_hr s a = Some v \<Longrightarrow> polled s (register 3 a 1 DataTypeInt16 sc off) = Some (scaled (register 3 a 1 DataTypeInt16 sc off) (float64_of_int (sint v)))"
  "ds_hr s a = Some v \<Longrightarrow> polled s (register 3 a 1 DataTypeUint16 sc off) = Some (scaled (register 3 a 1 DataTypeUint16 sc off) (float64_of_int (uint v)))"
  "ds_ir s a = Some v \<Longrightarrow> polled s (register 4 a 1 DataTypeInt16 sc off) = Some (scaled (register 4 a 1 DataTypeInt16 sc off) (float64_of_int (sint v)))"
  using sim_read_holding [of 1 s a "be16 v"]
  by (simp_all add: polled_def read_point_def register_def sim_ops_def sim_read_input parse_two_bytes)

lemma no_order [simp]: "ByteOrderConversion bs [] = bs"
  by (simp add: ByteOrderConversion_def ByteOrderBigEndian_def ByteOrderLittleEndian_def ByteOrderMidBigEndian_def
      ByteOrderMidLittleEndian_def)

lemma polled_words:
  assumes "ds_hr s a = Some hi" and "ds_hr s (a + 1) = Some lo"
  shows "polled s (register 3 a 2 DataTypeInt32 sc off)
      = Some (scaled (register 3 a 2 DataTypeInt32 sc off) (float64_of_int (sint (be_val (be16 hi @ be16 lo) :: u32))))"
    and "polled s (register 3 a 2 DataTypeUint32 sc off)
      = Some (scaled (register 3 a 2 DataTypeUint32 sc off) (float64_of_int (uint (be_val (be16 hi @ be16 lo) :: u32))))"
    and "polled s (register 3 a 2 DataTypeFloat32 sc off)
      = Some (scaled (register 3 a 2 DataTypeFloat32 sc off) (Float32frombits (be_val (be16 hi @ be16 lo))))"
proof -
  have w: "read_words (ds_hr s) a (unat (2 :: u16)) = Some (be16 hi @ be16 lo)" using assms by (simp add: read_words_2)
  have r: "sim_read fcReadHoldingRegisters s a 2 = (Inr (be16 hi @ be16 lo), s)"
    by (rule sim_read_holding [OF _ _ w]) (simp_all add: word_le_nat_alt)
  have l: "length (be16 hi @ be16 lo) = 4" by (simp add: be16_eq)
  show "polled s (register 3 a 2 DataTypeInt32 sc off)
      = Some (scaled (register 3 a 2 DataTypeInt32 sc off) (float64_of_int (sint (be_val (be16 hi @ be16 lo) :: u32))))"
    "polled s (register 3 a 2 DataTypeUint32 sc off)
      = Some (scaled (register 3 a 2 DataTypeUint32 sc off) (float64_of_int (uint (be_val (be16 hi @ be16 lo) :: u32))))"
    "polled s (register 3 a 2 DataTypeFloat32 sc off)
      = Some (scaled (register 3 a 2 DataTypeFloat32 sc off) (Float32frombits (be_val (be16 hi @ be16 lo))))"
    using parse_four_bytes [OF l] by (simp_all add: polled_def read_point_def register_def sim_ops_def r)
qed

lemma polled_bit:
  "ds_coils s a = Some b \<Longrightarrow> polled s (register 1 a 1 DataTypeBool sc off) = Some (AnyBool b)"
  "polled s (register 2 a 1 DataTypeBool sc off) = map_option AnyBool (ds_di s a)"
  by (auto simp: polled_def read_point_def register_def sim_ops_def sim_read_coil sim_read_discrete parsePointValue_def index_def
      split: option.split)

lemma words_of_float: "float32ToWords f = (hi, lo) \<Longrightarrow> be_val (be16 hi @ be16 lo) = Float32bits f"
proof -
  assume "float32ToWords f = (hi, lo)"
  then have "hi = ucast (drop_bit 16 (Float32bits f))" "lo = ucast (Float32bits f)" by (simp_all add: float32ToWords_def Let_def)
  moreover have "be16 (ucast (drop_bit 16 w) :: u16) @ be16 (ucast w :: u16) = be32 w" for w :: u32
    by (auto simp: be16_eq be32_eq bit_simps intro!: bit_word_eqI)
  ultimately show ?thesis by simp
qed

section \<open>The contents of the devices\<close>

lemma temp_hr: "ds_hr createTempSensor 0 = Some 250" "ds_hr createTempSensor 1 = Some 650"
proof -
  have [simp]: "ds_hr (set_ir n i s) = ds_hr s" for n i s by (induction n arbitrary: i s) simp_all
  show "ds_hr createTempSensor 0 = Some 250" "ds_hr createTempSensor 1 = Some 650"
    by (simp_all add: createTempSensor_def set_hr_def)
qed

lemma loops_numeral:
  "set_ir (numeral k) i s = set_ir (pred_numeral k) (i + 1) (s\<lparr>ds_ir := (ds_ir s)(i \<mapsto> 100 + i * 10)\<rparr>)"
  "set_coils (numeral k) i s = set_coils (pred_numeral k) (i + 1) (s\<lparr>ds_coils := (ds_coils s)(i \<mapsto> i mod 2 = 0)\<rparr>)"
  by (simp_all add: numeral_eq_Suc)

lemma temp_ir: "map (ds_ir createTempSensor) [0, 1, 2, 3, 4, 5, 6, 7, 8, 9] = map Some [100, 110, 120, 130, 140, 150, 160, 170, 180, 190]"
  by (simp add: createTempSensor_def loops_numeral)

lemma plc_coils: "map (ds_coils createPLCController) [0, 1, 2, 3, 4, 5, 6, 7, 8, 9]
    = map Some [True, False, True, False, True, False, True, False, True, False]"
  by (simp add: createPLCController_def loops_numeral Let_def)

lemma plc_di: "map (ds_di createPLCController) [0, 1, 2, 3, 4, 5, 6, 7]
    = [Some True, Some True, None, Some True, None, None, Some True, Some True]"
proof -
  have [simp]: "ds_di (set_coils n i s) = ds_di s" for n i s by (induction n arbitrary: i s) simp_all
  show ?thesis by (simp add: createPLCController_def newDeviceStore_def Let_def)
qed

lemma meter_hr:
  "ds_hr createPowerMeter 100 = Some 2200"
  "\<exists>hi lo. float32ToWords (float32_of (lit 100 1)) = (hi, lo) \<and> ds_hr createPowerMeter 102 = Some hi \<and> ds_hr createPowerMeter 103 = Some lo"
  "\<exists>hi lo. float32ToWords (float32_of (lit 22 1)) = (hi, lo) \<and> ds_hr createPowerMeter 104 = Some hi \<and> ds_hr createPowerMeter 105 = Some lo"
  by (simp_all add: createPowerMeter_def set_hr_def Let_def split: prod.split)

lemma multi_hr:
  "map (ds_hr createMultiRegister) [199, 200, 299, 300, 399] = map Some [0, 1000, 0, 5000, 999]"
  by (simp add: createMultiRegister_def set_hr_def)

section \<open>Polling them\<close>

text \<open>What the comments of the file say a device holds, as a point of the gateway: the value that is polled. \<open>None\<close> is an error.\<close>

definition number_at :: "int \<Rightarrow> u16 \<Rightarrow> u16 \<Rightarrow> string \<Rightarrow> float64 \<Rightarrow> float64 \<Rightarrow> float64 \<Rightarrow> ModbusPointConfig \<times> any option" where
  "number_at fc addr qty dt sc off v = (register fc addr qty dt sc off, Some (AnyFloat (f_add (f_mul v sc) off)))"

definition bit_at :: "int \<Rightarrow> u16 \<Rightarrow> bool option \<Rightarrow> float64 \<Rightarrow> float64 \<Rightarrow> ModbusPointConfig \<times> any option" where
  "bit_at fc addr b sc off = (register fc addr 1 DataTypeBool sc off, map_option AnyBool b)"

definition sample_values :: "float64 \<Rightarrow> float64 \<Rightarrow> (deviceStore \<times> (ModbusPointConfig \<times> any option) list) list" where
  "sample_values sc off =
     [(createTempSensor,
         number_at 3 0 1 DataTypeInt16 sc off (float64_of_int 250) # number_at 3 1 1 DataTypeInt16 sc off (float64_of_int 650)
         # map (\<lambda>(a, v). number_at 4 a 1 DataTypeInt16 sc off (float64_of_int v))
             (zip [0, 1, 2, 3, 4, 5, 6, 7, 8, 9] [100, 110, 120, 130, 140, 150, 160, 170, 180, 190])),
      (createPowerMeter,
         [number_at 3 100 1 DataTypeUint16 sc off (float64_of_int 2200),
          number_at 3 102 2 DataTypeFloat32 sc off (Float32frombits (Float32bits (float32_of (lit 100 1)))),
          number_at 3 104 2 DataTypeFloat32 sc off (Float32frombits (Float32bits (float32_of (lit 22 1))))]),
      (createPLCController,
         map (\<lambda>(a, b). bit_at 1 a (Some b) sc off)
           (zip [0, 1, 2, 3, 4, 5, 6, 7, 8, 9] [True, False, True, False, True, False, True, False, True, False])
         @ map (\<lambda>(a, b). bit_at 2 a b sc off)
           (zip [0, 1, 2, 3, 4, 5, 6, 7] [Some True, Some True, None, Some True, None, None, Some True, Some True])),
      (createMultiRegister,
         [number_at 3 199 2 DataTypeInt32 sc off (float64_of_int 1000), number_at 3 299 2 DataTypeUint32 sc off (float64_of_int 5000),
          number_at 3 399 1 DataTypeUint16 sc off (float64_of_int 999)])]"

text \<open>
  The gateway polls from the four sample devices what their comments say, to the scale and the offset of the point. The
  discrete inputs of the controller that are off are an exception: they are not in the map, and reading one of them is
  answered with an illegal address.
\<close>

theorem sample_devices_polled:
  "list_all (\<lambda>(s, points). map (\<lambda>pv. polled s (fst pv)) points = map snd points) (sample_values sc off)"
proof -
  have [simp]: "pt_Scale (register fc a q dt sc off) = sc" "pt_Offset (register fc a q dt sc off) = off" for fc a q dt
    by (simp_all add: register_def)
  let ?ok = "\<lambda>s points. map (\<lambda>pv. polled s (fst pv)) points = map snd points"
  have "?ok createTempSensor (snd (sample_values sc off ! 0))"
    using temp_ir by (simp add: sample_values_def number_at_def polled_word temp_hr scaled_def)
  moreover have "?ok createPowerMeter (snd (sample_values sc off ! 1))"
  proof -
    obtain hi lo hi' lo' where f: "float32ToWords (float32_of (lit 100 1)) = (hi, lo)" "float32ToWords (float32_of (lit 22 1)) = (hi', lo')"
      and h: "ds_hr createPowerMeter 102 = Some hi" "ds_hr createPowerMeter 103 = Some lo"
        "ds_hr createPowerMeter 104 = Some hi'" "ds_hr createPowerMeter 105 = Some lo'"
      using meter_hr(2,3) by blast
    show ?thesis
      by (simp add: sample_values_def number_at_def polled_word meter_hr(1) polled_words h words_of_float [OF f(1)]
          words_of_float [OF f(2)] scaled_def)
  qed
  moreover have "?ok createPLCController (snd (sample_values sc off ! 2))"
    using plc_coils plc_di by (simp add: sample_values_def bit_at_def polled_bit)
  moreover have "?ok createMultiRegister (snd (sample_values sc off ! 3))"
  proof -
    have "(be_val (be16 0 @ be16 1000) :: u32) = 1000" "(be_val (be16 0 @ be16 5000) :: u32) = 5000"
      by (simp_all add: be_val_def be16_eq)
    then show ?thesis using multi_hr by (simp add: sample_values_def number_at_def polled_word polled_words scaled_def)
  qed
  ultimately show ?thesis unfolding sample_values_def by simp
qed

end
