(* ===== verification/Tables.thy ===== *)
theory Tables
  imports JsonText ClientConfig Programs
begin

text \<open>
  What the gateway prints for its users: the columns of \<^verbatim>\<open>internal/client/log.go\<close>, which are as wide as they look on a
  terminal, and the lists of devices at the end of \<^verbatim>\<open>internal/client/config.go\<close>. \<open>script\<close> is whether one of the tables
  Han, Hangul, Katakana and Hiragana of the package \<^verbatim>\<open>unicode\<close> has a code point.
\<close>

section \<open>The runes of a text\<close>

definition rune_of :: "string \<Rightarrow> nat" where \<comment> \<open>of a valid sequence\<close>
  "rune_of bs =
     (case map byte bs of
        [a] \<Rightarrow> a
      | [a, b] \<Rightarrow> (a - 192) * 64 + (b - 128)
      | [a, b, c] \<Rightarrow> (a - 224) * 4096 + (b - 128) * 64 + (c - 128)
      | [a, b, c, d] \<Rightarrow> (a - 240) * 262144 + (b - 128) * 4096 + (c - 128) * 64 + (d - 128)
      | _ \<Rightarrow> 0)"

text \<open>\<^verbatim>\<open>for _, r := range s\<close>: a byte that is not part of a valid sequence is U+FFFD.\<close>

fun go_range :: "nat \<Rightarrow> string \<Rightarrow> nat list" where
  "go_range 0 s = []"
| "go_range (Suc fuel) s =
     (case s of
        [] \<Rightarrow> []
      | c # r \<Rightarrow>
          (let n = utf8_head s
           in if n = 0 then 65533 # go_range fuel r else rune_of (take n s) # go_range fuel (drop n s)))"

definition runes_of :: "string \<Rightarrow> nat list" where
  "runes_of s = go_range (length s) s"

section \<open>The columns of the log\<close>

definition isFullwidth :: "(nat \<Rightarrow> bool) \<Rightarrow> nat \<Rightarrow> bool" where
  "isFullwidth script r \<longleftrightarrow>
     script r \<or> r = 0x2103 \<or> r = 0x2109 \<or> (0xFF01 \<le> r \<and> r \<le> 0xFF60) \<or> (0xFFE0 \<le> r \<and> r \<le> 0xFFE6)"

definition displayWidth :: "(nat \<Rightarrow> bool) \<Rightarrow> string \<Rightarrow> int" where
  "displayWidth script s = foldl (\<lambda>w r. if isFullwidth script r then w + 2 else w + 1) 0 (runes_of s)"

definition padRight :: "(nat \<Rightarrow> bool) \<Rightarrow> string \<Rightarrow> int \<Rightarrow> string" where
  "padRight script s width =
     (let dw = displayWidth script s in if dw \<ge> width then s else s @ replicate (nat (width - dw)) CHR '' '')"

text \<open>The loop over the runes, with what is written and its width.\<close>

fun trunc_loop :: "(nat \<Rightarrow> bool) \<Rightarrow> int \<Rightarrow> nat list \<Rightarrow> string \<Rightarrow> int \<Rightarrow> string" where
  "trunc_loop script target [] out ow = out"
| "trunc_loop script target (r # rs) out ow =
     (let rw = (if isFullwidth script r then 2 else 1)
      in if ow + rw > target then out else trunc_loop script target rs (out @ string_of_rune r) (ow + rw))"

definition truncRight :: "(nat \<Rightarrow> bool) \<Rightarrow> string \<Rightarrow> int \<Rightarrow> string" where
  "truncRight script s width =
     (if displayWidth script s \<le> width then padRight script s width
      else trunc_loop script (width - 1) (runes_of s) [] 0 @ string_of_rune 0x2026)"

text \<open>The attributes of a line. \<open>show\<close> is \<^verbatim>\<open>%v\<close>, \<open>clock\<close> the time of day of a number of milliseconds.\<close>

definition logReading :: "(nat \<Rightarrow> bool) \<Rightarrow> (any \<Rightarrow> string) \<Rightarrow> (int \<Rightarrow> string) \<Rightarrow> string \<Rightarrow> string \<Rightarrow> string \<Rightarrow> string \<Rightarrow> any \<Rightarrow> string \<Rightarrow> int
    \<Rightarrow> (string \<times> string) list" where
  "logReading script show clock source device point dataType v unit ts =
     [(''source'', padRight script source 6), (''device'', padRight script device 20), (''point'', padRight script point 20),
      (''type'', padRight script dataType 8), (''value'', truncRight script (show v) 12), (''unit'', padRight script unit 6),
      (''time'', clock ts)]"

section \<open>Durations\<close>

text \<open>\<^verbatim>\<open>Duration.String\<close> of a duration in whole milliseconds.\<close>

definition Duration_String :: "int \<Rightarrow> string" where
  "Duration_String d =
     (let u = nat \<bar>d\<bar>; sign = (if d < 0 then ''-'' else []) in
      if u = 0 then ''0s''
      else if u < 1000000000 then sign @ Itoa (u div 1000000) @ ''ms''
      else
        let ms = u div 1000000 mod 1000;
            frac = strip_zeros ([digit_char (ms div 100), digit_char (ms div 10 mod 10), digit_char (ms mod 10)]);
            secs = u div 1000000000
        in sign @ (if secs div 3600 > 0 then Itoa (secs div 3600) @ ''h'' else [])
           @ (if secs div 60 > 0 then Itoa (secs div 60 mod 60) @ ''m'' else [])
           @ Itoa (secs mod 60) @ (if frac = [] then [] else ''.'' @ frac) @ ''s'')"

definition durShort :: "int \<Rightarrow> string" where
  "durShort d =
     (if d = 0 then ''0''
      else if d mod 60000000000 = 0 then FormatInt (d div 60000000000) @ ''m''
      else if d mod 1000000000 = 0 then FormatInt (d div 1000000000) @ ''s''
      else Duration_String (sgn d * (\<bar>d\<bar> div 1000000 * 1000000)))"

section \<open>The lists of devices\<close>

definition pad :: "nat \<Rightarrow> string \<Rightarrow> string" where \<comment> \<open>\<^verbatim>\<open>%-Ns\<close>: the width is counted in runes\<close>
  "pad n s = s @ replicate (n - length (runes_of s)) CHR '' ''"

definition quoted :: "string \<Rightarrow> string" where "quoted s = [CHR 0x22] @ s @ [CHR 0x22]"

definition newline :: string where "newline = [CHR 0x0A]"

definition item_prefix :: "bool \<Rightarrow> string" where
  "item_prefix final = ''    '' @ runes [if final then 0x2514 else 0x251C, 0x2500] @ '' ''"

definition point_line :: "bool \<Rightarrow> ModbusPointConfig \<Rightarrow> string" where
  "point_line final p =
     (let bo = (if pt_ByteOrder p = [] then ''-'' else pt_ByteOrder p);
          fc = FormatInt (pt_FunctionCode p)
      in item_prefix final @ pad 14 (pt_Name p) @ '' fc='' @ (if 0 \<le> pt_FunctionCode p \<and> length fc < 2 then ''0'' else []) @ fc
         @ '' addr='' @ pad 4 (Itoa (unat (pt_Address p))) @ '' qty='' @ pad 2 (Itoa (unat (pt_Quantity p)))
         @ '' '' @ pad 8 (pt_DataType p) @ '' '' @ pad 5 bo @ '' scale='' @ pad 6 (FormatFloat (pt_Scale p))
         @ '' off='' @ pad 6 (FormatFloat (pt_Offset p)) @ '' unit='' @ pad 4 (pt_Unit p) @ '' '' @ pt_Access p @ newline)"

fun point_lines :: "ModbusPointConfig list \<Rightarrow> string" where
  "point_lines [] = []"
| "point_lines (p # ps) = point_line (ps = []) p @ point_lines ps"

text \<open>A nil \<^verbatim>\<open>TCP\<close> or \<^verbatim>\<open>RTU\<close> of the type is a panic.\<close>

definition device_conn :: "DeviceConfig \<Rightarrow> (unit, string) go" where
  "device_conn d =
     (if dv_Type d = ConnectionTypeTCP then
        (case dv_TCP d of
           None \<Rightarrow> Panic
         | Some tcp \<Rightarrow> Ret (''tcp '' @ tcp_Host tcp @ '':'' @ FormatInt (tcp_Port tcp)))
      else if dv_Type d = ConnectionTypeRTU then
        (case dv_RTU d of
           None \<Rightarrow> Panic
         | Some rtu \<Rightarrow> Ret (''rtu '' @ rtu_Port rtu @ '':'' @ FormatInt (rtu_BaudRate rtu) @ ''-'' @ FormatInt (rtu_DataBits rtu)
             @ rtu_Parity rtu @ FormatInt (rtu_StopBits rtu)))
      else Ret [])"

definition formatModbusDevice :: "int \<Rightarrow> DeviceConfig \<Rightarrow> (unit, string) go" where
  "formatModbusDevice idx d =
     go_bind (device_conn d) (\<lambda>conn.
     Ret ('' #'' @ pad 2 (FormatInt idx) @ '' '' @ pad 15 (quoted (dv_Name d)) @ '' | '' @ pad 25 conn
       @ '' | slave='' @ pad 3 (Itoa (unat (dv_SlaveID d))) @ '' | poll='' @ pad 5 (durShort (sint (dv_PollInterval d)))
       @ '' | timeout='' @ pad 5 (durShort (sint (dv_Timeout d))) @ '' | offline='' @ pad 5 (durShort (sint (dv_OfflineThreshold d)))
       @ '' | monitor='' @ FormatBool (dv_EnableMonitor d) @ newline @ point_lines (dv_Points d)))"

fun format_devices :: "int \<Rightarrow> DeviceConfig list \<Rightarrow> (unit, string) go" where
  "format_devices i [] = Ret []"
| "format_devices i (d # ds) =
     go_bind (formatModbusDevice (i + 1) d) (\<lambda>s. go_bind (format_devices (i + 1) ds) (\<lambda>t. Ret (s @ t)))"

definition formatDeviceList :: "DeviceConfig list \<Rightarrow> (unit, string) go" where
  "formatDeviceList devices =
     go_bind (format_devices 0 devices) (\<lambda>s.
     Ret (''[Modbus Devices] ('' @ Itoa (length devices) @ '' devices)'' @ newline @ s))"

definition topic_line :: "bool \<Rightarrow> TopicConfig \<Rightarrow> string" where
  "topic_line final t =
     item_prefix final @ pad 20 (tp_Topic t) @ '' qos='' @ pad 2 (Itoa (unat (tp_QoS t))) @ '' point='' @ pad 16 (tp_PointName t)
     @ '' type='' @ pad 8 (tp_DataType t) @ '' src='' @ pad 20 (tp_Source t) @ '' unit='' @ pad 6 (tp_Unit t)
     @ '' retain='' @ FormatBool (tp_Retain t) @ newline"

fun topic_lines :: "TopicConfig list \<Rightarrow> string" where
  "topic_lines [] = []"
| "topic_lines (t # ts) = topic_line (ts = []) t @ topic_lines ts"

definition formatMqttDevice :: "int \<Rightarrow> MQTTDeviceConfig \<Rightarrow> string" where
  "formatMqttDevice idx d =
     '' #'' @ pad 2 (FormatInt idx) @ '' '' @ pad 15 (quoted (md_Name d)) @ '' | client='' @ pad 10 (md_ClientID d)
     @ '' | user='' @ pad 10 (md_Username d) @ '' | keepalive='' @ pad 5 (durShort (sint (md_KeepAlive d)))
     @ '' | clean='' @ pad 5 (FormatBool (md_CleanSession d)) @ '' | offline='' @ pad 5 (durShort (sint (md_OfflineThreshold d)))
     @ '' | monitor='' @ FormatBool (md_EnableMonitor d) @ newline @ topic_lines (md_Topics d)"

fun format_mqtt_devices :: "int \<Rightarrow> MQTTDeviceConfig list \<Rightarrow> string" where
  "format_mqtt_devices i [] = []"
| "format_mqtt_devices i (d # ds) = formatMqttDevice (i + 1) d @ format_mqtt_devices (i + 1) ds"

definition formatMqttDeviceList :: "string \<Rightarrow> MQTTDeviceConfig list \<Rightarrow> string" where
  "formatMqttDeviceList brokerAddr devices =
     ''[MQTT Devices] ('' @ Itoa (length devices) @ '' devices, broker='' @ brokerAddr @ '')'' @ newline
     @ format_mqtt_devices 0 devices"

end
