(* ===== verification/TablesProps.thy ===== *)
theory TablesProps
  imports Tables
begin

text \<open>The columns of the log are as wide as they are meant to be, and the lists of devices never crash.\<close>

section \<open>Runes\<close>

lemma char_of_byte: "char_of (byte c) = c" by (simp add: byte_def)

lemma is_contE:
  assumes "is_cont b"
  obtains y where "byte b = 128 + y" "y < 64"
proof -
  have "128 \<le> byte b" "byte b < 192" using assms by (simp_all add: is_cont_def)
  then have "byte b = 128 + (byte b - 128)" "byte b - 128 < 64" by linarith+
  then show ?thesis by (rule that)
qed

lemma base_64: "y < 64 \<Longrightarrow> (x * 64 + y) div 64 = x \<and> (x * 64 + y) mod 64 = y" for x y :: nat
  by simp

text \<open>Decoding and encoding a valid sequence.\<close>

lemma encode_rune_of:
  assumes "0 < utf8_head s"
  shows "string_of_rune (rune_of (take (utf8_head s) s)) = take (utf8_head s) s"
proof -
  from assms obtain a r where s: "s = a # r" by (cases s) (auto simp: utf8_head_def)
  consider "byte a < 128" | "194 \<le> byte a" "byte a < 224" | "224 \<le> byte a" "byte a < 240" | "240 \<le> byte a" "byte a < 245"
    using assms unfolding s by (fastforce simp: utf8_head_def split: if_splits)
  then show ?thesis
  proof cases
    case 1
    then have "utf8_head s = 1" by (simp add: s utf8_head_def)
    with 1 show ?thesis by (simp add: s rune_of_def string_of_rune_byte)
  next
    case 2
    with assms obtain b t where r: "r = b # t" "is_cont b" by (cases r) (auto simp: s utf8_head_def split: if_splits)
    with 2 have h: "utf8_head s = 2" by (simp add: s utf8_head_def)
    obtain y where y: "byte b = 128 + y" "y < 64" using r(2) by (rule is_contE)
    define n where "n = (byte a - 192) * 64 + (byte b - 128)"
    have n: "n = (byte a - 192) * 64 + y" by (simp add: n_def y)
    have "128 \<le> n" "n < 2048" using 2 y(2) by (simp_all add: n)
    then have "string_of_rune n = [char_of (byte a), char_of (byte b)]"
      using 2 base_64 [OF y(2), of "byte a - 192"] by (simp add: string_of_rune_def y(1) flip: n)
    moreover have "take (utf8_head s) s = [a, b]" by (simp only: h) (simp add: s r)
    ultimately show ?thesis by (simp add: rune_of_def char_of_byte flip: n_def)
  next
    case 3
    with assms obtain b c t where r: "r = b # c # t" and c: "is_cont b" "is_cont c" "byte a = 224 \<longrightarrow> 160 \<le> byte b" "byte a = 237 \<longrightarrow> byte b < 160"
      by (cases r rule: remdups_adj.cases) (auto simp: s utf8_head_def split: if_splits)
    with 3 have h: "utf8_head s = 3" by (simp add: s utf8_head_def)
    obtain y where y: "byte b = 128 + y" "y < 64" using c(1) by (rule is_contE)
    obtain z where z: "byte c = 128 + z" "z < 64" using c(2) by (rule is_contE)
    define x where "x = byte a - 224"
    have x: "byte a = 224 + x" "x < 16" using 3 by (simp_all add: x_def)
    define n where "n = (byte a - 224) * 4096 + (byte b - 128) * 64 + (byte c - 128)"
    have n: "n = (x * 64 + y) * 64 + z" by (simp add: n_def x y z)
    have d: "n div 64 = x * 64 + y" "n mod 64 = z" using base_64 [OF z(2), of "x * 64 + y"] unfolding n by blast+
    then have "n div 64 mod 64 = y" "n div 64 div 64 = x" using base_64 [OF y(2), of x] by simp_all
    then have e: "n div 64 mod 64 = y" "n div 4096 = x" by (simp_all add: div_mult2_eq [of n 64 64, simplified])
    have "2048 \<le> n" using c(3) x y by (cases "x = 0") (simp_all add: n)
    moreover have "n < 65536" using x y z by (simp add: n)
    moreover have "\<not> (55296 \<le> n \<and> n \<le> 57343)"
    proof -
      consider "x \<le> 12" | "x = 13" | "14 \<le> x" by linarith
      then show ?thesis using c(4) x y z by cases (simp_all add: n)
    qed
    ultimately have "string_of_rune n = [char_of (byte a), char_of (byte b), char_of (byte c)]"
      using d e x y z by (simp add: string_of_rune_def) blast
    moreover have "take (utf8_head s) s = [a, b, c]" by (simp only: h) (simp add: s r)
    ultimately show ?thesis by (simp add: rune_of_def char_of_byte flip: n_def)
  next
    case 4
    with assms obtain b c d t where r: "r = b # c # d # t" and c: "is_cont b" "is_cont c" "is_cont d" "byte a = 240 \<longrightarrow> 144 \<le> byte b" "byte a = 244 \<longrightarrow> byte b < 144"
      by (auto simp: s utf8_head_def split: if_splits list.splits)
    with 4 have h: "utf8_head s = 4" by (simp add: s utf8_head_def)
    obtain y where y: "byte b = 128 + y" "y < 64" using c(1) by (rule is_contE)
    obtain z where z: "byte c = 128 + z" "z < 64" using c(2) by (rule is_contE)
    obtain u where u: "byte d = 128 + u" "u < 64" using c(3) by (rule is_contE)
    define x where "x = byte a - 240"
    have x: "byte a = 240 + x" "x < 5" using 4 by (simp_all add: x_def)
    define n where "n = (byte a - 240) * 262144 + (byte b - 128) * 4096 + (byte c - 128) * 64 + (byte d - 128)"
    have n: "n = ((x * 64 + y) * 64 + z) * 64 + u" by (simp add: n_def x y z u)
    have d: "n div 64 = (x * 64 + y) * 64 + z" "n mod 64 = u" using base_64 [OF u(2), of "(x * 64 + y) * 64 + z"] unfolding n by blast+
    then have e: "n div 64 div 64 = x * 64 + y" "n div 64 mod 64 = z" using base_64 [OF z(2), of "x * 64 + y"] by simp_all
    then have f: "n div 64 div 64 mod 64 = y" "n div 64 div 64 div 64 = x" using base_64 [OF y(2), of x] by simp_all
    have g: "n div 4096 mod 64 = y" "n div 262144 = x"
      using f by (simp_all add: div_mult2_eq [of n 64 64, simplified] div_mult2_eq [of n 64 4096, simplified] div_mult2_eq [of _ 64 64, simplified])
    have "65536 \<le> n" using c(4) x y by (cases "x = 0") (simp_all add: n)
    moreover have "n \<le> 1114111" using c(5) x y z u by (cases "x = 4") (simp_all add: n)
    ultimately have "string_of_rune n = [char_of (byte a), char_of (byte b), char_of (byte c), char_of (byte d)]"
      using d(2) e(2) g x y z u by (simp add: string_of_rune_def)
    moreover have "take (utf8_head s) s = [a, b, c, d]" by (simp only: h) (simp add: s r)
    ultimately show ?thesis by (simp add: rune_of_def char_of_byte flip: n_def)
  qed
qed

text \<open>The runes one after another.\<close>

definition head_rune :: "string \<Rightarrow> nat" where
  "head_rune s = (if utf8_head s = 0 then 65533 else rune_of (take (utf8_head s) s))"

lemma rune_len_bounds: "0 < rune_len s" "s \<noteq> [] \<Longrightarrow> rune_len s \<le> length s"
  using utf8_head_le(1) [of s] by (auto simp: rune_len_def Suc_le_eq)

lemma go_range_step: "s \<noteq> [] \<Longrightarrow> go_range (Suc fuel) s = head_rune s # go_range fuel (drop (rune_len s) s)"
  by (cases s) (simp_all add: head_rune_def rune_len_def Let_def)

lemma go_range_fuel: "length s \<le> n \<Longrightarrow> go_range n s = runes_of s"
proof (induction n arbitrary: s rule: less_induct)
  case (less n)
  show ?case
  proof (cases "s = []")
    case True
    then show ?thesis by (cases n) (simp_all add: runes_of_def)
  next
    case False
    then obtain k m where k: "n = Suc k" and m: "length s = Suc m" using less.prems by (cases n; cases s) auto
    let ?t = "drop (rune_len s) s"
    have t: "length ?t \<le> m" using rune_len_bounds(1) [of s] m by simp
    have "go_range n s = head_rune s # runes_of ?t"
      using less.IH [of k ?t] t less.prems k m go_range_step [OF False] by simp
    moreover have "runes_of s = head_rune s # runes_of ?t"
    proof (cases "m < n")
      case True
      with less.IH [of m ?t] t m go_range_step [OF False, of m] show ?thesis by (simp add: runes_of_def)
    qed (use less.prems m in simp)
    ultimately show ?thesis by simp
  qed
qed

lemma runes_of_step: "s \<noteq> [] \<Longrightarrow> runes_of s = head_rune s # runes_of (drop (rune_len s) s)"
proof -
  assume s: "s \<noteq> []"
  then obtain m where m: "length s = Suc m" by (cases s) auto
  have "runes_of s = head_rune s # go_range m (drop (rune_len s) s)" using go_range_step [OF s] m by (simp add: runes_of_def)
  also have "go_range m (drop (rune_len s) s) = runes_of (drop (rune_len s) s)"
    using rune_len_bounds(1) [of s] m by (intro go_range_fuel) simp
  finally show ?thesis .
qed

lemma runes_of_Nil [simp]: "runes_of [] = []" by (simp add: runes_of_def)

lemma runes_of_ascii: "byte c < 128 \<Longrightarrow> runes_of (c # t) = byte c # runes_of t"
proof -
  assume "byte c < 128"
  then have "utf8_head (c # t) = 1" by (rule utf8_head_one [THEN iffD2])
  then show ?thesis using runes_of_step [of "c # t"] by (simp add: head_rune_def rune_len_def rune_of_def)
qed

lemma runes_of_spaces: "runes_of (replicate k CHR '' '') = replicate k 32"
  by (induction k) (simp_all add: runes_of_ascii byte_def)

definition wf_rune :: "nat \<Rightarrow> bool" where
  "wf_rune r \<longleftrightarrow> (\<forall>t. runes_of (string_of_rune r @ t) = r # runes_of t)"

lemma wf_rune_replacement: "wf_rune 65533" "wf_rune 0x2026"
proof -
  have "utf8_head (string_of_rune 65533 @ t) = 3" "utf8_head (string_of_rune 0x2026 @ t) = 3" for t
    by (simp_all add: string_of_rune_def utf8_head_def is_cont_def byte_def)
  moreover have "rune_of (string_of_rune 65533) = 65533" "rune_of (string_of_rune 0x2026) = 0x2026"
    "length (string_of_rune 65533) = 3" "length (string_of_rune 0x2026) = 3"
    "string_of_rune 65533 \<noteq> []" "string_of_rune 0x2026 \<noteq> []"
    by (simp_all add: string_of_rune_def rune_of_def byte_def)
  ultimately have "runes_of (string_of_rune 65533 @ t) = 65533 # runes_of t" "runes_of (string_of_rune 0x2026 @ t) = 0x2026 # runes_of t" for t
    using runes_of_step [of "string_of_rune 65533 @ t"] runes_of_step [of "string_of_rune 0x2026 @ t"]
    by (auto simp: head_rune_def rune_len_def)
  then show "wf_rune 65533" "wf_rune 0x2026" by (simp_all add: wf_rune_def)
qed

lemma wf_rune_head: "s \<noteq> [] \<Longrightarrow> wf_rune (head_rune s)"
proof (cases "utf8_head s = 0")
  case False
  let ?u = "take (utf8_head s) s"
  have e: "string_of_rune (head_rune s) = ?u" using encode_rune_of [of s] False by (simp add: head_rune_def)
  have "runes_of (?u @ t) = head_rune s # runes_of t" for t
  proof -
    have h: "utf8_head (?u @ t) = utf8_head s" using False by (intro utf8_head_take) simp
    have l: "length ?u = utf8_head s" using utf8_head_le(1) [of s] by simp
    have "?u @ t \<noteq> []" using h False by (cases "?u @ t") (auto simp: utf8_head_def)
    from runes_of_step [OF this] h l False show ?thesis by (simp add: head_rune_def rune_len_def)
  qed
  then show ?thesis by (simp add: wf_rune_def e)
qed (simp add: head_rune_def wf_rune_replacement)

lemma runes_of_wf: "r \<in> set (runes_of s) \<Longrightarrow> wf_rune r"
proof (induction s rule: length_induct)
  case (1 s)
  show ?case
  proof (cases "s = []")
    case False
    from 1(2) consider "r = head_rune s" | "r \<in> set (runes_of (drop (rune_len s) s))"
      unfolding runes_of_step [OF False] by auto
    then show ?thesis
    proof cases
      case 2
      have "length (drop (rune_len s) s) < length s" using rune_len_bounds(1) [of s] False by simp
      with 1(1) 2 show ?thesis by blast
    qed (simp add: wf_rune_head [OF False])
  qed (use 1 in simp)
qed

lemma runes_of_concat: "\<forall>r \<in> set rs. wf_rune r \<Longrightarrow> runes_of (concat (map string_of_rune rs) @ t) = rs @ runes_of t"
  by (induction rs) (simp_all add: wf_rune_def)

lemma utf8_head_append: "s \<noteq> [] \<Longrightarrow> byte c < 128 \<Longrightarrow> utf8_head (s @ c # t) = utf8_head s"
  by (cases s) (auto simp: utf8_head_def is_cont_def Cons_eq_append_conv split: list.split)

lemma runes_of_append: "byte c < 128 \<Longrightarrow> runes_of (s @ c # t) = runes_of s @ runes_of (c # t)"
proof (induction s rule: length_induct)
  case (1 s)
  show ?case
  proof (cases "s = []")
    case False
    have h: "utf8_head (s @ c # t) = utf8_head s" by (rule utf8_head_append [OF False 1(2)])
    have l: "rune_len s \<le> length s" "utf8_head s \<le> length s" using rune_len_bounds False utf8_head_le by simp_all
    have "runes_of (s @ c # t) = head_rune s # runes_of (drop (rune_len s) s @ c # t)"
      using runes_of_step [of "s @ c # t"] h l by (simp add: head_rune_def rune_len_def)
    moreover have "runes_of (drop (rune_len s) s @ c # t) = runes_of (drop (rune_len s) s) @ runes_of (c # t)"
      using 1 False rune_len_bounds(1) [of s] by simp
    ultimately show ?thesis using runes_of_step [OF False] by simp
  qed simp
qed

section \<open>Columns\<close>

definition cells :: "(nat \<Rightarrow> bool) \<Rightarrow> nat \<Rightarrow> int" where
  "cells script r = (if isFullwidth script r then 2 else 1)"

lemma displayWidth_sum: "displayWidth script s = sum_list (map (cells script) (runes_of s))"
proof -
  have "foldl (\<lambda>w r. if isFullwidth script r then w + 2 else w + 1) w rs = w + sum_list (map (cells script) rs)" for w rs
    by (induction rs arbitrary: w) (simp_all add: cells_def)
  from this [of 0] show ?thesis by (simp add: displayWidth_def)
qed

lemma sum_cells_nonneg: "0 \<le> sum_list (map (cells script) rs)"
  by (induction rs) (simp_all add: cells_def)

lemma padRight_width:
  assumes "\<not> script 32"
  shows "displayWidth script (padRight script s w) = max (displayWidth script s) w"
proof (cases "w \<le> displayWidth script s")
  case False
  then obtain k where k: "nat (w - displayWidth script s) = Suc k" by (cases "nat (w - displayWidth script s)") simp_all
  have c: "cells script 32 = 1" using assms by (simp add: cells_def isFullwidth_def)
  have "runes_of (s @ replicate (Suc k) CHR '' '') = runes_of s @ replicate (Suc k) 32"
    using runes_of_append [of "CHR '' ''" s "replicate k CHR '' ''"] runes_of_spaces [of "Suc k"] by (simp add: byte_def)
  then have "displayWidth script (s @ replicate (Suc k) CHR '' '') = displayWidth script s + int (Suc k)"
    by (simp add: displayWidth_sum c sum_list_replicate)
  with False k show ?thesis by (simp add: padRight_def Let_def del: replicate_Suc)
qed (simp add: padRight_def)

lemma trunc_loop_prefix:
  "ow \<le> target \<Longrightarrow> \<exists>xs ys. rs = xs @ ys \<and> trunc_loop script target rs out ow = out @ concat (map string_of_rune xs)
    \<and> ow + sum_list (map (cells script) xs) \<le> target
    \<and> (ys = [] \<or> target < ow + sum_list (map (cells script) xs) + cells script (hd ys))"
proof (induction rs arbitrary: out ow)
  case (Cons r rs)
  have c: "(if isFullwidth script r then 2 else 1) = cells script r" by (simp add: cells_def)
  show ?case
  proof (cases "ow + cells script r > target")
    case True
    then show ?thesis using Cons.prems by (intro exI [of _ "[]"] exI [of _ "r # rs"]) (simp add: Let_def c)
  next
    case False
    with Cons.IH [of "ow + cells script r" "out @ string_of_rune r"] obtain xs ys where
      "rs = xs @ ys" "trunc_loop script target rs (out @ string_of_rune r) (ow + cells script r) = (out @ string_of_rune r) @ concat (map string_of_rune xs)"
      "ow + cells script r + sum_list (map (cells script) xs) \<le> target"
      "ys = [] \<or> target < ow + cells script r + sum_list (map (cells script) xs) + cells script (hd ys)" by auto
    with False show ?thesis by (intro exI [of _ "r # xs"] exI [of _ ys]) (simp add: Let_def c algebra_simps)
  qed
qed simp

text \<open>
  A value takes its column of the log, or one cell less. What \<^verbatim>\<open>truncRight\<close> gives for a width of at least one is never wider
  than the column; it is one cell narrower, although the comment says exactly the width, only when a character of two cells
  did not fit in front of the ellipsis. A value that fits is kept whole, and of a longer one a prefix of its characters.
\<close>

theorem truncRight_width:
  assumes "\<not> script 32" and "\<not> script 0x2026" and "1 \<le> w"
  shows "(displayWidth script s \<le> w \<longrightarrow>
       displayWidth script (truncRight script s w) = w \<and> (\<exists>k. truncRight script s w = s @ replicate k CHR '' ''))
    \<and> (w < displayWidth script s \<longrightarrow>
       (\<exists>xs r ys. runes_of s = xs @ r # ys \<and> runes_of (truncRight script s w) = xs @ [0x2026]
         \<and> displayWidth script (truncRight script s w) = (if sum_list (map (cells script) xs) = w - 1 then w else w - 1)
         \<and> (displayWidth script (truncRight script s w) = w - 1 \<longrightarrow> isFullwidth script r)))"
proof (intro conjI impI)
  assume d: "displayWidth script s \<le> w"
  then show "displayWidth script (truncRight script s w) = w" using padRight_width [of script s w] assms(1) by (simp add: truncRight_def)
  show "\<exists>k. truncRight script s w = s @ replicate k CHR '' ''"
    using d by (auto simp: truncRight_def padRight_def Let_def intro: exI [of _ 0])
next
  assume d: "w < displayWidth script s"
  have "0 \<le> w - 1" using assms(3) by simp
  from trunc_loop_prefix [OF this, of "runes_of s" script "[]", unfolded append_Nil add_0]
  obtain xs ys where xs: "runes_of s = xs @ ys" "trunc_loop script (w - 1) (runes_of s) [] 0 = concat (map string_of_rune xs)"
      "sum_list (map (cells script) xs) \<le> w - 1" "ys = [] \<or> w - 1 < sum_list (map (cells script) xs) + cells script (hd ys)"
    by blast
  have "ys \<noteq> []" using xs(1,3) d by (auto simp: displayWidth_sum)
  then obtain r ys' where ys: "ys = r # ys'" by (cases ys) simp_all
  have wf: "\<forall>r \<in> set xs. wf_rune r" using runes_of_wf [of _ s] xs(1) by auto
  have "runes_of (string_of_rune 0x2026) = [0x2026]" using wf_rune_replacement(2) unfolding wf_rune_def by (metis append_Nil2 runes_of_Nil)
  then have t: "runes_of (truncRight script s w) = xs @ [0x2026]"
    using d runes_of_concat [OF wf, of "string_of_rune 0x2026"] by (simp add: truncRight_def xs(2))
  have e: "cells script 0x2026 = 1" using assms(2) by (simp add: cells_def isFullwidth_def)
  have "cells script r \<le> 2" by (simp add: cells_def)
  with xs(3,4) ys have c: "sum_list (map (cells script) xs) = w - 1 \<or> sum_list (map (cells script) xs) = w - 2 \<and> isFullwidth script r"
    by (auto simp: cells_def split: if_splits)
  have w: "displayWidth script (truncRight script s w) = sum_list (map (cells script) xs) + 1"
    unfolding displayWidth_sum t by (simp add: e)
  show "\<exists>xs r ys. runes_of s = xs @ r # ys \<and> runes_of (truncRight script s w) = xs @ [0x2026]
         \<and> displayWidth script (truncRight script s w) = (if sum_list (map (cells script) xs) = w - 1 then w else w - 1)
         \<and> (displayWidth script (truncRight script s w) = w - 1 \<longrightarrow> isFullwidth script r)"
    using xs(1) ys t w c by (intro exI [of _ xs] exI [of _ r] exI [of _ ys']) auto
qed

text \<open>Three characters of two cells in four cells: one and the ellipsis, three cells.\<close>

theorem truncRight_width_witness:
  "displayWidth (\<lambda>r. r = 0x6e29) (truncRight (\<lambda>r. r = 0x6e29) (runes [0x6e29, 0x6e29, 0x6e29]) 4) = 3"
proof -
  let ?sc = "\<lambda>r. r = 0x6e29" let ?s = "runes [0x6e29, 0x6e29, 0x6e29]"
  have "utf8_head (string_of_rune 0x6e29 @ t) = 3" for t by (simp add: string_of_rune_def utf8_head_def is_cont_def byte_def)
  moreover have "rune_of (string_of_rune 0x6e29) = 0x6e29" "length (string_of_rune 0x6e29) = 3" "string_of_rune 0x6e29 \<noteq> []"
    by (simp_all add: string_of_rune_def rune_of_def byte_def)
  ultimately have "runes_of (string_of_rune 0x6e29 @ t) = 0x6e29 # runes_of t" for t
    using runes_of_step [of "string_of_rune 0x6e29 @ t"] by (auto simp: head_rune_def rune_len_def)
  note h = this
  have r: "runes_of ?s = [0x6e29, 0x6e29, 0x6e29]" using h [of "[]"] by (simp add: runes_def h)
  have d: "displayWidth ?sc ?s = 6" by (simp add: displayWidth_sum r cells_def isFullwidth_def)
  obtain xs r' ys where x: "runes_of ?s = xs @ r' # ys" "displayWidth ?sc (truncRight ?sc ?s 4) = (if sum_list (map (cells ?sc) xs) = 3 then 4 else 3)"
    using truncRight_width [of ?sc 4 ?s] d by auto
  have "xs \<in> {[], [0x6e29], [0x6e29, 0x6e29]}" using x(1) r by (auto simp: Cons_eq_append_conv)
  then have "sum_list (map (cells ?sc) xs) \<noteq> 3" by (auto simp: cells_def isFullwidth_def)
  with x(2) show ?thesis by simp
qed

section \<open>Durations and lists\<close>

text \<open>A minute and a half is printed in seconds; what is below a millisecond is printed as nothing.\<close>

lemma durShort_examples:
  "durShort 90000000000 = ''90s''" "durShort 3600000000000 = ''60m''" "durShort 999999 = ''0s''"
  by (simp_all add: durShort_def Duration_String_def FormatInt_def Let_def Itoa.simps digit_char_def char_of_def bit_Suc_0_iff)

text \<open>Accepted devices are printed: no address is missing.\<close>

lemma device_conn_returns: "Device_Validate d0 = Inr d \<Longrightarrow> \<exists>s. device_conn d = Ret s"
  by (auto simp: device_conn_def Device_Validate_def ConnectionTypeTCP_def ConnectionTypeRTU_def split: if_splits sum.splits)

lemma formatDeviceList_returns: "\<forall>d \<in> set ds. \<exists>d0. Device_Validate d0 = Inr d \<Longrightarrow> \<exists>s. formatDeviceList ds = Ret s"
proof -
  assume a: "\<forall>d \<in> set ds. \<exists>d0. Device_Validate d0 = Inr d"
  have "\<exists>s. format_devices i ds = Ret s" for i
    using a
  proof (induction ds arbitrary: i)
    case (Cons d ds)
    then obtain c t where "device_conn d = Ret c" "format_devices (i + 1) ds = Ret t" using device_conn_returns by force
    then show ?case by (simp add: formatModbusDevice_def)
  qed simp
  then obtain s where "format_devices 0 ds = Ret s" by blast
  then show ?thesis by (simp add: formatDeviceList_def)
qed

end
