(* ===== verification/UploadExample.thy ===== *)
theory UploadExample
  imports Server ClientConfig
begin

text \<open>
  \<^verbatim>\<open>internal/client/upload_loop_example.go\<close>: an example that dials the server and uploads sample texts. \<open>dial\<close> is what
  \<^verbatim>\<open>net.Dial\<close> answers to each attempt, \<open>write\<close> whether a write succeeds, \<open>clock\<close> the time of a message.
\<close>

section \<open>Dialling\<close>

datatype dialled = Dialled | OpError string | OtherError string

datatype example_error = AfterRetries int string | UnknownError string | SendFailed

text \<open>
  The loop from the attempt \<open>i\<close> on, with so many attempts left: the number of attempts that failed. When there is no
  attempt at all the connection is nil and \<^verbatim>\<open>defer conn.Close()\<close> panics.
\<close>

fun example_dial :: "(int \<Rightarrow> dialled) \<Rightarrow> int \<Rightarrow> int \<Rightarrow> nat \<Rightarrow> (example_error, int) go" where
  "example_dial dial maxRetry i 0 = Panic"
| "example_dial dial maxRetry i (Suc left) =
     (case dial i of
        Dialled \<Rightarrow> Ret i
      | OpError err \<Rightarrow> if i = maxRetry then Fail (AfterRetries i err) else example_dial dial maxRetry (i + 1) left
      | OtherError err \<Rightarrow> Fail (UnknownError err))"

section \<open>Uploading\<close>

definition mockData :: "string list" where
  "mockData = [''hello world'', ''test message 1'', ''test message 2'', ''data upload test'', ''heartbeat check'', ''system status'']"

definition mock_reading :: "nat \<Rightarrow> Reading" where
  "mock_reading messageCount =
     \<lparr>r_ID = 0, r_Device = ''mock'', r_DeviceName = [], r_Point = [], r_PointName = [], r_DataType = [],
      r_Value = mockData ! (messageCount mod length mockData), r_Quality = 0, r_Unit = [], r_Timestamp = 1\<rparr>"

text \<open>So many turns of the loop: the error it returned with, if it did, and the frames that were written.\<close>

fun example_send :: "nat \<Rightarrow> (nat \<Rightarrow> int) \<Rightarrow> (nat \<Rightarrow> bool) \<Rightarrow> MsgFactory \<Rightarrow> nat \<Rightarrow> bytes list \<Rightarrow> example_error option \<times> bytes list" where
  "example_send 0 clock write factory messageCount sent = (None, sent)"
| "example_send (Suc turns) clock write factory messageCount sent =
     (case NewMsg factory (clock messageCount) MsgTypeUpload (PUpload \<lparr>up_Readings = [mock_reading messageCount]\<rparr>) of
        Ret (message, factory) \<Rightarrow>
          let encodedData = fst (Msg_Encode message)
          in if \<not> write messageCount then (Some SendFailed, sent)
             else example_send turns clock write factory (Suc messageCount) (sent @ [encodedData])
      | _ \<Rightarrow> example_send turns clock write factory messageCount sent)"

definition UploadLoopExample :: "nat \<Rightarrow> (int \<Rightarrow> dialled) \<Rightarrow> (nat \<Rightarrow> int) \<Rightarrow> (nat \<Rightarrow> bool) \<Rightarrow> ClientConfig
    \<Rightarrow> (example_error, bytes list) go" where
  "UploadLoopExample turns dial clock write cfg =
     go_bind (example_dial dial (cc_MaxRetry cfg) 0 (nat (cc_MaxRetry cfg + 1))) (\<lambda>_.
     case example_send turns clock write NewMsgFactory 0 [] of
       (Some err, _) \<Rightarrow> Fail err
     | (None, sent) \<Rightarrow> Ret sent)"

section \<open>What it does\<close>

lemma example_dial_Ret: "example_dial dial m i left = Ret k \<Longrightarrow> i \<le> k \<and> k < i + int left \<and> dial k = Dialled"
proof (induction left arbitrary: i)
  case (Suc left)
  then show ?case by (fastforce split: dialled.splits if_splits)
qed simp

lemma mock_message:
  "\<exists>m f'. NewMsg f now MsgTypeUpload (PUpload \<lparr>up_Readings = [mock_reading i]\<rparr>) = Ret (m, f') \<and> length (m_Payload m) \<le> 65535"
proof -
  have "i mod length mockData \<in> {0, 1, 2, 3, 4, 5}" by (simp add: mockData_def) linarith
  then have "length (r_Value (mock_reading i)) \<le> 16" by (elim insertE emptyE) (simp_all add: mock_reading_def mockData_def)
  let ?r = "mock_reading i" let ?b = "be32 1 @ reading_wire ?r"
  have "Upload_Encode \<lparr>up_Readings = [?r]\<rparr> = Ret ?b"
    using \<open>length (r_Value ?r) \<le> 16\<close> by (simp add: Upload_Encode_Ret_iff short_strings_fields) (simp add: mock_reading_def)
  moreover have "length ?b \<le> 65535"
    using \<open>length (r_Value ?r) \<le> 16\<close> by (simp add: reading_wire_def encode_reading_def appendTLVString_def Let_def) (simp add: mock_reading_def)
  ultimately show ?thesis by (simp add: NewMsg_def Next_def Let_def)
qed

text \<open>
  While the writes succeed each turn sends one frame, which the decoder of the server reads as an upload of the next text.
\<close>

lemma example_frames:
  assumes "\<forall>i < turns. write (n0 + i)"
  shows "\<exists>frames. example_send turns clock write f n0 sent = (None, sent @ frames) \<and> length frames = turns
    \<and> (\<forall>i < turns. \<forall>c rest. c_in c = frames ! i @ rest \<longrightarrow>
         (\<exists>m. DecodeFrame c = Ret (m, c\<lparr>c_in := rest\<rparr>) \<and> ParseMsg m = Ret (PUpload \<lparr>up_Readings = [mock_reading (n0 + i)]\<rparr>)))"
  using assms
proof (induction turns arbitrary: f n0 sent)
  case (Suc turns)
  obtain m f' where new: "NewMsg f (clock n0) MsgTypeUpload (PUpload \<lparr>up_Readings = [mock_reading n0]\<rparr>) = Ret (m, f')"
    and len: "length (m_Payload m) \<le> 65535" using mock_message by blast
  let ?frame = "fst (Msg_Encode m)"
  have "\<forall>i < turns. write (Suc n0 + i)" using Suc.prems by (metis Suc_less_eq add_Suc_shift)
  from Suc.IH [OF this, of f' "sent @ [?frame]"] obtain frames where
    frames: "example_send turns clock write f' (Suc n0) (sent @ [?frame]) = (None, (sent @ [?frame]) @ frames)" "length frames = turns"
    and ok: "\<And>i c rest. i < turns \<Longrightarrow> c_in c = frames ! i @ rest \<Longrightarrow>
       \<exists>m. DecodeFrame c = Ret (m, c\<lparr>c_in := rest\<rparr>) \<and> ParseMsg m = Ret (PUpload \<lparr>up_Readings = [mock_reading (Suc n0 + i)]\<rparr>)"
    by blast
  have "write n0" using Suc.prems by force
  then have "example_send (Suc turns) clock write f n0 sent = (None, sent @ ?frame # frames)" using new frames(1) by simp
  moreover have "\<exists>m'. DecodeFrame c = Ret (m', c\<lparr>c_in := rest\<rparr>)
      \<and> ParseMsg m' = Ret (PUpload \<lparr>up_Readings = [mock_reading (n0 + i)]\<rparr>)"
    if "i < Suc turns" "c_in c = (?frame # frames) ! i @ rest" for i c rest
  proof (cases i)
    case 0
    with that have "c_in c = ?frame @ rest" by simp
    moreover have "ParseMsg (snd (Msg_Encode m)) = Ret (PUpload \<lparr>up_Readings = [mock_reading n0]\<rparr>)"
      using ParseMsg_encoded [OF NewMsg_RetD(1) [OF new] len] NewMsg_RetD(2) [OF new] by (simp add: Msg_Encode_def Let_def)
    ultimately show ?thesis using NewMsg_DecodeFrame [OF new len] 0 by auto
  next
    case (Suc j)
    then show ?thesis using ok [of j c rest] that by simp
  qed
  ultimately show ?case using frames(2) by (intro exI [of _ "?frame # frames"]) simp
qed simp

end
