(* ===== verification/Databases.thy ===== *)
theory Databases
  imports Programs ServerStore ClientStore
begin

text \<open>
  How the two stores are opened (\<^verbatim>\<open>NewSQLiteStore\<close>, \<^verbatim>\<open>NewPostgresStore\<close>) and the migrations that make their tables. What
  the database library and the file system answer is the record \<open>db_world\<close>; a migration is the list of its statements,
  and \<open>exec_statement\<close> is what SQL says they do to a schema: the tables with their columns, and the indexes.
\<close>

section \<open>Opening a store\<close>

record db_world =
  dw_MkdirAll :: "string \<Rightarrow> string option"
  dw_Open :: "string \<Rightarrow> string option"
  dw_Ping :: "string option"
  dw_Init :: "string option"
  dw_Migrate :: "string option"

datatype db_action = OpenDB string | SetMaxOpenConns int | CloseDB

text \<open>The part that both have: the migrations, with the database closed when one of them fails.\<close>

definition run_migrations :: "db_world \<Rightarrow> db_action list \<Rightarrow> (string + unit) \<times> db_action list" where
  "run_migrations world done' =
     (case dw_Init world of
        Some err \<Rightarrow> (Inl (''init migrator: '' @ err), done' @ [CloseDB])
      | None \<Rightarrow>
         (case dw_Migrate world of
            Some err \<Rightarrow> (Inl (''run migrations: '' @ err), done' @ [CloseDB])
          | None \<Rightarrow> (Inr (), done')))"

definition NewSQLiteStore :: "db_world \<Rightarrow> string \<Rightarrow> (string + unit) \<times> db_action list" where
  "NewSQLiteStore world dbPath =
     (case dw_MkdirAll world (path_Dir dbPath) of
        Some err \<Rightarrow> (Inl err, [])
      | None \<Rightarrow>
          let source = dbPath @ ''?_journal_mode=WAL'' in
          case dw_Open world source of
            Some err \<Rightarrow> (Inl err, [])
          | None \<Rightarrow>
             (case dw_Ping world of
                Some err \<Rightarrow> (Inl err, [OpenDB source, SetMaxOpenConns 1, CloseDB])
              | None \<Rightarrow> run_migrations world [OpenDB source, SetMaxOpenConns 1]))"

definition NewPostgresStore :: "db_world \<Rightarrow> string \<Rightarrow> (string + unit) \<times> db_action list" where
  "NewPostgresStore world dsn =
     (case dw_Ping world of
        Some err \<Rightarrow> (Inl (''postgres ping: '' @ err), [OpenDB dsn])
      | None \<Rightarrow> run_migrations world [OpenDB dsn])"

text \<open>How many databases are left open.\<close>

fun left_open :: "db_action list \<Rightarrow> int" where
  "left_open [] = 0"
| "left_open (OpenDB s # as) = left_open as + 1"
| "left_open (CloseDB # as) = left_open as - 1"
| "left_open (SetMaxOpenConns n # as) = left_open as"

text \<open>
  A store that could not be opened leaves nothing open, except the server's when the first contact fails: the pool of
  connections is not closed then. A store that was opened holds one database.
\<close>

theorem failed_open_leaves_nothing:
  "(case NewSQLiteStore world path of (Inl err, as) \<Rightarrow> left_open as = 0 | (Inr u, as) \<Rightarrow> left_open as = 1)
   \<and> (case NewPostgresStore world dsn of (Inl err, as) \<Rightarrow> left_open as = (if dw_Ping world = None then 0 else 1) | (Inr u, as) \<Rightarrow> left_open as = 1)"
  by (simp add: NewSQLiteStore_def NewPostgresStore_def run_migrations_def Let_def split: option.split)

section \<open>Migrations\<close>

text \<open>A column with its type and constraints as they are written.\<close>

datatype statement =
    CreateTable string "(string \<times> string) list" "string list list" \<comment> \<open>with the groups of columns that are unique\<close>
  | CreateIndex string string "string list"
  | DropTable string

record schema =
  sc_tables :: "(string \<times> (string \<times> string) list \<times> string list list) list"
  sc_indexes :: "(string \<times> string \<times> string list) list"

text \<open>\<^verbatim>\<open>IF NOT EXISTS\<close> and \<^verbatim>\<open>IF EXISTS\<close> are part of every statement. An index goes with its table.\<close>

definition exec_statement :: "statement \<Rightarrow> schema \<Rightarrow> schema" where
  "exec_statement st s =
     (case st of
        CreateTable t cols uniques \<Rightarrow>
          if t \<in> fst ` set (sc_tables s) then s else s\<lparr>sc_tables := sc_tables s @ [(t, cols, uniques)]\<rparr>
      | CreateIndex i t cols \<Rightarrow>
          if i \<in> fst ` set (sc_indexes s) then s else s\<lparr>sc_indexes := sc_indexes s @ [(i, t, cols)]\<rparr>
      | DropTable t \<Rightarrow>
          s\<lparr>sc_tables := filter (\<lambda>x. fst x \<noteq> t) (sc_tables s), sc_indexes := filter (\<lambda>(i, t', cols). t' \<noteq> t) (sc_indexes s)\<rparr>)"

record migration =
  mi_Up :: "statement list"
  mi_Down :: "statement list"

text \<open>The statements of a migration up to the first that fails; \<open>fails\<close> is what the database answers.\<close>

fun exec_all :: "(statement \<Rightarrow> string option) \<Rightarrow> statement list \<Rightarrow> schema \<Rightarrow> string option \<times> schema" where
  "exec_all fails [] s = (None, s)"
| "exec_all fails (st # sts) s =
     (case fails st of Some err \<Rightarrow> (Some err, s) | None \<Rightarrow> exec_all fails sts (exec_statement st s))"

definition server_001_init :: migration where
  "server_001_init =
     \<lparr>mi_Up =
        [CreateTable ''readings''
           [(''id'', ''BIGSERIAL PRIMARY KEY''), (''sn'', ''VARCHAR NOT NULL''), (''upload_time'', ''BIGINT NOT NULL''),
            (''device'', ''VARCHAR(16) NOT NULL''), (''device_name'', ''VARCHAR''), (''point'', ''VARCHAR(16) NOT NULL''),
            (''point_name'', ''VARCHAR''), (''data_type'', ''VARCHAR NOT NULL''), (''value'', ''TEXT NOT NULL''),
            (''quality'', ''INTEGER NOT NULL DEFAULT 0''), (''unit'', ''VARCHAR''), (''timestamp'', ''BIGINT NOT NULL'')] [],
         CreateIndex ''idx_readings_sn_ts'' ''readings'' [''sn'', ''timestamp''],
         CreateIndex ''idx_readings_dev_pt'' ''readings'' [''device'', ''point'']],
      mi_Down = [DropTable ''readings'']\<rparr>"

definition server_002_devices :: migration where
  "server_002_devices =
     \<lparr>mi_Up =
        [CreateTable ''devices''
           [(''id'', ''BIGSERIAL PRIMARY KEY''), (''sn'', ''VARCHAR NOT NULL''), (''device_hash'', ''VARCHAR(16) NOT NULL''),
            (''device_name'', ''VARCHAR''), (''type'', ''VARCHAR''), (''first_seen'', ''BIGINT NOT NULL''),
            (''last_seen'', ''BIGINT NOT NULL''), (''status'', ''VARCHAR NOT NULL DEFAULT '' @ [char_of (39 :: nat)] @ ''unknown'' @ [char_of (39 :: nat)])]
           [[''sn'', ''device_hash'']],
         CreateIndex ''idx_devices_sn'' ''devices'' [''sn'']],
      mi_Down = [DropTable ''devices'']\<rparr>"

definition client_001_init :: migration where
  "client_001_init =
     \<lparr>mi_Up =
        [CreateTable ''cached_readings''
           [(''id'', ''INTEGER PRIMARY KEY AUTOINCREMENT''), (''device'', ''VARCHAR(16) NOT NULL''), (''device_name'', ''VARCHAR''),
            (''point'', ''VARCHAR(16) NOT NULL''), (''point_name'', ''VARCHAR''), (''data_type'', ''VARCHAR NOT NULL''),
            (''value'', ''TEXT NOT NULL''), (''quality'', ''INTEGER NOT NULL DEFAULT 0''), (''unit'', ''VARCHAR''),
            (''timestamp'', ''BIGINT NOT NULL''), (''status'', ''INTEGER DEFAULT 0'')] []],
      mi_Down = [DropTable ''readings'']\<rparr>"

definition empty_schema :: schema where "empty_schema = \<lparr>sc_tables = [], sc_indexes = []\<rparr>"

definition migrate_all :: "migration list \<Rightarrow> schema \<Rightarrow> schema" where
  "migrate_all ms s = foldl (\<lambda>s m. snd (exec_all (\<lambda>_. None) (mi_Up m) s)) s ms"

definition rollback_all :: "migration list \<Rightarrow> schema \<Rightarrow> schema" where
  "rollback_all ms s = foldl (\<lambda>s m. snd (exec_all (\<lambda>_. None) (mi_Down m) s)) s (rev ms)"

lemmas migration_defs = migrate_all_def rollback_all_def exec_statement_def empty_schema_def server_001_init_def server_002_devices_def client_001_init_def

text \<open>
  The migrations of the server can be taken back and run again; those of the gateway cannot: their rollback drops a table
  of another name, so the local table stays. Running the migrations on their own result changes nothing.
\<close>

theorem migrations_taken_back:
  "rollback_all [server_001_init, server_002_devices] (migrate_all [server_001_init, server_002_devices] empty_schema) = empty_schema
   \<and> migrate_all [server_001_init, server_002_devices] (migrate_all [server_001_init, server_002_devices] empty_schema)
       = migrate_all [server_001_init, server_002_devices] empty_schema
   \<and> rollback_all [client_001_init] (migrate_all [client_001_init] empty_schema) = migrate_all [client_001_init] empty_schema
   \<and> migrate_all [client_001_init] empty_schema \<noteq> empty_schema"
  by (simp add: migration_defs)

text \<open>A statement that fails keeps what the ones before it did, and is the error of the migration.\<close>

lemma exec_all_failed:
  "exec_all fails sts s = (Some err, s') \<Longrightarrow> \<exists>k < length sts. fails (sts ! k) = Some err \<and> (\<forall>j < k. fails (sts ! j) = None)
     \<and> s' = foldl (\<lambda>s st. exec_statement st s) s (take k sts)"
proof (induction sts arbitrary: s)
  case (Cons st sts)
  show ?case
  proof (cases "fails st")
    case None
    with Cons obtain k where "k < length sts" "fails (sts ! k) = Some err" "\<forall>j < k. fails (sts ! j) = None"
      "s' = foldl (\<lambda>s st. exec_statement st s) (exec_statement st s) (take k sts)" by fastforce
    with None show ?thesis by (intro exI [of _ "Suc k"]) (auto simp: less_Suc_eq_0_disj)
  qed (use Cons.prems in \<open>auto intro: exI [of _ 0]\<close>)
qed simp

end
