(* ===== verification/Spec2Isabelle.thy ===== *)
theory Spec2Isabelle
  imports ServerSystem ClientProps ModbusProps PublishProps MqttProps Tunnel ConfigProps PipelineProps
    LoadgenProps ProgramProps MqttSimProps ModbusSamples TablesProps UploadExample Databases
begin

text \<open>
  LEPG (Go): gateways that read industrial devices over Modbus and MQTT, keep the readings in a local
  table and upload them over a TCP tunnel, and a server that admits gateways, stores what they upload and
  passes it on. This development models both programs and their tools as functions and step relations over
  explicit states and proves what they guarantee, and where they do not keep what they promise.

  \<^bold>\<open>How the parts interact.\<close> On the gateway (\<^verbatim>\<open>internal/client\<close>) pollers of Modbus devices and a local MQTT
  broker produce readings. They go through a channel to a goroutine that hands each one to a publisher and to
  a writer, which puts them into an SQLite table. A session dials the server, shakes hands, and at every tick
  sends the first pending rows in one frame; an acknowledgement marks them as sent. On the server
  (\<^verbatim>\<open>internal/server\<close>) each connection has a goroutine: it authenticates the gateway, registers it, and for each
  upload consults a filter of seen payloads, saves the readings in PostgreSQL, answers, publishes on MQTT and
  pushes to the configured outputs. Commands come in through the gateway's HTTP interface and are written to
  Modbus points or published on MQTT. Both programs take their configuration from flags, environment, a
  file and defaults, in this order.

  \<^bold>\<open>Theories, from the bottom.\<close> The names of definitions are those of the code; where several files use
  one name a prefix tells them apart.

  \<^item> \<^verbatim>\<open>Prelude\<close>: machine integers, byte strings, the outcome \<open>go\<close> of a call (value, error, panic), slices with
    their bounds checks, big-endian accessors, and the cursor \<open>at\<close> that the decoders' proofs share.
  \<^item> \<^verbatim>\<open>GoStd\<close>, \<^verbatim>\<open>GoStrconv\<close>, \<^verbatim>\<open>GoFloat\<close>, \<^verbatim>\<open>GoJson\<close>, \<^verbatim>\<open>Sha256\<close>: the parts of the Go standard library that the
    program computes with: decimal numbers, \<^verbatim>\<open>strings\<close>, IEEE numbers with their rounding and their shortest
    texts, \<^verbatim>\<open>encoding/json\<close>, the hash that names payloads and devices.
  \<^item> \<^verbatim>\<open>Model\<close>, \<^verbatim>\<open>Values\<close> (\<^verbatim>\<open>internal/model\<close>): the reading, byte orders, values as text and back.
  \<^item> \<^verbatim>\<open>Checksum\<close> (\<^verbatim>\<open>internal/utils/checksum.go\<close>), \<^verbatim>\<open>Payload\<close> and \<^verbatim>\<open>Frame\<close> (\<^verbatim>\<open>internal/msg\<close>): the CRC by table and
    its serial reference, the five payloads, frames, the message factory, the registry of decoders. A
    connection is a record of the bytes still to come and how they end, the writes made, and how many writes
    will still succeed.
  \<^item> \<^verbatim>\<open>Dedup\<close>, \<^verbatim>\<open>Grouping\<close>, \<^verbatim>\<open>Connections\<close>, \<^verbatim>\<open>ServerStore\<close>, \<^verbatim>\<open>Output\<close>: the parts the server's handlers call, each
    with its interface. The filter is a linked list and a map with element addresses as in the code; the
    registry has its in-memory and its Redis manager; the store is PostgreSQL behind a record of SQL
    statements; sinks are HTTP and MQTT.
  \<^item> \<^verbatim>\<open>ConfigErrors\<close>, \<^verbatim>\<open>ServerConfig\<close>, \<^verbatim>\<open>ClientConfig\<close>: error values, the configuration records, validation.
  \<^item> \<^verbatim>\<open>Providers\<close>, \<^verbatim>\<open>Populate\<close>, \<^verbatim>\<open>ConfigTypes\<close>, \<^verbatim>\<open>ConfigProps\<close> (\<^verbatim>\<open>internal/config\<close>): the four sources, the chain,
    the filling of a struct by its tags (the tags are data of type \<open>struct_field\<close>), the two configuration
    types with their tags as they stand in the source.
  \<^item> \<^verbatim>\<open>Server\<close>, \<^verbatim>\<open>ServerProps\<close>, \<^verbatim>\<open>ServerSystem\<close> (\<^verbatim>\<open>internal/server/server.go\<close>): \<open>HandleConnection\<close> for one connection,
    and \<open>sys_step\<close>, an \<open>inductive\<close> step relation for any number of connections that share the server's state.
  \<^item> \<^verbatim>\<open>ClientStore\<close>, \<^verbatim>\<open>Client\<close>, \<^verbatim>\<open>ClientTable\<close>, \<^verbatim>\<open>ClientAcks\<close>, \<^verbatim>\<open>ClientProps\<close>: the local table, the session with its read
    loop (two goroutines that share channels; the environment says how far the reader gets while the writer
    waits), dialling, the reconnect loop, the local writer.
  \<^item> \<^verbatim>\<open>Modbus\<close>, \<^verbatim>\<open>ModbusDevice\<close>, \<^verbatim>\<open>ModbusSim\<close>, \<^verbatim>\<open>ModbusProps\<close>: polling and writing a device, the contract of a
    Modbus device, the simulator \<^verbatim>\<open>cmd/modbus-sim\<close>, which is proved to keep the contract.
  \<^item> \<^verbatim>\<open>Mqtt\<close>, \<^verbatim>\<open>MqttProps\<close>: how a message on a topic becomes a reading.
  \<^item> \<^verbatim>\<open>Publish\<close>, \<^verbatim>\<open>Control\<close>, \<^verbatim>\<open>PublishProps\<close>: readings as JSON on both sides, the ThingsBoard formatter, commands.
  \<^item> \<^verbatim>\<open>Pipeline\<close>, \<^verbatim>\<open>PipelineProps\<close>: the goroutines and channels of \<^verbatim>\<open>MainFunc\<close>, one label for each communication,
    over the publisher of \<^verbatim>\<open>Publish\<close> and the writer and table of \<^verbatim>\<open>Client\<close> and \<^verbatim>\<open>ClientStore\<close>.
  \<^item> \<^verbatim>\<open>Tunnel\<close>: the two ends together, gateway and server, over what they write to each other.
  \<^item> \<^verbatim>\<open>Loadgen\<close>, \<^verbatim>\<open>LoadgenProps\<close> (\<^verbatim>\<open>cmd/loadgen\<close>): a client of the load generator, with a frame reader and counters of
    its own. Its two loops are \<open>partial_function\<close>s, shown to end when the clock reaches the deadline.
  \<^item> \<^verbatim>\<open>Logging\<close>, \<^verbatim>\<open>Programs\<close>, \<^verbatim>\<open>ProgramProps\<close> (\<^verbatim>\<open>internal/log\<close>, \<^verbatim>\<open>cmd/client\<close>, \<^verbatim>\<open>cmd/server\<close>): the commands \<^verbatim>\<open>run\<close> and \<^verbatim>\<open>init\<close> of both
    programs as the list of what they do to the world, in order, with what is deferred and how they end.
  \<^item> \<^verbatim>\<open>FloatDigits\<close>, \<^verbatim>\<open>FloatText\<close>, \<^verbatim>\<open>JsonText\<close>: that the text of a number reads back as the number, bit by bit, and that
    \<^verbatim>\<open>Unmarshal\<close> reads what \<^verbatim>\<open>Marshal\<close> writes (\<open>decoded\<close>: numbers as \<^verbatim>\<open>float64\<close>, keys in order, invalid bytes replaced).
  \<^item> \<^verbatim>\<open>Delivery\<close>: a value on its whole way: polled, written as the text of a reading, published by gateway and server
    and formatted for ThingsBoard, and read by whoever gets the message.
  \<^item> \<^verbatim>\<open>MqttSim\<close>, \<^verbatim>\<open>MqttSimProps\<close> (\<^verbatim>\<open>cmd/mqtt-sim\<close>): six simulated devices, whose closures are the functions \<open>sd_Read\<close> on the
    variables they capture, and \<open>device_step\<close>, the state machine of \<^verbatim>\<open>runDevice\<close> between the points where it waits.
  \<^item> \<^verbatim>\<open>ModbusSamples\<close> (\<^verbatim>\<open>cmd/modbus-sim\<close>): the four sample devices and what the gateway polls from them.
  \<^item> \<^verbatim>\<open>Tables\<close>, \<^verbatim>\<open>TablesProps\<close> (\<^verbatim>\<open>internal/client/log.go\<close> and the end of \<^verbatim>\<open>config.go\<close>): columns and lists of devices, with the
    runes of Go strings. \<^verbatim>\<open>UploadExample\<close>: the upload loop of \<^verbatim>\<open>upload_loop_example.go\<close>.
  \<^item> \<^verbatim>\<open>Databases\<close> (\<^verbatim>\<open>internal/client/cache\<close>, \<^verbatim>\<open>internal/server/cache\<close>): opening the two stores, and the migrations as lists of
    statements on a schema.

  \<^bold>\<open>Interfaces.\<close> \<open>wire_codec\<close> (a decoder that inverts an encoder; four payloads), \<open>lru_filter\<close> (what the upload
  handler needs of its filter; the linked list), \<open>connection_registry\<close> (a finite map with an order of listing;
  the memory manager), \<open>upload_cache\<close> (the four operations of the local table; SQLite), \<open>modbus_device\<close> and
  \<open>modbus_answers\<close> (what polling and writing need of a device; the simulator). Where the code relies on a
  library that is not part of it, the laws are hypotheses of the theorems: \<open>lite_laws\<close> and \<open>pg_laws\<close> say what the SQL
  statements do to a list of rows, and the examples give an engine that has them.

  \<^bold>\<open>What the groups of lemmas show.\<close> Encoders and decoders: exact characterisation of what is accepted, round
  trips, absence of panics on every input, refusal of a frame with a changed byte. Server: who is admitted,
  what is stored and under which serial number, what the filter does to a payload that comes again, the
  outcome of each handler, termination, the registry under interleaving, and how a second connection of a gateway
  loses its entry when the first one ends. Gateway: readings are not lost or
  changed in the table, none is marked as sent without an acknowledgement, what blocks the queue, the waits
  between attempts. Data path: order and bounds in every reachable state, what stops it, that it
  drains, with what has then been published and what is in the table.
  Configuration: where each value comes from, and what an accepted configuration guarantees. Programs: that an
  accepted configuration starts, that the server closes nothing, what \<^verbatim>\<open>init\<close> means for \<^verbatim>\<open>run\<close>. Load generator: its
  reader agrees with the frame decoder where it does not panic, and its counters balance. Delivery: payloads
  decode to the readings they were made from, and where a number loses its fraction. Simulators: what they publish
  and serve arrives at the gateway as it was meant, the retained status, the widths of columns.

  \<^bold>\<open>Bounds and fuel.\<close> \<open>shortest\<close> tries up to 17 digits, which suffice for 64-bit numbers, as FloatDigits proves. \<open>json_text\<close> and
  \<open>read_text\<close> have the length of the text as fuel, and the reader of values twice the length and one, as each
  step consumes a byte; 10000 is the nesting limit of \<^verbatim>\<open>encoding/json\<close>. The loops of the programs need no fuel:
  \<open>serve_loop\<close> and \<open>uploadReadings\<close> come with a measure, and loops that wait for events take the list of events.
  The channels of the pipeline have the size \<open>B\<close> of the configuration, which validation makes positive. Counters
  and timestamps are kept at their width where wrapping can matter; lengths are \<open>nat\<close>, as Go's are below \<^verbatim>\<open>2^63\<close>.

  \<^bold>\<open>Not modelled.\<close> Log output and what the tools print (the reports of the load generator, the banners); opening
  brokers and listeners; the libraries for Modbus, MQTT, Redis, SQL and TOML,
  which are parameters; \<^verbatim>\<open>time.Parse\<close>, Unicode case folding and the tables of scripts, \<^verbatim>\<open>math.Sin\<close> and random numbers,
  parameters too; \<^verbatim>\<open>cmd/mqtt-sub\<close> and \<^verbatim>\<open>scripts/mqtt_pub.go\<close>, which only call the MQTT library and print.
  Mutexes are not modelled: an operation under a lock is one step, and in \<open>sys_step\<close> so is the handling of one message.
  A write to a connection is made whole or not at all.
\<close>

end
